(* ===== verification/Prelude.thy ===== *)
theory Prelude
  imports Main "HOL-Library.Word"
begin

text \<open>
  Shared vocabulary of the development: machine integers of the C code, the little-endian
  layout of the scalars that the two codecs copy with \<open>memcpy\<close> or through a pointer cast,
  C narrowing conversions, and the generic list and sum-type lemmas the component theories
  share. The target is the one the compositor is built for: LP64, little-endian, two's
  complement.
\<close>

named_theorems codec_simps \<open>rewrite rules that run the byte codecs symbolically\<close>
named_theorems frame_simps \<open>fields that an operation leaves alone\<close>

section \<open>Machine integers\<close>

type_synonym byte = "8 word"
type_synonym u32 = "32 word"
type_synonym u64 = "64 word"

text \<open>
  A C \<open>int\<close> is an \<open>int\<close> of HOL here; signed overflow is undefined in C, so it is
  never relied on. A conversion to \<open>int\<close> or \<open>uint32_t\<close> from a wider integer keeps the
  low 32 bits.
\<close>

definition to_i32 :: "u64 \<Rightarrow> int" where
  "to_i32 w = sint (ucast w :: u32)"

definition to_u32 :: "u64 \<Rightarrow> u32" where
  "to_u32 w = ucast w"

lemma unat_u32_less: "unat (w :: u32) < 2 ^ 32"
  using unsigned_less [of w, where 'a = nat] by simp

lemma unat_u64_less: "unat (w :: u64) < 2 ^ 64"
  using unsigned_less [of w, where 'a = nat] by simp

lemma unat_byte_less: "unat (w :: byte) < 256"
  using unsigned_less [of w, where 'a = nat] by simp

lemma unat_u32_Suc: "(n :: u32) \<noteq> - 1 \<Longrightarrow> unat (n + 1) = Suc (unat n)"
  using unatSuc [of n] by (metis add.commute add_eq_0_iff)

lemma unat_u32_minus_one: "unat (- 1 :: u32) = 2 ^ 32 - 1"
  by (simp add: unsigned_minus_1_eq_mask mask_eq_exp_minus_1)

lemma to_i32_bounds: "- (2 ^ 31) \<le> to_i32 w \<and> to_i32 w < 2 ^ 31"
  using sint_range_size [of "ucast w :: u32"] by (simp add: to_i32_def word_size)

lemma sint_negative: "sint (v :: u32) < 0 \<Longrightarrow> sint v = uint v - 2 ^ 32"
proof -
  assume neg: "sint v < 0"
  have "sint v = take_bit 32 (uint v) - 2 ^ 32 * of_bool (bit (uint v) 31)"
    by (simp add: sint_uint signed_take_bit_eq_take_bit_minus)
  moreover have "take_bit 32 (uint v) = uint v"
    using uint_lt2p [of v] by (simp add: take_bit_int_eq_self)
  ultimately show ?thesis
    using neg uint_ge_0 [of v] by (cases "bit (uint v) 31") auto
qed

lemma sint_ucast_u64: "sint (ucast (v :: u32) :: u64) = uint v"
proof -
  have "uint (ucast v :: u64) = uint v" by (simp add: uint_up_ucast is_up)
  then have "sint (ucast v :: u64) = signed_take_bit 63 (uint v)"
    by (simp add: sint_uint)
  also have "\<dots> = uint v"
    using uint_lt2p [of v] order_trans [OF _ uint_ge_0 [of v]] by (intro signed_take_bit_int_eq_self) auto
  finally show ?thesis .
qed

lemma sint_wi32: "- (2 ^ 31) \<le> i \<Longrightarrow> i < 2 ^ 31 \<Longrightarrow> sint (word_of_int i :: u32) = i"
  by (simp add: sint_sbintrunc' signed_take_bit_int_eq_self)

lemma sint_wi64: "- (2 ^ 63) \<le> i \<Longrightarrow> i < 2 ^ 63 \<Longrightarrow> sint (word_of_int i :: u64) = i"
  by (simp add: sint_sbintrunc' signed_take_bit_int_eq_self)

lemma to_i32_of_int:
  assumes "- (2 ^ 31) \<le> i" and "i < 2 ^ 31"
  shows "to_i32 (word_of_int i) = i"
proof -
  have "(ucast (word_of_int i :: u64) :: u32) = word_of_int i"
    by (simp add: ucast_down_wi is_down)
  then show ?thesis
    using sint_wi32 [OF assms] by (simp add: to_i32_def)
qed

section \<open>Little-endian scalars\<close>

fun le_enc :: "nat \<Rightarrow> nat \<Rightarrow> byte list" where
  "le_enc 0 x = []"
| "le_enc (Suc k) x = word_of_nat (x mod 256) # le_enc k (x div 256)"

fun le_dec :: "byte list \<Rightarrow> nat" where
  "le_dec [] = 0"
| "le_dec (b # bs) = unat b + 256 * le_dec bs"

lemma length_le_enc [simp]: "length (le_enc k x) = k"
  by (induction k arbitrary: x) auto

lemma unat_byte_of_mod: "unat (word_of_nat (x mod 256) :: byte) = x mod 256"
  by (simp add: unat_of_nat)

lemma le_dec_enc [simp]: "le_dec (le_enc k x) = x mod 256 ^ k"
proof (induction k arbitrary: x)
  case 0
  show ?case by simp
next
  case (Suc k)
  have "x mod (256 * 256 ^ k) = 256 * (x div 256 mod 256 ^ k) + x mod 256"
    by (rule mod_mult2_eq)
  with Suc show ?case by (simp add: unat_byte_of_mod)
qed

lemma le_dec_bound: "le_dec bs < 256 ^ length bs"
proof (induction bs)
  case Nil
  show ?case by simp
next
  case (Cons b bs)
  have "unat b < 256" by (rule unat_byte_less)
  with Cons show ?case by simp
qed

definition le32 :: "u32 \<Rightarrow> byte list" where
  "le32 w = le_enc 4 (unat w)"

definition le64 :: "u64 \<Rightarrow> byte list" where
  "le64 w = le_enc 8 (unat w)"

definition rd32 :: "byte list \<Rightarrow> u32" where
  "rd32 bs = word_of_nat (le_dec bs)"

definition rd64 :: "byte list \<Rightarrow> u64" where
  "rd64 bs = word_of_nat (le_dec bs)"

lemma length_le32 [simp]: "length (le32 w) = 4" and length_le64 [simp]: "length (le64 v) = 8"
  by (simp_all add: le32_def le64_def)

lemma rd32_le32 [simp, codec_simps]: "rd32 (le32 w) = w"
proof -
  have "unat w mod 256 ^ 4 = unat w"
    using unat_u32_less [of w] by simp
  then show ?thesis by (simp add: rd32_def le32_def)
qed

lemma rd64_le64 [simp, codec_simps]: "rd64 (le64 w) = w"
proof -
  have "unat w mod 256 ^ 8 = unat w"
    using unat_u64_less [of w] by simp
  then show ?thesis by (simp add: rd64_def le64_def)
qed

section \<open>Alignment\<close>

text \<open>The number of padding bytes up to the next multiple of \<open>n\<close>.\<close>

definition pad_to :: "nat \<Rightarrow> nat \<Rightarrow> nat" where
  "pad_to n pos = (if pos mod n = 0 then 0 else n - pos mod n)"

lemma pad_to_lt: "0 < n \<Longrightarrow> pad_to n pos < n"
  by (simp add: pad_to_def)

lemma pad_to_aligned: "0 < n \<Longrightarrow> (pos + pad_to n pos) mod n = 0"
proof -
  assume n: "0 < n"
  show ?thesis
  proof (cases "pos mod n = 0")
    case True
    then show ?thesis by (simp add: pad_to_def)
  next
    case False
    have "pos mod n < n" using n by simp
    then have "pos + (n - pos mod n) = (pos div n) * n + n"
      using div_mult_mod_eq [of pos n] by linarith
    with False show ?thesis by (simp add: pad_to_def)
  qed
qed

lemma pad_to_add_mult [simp]: "pad_to n (b + n * k) = pad_to n b"
  by (simp add: pad_to_def)

section \<open>Lists\<close>

lemma take_drop_append_left:
  "length xs = n \<Longrightarrow> take k (drop n (xs @ ys @ zs)) = take k (ys @ zs)"
  by simp

lemma take_drop_mid: "take (length ys) (drop (length xs) (xs @ ys @ zs)) = ys"
  by simp

lemma nth_mid: "(xs @ y # zs) ! length xs = y"
  by (simp add: nth_append)

lemma list_of_4: "length xs = 4 \<Longrightarrow> \<exists>a b c d. xs = [a, b, c, d]"
  by (auto simp: numeral_eq_Suc length_Suc_conv)

lemma list_of_8: "length xs = 8 \<Longrightarrow> \<exists>a b c d e f g h. xs = [a, b, c, d, e, f, g, h]"
  by (auto simp: numeral_eq_Suc length_Suc_conv)

text \<open>The index of the first element that satisfies a predicate, as the code's search loops.\<close>

fun find_index :: "('a \<Rightarrow> bool) \<Rightarrow> 'a list \<Rightarrow> nat option" where
  "find_index P [] = None"
| "find_index P (x # xs) = (if P x then Some 0 else map_option Suc (find_index P xs))"

lemma find_index_SomeD:
  "find_index P xs = Some i \<Longrightarrow> i < length xs \<and> P (xs ! i) \<and> (\<forall>j < i. \<not> P (xs ! j))"
proof (induction xs arbitrary: i)
  case Nil
  then show ?case by simp
next
  case (Cons x xs)
  show ?case
  proof (cases "P x")
    case True
    with Cons.prems show ?thesis by simp
  next
    case False
    with Cons.prems obtain j where j: "find_index P xs = Some j" and i: "i = Suc j"
      by auto
    from Cons.IH [OF j] False i show ?thesis
      by (auto simp: less_Suc_eq_0_disj)
  qed
qed

lemma find_index_None_iff: "find_index P xs = None \<longleftrightarrow> (\<forall>x \<in> set xs. \<not> P x)"
  by (induction xs) auto

lemma find_index_bound: "find_index P xs = Some i \<Longrightarrow> i < length xs"
  by (simp add: find_index_SomeD)

section \<open>Text\<close>

text \<open>The bytes of a C string literal.\<close>

definition ascii :: "string \<Rightarrow> byte list" where
  "ascii s = map of_char s"

text \<open>\<open>strstr(s, pat) != NULL\<close>\<close>

fun contains :: "'a list \<Rightarrow> 'a list \<Rightarrow> bool" where
  "contains pat [] = (pat = [])"
| "contains pat (x # xs) = (take (length pat) (x # xs) = pat \<or> contains pat xs)"

section \<open>Errors as values\<close>

text \<open>\<open>bind_r m f\<close> is the code's \<open>ok = m; if (ok != 0) return ok; f\<close>.\<close>

definition bind_r :: "'e + 'a \<Rightarrow> ('a \<Rightarrow> 'e + 'b) \<Rightarrow> 'e + 'b" where
  "bind_r m f = (case m of Inl e \<Rightarrow> Inl e | Inr a \<Rightarrow> f a)"

lemma bind_r_simps [simp]: "bind_r (Inl e) f = Inl e" "bind_r (Inr a) f = f a"
  by (simp_all add: bind_r_def)

lemma bind_r_Inr_iff: "bind_r m f = Inr b \<longleftrightarrow> (\<exists>a. m = Inr a \<and> f a = Inr b)"
  by (cases m) auto

lemma bind_r_Inl_iff: "bind_r m f = Inl e \<longleftrightarrow> m = Inl e \<or> (\<exists>a. m = Inr a \<and> f a = Inl e)"
  by (cases m) auto

lemma bind_r_InrE:
  assumes "bind_r m (\<lambda>(x, y). f x y) = Inr b"
  obtains x y where "m = Inr (x, y)" "f x y = Inr b"
  using assms by (cases m) auto

lemma bind_r_not_Inl:
  assumes "m \<noteq> Inl e" and "\<And>x y. m = Inr (x, y) \<Longrightarrow> f x y \<noteq> Inl e"
  shows "bind_r m (\<lambda>(x, y). f x y) \<noteq> Inl e"
  using assms by (cases m) auto

lemma bind_r_cong [fundef_cong]:
  "m = m' \<Longrightarrow> (\<And>a. m' = Inr a \<Longrightarrow> f a = f' a) \<Longrightarrow> bind_r m f = bind_r m' f'"
  by (cases m') auto

end
