(* ===== verification/HandleMap.thy ===== *)
theory HandleMap
  imports Prelude
begin

text \<open>
  \<open>src/handle_map.cc\<close>: the table that turns the 32-bit handles exchanged with Dart into
  pointers. \<open>std::map<uint32_t, void*>\<close> is kept as its in-order sequence, because the
  iterator of the C interface visits the keys in ascending order. The key counter is a
  \<open>uint32_t\<close> and wraps; \<open>std::map::insert\<close> leaves an existing entry alone, so what happens
  after a wrap is part of the model.
\<close>

section \<open>The ordered map\<close>

fun map_insert :: "u32 \<Rightarrow> 'v \<Rightarrow> (u32 \<times> 'v) list \<Rightarrow> (u32 \<times> 'v) list" where
  "map_insert k v [] = [(k, v)]"
| "map_insert k v ((k', v') # m) =
     (if k < k' then (k, v) # (k', v') # m
      else if k = k' then (k', v') # m
      else (k', v') # map_insert k v m)"

fun map_erase :: "u32 \<Rightarrow> (u32 \<times> 'v) list \<Rightarrow> (u32 \<times> 'v) list" where
  "map_erase k [] = []"
| "map_erase k ((k', v') # m) = (if k = k' then m else (k', v') # map_erase k m)"

fun key_after :: "u32 \<Rightarrow> (u32 \<times> 'v) list \<Rightarrow> u32 option" where
  "key_after k [] = None"
| "key_after k ((k', v') # m) = (if k < k' then Some k' else key_after k m)"

abbreviation sorted_keys :: "(u32 \<times> 'v) list \<Rightarrow> bool" where
  "sorted_keys m \<equiv> sorted_wrt (<) (map fst m)"

lemma fst_set_map_insert: "fst ` set (map_insert k v m) = insert k (fst ` set m)"
  by (induction k v m rule: map_insert.induct) (simp_all add: insert_commute)

lemma sorted_map_insert: "sorted_keys m \<Longrightarrow> sorted_keys (map_insert k v m)"
proof (induction m)
  case Nil
  show ?case by simp
next
  case (Cons p m)
  obtain k' v' where p: "p = (k', v')" by (cases p)
  have "\<forall>x \<in> fst ` set (map_insert k v m). k' < x" if "\<not> k < k'" "k \<noteq> k'"
    using Cons.prems that p by (auto simp: fst_set_map_insert)
  with Cons p show ?case by fastforce
qed

lemma map_of_map_insert:
  "map_of m k = None \<Longrightarrow> map_of (map_insert k v m) = (map_of m)(k \<mapsto> v)"
  by (induction m) (auto simp: fun_eq_iff split: if_splits)

lemma map_insert_present: "sorted_keys m \<Longrightarrow> k \<in> fst ` set m \<Longrightarrow> map_insert k v m = m"
  by (induction m) fastforce+

lemma set_map_erase: "set (map_erase k m) \<subseteq> set m"
  by (induction k m rule: map_erase.induct) auto

lemma sorted_map_erase: "sorted_keys m \<Longrightarrow> sorted_keys (map_erase k m)"
proof (induction m)
  case Nil
  show ?case by simp
next
  case (Cons p m)
  then show ?case using set_map_erase [of k m] by (cases p) fastforce
qed

lemma map_of_map_erase: "sorted_keys m \<Longrightarrow> map_of (map_erase k m) = (map_of m)(k := None)"
proof (induction m)
  case Nil
  show ?case by simp
next
  case (Cons p m)
  obtain k' v' where p: "p = (k', v')" by (cases p)
  have "map_of m k' = None"
    using Cons.prems p by (auto simp: map_of_eq_None_iff)
  with Cons p show ?case by (auto simp: fun_eq_iff)
qed

section \<open>The operations of \<open>handle_map.h\<close>\<close>

record 'v handle_map =
  next_key :: u32
  entries :: "(u32 \<times> 'v) list"

definition handle_map_new :: "'v handle_map" where
  "handle_map_new = \<lparr>next_key = 1, entries = []\<rparr>"

definition handle_map_add :: "'v handle_map \<Rightarrow> 'v \<Rightarrow> u32 \<times> 'v handle_map" where
  "handle_map_add m v =
     (let key = next_key m
      in (key, m\<lparr>next_key := next_key m + 1, entries := map_insert key v (entries m)\<rparr>))"

definition handle_map_remove :: "'v handle_map \<Rightarrow> u32 \<Rightarrow> bool \<times> 'v handle_map" where
  "handle_map_remove m h =
     (case map_of (entries m) h of
        None \<Rightarrow> (False, m)
      | Some _ \<Rightarrow> (True, m\<lparr>entries := map_erase h (entries m)\<rparr>))"

text \<open>\<open>false\<close> is \<open>None\<close>; \<open>true\<close> with \<open>*out\<close> set is \<open>Some\<close>.\<close>

definition handle_map_get :: "'v handle_map \<Rightarrow> u32 \<Rightarrow> 'v option" where
  "handle_map_get m h = map_of (entries m) h"

text \<open>
  A \<open>std::map\<close> iterator is the node it stands on (here its key) or the end. Advancing
  looks for the next key in the map as it is then, as an in-order successor does.
\<close>

definition handle_map_iter_new :: "'v handle_map \<Rightarrow> u32 option" where
  "handle_map_iter_new m = (case entries m of [] \<Rightarrow> None | p # _ \<Rightarrow> Some (fst p))"

definition handle_map_iter_next ::
    "'v handle_map \<Rightarrow> u32 option \<Rightarrow> ((u32 \<times> 'v) \<times> u32 option) option" where
  "handle_map_iter_next m it =
     (case it of
        None \<Rightarrow> None
      | Some k \<Rightarrow>
          (case map_of (entries m) k of
             None \<Rightarrow> None
           | Some v \<Rightarrow> Some ((k, v), key_after k (entries m))))"

text \<open>The loop \<open>while (handle_map_iter_next(iter, &handle, &value))\<close> with the entries it visits.\<close>

fun handle_map_visit :: "nat \<Rightarrow> 'v handle_map \<Rightarrow> u32 option \<Rightarrow> (u32 \<times> 'v) list option" where
  "handle_map_visit 0 m it = None"
| "handle_map_visit (Suc n) m it =
     (case handle_map_iter_next m it of
        None \<Rightarrow> Some []
      | Some (kv, it') \<Rightarrow> map_option (Cons kv) (handle_map_visit n m it'))"

section \<open>Invariant\<close>

text \<open>
  Before the counter wraps, every key in the map was issued, so it is below \<open>next_key\<close>, and
  \<open>0\<close> was never issued. The compositor uses \<open>0\<close> for "no view".
\<close>

definition handle_inv :: "'v handle_map \<Rightarrow> bool" where
  "handle_inv m \<longleftrightarrow> sorted_keys (entries m) \<and> 0 < next_key m \<and>
     (\<forall>k \<in> fst ` set (entries m). 0 < k \<and> k < next_key m)"

lemma handle_inv_new: "handle_inv handle_map_new"
  by (simp add: handle_inv_def handle_map_new_def)

lemma handle_inv_fresh: "handle_inv m \<Longrightarrow> map_of (entries m) (next_key m) = None"
  by (auto simp: handle_inv_def map_of_eq_None_iff)

lemma u32_less_Suc: "(n :: u32) \<noteq> - 1 \<Longrightarrow> k \<le> n \<Longrightarrow> k < n + 1"
  by (simp add: word_less_nat_alt word_le_nat_alt unat_u32_Suc)

lemma u32_lt_Suc: "(n :: u32) \<noteq> - 1 \<Longrightarrow> n < n + 1"
  by (rule u32_less_Suc) simp_all

lemma handle_inv_add:
  assumes inv: "handle_inv m" and room: "next_key m \<noteq> - 1"
  shows "handle_inv (snd (handle_map_add m v))"
proof -
  have "0 < next_key m + 1"
    using inv u32_lt_Suc [OF room] by (auto simp: handle_inv_def intro: order.strict_trans)
  moreover have "\<forall>k \<in> fst ` set (entries m). k < next_key m + 1"
    using inv u32_less_Suc [OF room] by (auto simp: handle_inv_def)
  ultimately show ?thesis
    using inv u32_lt_Suc [OF room]
    by (simp add: handle_inv_def handle_map_add_def Let_def fst_set_map_insert sorted_map_insert)
qed

lemma handle_inv_remove: "handle_inv m \<Longrightarrow> handle_inv (snd (handle_map_remove m h))"
  using set_map_erase [of h "entries m"]
  by (force simp: handle_inv_def handle_map_remove_def sorted_map_erase split: option.splits)

section \<open>The contract the clients rely on\<close>

text \<open>
  What \<open>surface.c\<close>, \<open>input.c\<close> and \<open>renderer.c\<close> use of a handle table: a new handle is
  never \<open>0\<close> and never one in use, a lookup returns what was stored, and nothing else
  changes.
\<close>

locale handle_store =
  fixes get :: "'m \<Rightarrow> u32 \<Rightarrow> 'v option"
    and add :: "'m \<Rightarrow> 'v \<Rightarrow> u32 \<times> 'm"
    and remove :: "'m \<Rightarrow> u32 \<Rightarrow> bool \<times> 'm"
    and room :: "'m \<Rightarrow> bool"
    and inv :: "'m \<Rightarrow> bool"
  assumes add_nonzero: "inv m \<Longrightarrow> fst (add m v) \<noteq> 0"
    and add_fresh: "inv m \<Longrightarrow> get m (fst (add m v)) = None"
    and get_add: "inv m \<Longrightarrow> get (snd (add m v)) = (get m)(fst (add m v) \<mapsto> v)"
    and inv_add: "inv m \<Longrightarrow> room m \<Longrightarrow> inv (snd (add m v))"
    and get_remove: "inv m \<Longrightarrow> get (snd (remove m h)) = (get m)(h := None)"
    and remove_hit: "inv m \<Longrightarrow> fst (remove m h) \<longleftrightarrow> get m h \<noteq> None"
    and inv_remove: "inv m \<Longrightarrow> inv (snd (remove m h))"
    and get_zero: "inv m \<Longrightarrow> get m 0 = None"
begin

lemma get_add_new: "inv m \<Longrightarrow> get (snd (add m v)) (fst (add m v)) = Some v"
  by (simp add: get_add)

lemma get_add_old: "inv m \<Longrightarrow> get m h = Some w \<Longrightarrow> get (snd (add m v)) h = Some w"
  by (auto simp: get_add add_fresh)

lemma get_remove_self: "inv m \<Longrightarrow> get (snd (remove m h)) h = None"
  by (simp add: get_remove)

lemma get_remove_other: "inv m \<Longrightarrow> h \<noteq> h' \<Longrightarrow> get (snd (remove m h)) h' = get m h'"
  by (simp add: get_remove)

lemma add_then_remove:
  "inv m \<Longrightarrow> room m \<Longrightarrow>
     get (snd (remove (snd (add m v)) (fst (add m v)))) = get m"
  by (auto simp: get_remove inv_add get_add add_fresh fun_eq_iff)

lemma two_adds_differ:
  "inv m \<Longrightarrow> room m \<Longrightarrow> fst (add (snd (add m v)) w) \<noteq> fst (add m v)"
  using add_fresh [of "snd (add m v)" w] inv_add [of m v] get_add_new [of m v] by auto

end

abbreviation handle_room :: "'v handle_map \<Rightarrow> bool" where
  "handle_room m \<equiv> next_key m \<noteq> - 1"

interpretation hs: handle_store handle_map_get handle_map_add handle_map_remove handle_room handle_inv
proof (unfold_locales, goal_cases)
  case (1 m v)
  then show ?case by (auto simp: handle_inv_def handle_map_add_def Let_def)
next
  case (2 m v)
  then show ?case by (simp add: handle_map_add_def handle_map_get_def Let_def handle_inv_fresh)
next
  case (3 m v)
  then show ?case
    by (simp add: fun_eq_iff handle_map_add_def handle_map_get_def Let_def handle_inv_fresh
        map_of_map_insert)
next
  case (4 m v)
  then show ?case by (simp add: handle_inv_add)
next
  case (5 m h)
  then show ?case
    by (auto simp: fun_eq_iff handle_inv_def handle_map_get_def handle_map_remove_def map_of_map_erase
        split: option.splits)
next
  case (6 m h)
  show ?case by (auto simp: handle_map_get_def handle_map_remove_def split: option.splits)
next
  case (7 m h)
  then show ?case by (rule handle_inv_remove)
next
  case (8 m)
  then show ?case by (auto simp: handle_inv_def handle_map_get_def map_of_eq_None_iff)
qed

section \<open>Iteration\<close>

lemma key_after_append:
  "sorted_keys (xs @ (k, v) # ys) \<Longrightarrow>
     key_after k (xs @ (k, v) # ys) = (case ys of [] \<Rightarrow> None | p # _ \<Rightarrow> Some (fst p))"
proof (induction xs)
  case Nil
  then show ?case by (cases ys) auto
next
  case (Cons p xs)
  then show ?case by (cases p) (auto simp: sorted_wrt_append)
qed

lemma map_of_sorted_mid: "sorted_keys (xs @ (k, v) # ys) \<Longrightarrow> map_of (xs @ (k, v) # ys) k = Some v"
  by (induction xs) (auto simp: sorted_wrt_append)

lemma visit_from:
  "entries m = xs @ ys \<Longrightarrow> sorted_keys (entries m) \<Longrightarrow> length ys < n \<Longrightarrow>
     handle_map_visit n m (case ys of [] \<Rightarrow> None | p # _ \<Rightarrow> Some (fst p)) = Some ys"
proof (induction ys arbitrary: xs n)
  case Nil
  then show ?case by (cases n) (auto simp: handle_map_iter_next_def)
next
  case (Cons p ys)
  obtain k v where p: "p = (k, v)" by (cases p)
  from Cons.prems(3) obtain n' where n: "n = Suc n'" by (cases n) auto
  have e: "entries m = xs @ (k, v) # ys" using Cons.prems(1) p by simp
  with Cons.prems(2) have step: "handle_map_iter_next m (Some k) =
      Some ((k, v), case ys of [] \<Rightarrow> None | p # _ \<Rightarrow> Some (fst p))"
    using map_of_sorted_mid [of xs k v ys]
    by (simp add: handle_map_iter_next_def key_after_append del: map_of_append)
  have "handle_map_visit n' m (case ys of [] \<Rightarrow> None | p # _ \<Rightarrow> Some (fst p)) = Some ys"
    by (rule Cons.IH [of "xs @ [(k, v)]"]) (use e Cons.prems n in auto)
  with step show ?case by (simp add: n p)
qed

section \<open>Runs of the table\<close>

datatype 'v handle_op = Add 'v | Remove u32

text \<open>A run returns every handle it issued, in order, and the final table.\<close>

fun handle_run :: "'v handle_op list \<Rightarrow> 'v handle_map \<Rightarrow> u32 list \<times> 'v handle_map" where
  "handle_run [] m = ([], m)"
| "handle_run (Add v # ops) m =
     (let (h, m') = handle_map_add m v; (hs, m'') = handle_run ops m' in (h # hs, m''))"
| "handle_run (Remove h # ops) m = handle_run ops (snd (handle_map_remove m h))"

text \<open>What a client sees of the same run: the finite map from live handles to values.\<close>

fun spec_run :: "'v handle_op list \<Rightarrow> u32 \<Rightarrow> (u32 \<rightharpoonup> 'v) \<Rightarrow> (u32 \<rightharpoonup> 'v)" where
  "spec_run [] n f = f"
| "spec_run (Add v # ops) n f = spec_run ops (n + 1) (f(n \<mapsto> v))"
| "spec_run (Remove h # ops) n f = spec_run ops n (f(h := None))"

fun adds :: "'v handle_op list \<Rightarrow> nat" where
  "adds [] = 0"
| "adds (Add v # ops) = Suc (adds ops)"
| "adds (Remove h # ops) = adds ops"

lemma next_key_add: "next_key (snd (handle_map_add m v)) = next_key m + 1"
  by (simp add: handle_map_add_def Let_def)

lemma fst_add: "fst (handle_map_add m v) = next_key m"
  by (simp add: handle_map_add_def Let_def)

lemma next_key_remove: "next_key (snd (handle_map_remove m h)) = next_key m"
  by (simp add: handle_map_remove_def split: option.splits)

lemma handle_run_refines:
  assumes "handle_inv m" and "unat (next_key m) + adds ops < 2 ^ 32"
  shows "map unat (fst (handle_run ops m)) = [unat (next_key m) ..< unat (next_key m) + adds ops]
    \<and> handle_inv (snd (handle_run ops m))
    \<and> handle_map_get (snd (handle_run ops m)) = spec_run ops (next_key m) (handle_map_get m)"
  using assms
proof (induction ops m rule: handle_run.induct)
  case (1 m)
  then show ?case by simp
next
  case (2 v ops m)
  obtain h m' where a: "handle_map_add m v = (h, m')" by (cases "handle_map_add m v")
  have h: "h = next_key m" and m': "m' = snd (handle_map_add m v)" using a fst_add [of m v] by auto
  have room: "next_key m \<noteq> - 1"
  proof
    assume "next_key m = - 1"
    then have "unat (next_key m) = 2 ^ 32 - 1" by (simp only: unat_u32_minus_one)
    with "2.prems"(2) show False by simp
  qed
  have inv: "handle_inv m'" using "2.prems"(1) room m' by (simp add: handle_inv_add)
  have nk: "next_key m' = next_key m + 1" by (simp add: m' next_key_add)
  have un: "unat (next_key m') = Suc (unat (next_key m))" by (simp add: nk unat_u32_Suc room)
  have g: "handle_map_get m' = (handle_map_get m)(next_key m \<mapsto> v)"
    using hs.get_add [OF "2.prems"(1), of v] by (simp add: m' fst_add)
  obtain hs m'' where r: "handle_run ops m' = (hs, m'')" by (cases "handle_run ops m'")
  have "map unat hs = [unat (next_key m') ..< unat (next_key m') + adds ops] \<and> handle_inv m''
      \<and> handle_map_get m'' = spec_run ops (next_key m') (handle_map_get m')"
    using "2.IH" [OF a [symmetric] refl] inv "2.prems"(2) un r by (simp add: a)
  moreover have "unat (next_key m + 1) = Suc (unat (next_key m))" using un nk by simp
  moreover have "[unat (next_key m) ..< unat (next_key m) + Suc (adds ops)] =
      unat (next_key m) # [Suc (unat (next_key m)) ..< Suc (unat (next_key m)) + adds ops]"
    by (simp add: upt_conv_Cons del: upt_Suc)
  ultimately show ?case
    by (simp add: a r h nk g del: upt_Suc)
next
  case (3 h ops m)
  then show ?case
    by (simp add: hs.inv_remove next_key_remove hs.get_remove fun_upd_def)
qed

text \<open>
  C22: starting from \<open>handle_map_new\<close>, a run of fewer than \<open>2 ^ 32 - 1\<close> additions mixed
  with any removals issues pairwise different handles, never \<open>0\<close>, and afterwards the table
  answers \<open>handle_map_get\<close> exactly as the finite map the run describes.
\<close>
theorem handles_never_reused:
  assumes "adds ops < 2 ^ 32 - 1"
  shows "distinct (fst (handle_run ops handle_map_new))
    \<and> 0 \<notin> set (fst (handle_run ops handle_map_new))
    \<and> handle_map_get (snd (handle_run ops handle_map_new)) = spec_run ops 1 Map.empty"
proof -
  let ?m = "handle_map_new :: 'a handle_map"
  have n: "next_key ?m = 1" and g: "handle_map_get ?m = Map.empty"
    by (simp_all add: handle_map_new_def handle_map_get_def fun_eq_iff)
  have r: "map unat (fst (handle_run ops ?m)) = [1 ..< 1 + adds ops]
    \<and> handle_map_get (snd (handle_run ops ?m)) = spec_run ops 1 Map.empty"
    using handle_run_refines [OF handle_inv_new, of ops] assms by (simp add: n g)
  then have "distinct (map unat (fst (handle_run ops ?m)))" by (metis distinct_upt)
  then have d: "distinct (fst (handle_run ops ?m))" by (simp add: distinct_map)
  have "unat ` set (fst (handle_run ops ?m)) = {1 ..< 1 + adds ops}"
    using r by (metis set_map set_upt)
  then have "0 \<notin> set (fst (handle_run ops ?m))"
    by (metis atLeastLessThan_iff imageI not_one_le_zero unat_0)
  with d r show ?thesis by simp
qed

theorem handles_never_reused_witness:
  "distinct (fst (handle_run [Add 10, Remove 1, Add (20 :: nat)] handle_map_new))
    \<and> 0 \<notin> set (fst (handle_run [Add 10, Remove 1, Add (20 :: nat)] handle_map_new))
    \<and> handle_map_get (snd (handle_run [Add 10, Remove 1, Add (20 :: nat)] handle_map_new))
      = spec_run [Add 10, Remove 1, Add 20] 1 Map.empty"
  by (rule handles_never_reused) simp

text \<open>
  the iteration loop over an unchanged table visits every entry exactly once, in ascending
  order of the handles, and stops.
\<close>
theorem handle_map_iteration:
  assumes "handle_inv m"
  shows "handle_map_visit (Suc (length (entries m))) m (handle_map_iter_new m) = Some (entries m)
    \<and> distinct (map fst (entries m))"
proof -
  have s: "sorted_keys (entries m)" using assms by (simp add: handle_inv_def)
  have "handle_map_visit (Suc (length (entries m))) m
      (case entries m of [] \<Rightarrow> None | p # _ \<Rightarrow> Some (fst p)) = Some (entries m)"
    by (rule visit_from [of m "[]"]) (simp_all add: s)
  then show ?thesis
    using s by (simp add: handle_map_iter_new_def strict_sorted_iff)
qed

theorem handle_map_iteration_witness:
  "handle_map_visit 3 (snd (handle_run [Add 10, Add (20 :: nat)] handle_map_new)) (Some 1)
      = Some [(1, 10), (2, 20)]"
proof -
  let ?m = "snd (handle_run [Add 10, Add (20 :: nat)] handle_map_new)"
  have m: "?m = \<lparr>next_key = 3, entries = [(1, 10), (2, 20)]\<rparr>"
    by (simp add: handle_map_new_def handle_map_add_def split_beta Let_def)
  have "handle_inv ?m" by (simp only: m) (simp add: handle_inv_def)
  from handle_map_iteration [OF this] show ?thesis
    by (simp only: m) (simp add: handle_map_iter_new_def eval_nat_numeral)
qed

end
