(* ===== verification/MessageBuilder.thy ===== *)
theory MessageBuilder
  imports Prelude
begin

text \<open>
  The writing half of \<open>src/standard_message_codec.c\<close>: a growing buffer, segments that count
  the values pushed into them, and one \<open>push\<close> per type of the Flutter standard codec. A byte
  of the buffer is \<open>None\<close> while it is indeterminate (fresh from \<open>malloc\<close> or \<open>realloc\<close>), so
  that a message containing a byte nobody wrote is visible. A store that lands outside the
  allocation sets \<open>overflow\<close> and nothing else. \<open>wlr_log(WLR_ERROR, ...)\<close> calls are
  recorded. Sizes are \<open>nat\<close>: \<open>size_t\<close> does not wrap for objects that fit in memory.
\<close>

section \<open>State\<close>

definition kValueNull :: byte where "kValueNull = 0"
definition kValueTrue :: byte where "kValueTrue = 1"
definition kValueFalse :: byte where "kValueFalse = 2"
definition kValueInt32 :: byte where "kValueInt32 = 3"
definition kValueInt64 :: byte where "kValueInt64 = 4"
definition kValueFloat64 :: byte where "kValueFloat64 = 6"
definition kValueString :: byte where "kValueString = 7"
definition kValueUint8List :: byte where "kValueUint8List = 8"
definition kValueInt32List :: byte where "kValueInt32List = 9"
definition kValueInt64List :: byte where "kValueInt64List = 10"
definition kValueFloat64List :: byte where "kValueFloat64List = 11"
definition kValueList :: byte where "kValueList = 12"
definition kValueMap :: byte where "kValueMap = 13"
definition kValueFloat32List :: byte where "kValueFloat32List = 14"

lemmas kValue_defs = kValueNull_def kValueTrue_def kValueFalse_def kValueInt32_def
  kValueInt64_def kValueFloat64_def kValueString_def kValueUint8List_def kValueInt32List_def
  kValueInt64List_def kValueFloat64List_def kValueList_def kValueMap_def kValueFloat32List_def

datatype builder_error = WrongLevel | IncompleteSegment u32 u32

record message_builder_state =
  buffer :: "byte option list"
  buffer_len :: nat
  buffer_capacity :: nat
  current_level :: u32
  errors :: "builder_error list"
  overflow :: bool

record message_builder_segment =
  seg_size :: u32
  seg_written :: u32
  seg_level :: u32

section \<open>Buffer primitives\<close>

text \<open>Stores \<open>bs\<close> at index \<open>i\<close> of the allocation.\<close>

definition put_at :: "nat \<Rightarrow> byte list \<Rightarrow> message_builder_state \<Rightarrow> message_builder_state" where
  "put_at i bs st =
     (if i + length bs \<le> buffer_capacity st
      then st\<lparr>buffer := take i (buffer st) @ map Some bs @ drop (i + length bs) (buffer st)\<rparr>
      else st\<lparr>overflow := True\<rparr>)"

definition advance :: "nat \<Rightarrow> message_builder_state \<Rightarrow> message_builder_state" where
  "advance n st = st\<lparr>buffer_len := buffer_len st + n\<rparr>"

text \<open>\<open>state->buffer[state->buffer_len++] = b\<close>\<close>

definition push_byte :: "byte \<Rightarrow> message_builder_state \<Rightarrow> message_builder_state" where
  "push_byte b st = advance 1 (put_at (buffer_len st) [b] st)"

text \<open>A store of several bytes at \<open>buffer + buffer_len\<close>, then \<open>buffer_len += n\<close>.\<close>

definition push_bytes :: "byte list \<Rightarrow> message_builder_state \<Rightarrow> message_builder_state" where
  "push_bytes bs st = advance (length bs) (put_at (buffer_len st) bs st)"

definition growth_strategy :: "nat \<Rightarrow> nat \<Rightarrow> nat" where
  "growth_strategy current required = (let cap = max (current * 2) required in max cap 32)"

definition reserve :: "nat \<Rightarrow> message_builder_state \<Rightarrow> message_builder_state" where
  "reserve required st =
     (let remaining = buffer_capacity st - buffer_len st
      in if remaining < required
         then (let new_size = growth_strategy (buffer_capacity st) (buffer_len st + required)
               in st\<lparr>buffer := buffer st @ replicate (new_size - buffer_capacity st) None,
                     buffer_capacity := new_size\<rparr>)
         else st)"

definition calc_size_len :: "nat \<Rightarrow> nat" where
  "calc_size_len n = (if n > 65535 then 5 else if n \<ge> 254 then 3 else 1)"

text \<open>
  \<open>WRITE_SIZE_LEN\<close>: the prefixes 254 and 255 are stored at the write position, but the
  16- or 32-bit length is stored through \<open>((uint16_t*) STATE->buffer)[0]\<close>, the start of the
  buffer.
\<close>

definition write_size_len :: "nat \<Rightarrow> message_builder_state \<Rightarrow> message_builder_state" where
  "write_size_len n st =
     (if n > 65535 then advance 4 (put_at 0 (le_enc 4 n) (push_byte 255 st))
      else if n \<ge> 254 then advance 2 (put_at 0 (le_enc 2 n) (push_byte 254 st))
      else push_byte (word_of_nat n) st)"

definition write_align_to :: "nat \<Rightarrow> message_builder_state \<Rightarrow> message_builder_state" where
  "write_align_to n st =
     (let m = buffer_len st mod n
      in if m \<noteq> 0 then (push_byte 0 ^^ (n - m)) st else st)"

definition assert_level ::
    "message_builder_segment \<Rightarrow> message_builder_state \<Rightarrow> message_builder_state" where
  "assert_level seg st =
     (if seg_level seg \<noteq> current_level st then st\<lparr>errors := errors st @ [WrongLevel]\<rparr> else st)"

definition count_written :: "message_builder_segment \<Rightarrow> message_builder_segment" where
  "count_written seg = seg\<lparr>seg_written := seg_written seg + 1\<rparr>"

section \<open>The builder interface\<close>

definition message_builder_new :: message_builder_state where
  "message_builder_new =
     \<lparr>buffer = replicate 32 None, buffer_len = 0, buffer_capacity = 32, current_level = 0,
      errors = [], overflow = False\<rparr>"

definition new_segment ::
    "message_builder_state \<Rightarrow> message_builder_segment \<times> message_builder_state" where
  "new_segment st =
     (\<lparr>seg_size = 1, seg_written = 0, seg_level = 1\<rparr>, st\<lparr>current_level := 1\<rparr>)"

text \<open>The finished message: the first \<open>buffer_len\<close> bytes of the allocation.\<close>

definition message_builder_finish :: "message_builder_state \<Rightarrow> byte option list" where
  "message_builder_finish st = take (buffer_len st) (buffer st)"

type_synonym builder = "message_builder_segment \<times> message_builder_state"

fun push_null :: "builder \<Rightarrow> builder" where
  "push_null (seg, st) =
     (count_written seg, push_byte kValueNull (reserve 1 (assert_level seg st)))"

text \<open>\<open>message_builder_segment_push_bool\<close> does not count the value it pushed.\<close>

fun push_bool :: "bool \<Rightarrow> builder \<Rightarrow> builder" where
  "push_bool v (seg, st) =
     (seg, push_byte (if v then kValueTrue else kValueFalse) (reserve 1 (assert_level seg st)))"

fun push_int32 :: "u32 \<Rightarrow> builder \<Rightarrow> builder" where
  "push_int32 v (seg, st) =
     (count_written seg,
      push_bytes (le32 v) (push_byte kValueInt32 (reserve (1 + 4) (assert_level seg st))))"

fun push_int64 :: "u64 \<Rightarrow> builder \<Rightarrow> builder" where
  "push_int64 v (seg, st) =
     (count_written seg,
      push_bytes (le64 v) (push_byte kValueInt64 (reserve (1 + 8) (assert_level seg st))))"

fun push_float64 :: "u64 \<Rightarrow> builder \<Rightarrow> builder" where
  "push_float64 v (seg, st) =
     (count_written seg,
      push_bytes (le64 v)
        (write_align_to 8 (push_byte kValueFloat64 (reserve (1 + 8 + 8) (assert_level seg st)))))"

text \<open>The argument is the C string without its terminator, so \<open>strlen\<close> is its length.\<close>

fun push_string :: "byte list \<Rightarrow> builder \<Rightarrow> builder" where
  "push_string s (seg, st) =
     (let n = length s; st1 = reserve (1 + calc_size_len n + n) (assert_level seg st)
      in (count_written seg, push_bytes s (write_size_len n (push_byte kValueString st1))))"

fun push_uint8_list :: "byte list \<Rightarrow> builder \<Rightarrow> builder" where
  "push_uint8_list s (seg, st) =
     (let n = length s; st1 = reserve (1 + calc_size_len n + n) (assert_level seg st)
      in (count_written seg, push_bytes s (write_size_len n (push_byte kValueUint8List st1))))"

text \<open>
  The four numeric list pushes copy \<open>size * sizeof(elem)\<close> bytes and advance by \<open>size\<close>. They
  align before the tag instead of after the length; the \<open>float32\<close> one aligns before it
  reserves.
\<close>

fun push_int32_list :: "u32 list \<Rightarrow> builder \<Rightarrow> builder" where
  "push_int32_list vals (seg, st) =
     (let n = length vals;
          st1 = write_align_to 4 (reserve (1 + calc_size_len n + (n + 1) * 4) (assert_level seg st));
          st2 = write_size_len n (push_byte kValueInt32List st1)
      in (count_written seg, advance n (put_at (buffer_len st2) (concat (map le32 vals)) st2)))"

fun push_int64_list :: "u64 list \<Rightarrow> builder \<Rightarrow> builder" where
  "push_int64_list vals (seg, st) =
     (let n = length vals;
          st1 = write_align_to 8 (reserve (1 + calc_size_len n + (n + 1) * 8) (assert_level seg st));
          st2 = write_size_len n (push_byte kValueInt64List st1)
      in (count_written seg, advance n (put_at (buffer_len st2) (concat (map le64 vals)) st2)))"

fun push_float64_list :: "u64 list \<Rightarrow> builder \<Rightarrow> builder" where
  "push_float64_list vals (seg, st) =
     (let n = length vals;
          st1 = write_align_to 8 (reserve (1 + calc_size_len n + (n + 1) * 8) (assert_level seg st));
          st2 = write_size_len n (push_byte kValueFloat64List st1)
      in (count_written seg, advance n (put_at (buffer_len st2) (concat (map le64 vals)) st2)))"

fun push_float32_list :: "u32 list \<Rightarrow> builder \<Rightarrow> builder" where
  "push_float32_list vals (seg, st) =
     (let n = length vals;
          st1 = reserve (1 + calc_size_len n + (n + 1) * 4) (write_align_to 4 (assert_level seg st));
          st2 = write_size_len n (push_byte kValueFloat32List st1)
      in (count_written seg, advance n (put_at (buffer_len st2) (concat (map le32 vals)) st2)))"

text \<open>
  Opening a list or a map returns the sub-segment and the parent. The sizes are converted
  from \<open>size_t\<close> to \<open>uint32_t\<close>.
\<close>

fun push_list :: "nat \<Rightarrow> builder \<Rightarrow> message_builder_segment \<times> builder" where
  "push_list n (seg, st) =
     (let st1 = write_size_len n (push_byte kValueList
                  (reserve (1 + calc_size_len n) (assert_level seg st)));
          st2 = st1\<lparr>current_level := current_level st1 + 1\<rparr>
      in (\<lparr>seg_size = word_of_nat n, seg_written = 0, seg_level = current_level st2\<rparr>,
          count_written seg, st2))"

fun push_map :: "nat \<Rightarrow> builder \<Rightarrow> message_builder_segment \<times> builder" where
  "push_map n (seg, st) =
     (let st1 = write_size_len n (push_byte kValueMap
                  (reserve (1 + calc_size_len n) (assert_level seg st)));
          st2 = st1\<lparr>current_level := current_level st1 + 1\<rparr>
      in (\<lparr>seg_size = word_of_nat (n * 2), seg_written = 0, seg_level = current_level st2\<rparr>,
          count_written seg, st2))"

definition segment_finish ::
    "message_builder_segment \<Rightarrow> message_builder_state \<Rightarrow> message_builder_state" where
  "segment_finish seg st =
     (let st1 = assert_level seg st;
          st2 = (if seg_written seg \<noteq> seg_size seg
                 then st1\<lparr>errors := errors st1 @ [IncompleteSegment (seg_written seg) (seg_size seg)]\<rparr>
                 else st1)
      in st2\<lparr>current_level := current_level st2 - 1\<rparr>)"

section \<open>What a buffer holds\<close>

text \<open>
  \<open>fits st bs k\<close>: the builder's first \<open>buffer_len\<close> bytes are exactly \<open>bs\<close>, every one of
  them written, no store has left the allocation, and \<open>k\<close> more bytes fit.
\<close>

definition builder_ok :: "message_builder_state \<Rightarrow> bool" where
  "builder_ok st \<longleftrightarrow> length (buffer st) = buffer_capacity st \<and> 32 \<le> buffer_capacity st \<and>
     \<not> overflow st"

definition fits :: "message_builder_state \<Rightarrow> byte list \<Rightarrow> nat \<Rightarrow> bool" where
  "fits st bs k \<longleftrightarrow> builder_ok st \<and> buffer_len st = length bs \<and>
     take (length bs) (buffer st) = map Some bs \<and> length bs + k \<le> buffer_capacity st"

lemma fits_finish: "fits st bs k \<Longrightarrow> message_builder_finish st = map Some bs"
  by (simp add: fits_def message_builder_finish_def)

lemma fits_len: "fits st bs k \<Longrightarrow> buffer_len st = length bs"
  by (simp add: fits_def)

lemma fits_mono: "fits st bs k \<Longrightarrow> j \<le> k \<Longrightarrow> fits st bs j"
  by (simp add: fits_def)

lemma fits_new: "fits message_builder_new [] 32"
  by (simp add: fits_def builder_ok_def message_builder_new_def)

lemma fits_level [simp]: "fits (st\<lparr>current_level := l\<rparr>) bs k = fits st bs k"
  and fits_errors [simp]: "fits (st\<lparr>errors := es\<rparr>) bs k = fits st bs k"
  by (simp_all add: fits_def builder_ok_def)

lemma fits_assert_level [simp]: "fits (assert_level seg st) bs k = fits st bs k"
  by (simp add: assert_level_def)

lemma fits_segment_finish [simp]: "fits (segment_finish seg st) bs k = fits st bs k"
  by (simp add: segment_finish_def Let_def)

lemma fits_push_bytes:
  assumes "fits st bs (length xs + k)"
  shows "fits (push_bytes xs st) (bs @ xs) k"
proof -
  have l: "buffer_len st = length bs" and c: "length bs + length xs + k \<le> buffer_capacity st"
    and b: "length (buffer st) = buffer_capacity st"
    and t: "take (length bs) (buffer st) = map Some bs"
    using assms by (simp_all add: fits_def builder_ok_def)
  then show ?thesis
    using assms by (simp add: fits_def builder_ok_def push_bytes_def put_at_def advance_def)
qed

lemma push_byte_push_bytes: "push_byte b st = push_bytes [b] st"
  by (simp add: push_byte_def push_bytes_def)

lemma fits_push_byte: "fits st bs (Suc k) \<Longrightarrow> fits (push_byte b st) (bs @ [b]) k"
  using fits_push_bytes [of st bs "[b]" k] by (simp add: push_byte_push_bytes)

lemma fits_reserve:
  assumes "fits st bs j"
  shows "fits (reserve k st) bs k"
proof -
  let ?cap = "buffer_capacity st" and ?new = "growth_strategy (buffer_capacity st) (buffer_len st + k)"
  have l: "buffer_len st = length bs" and c: "length bs \<le> ?cap" and b: "length (buffer st) = ?cap"
    and t: "take (length bs) (buffer st) = map Some bs"
    using assms by (simp_all add: fits_def builder_ok_def)
  have n: "?cap \<le> ?new" "length bs + k \<le> ?new" "32 \<le> ?new"
    by (simp_all add: growth_strategy_def Let_def l)
  show ?thesis
  proof (cases "?cap - buffer_len st < k")
    case True
    then show ?thesis
      using assms n l c b t by (simp add: fits_def builder_ok_def reserve_def Let_def)
  next
    case False
    then show ?thesis
      using assms l c by (auto simp: fits_def reserve_def Let_def)
  qed
qed

lemma fits_push_zeros:
  "fits st bs (n + k) \<Longrightarrow> fits ((push_byte 0 ^^ n) st) (bs @ replicate n 0) k"
proof (induction n arbitrary: k)
  case 0
  then show ?case by simp
next
  case (Suc n)
  have "fits ((push_byte 0 ^^ n) st) (bs @ replicate n 0) (Suc k)"
    using Suc.IH [of "Suc k"] Suc.prems by simp
  from fits_push_byte [OF this, of 0] show ?case
    by (simp add: replicate_append_same)
qed

lemma fits_write_align_to:
  assumes "fits st bs (pad_to n (length bs) + k)"
  shows "fits (write_align_to n st) (bs @ replicate (pad_to n (length bs)) 0) k"
  using fits_push_zeros [OF assms] fits_len [OF assms] assms
  by (auto simp: write_align_to_def pad_to_def Let_def)

lemma fits_write_size_small:
  "n < 254 \<Longrightarrow> fits st bs (Suc k) \<Longrightarrow> fits (write_size_len n st) (bs @ [word_of_nat n]) k"
  using fits_push_byte [of st bs k "word_of_nat n"] by (simp add: write_size_len_def)

lemma calc_size_small [simp]: "n < 254 \<Longrightarrow> calc_size_len n = 1"
  by (simp add: calc_size_len_def)

text \<open>The primitives touch neither the nesting level nor the log.\<close>

lemma level_frame [simp, frame_simps]:
  "current_level (put_at i bs st) = current_level st" "errors (put_at i bs st) = errors st"
  "current_level (advance n st) = current_level st" "errors (advance n st) = errors st"
  "current_level (reserve k st) = current_level st" "errors (reserve k st) = errors st"
  by (simp_all add: put_at_def advance_def reserve_def Let_def)

lemma level_frame_push [simp, frame_simps]:
  "current_level (push_byte b st) = current_level st" "errors (push_byte b st) = errors st"
  "current_level (push_bytes bs st) = current_level st" "errors (push_bytes bs st) = errors st"
  by (simp_all add: push_byte_def push_bytes_def)

lemma level_frame_zeros [simp, frame_simps]:
  "current_level ((push_byte 0 ^^ n) st) = current_level st"
  "errors ((push_byte 0 ^^ n) st) = errors st"
  by (induction n) auto

lemma level_frame_size [simp, frame_simps]:
  "current_level (write_size_len n st) = current_level st"
  "errors (write_size_len n st) = errors st"
  "current_level (write_align_to n st) = current_level st"
  "errors (write_align_to n st) = errors st"
  by (simp_all add: write_size_len_def write_align_to_def Let_def)

lemma level_assert [simp]:
  "current_level (assert_level seg st) = current_level st"
  "seg_level seg = current_level st \<Longrightarrow> assert_level seg st = st"
  by (simp_all add: assert_level_def)

section \<open>Values and their encoding\<close>

text \<open>The values the compositor pushes; map keys are always strings.\<close>

datatype bval =
    BNull | BBool bool | BInt32 u32 | BInt64 u64 | BFloat64 u64
  | BString "byte list" | BList "bval list" | BMap "(byte list \<times> bval) list"

text \<open>
  The way the compositor's senders drive the builder: a list or a map opens a sub-segment,
  its elements are pushed into it, and it is finished before the parent goes on.
\<close>

fun push_bval :: "bval \<Rightarrow> builder \<Rightarrow> builder"
  and push_bvals :: "bval list \<Rightarrow> builder \<Rightarrow> builder"
  and push_fields :: "(byte list \<times> bval) list \<Rightarrow> builder \<Rightarrow> builder" where
  "push_bval BNull b = push_null b"
| "push_bval (BBool v) b = push_bool v b"
| "push_bval (BInt32 v) b = push_int32 v b"
| "push_bval (BInt64 v) b = push_int64 v b"
| "push_bval (BFloat64 v) b = push_float64 v b"
| "push_bval (BString s) b = push_string s b"
| "push_bval (BList vs) b =
     (let (sub, seg, st) = push_list (length vs) b; (sub', st') = push_bvals vs (sub, st)
      in (seg, segment_finish sub' st'))"
| "push_bval (BMap kvs) b =
     (let (sub, seg, st) = push_map (length kvs) b; (sub', st') = push_fields kvs (sub, st)
      in (seg, segment_finish sub' st'))"
| "push_bvals [] b = b"
| "push_bvals (v # vs) b = push_bvals vs (push_bval v b)"
| "push_fields [] b = b"
| "push_fields ((k, v) # kvs) b = push_fields kvs (push_bval v (push_string k b))"

text \<open>
  The Flutter standard encoding of a value at position \<open>pos\<close> of a message, for values whose
  strings, lists and maps are shorter than 254: one tag byte, one length byte, a
  \<open>float64\<close> aligned to 8.
\<close>

fun enc :: "nat \<Rightarrow> bval \<Rightarrow> byte list"
  and enc_list :: "nat \<Rightarrow> bval list \<Rightarrow> byte list"
  and enc_fields :: "nat \<Rightarrow> (byte list \<times> bval) list \<Rightarrow> byte list" where
  "enc pos BNull = [kValueNull]"
| "enc pos (BBool v) = [if v then kValueTrue else kValueFalse]"
| "enc pos (BInt32 v) = kValueInt32 # le32 v"
| "enc pos (BInt64 v) = kValueInt64 # le64 v"
| "enc pos (BFloat64 v) = kValueFloat64 # replicate (pad_to 8 (Suc pos)) 0 @ le64 v"
| "enc pos (BString s) = kValueString # word_of_nat (length s) # s"
| "enc pos (BList vs) = kValueList # word_of_nat (length vs) # enc_list (pos + 2) vs"
| "enc pos (BMap kvs) = kValueMap # word_of_nat (length kvs) # enc_fields (pos + 2) kvs"
| "enc_list pos [] = []"
| "enc_list pos (v # vs) = (let bs = enc pos v in bs @ enc_list (pos + length bs) vs)"
| "enc_fields pos [] = []"
| "enc_fields pos ((k, v) # kvs) =
     (let ks = kValueString # word_of_nat (length k) # k; bs = enc (pos + length ks) v
      in ks @ bs @ enc_fields (pos + length ks + length bs) kvs)"

fun small :: "bval \<Rightarrow> bool"
  and smalls :: "bval list \<Rightarrow> bool"
  and small_fields :: "(byte list \<times> bval) list \<Rightarrow> bool" where
  "small (BString s) = (length s < 254)"
| "small (BList vs) = (length vs < 254 \<and> smalls vs)"
| "small (BMap kvs) = (length kvs < 254 \<and> small_fields kvs)"
| "small _ = True"
| "smalls [] = True"
| "smalls (v # vs) = (small v \<and> smalls vs)"
| "small_fields [] = True"
| "small_fields ((k, v) # kvs) = (length k < 254 \<and> small v \<and> small_fields kvs)"

text \<open>No boolean anywhere: the builder does not count those.\<close>

fun no_bool :: "bval \<Rightarrow> bool"
  and no_bools :: "bval list \<Rightarrow> bool"
  and no_bool_fields :: "(byte list \<times> bval) list \<Rightarrow> bool" where
  "no_bool (BBool v) = False"
| "no_bool (BList vs) = no_bools vs"
| "no_bool (BMap kvs) = no_bool_fields kvs"
| "no_bool _ = True"
| "no_bools [] = True"
| "no_bools (v # vs) = (no_bool v \<and> no_bools vs)"
| "no_bool_fields [] = True"
| "no_bool_fields ((k, v) # kvs) = (no_bool v \<and> no_bool_fields kvs)"

section \<open>Every push appends the encoding\<close>

text \<open>
  \<open>appended\<close> relates a builder before and after: \<open>xs\<close> was appended to the bytes \<open>bs\<close>,
  the nesting level is back where it was, and, if \<open>counts\<close> holds, \<open>n\<close> values were counted
  and nothing was logged.
\<close>

definition appended :: "byte list \<Rightarrow> byte list \<Rightarrow> bool \<Rightarrow> nat \<Rightarrow> builder \<Rightarrow> builder \<Rightarrow> bool" where
  "appended bs xs counts n b b' \<longleftrightarrow>
     fits (snd b') (bs @ xs) 0 \<and> current_level (snd b') = current_level (snd b) \<and>
     seg_level (fst b') = seg_level (fst b) \<and> seg_size (fst b') = seg_size (fst b) \<and>
     (counts \<longrightarrow> errors (snd b') = errors (snd b) \<and>
        seg_written (fst b') = seg_written (fst b) + word_of_nat n)"

lemma appended_trans:
  "appended bs xs c n b b' \<Longrightarrow> appended (bs @ xs) ys c' n' b' b'' \<Longrightarrow>
     appended bs (xs @ ys) (c \<and> c') (n + n') b b''"
  by (simp add: appended_def add.assoc)

lemma appended_next:
  "appended bs xs c n b b' \<Longrightarrow> seg_level (fst b) = current_level (snd b) \<Longrightarrow>
     fits (snd b') (bs @ xs) 0 \<and> seg_level (fst b') = current_level (snd b')"
  by (simp add: appended_def)

lemma appended_refl: "fits (snd b) bs 0 \<Longrightarrow> appended bs [] True 0 b b"
  by (simp add: appended_def)

lemma count_written_simps [simp]:
  "seg_size (count_written seg) = seg_size seg" "seg_level (count_written seg) = seg_level seg"
  "seg_written (count_written seg) = seg_written seg + 1"
  by (simp_all add: count_written_def)

lemma push_null_appended:
  "fits st bs 0 \<Longrightarrow> seg_level seg = current_level st \<Longrightarrow>
     appended bs [kValueNull] True 1 (seg, st) (push_null (seg, st))"
  by (simp add: appended_def fits_push_byte fits_reserve)

lemma push_bool_appended:
  "fits st bs 0 \<Longrightarrow> seg_level seg = current_level st \<Longrightarrow>
     appended bs [if v then kValueTrue else kValueFalse] False 1 (seg, st) (push_bool v (seg, st))"
  by (simp add: appended_def fits_push_byte fits_reserve)

lemma fits_tag_bytes:
  "fits st bs (length xs + 1) \<Longrightarrow> fits (push_bytes xs (push_byte t st)) (bs @ t # xs) 0"
  using fits_push_bytes [of "push_byte t st" "bs @ [t]" xs 0] fits_push_byte [of st bs "length xs" t]
  by simp

lemma push_int32_appended:
  "fits st bs 0 \<Longrightarrow> seg_level seg = current_level st \<Longrightarrow>
     appended bs (kValueInt32 # le32 v) True 1 (seg, st) (push_int32 v (seg, st))"
  by (simp add: appended_def fits_tag_bytes fits_reserve)

lemma push_int64_appended:
  "fits st bs 0 \<Longrightarrow> seg_level seg = current_level st \<Longrightarrow>
     appended bs (kValueInt64 # le64 v) True 1 (seg, st) (push_int64 v (seg, st))"
  by (simp add: appended_def fits_tag_bytes fits_reserve)

lemma push_float64_appended:
  assumes "fits st bs 0" and "seg_level seg = current_level st"
  shows "appended bs (kValueFloat64 # replicate (pad_to 8 (Suc (length bs))) 0 @ le64 v) True 1
    (seg, st) (push_float64 v (seg, st))"
proof -
  let ?p = "pad_to 8 (Suc (length bs))"
  have "fits (reserve 17 st) bs 17" using assms(1) by (rule fits_reserve)
  then have "fits (reserve 17 st) bs (Suc (?p + 8))"
    by (rule fits_mono) (use pad_to_lt [of 8 "Suc (length bs)"] in simp)
  then have "fits (push_byte kValueFloat64 (reserve 17 st)) (bs @ [kValueFloat64]) (?p + 8)"
    by (rule fits_push_byte)
  then have "fits (write_align_to 8 (push_byte kValueFloat64 (reserve 17 st)))
      ((bs @ [kValueFloat64]) @ replicate ?p 0) 8"
    using fits_write_align_to [of "push_byte kValueFloat64 (reserve 17 st)" "bs @ [kValueFloat64]" 8 8]
    by simp
  then have "fits (push_bytes (le64 v) (write_align_to 8 (push_byte kValueFloat64 (reserve 17 st))))
      (bs @ kValueFloat64 # replicate ?p 0 @ le64 v) 0"
    using fits_push_bytes [of _ _ "le64 v" 0] by fastforce
  with assms(2) show ?thesis by (simp add: appended_def)
qed

lemma fits_header:
  assumes "n < 254" and "fits st bs (Suc (Suc k))"
  shows "fits (write_size_len n (push_byte t st)) (bs @ [t, word_of_nat n]) k"
  using fits_write_size_small [OF assms(1) fits_push_byte [OF assms(2), of t]] by simp

lemma push_string_appended:
  assumes "fits st bs 0" and "seg_level seg = current_level st" and "length s < 254"
  shows "appended bs (kValueString # word_of_nat (length s) # s) True 1
    (seg, st) (push_string s (seg, st))"
proof -
  have "fits (reserve (2 + length s) st) bs (Suc (Suc (length s)))"
    using fits_reserve [OF assms(1), of "2 + length s"] by simp
  from fits_header [OF assms(3) this]
  have "fits (push_bytes s (write_size_len (length s) (push_byte kValueString
      (reserve (2 + length s) st)))) (bs @ kValueString # word_of_nat (length s) # s) 0"
    using fits_push_bytes [of _ "bs @ [kValueString, word_of_nat (length s)]" s 0] by simp
  with assms(2,3) show ?thesis by (simp add: appended_def Let_def)
qed

text \<open>Opening a container, then closing it after its elements were pushed into it.\<close>

lemma push_list_open:
  assumes "fits st bs 0" and "seg_level seg = current_level st" and "n < 254"
    and "push_list n (seg, st) = (sub, seg', st')"
  shows "fits st' (bs @ [kValueList, word_of_nat n]) 0 \<and> current_level st' = current_level st + 1
    \<and> errors st' = errors st \<and> seg' = count_written seg
    \<and> sub = \<lparr>seg_size = word_of_nat n, seg_written = 0, seg_level = current_level st + 1\<rparr>"
  using assms fits_header [OF assms(3) fits_mono [OF fits_reserve [OF assms(1), of 2]], of 0 kValueList]
  by (auto simp: Let_def numeral_2_eq_2)

lemma push_map_open:
  assumes "fits st bs 0" and "seg_level seg = current_level st" and "n < 254"
    and "push_map n (seg, st) = (sub, seg', st')"
  shows "fits st' (bs @ [kValueMap, word_of_nat n]) 0 \<and> current_level st' = current_level st + 1
    \<and> errors st' = errors st \<and> seg' = count_written seg
    \<and> sub = \<lparr>seg_size = word_of_nat (n * 2), seg_written = 0, seg_level = current_level st + 1\<rparr>"
  using assms fits_header [OF assms(3) fits_mono [OF fits_reserve [OF assms(1), of 2]], of 0 kValueMap]
  by (auto simp: Let_def numeral_2_eq_2)

declare push_null.simps [simp del] push_bool.simps [simp del] push_int32.simps [simp del]
  push_int64.simps [simp del] push_float64.simps [simp del] push_string.simps [simp del]
  push_list.simps [simp del] push_map.simps [simp del]

lemma close_container:
  assumes "appended (bs @ hdr) xs c n (sub, st1) (sub', st2)"
    and "current_level st1 = current_level st + 1" and "errors st1 = errors st"
    and "sub = \<lparr>seg_size = word_of_nat n, seg_written = 0, seg_level = current_level st + 1\<rparr>"
  shows "appended bs (hdr @ xs) c 1 (seg, st) (count_written seg, segment_finish sub' st2)"
  using assms by (auto simp: appended_def segment_finish_def Let_def)

theorem push_bval_appended:
  "fits (snd b) bs 0 \<Longrightarrow> seg_level (fst b) = current_level (snd b) \<Longrightarrow> small v \<Longrightarrow>
     appended bs (enc (length bs) v) (no_bool v) 1 b (push_bval v b)"
  and push_bvals_appended:
  "fits (snd b) bs 0 \<Longrightarrow> seg_level (fst b) = current_level (snd b) \<Longrightarrow> smalls vs \<Longrightarrow>
     appended bs (enc_list (length bs) vs) (no_bools vs) (length vs) b (push_bvals vs b)"
  and push_fields_appended:
  "fits (snd b) bs 0 \<Longrightarrow> seg_level (fst b) = current_level (snd b) \<Longrightarrow> small_fields kvs \<Longrightarrow>
     appended bs (enc_fields (length bs) kvs) (no_bool_fields kvs) (length kvs * 2) b (push_fields kvs b)"
proof (induction v b and vs b and kvs b arbitrary: bs and bs and bs
    rule: push_bval_push_bvals_push_fields.induct)
  case (7 vs b)
  obtain seg st where b: "b = (seg, st)" by (cases b)
  obtain sub seg' st1 where o: "push_list (length vs) (seg, st) = (sub, seg', st1)"
    by (metis prod_cases3)
  obtain sub' st2 where r: "push_bvals vs (sub, st1) = (sub', st2)"
    by (cases "push_bvals vs (sub, st1)")
  have O: "fits st1 (bs @ [kValueList, word_of_nat (length vs)]) 0
      \<and> current_level st1 = current_level st + 1 \<and> errors st1 = errors st
      \<and> seg' = count_written seg
      \<and> sub = \<lparr>seg_size = word_of_nat (length vs), seg_written = 0, seg_level = current_level st + 1\<rparr>"
    by (rule push_list_open) (use "7.prems" o b in simp_all)
  have "appended (bs @ [kValueList, word_of_nat (length vs)])
      (enc_list (length (bs @ [kValueList, word_of_nat (length vs)])) vs) (no_bools vs) (length vs)
      (sub, st1) (push_bvals vs (sub, st1))"
    by (rule "7.IH") (use o b O "7.prems" in auto)
  then show ?case
    using close_container [of bs "[kValueList, word_of_nat (length vs)]" _ "no_bools vs" "length vs"
        sub st1 sub' st2 st seg] O o b r
    by simp
next
  case (8 kvs b)
  obtain seg st where b: "b = (seg, st)" by (cases b)
  obtain sub seg' st1 where o: "push_map (length kvs) (seg, st) = (sub, seg', st1)"
    by (metis prod_cases3)
  obtain sub' st2 where r: "push_fields kvs (sub, st1) = (sub', st2)"
    by (cases "push_fields kvs (sub, st1)")
  have O: "fits st1 (bs @ [kValueMap, word_of_nat (length kvs)]) 0
      \<and> current_level st1 = current_level st + 1 \<and> errors st1 = errors st
      \<and> seg' = count_written seg
      \<and> sub = \<lparr>seg_size = word_of_nat (length kvs * 2), seg_written = 0,
               seg_level = current_level st + 1\<rparr>"
    by (rule push_map_open) (use "8.prems" o b in simp_all)
  have "appended (bs @ [kValueMap, word_of_nat (length kvs)])
      (enc_fields (length (bs @ [kValueMap, word_of_nat (length kvs)])) kvs) (no_bool_fields kvs)
      (length kvs * 2) (sub, st1) (push_fields kvs (sub, st1))"
    by (rule "8.IH") (use o b O "8.prems" in auto)
  then show ?case
    using close_container [of bs "[kValueMap, word_of_nat (length kvs)]" _ "no_bool_fields kvs"
        "length kvs * 2" sub st1 sub' st2 st seg] O o b r
    by simp
next
  case (10 v vs b)
  have 1: "appended bs (enc (length bs) v) (no_bool v) 1 b (push_bval v b)"
    using "10.IH"(1) "10.prems" by simp
  have 2: "appended (bs @ enc (length bs) v) (enc_list (length (bs @ enc (length bs) v)) vs)
      (no_bools vs) (length vs) (push_bval v b) (push_bvals vs (push_bval v b))"
    by (rule "10.IH"(2)) (use appended_next [OF 1] "10.prems" in auto)
  from appended_trans [OF 1 2] show ?case by (simp add: Let_def)
next
  case (12 k v kvs b)
  let ?ks = "kValueString # word_of_nat (length k) # k"
  have 1: "appended bs ?ks True 1 b (push_string k b)"
    using push_string_appended [of "snd b" bs "fst b" k] "12.prems" by simp
  have 2: "appended (bs @ ?ks) (enc (length (bs @ ?ks)) v) (no_bool v) 1
      (push_string k b) (push_bval v (push_string k b))"
    by (rule "12.IH"(1)) (use appended_next [OF 1] "12.prems" in auto)
  have l: "seg_level (fst (push_string k b)) = current_level (snd (push_string k b))"
    using appended_next [OF 1] "12.prems" by blast
  have 3: "appended ((bs @ ?ks) @ enc (length (bs @ ?ks)) v)
      (enc_fields (length ((bs @ ?ks) @ enc (length (bs @ ?ks)) v)) kvs)
      (no_bool_fields kvs) (length kvs * 2)
      (push_bval v (push_string k b)) (push_fields kvs (push_bval v (push_string k b)))"
    by (rule "12.IH"(2)) (use appended_next [OF 2 l] "12.prems" in auto)
  from appended_trans [OF 1 appended_trans [OF 2 3]] show ?case by (simp add: Let_def add.assoc)
qed (auto simp del: One_nat_def simp: push_null_appended push_bool_appended [where v = True, simplified]
      push_bool_appended [where v = False, simplified] push_int32_appended
      push_int64_appended push_float64_appended push_string_appended appended_refl split: prod.split)

section \<open>Method-call messages\<close>

text \<open>
  Every message to Dart is two values: the method name pushed into a first top-level
  segment, which is finished, then the argument pushed into a second one.
\<close>

definition method_call :: "byte list \<Rightarrow> (builder \<Rightarrow> builder) \<Rightarrow> message_builder_state" where
  "method_call name push_arg =
     (let (seg1, st1) = push_string name (new_segment message_builder_new);
          (seg2, st2) = push_arg (new_segment (segment_finish seg1 st1))
      in segment_finish seg2 st2)"

text \<open>
  The argument of all but one sender: \<open>message_builder_segment_push_map\<close> with a literal
  count, the fields one after the other, and the finish of the map segment.
\<close>

definition push_map_arg :: "nat \<Rightarrow> (byte list \<times> bval) list \<Rightarrow> builder \<Rightarrow> builder" where
  "push_map_arg n kvs b =
     (let (sub, seg, st) = push_map n b; (sub', st') = push_fields kvs (sub, st)
      in (seg, segment_finish sub' st'))"

lemma push_map_arg_exact: "push_map_arg (length kvs) kvs b = push_bval (BMap kvs) b"
  by (simp add: push_map_arg_def Let_def split_beta)

lemma fits_new_segment: "fits (snd (new_segment st)) bs k = fits st bs k"
  by (simp add: new_segment_def)

lemma new_segment_simps [simp]:
  "seg_level (fst (new_segment st)) = 1" "current_level (snd (new_segment st)) = 1"
  "seg_size (fst (new_segment st)) = 1" "seg_written (fst (new_segment st)) = 0"
  "errors (snd (new_segment st)) = errors st"
  by (simp_all add: new_segment_def)

lemma method_call_appended:
  assumes name: "length name < 254" and v: "small v"
  shows "message_builder_finish (method_call name (push_bval v))
      = map Some (enc 0 (BString name) @ enc (2 + length name) v)
    \<and> (no_bool v \<longrightarrow> errors (method_call name (push_bval v)) = [])
    \<and> \<not> overflow (method_call name (push_bval v))"
proof -
  let ?b0 = "new_segment message_builder_new"
  obtain seg1 st1 where p: "push_string name ?b0 = (seg1, st1)" by (cases "push_string name ?b0")
  have 1: "appended [] (enc 0 (BString name)) True 1 ?b0 (seg1, st1)"
    using push_bval_appended [of ?b0 "[]" "BString name"] name fits_mono [OF fits_new, of 0]
    by (simp add: fits_new_segment p)
  let ?b1 = "new_segment (segment_finish seg1 st1)"
  have e1: "errors (segment_finish seg1 st1) = []"
    using 1 by (simp add: appended_def segment_finish_def message_builder_new_def)
  obtain seg2 st2 where q: "push_bval v ?b1 = (seg2, st2)" by (cases "push_bval v ?b1")
  have "fits (snd ?b1) (enc 0 (BString name)) 0"
    using 1 by (simp add: appended_def fits_new_segment)
  then have 2: "appended (enc 0 (BString name)) (enc (2 + length name) v) (no_bool v) 1 ?b1 (seg2, st2)"
    using push_bval_appended [of ?b1 "enc 0 (BString name)" v] v by (simp add: q)
  have fin: "fits (segment_finish seg2 st2) (enc 0 (BString name) @ enc (2 + length name) v) 0"
    using 2 by (simp add: appended_def)
  moreover have "no_bool v \<longrightarrow> errors (segment_finish seg2 st2) = []"
    using 2 e1 by (simp add: appended_def segment_finish_def)
  moreover have "method_call name (push_bval v) = segment_finish seg2 st2"
    by (simp add: method_call_def p q)
  ultimately show ?thesis
    using fits_finish [OF fin] by (simp add: fits_def builder_ok_def)
qed

text \<open>
  C2: for a method name and an argument whose strings, lists and maps are all shorter than 254
  (and without booleans), the builder's protocol produces a message in which every byte was
  written, equal to the standard encoding of the name followed by that of the argument; no
  store leaves the buffer, and neither the level check nor the completeness check of a segment
  reports anything.
\<close>
theorem builder_writes_standard_encoding:
  assumes "length name < 254" and "small v" and "no_bool v"
  shows "message_builder_finish (method_call name (push_bval v))
      = map Some (enc 0 (BString name) @ enc (2 + length name) v)
    \<and> errors (method_call name (push_bval v)) = []
    \<and> \<not> overflow (method_call name (push_bval v))"
  using method_call_appended [OF assms(1,2)] assms(3) by simp

theorem builder_writes_standard_encoding_witness:
  "message_builder_finish (method_call [97] (push_bval (BMap [([98], BInt64 5), ([99], BFloat64 0)])))
      = map Some (enc 0 (BString [97]) @ enc 3 (BMap [([98], BInt64 5), ([99], BFloat64 0)]))
    \<and> errors (method_call [97] (push_bval (BMap [([98], BInt64 5), ([99], BFloat64 0)]))) = []"
  using builder_writes_standard_encoding [of "[97]" "BMap [([98], BInt64 5), ([99], BFloat64 0)]"]
  by simp

section \<open>Lengths that need a prefix\<close>

text \<open>
  With a string of 254 to 65535 bytes, \<open>WRITE_SIZE_LEN\<close> writes the 16-bit length over the
  first two bytes of the message and skips two bytes that stay indeterminate.
\<close>

lemma put_at_in:
  "i + length bs \<le> buffer_capacity st \<Longrightarrow>
     buffer (put_at i bs st) = take i (buffer st) @ map Some bs @ drop (i + length bs) (buffer st)"
  by (simp add: put_at_def)

lemma frame_caps [simp]:
  "buffer_capacity (put_at i bs st) = buffer_capacity st" "buffer_len (put_at i bs st) = buffer_len st"
  "buffer_capacity (advance n st) = buffer_capacity st" "buffer (advance n st) = buffer st"
  "buffer_len (advance n st) = buffer_len st + n"
  "buffer_capacity (assert_level seg st) = buffer_capacity st"
  "buffer_len (assert_level seg st) = buffer_len st" "buffer (assert_level seg st) = buffer st"
  by (simp_all add: put_at_def advance_def assert_level_def)

lemma length_put_at: "length (buffer st) = buffer_capacity st \<Longrightarrow> length (buffer (put_at i bs st)) = buffer_capacity st"
  by (simp add: put_at_def)

text \<open>
  C25: pushing a string of 254 to 65535 bytes as the first value of a message does not produce
  its encoding: the tag byte is overwritten by the low byte of the length, and the two bytes
  that should hold the length are never written.
\<close>
theorem long_string_corrupts_message:
  assumes "254 \<le> length s" and "length s \<le> 65535"
  shows "let msg = message_builder_finish (snd (push_string s (new_segment message_builder_new)))
    in msg ! 0 = Some (word_of_nat (length s mod 256)) \<and> msg ! 2 = None \<and> msg ! 3 = None
      \<and> length msg = 4 + length s"
proof -
  let ?n = "length s"
  define R where "R = reserve (1 + 3 + ?n) (snd (new_segment message_builder_new))"
  define C where "C = buffer_capacity R"
  have lvl: "assert_level (fst (new_segment message_builder_new))
      (snd (new_segment message_builder_new)) = snd (new_segment message_builder_new)"
    by simp
  have r: "buffer R = replicate C None \<and> buffer_len R = 0 \<and> buffer_capacity R = C \<and> 4 + ?n \<le> C"
    by (auto simp: C_def R_def reserve_def message_builder_new_def new_segment_def
        growth_strategy_def Let_def replicate_add [symmetric])
  define A where "A = push_byte kValueString R"
  define B where "B = push_byte 254 A"
  define D where "D = advance 2 (put_at 0 (le_enc 2 ?n) B)"
  have C: "4 + ?n \<le> C" using r by simp
  have a: "buffer A = Some kValueString # replicate (C - 1) None \<and> buffer_len A = 1 \<and> buffer_capacity A = C"
    using r by (simp add: A_def push_byte_def put_at_in)
  have b: "buffer B = Some kValueString # Some 254 # replicate (C - 2) None \<and> buffer_len B = 2 \<and> buffer_capacity B = C"
    using a C by (simp add: B_def push_byte_def put_at_in numeral_2_eq_2 take_Cons' drop_Cons')
  have c: "buffer D = map Some (le_enc 2 ?n) @ replicate (C - 2) None \<and> buffer_len D = 4 \<and> buffer_capacity D = C"
    using b C by (simp add: D_def put_at_in numeral_2_eq_2)
  let ?d = "push_bytes s D"
  have d: "buffer ?d = take 4 (buffer D) @ map Some s @ drop (4 + ?n) (buffer D) \<and> buffer_len ?d = 4 + ?n"
    using c C put_at_in [of "buffer_len D" s D] by (simp add: push_bytes_def)
  have t4: "take 4 (buffer D) = map Some (le_enc 2 ?n) @ [None, None]"
  proof -
    have "take 4 (buffer D) = map Some (le_enc 2 ?n) @ take 2 (replicate (C - 2) None)"
      using c by simp
    also have "take 2 (replicate (C - 2) (None :: byte option)) = replicate 2 None"
      using C by (simp add: min_def)
    finally show ?thesis by (simp add: numeral_2_eq_2)
  qed
  have st: "snd (push_string s (new_segment message_builder_new)) = ?d"
    using assms lvl by (simp add: push_string.simps Let_def write_size_len_def calc_size_len_def
        new_segment_def R_def A_def B_def D_def)
  have m: "message_builder_finish ?d = map Some (le_enc 2 ?n) @ None # None # map Some s"
    using d t4 by (simp add: message_builder_finish_def)
  have l2: "le_enc 2 ?n = [word_of_nat (?n mod 256), word_of_nat (?n div 256 mod 256)]"
    by (simp add: numeral_2_eq_2)
  show ?thesis
    by (simp add: st m Let_def l2 nth_Cons')
qed

theorem long_string_corrupts_message_witness:
  "let msg = message_builder_finish
       (snd (push_string (replicate 300 97) (new_segment message_builder_new)))
   in msg ! 0 = Some 44 \<and> msg ! 2 = None"
  using long_string_corrupts_message [of "replicate 300 97"] by (simp add: Let_def)

end
