(* ===== verification/MessageReader.thy ===== *)
theory MessageReader
  imports MessageBuilder
begin

text \<open>
  The reading half of \<open>src/standard_message_codec.c\<close>: \<open>message_read\<close> decodes one value of a
  platform message into a \<open>dart_value\<close>. Fuel bounds the nesting depth of the recursion only;
  \<open>message_read\<close> starts it with one more than the bytes left, and
  the termination theorem below shows that this is enough on every input. \<open>malloc\<close> is taken to
  succeed. When the function returns false its callers read neither \<open>*offset\<close> nor
  \<open>*out\<close>, so false carries nothing.
\<close>

section \<open>Decoded values\<close>

text \<open>
  A list keeps the \<open>length\<close> field of \<open>struct dart_list\<close> beside its values, because a map is
  decoded into a list whose \<open>length\<close> is the number of pairs.
\<close>

datatype dart_value =
    DvNull
  | DvBool bool
  | DvInteger u64
  | DvFloat64 u64
  | DvString "byte list"
  | DvU8List "byte list"
  | DvInt32List "u32 list"
  | DvInt64List "u64 list"
  | DvFloat32List "u32 list"
  | DvFloat64List "u64 list"
  | DvList nat "dart_value list"
  | DvMap nat "dart_value list"

datatype 'a read = ReadOk 'a nat | ReadFalse | NoFuel

section \<open>The macros\<close>

text \<open>\<open>REQUIRE_DATA(n)\<close> holds when the function goes on.\<close>

definition require_data :: "byte list \<Rightarrow> nat \<Rightarrow> nat \<Rightarrow> bool" where
  "require_data buf off n \<longleftrightarrow> \<not> length buf - off < n"

definition bytes_at :: "byte list \<Rightarrow> nat \<Rightarrow> nat \<Rightarrow> byte list" where
  "bytes_at buf off n = take n (drop off buf)"

definition read_length :: "byte list \<Rightarrow> nat \<Rightarrow> (nat \<times> nat) option" where
  "read_length buf off =
     (if \<not> require_data buf off 1 then None
      else let first = buf ! off; off1 = off + 1
           in if first = 255 then
                (if \<not> require_data buf off1 4 then None
                 else Some (le_dec (bytes_at buf off1 4), off1 + 4))
              else if first = 254 then
                (if \<not> require_data buf off1 2 then None
                 else Some (le_dec (bytes_at buf off1 2), off1 + 2))
              else Some (unat first, off1))"

definition read_align_to :: "nat \<Rightarrow> byte list \<Rightarrow> nat \<Rightarrow> nat option" where
  "read_align_to n buf off =
     (let m = off mod n
      in if m \<noteq> 0 then (if \<not> require_data buf off (n - m) then None else Some (off + (n - m)))
         else Some off)"

section \<open>\<open>message_read\<close>\<close>

text \<open>The cases of the \<open>switch\<close> that do not recurse, and the error after it.\<close>

definition read_scalar :: "byte \<Rightarrow> byte list \<Rightarrow> nat \<Rightarrow> dart_value read" where
  "read_scalar type buf off =
     (if type = kValueNull then ReadOk DvNull off
      else if type = kValueTrue \<or> type = kValueFalse then ReadOk (DvBool (type = kValueTrue)) off
      else if type = kValueInt32 then
        (if \<not> require_data buf off 4 then ReadFalse
         else ReadOk (DvInteger (ucast (rd32 (bytes_at buf off 4)))) (off + 4))
      else if type = kValueInt64 then
        (if \<not> require_data buf off 8 then ReadFalse
         else ReadOk (DvInteger (rd64 (bytes_at buf off 8))) (off + 8))
      else if type = kValueFloat64 then
        (case read_align_to 8 buf off of
           None \<Rightarrow> ReadFalse
         | Some off1 \<Rightarrow>
             if \<not> require_data buf off1 8 then ReadFalse
             else ReadOk (DvFloat64 (rd64 (bytes_at buf off1 8))) (off1 + 8))
      else if type = kValueString then
        (case read_length buf off of
           None \<Rightarrow> ReadFalse
         | Some (s_len, off1) \<Rightarrow>
             if \<not> require_data buf off1 s_len then ReadFalse
             else ReadOk (DvString (bytes_at buf off1 s_len)) (off1 + s_len))
      else ReadFalse)"

text \<open>
  \<open>read_values\<close> is the loop over the elements of a list, and over the keys and values of a
  map one after the other.
\<close>

function (sequential) message_read_fuel :: "nat \<Rightarrow> byte list \<Rightarrow> nat \<Rightarrow> dart_value read"
  and read_values :: "nat \<Rightarrow> byte list \<Rightarrow> nat \<Rightarrow> nat \<Rightarrow> dart_value list read" where
  "message_read_fuel 0 buf off = NoFuel"
| "message_read_fuel (Suc fuel) buf off =
     (if \<not> require_data buf off 1 then ReadFalse
      else if buf ! off = kValueList then
        (case read_length buf (off + 1) of
           None \<Rightarrow> ReadFalse
         | Some (s_len, off1) \<Rightarrow>
             (case read_values fuel buf off1 s_len of
                ReadOk vs off2 \<Rightarrow> ReadOk (DvList s_len vs) off2
              | ReadFalse \<Rightarrow> ReadFalse
              | NoFuel \<Rightarrow> NoFuel))
      else if buf ! off = kValueMap then
        (case read_length buf (off + 1) of
           None \<Rightarrow> ReadFalse
         | Some (s_len, off1) \<Rightarrow>
             (case read_values fuel buf off1 (s_len * 2) of
                ReadOk vs off2 \<Rightarrow> ReadOk (DvList s_len vs) off2
              | ReadFalse \<Rightarrow> ReadFalse
              | NoFuel \<Rightarrow> NoFuel))
      else read_scalar (buf ! off) buf (off + 1))"
| "read_values fuel buf off 0 = ReadOk [] off"
| "read_values fuel buf off (Suc n) =
     (case message_read_fuel fuel buf off of
        ReadOk v off' \<Rightarrow>
          (case read_values fuel buf off' n of
             ReadOk vs off'' \<Rightarrow> ReadOk (v # vs) off''
           | ReadFalse \<Rightarrow> ReadFalse
           | NoFuel \<Rightarrow> NoFuel)
      | ReadFalse \<Rightarrow> ReadFalse
      | NoFuel \<Rightarrow> NoFuel)"
  by pat_completeness auto
termination
  by (relation "measures [\<lambda>x. case x of Inl (f, _, _) \<Rightarrow> f | Inr (f, _, _, _) \<Rightarrow> f,
                          \<lambda>x. case x of Inl _ \<Rightarrow> 0 | Inr (_, _, _, n) \<Rightarrow> Suc n]") auto

declare message_read_fuel.simps(2) [simp del]

definition message_read :: "byte list \<Rightarrow> nat \<Rightarrow> dart_value read" where
  "message_read buf off = message_read_fuel (Suc (length buf - off)) buf off"


section \<open>Bounds\<close>

lemma read_length_bounds:
  "read_length buf off = Some (n, off') \<Longrightarrow> off \<le> length buf \<Longrightarrow> off < off' \<and> off' \<le> length buf"
  by (auto simp: read_length_def require_data_def Let_def split: if_splits)

lemma read_align_bounds:
  "read_align_to n buf off = Some off' \<Longrightarrow> off \<le> length buf \<Longrightarrow> off \<le> off' \<and> off' \<le> length buf"
  by (auto simp: read_align_to_def require_data_def Let_def split: if_splits)

lemma require_data_iff: "off \<le> length buf \<Longrightarrow> require_data buf off n \<longleftrightarrow> off + n \<le> length buf"
  by (auto simp: require_data_def)

lemma read_scalar_bounds:
  "read_scalar t buf off = ReadOk v off' \<Longrightarrow> off \<le> length buf \<Longrightarrow> off \<le> off' \<and> off' \<le> length buf"
  by (auto simp: read_scalar_def require_data_iff split: if_splits option.splits
      dest: read_length_bounds read_align_bounds)

lemma read_scalar_fuel [simp]: "read_scalar t buf off \<noteq> NoFuel"
  by (auto simp: read_scalar_def split: option.splits)

lemma values_bounds_from:
  assumes "\<And>off v off'. message_read_fuel fuel buf off = ReadOk v off' \<Longrightarrow> off \<le> length buf \<Longrightarrow>
     off < off' \<and> off' \<le> length buf"
  shows "read_values fuel buf off n = ReadOk vs off' \<Longrightarrow> off \<le> length buf \<Longrightarrow>
     off \<le> off' \<and> off' \<le> length buf \<and> length vs = n"
proof (induction n arbitrary: off vs)
  case 0
  then show ?case by simp
next
  case (Suc n)
  then obtain v o1 vs' where 1: "message_read_fuel fuel buf off = ReadOk v o1"
    and 2: "read_values fuel buf o1 n = ReadOk vs' off'" and vs: "vs = v # vs'"
    by (auto split: read.splits)
  from assms [OF 1 Suc.prems(2)] Suc.IH [OF 2] vs show ?case by simp
qed

lemma read_bounds:
  "message_read_fuel fuel buf off = ReadOk v off' \<Longrightarrow> off \<le> length buf \<Longrightarrow>
     off < off' \<and> off' \<le> length buf"
proof (induction fuel arbitrary: off v off')
  case 0
  then show ?case by simp
next
  case (Suc fuel)
  have V: "o1 \<le> o2 \<and> o2 \<le> length buf"
    if "read_values fuel buf o1 m = ReadOk vs o2" "o1 \<le> length buf" for o1 m vs o2
    using values_bounds_from [OF _ that] Suc.IH by blast
  have lt: "off < length buf"
    using Suc.prems by (auto simp: message_read_fuel.simps(2) require_data_iff split: if_splits)
  consider "read_scalar (buf ! off) buf (off + 1) = ReadOk v off'"
    | n m o1 vs where "read_length buf (off + 1) = Some (n, o1)" "read_values fuel buf o1 m = ReadOk vs off'"
    using Suc.prems(1) by (auto simp: message_read_fuel.simps(2) split: if_splits option.splits read.splits)
  then show ?case
  proof cases
    case 1
    with lt read_scalar_bounds [OF 1] show ?thesis by simp
  next
    case 2
    with lt read_length_bounds [OF 2(1)] V [OF 2(2)] show ?thesis by simp
  qed
qed

lemma read_values_bounds:
  "read_values fuel buf off n = ReadOk vs off' \<Longrightarrow> off \<le> length buf \<Longrightarrow>
     off \<le> off' \<and> off' \<le> length buf \<and> length vs = n"
  using values_bounds_from [of fuel buf off n vs off'] read_bounds by blast

lemma values_enough_from:
  assumes "\<And>off. length buf - off < fuel \<Longrightarrow> off \<le> length buf \<Longrightarrow> message_read_fuel fuel buf off \<noteq> NoFuel"
  shows "length buf - off < fuel \<Longrightarrow> off \<le> length buf \<Longrightarrow> read_values fuel buf off n \<noteq> NoFuel"
proof (induction n arbitrary: off)
  case 0
  then show ?case by simp
next
  case (Suc n)
  show ?case
  proof (cases "message_read_fuel fuel buf off")
    case (ReadOk v off')
    have "read_values fuel buf off' n \<noteq> NoFuel"
      by (rule Suc.IH) (use read_bounds [OF ReadOk Suc.prems(2)] Suc.prems in auto)
    with ReadOk show ?thesis by (auto split: read.splits)
  next
    case NoFuel
    with assms [OF Suc.prems] show ?thesis by simp
  qed simp
qed

lemma read_enough:
  "length buf - off < fuel \<Longrightarrow> off \<le> length buf \<Longrightarrow> message_read_fuel fuel buf off \<noteq> NoFuel"
proof (induction fuel arbitrary: off)
  case 0
  then show ?case by simp
next
  case (Suc fuel)
  have V: "read_values fuel buf o1 n \<noteq> NoFuel" if "Suc off < o1" "o1 \<le> length buf" for o1 n
    by (rule values_enough_from [OF Suc.IH]) (use that Suc.prems in auto)
  show ?case
  proof (cases "off < length buf")
    case True
    then have L: "Suc off < o1 \<and> o1 \<le> length buf" if "read_length buf (Suc off) = Some (n, o1)" for n o1
      using read_length_bounds [OF that] by simp
    show ?thesis
      unfolding message_read_fuel.simps(2) Let_def
      by (auto split: option.splits read.splits dest!: L dest: V)
  next
    case False
    then show ?thesis by (simp add: message_read_fuel.simps(2) require_data_def)
  qed
qed

text \<open>
  C4: decoding a message stops on every input, whatever nesting or lengths its bytes claim,
  and a successful decode has consumed at least one byte and none beyond the end.
\<close>
theorem message_read_terminates:
  assumes "off \<le> length buf"
  shows "message_read buf off \<noteq> NoFuel \<and>
    (case message_read buf off of ReadOk v off' \<Rightarrow> off < off' \<and> off' \<le> length buf | _ \<Rightarrow> True)"
  using assms read_enough [of buf off] read_bounds [of _ buf off]
  by (auto simp: message_read_def split: read.splits)

theorem message_read_terminates_witness:
  "message_read [12, 2, 12, 1] 0 \<noteq> NoFuel"
  using message_read_terminates [of 0 "[12, 2, 12, 1]"] by simp


section \<open>Round trip with the builder\<close>

text \<open>
  The decoded form of an encoded value: a 32-bit integer comes back zero-extended, a map as a
  list of its keys and values whose \<open>length\<close> is the number of pairs.
\<close>

fun dv :: "bval \<Rightarrow> dart_value"
  and dvs :: "bval list \<Rightarrow> dart_value list"
  and dv_fields :: "(byte list \<times> bval) list \<Rightarrow> dart_value list" where
  "dv BNull = DvNull"
| "dv (BBool v) = DvBool v"
| "dv (BInt32 v) = DvInteger (ucast v)"
| "dv (BInt64 v) = DvInteger v"
| "dv (BFloat64 v) = DvFloat64 v"
| "dv (BString s) = DvString s"
| "dv (BList vs) = DvList (length vs) (dvs vs)"
| "dv (BMap kvs) = DvList (length kvs) (dv_fields kvs)"
| "dvs [] = []"
| "dvs (v # vs) = dv v # dvs vs"
| "dv_fields [] = []"
| "dv_fields ((k, v) # kvs) = DvString k # dv v # dv_fields kvs"

lemma drop_ConsD:
  "drop off buf = x # r \<Longrightarrow> off < length buf \<and> buf ! off = x \<and> drop (Suc off) buf = r"
  by (metis drop_eq_Nil2 drop_Suc linorder_not_less list.distinct(1) list.sel(3) nth_via_drop tl_drop)

lemma drop_appendD:
  assumes "drop off buf = xs @ r" and "off \<le> length buf"
  shows "off + length xs \<le> length buf \<and> bytes_at buf off (length xs) = xs \<and> drop (off + length xs) buf = r"
proof -
  have "length buf - off = length xs + length r"
    using assms(1) by (metis length_append length_drop)
  then have "off + length xs \<le> length buf"
    using assms(2) by linarith
  moreover have "drop (off + length xs) buf = drop (length xs) (drop off buf)"
    by (simp add: add.commute)
  ultimately show ?thesis
    by (simp only: bytes_at_def assms(1)) simp
qed

lemma read_tag:
  assumes "drop off buf = t # r" and "t \<noteq> kValueList" and "t \<noteq> kValueMap"
  shows "message_read_fuel (Suc fuel) buf off = read_scalar t buf (Suc off)"
  using drop_ConsD [OF assms(1)] assms(2,3)
  by (simp add: message_read_fuel.simps(2) require_data_def)

lemma read_bytes_at:
  assumes "drop off buf = xs @ r" and "off \<le> length buf" and "length xs = n"
  shows "require_data buf off n \<and> bytes_at buf off n = xs"
  using drop_appendD [OF assms(1,2)] assms(3) by (simp add: require_data_iff assms(2))

lemma read_length_small:
  assumes "drop off buf = word_of_nat n # r" and "n < 254"
  shows "read_length buf off = Some (n, Suc off)"
proof -
  have "word_of_nat n \<noteq> (254 :: byte) \<and> word_of_nat n \<noteq> (255 :: byte) \<and> unat (word_of_nat n :: byte) = n"
  proof (intro conjI)
    show u: "unat (word_of_nat n :: byte) = n"
      using assms(2) by (simp add: unat_of_nat)
    show "word_of_nat n \<noteq> (254 :: byte)" and "word_of_nat n \<noteq> (255 :: byte)"
      using u assms(2) by auto
  qed
  with drop_ConsD [OF assms(1)] show ?thesis
    by (simp add: read_length_def require_data_def Let_def)
qed

lemma read_align_pad:
  assumes "drop off buf = replicate (pad_to 8 off) 0 @ r" and "off \<le> length buf"
  shows "read_align_to 8 buf off = Some (off + pad_to 8 off)"
  using drop_appendD [OF assms] assms(2)
  by (auto simp: read_align_to_def require_data_iff pad_to_def Let_def split: if_splits)

lemma kValue_neq [simp]:
  "kValueNull \<noteq> kValueList" "kValueTrue \<noteq> kValueList" "kValueFalse \<noteq> kValueList"
  "kValueInt32 \<noteq> kValueList" "kValueInt64 \<noteq> kValueList" "kValueFloat64 \<noteq> kValueList"
  "kValueString \<noteq> kValueList" "kValueMap \<noteq> kValueList"
  "kValueNull \<noteq> kValueMap" "kValueTrue \<noteq> kValueMap" "kValueFalse \<noteq> kValueMap"
  "kValueInt32 \<noteq> kValueMap" "kValueInt64 \<noteq> kValueMap" "kValueFloat64 \<noteq> kValueMap"
  "kValueString \<noteq> kValueMap"
  by (simp_all add: kValue_defs)

lemma read_scalar_tags [simp]:
  "read_scalar kValueNull buf off = ReadOk DvNull off"
  "read_scalar kValueTrue buf off = ReadOk (DvBool True) off"
  "read_scalar kValueFalse buf off = ReadOk (DvBool False) off"
  by (simp_all add: read_scalar_def kValue_defs)

lemma read_scalar_fixed:
  assumes "drop off buf = xs @ r" and "off \<le> length buf"
  shows "length xs = 4 \<Longrightarrow> read_scalar kValueInt32 buf off = ReadOk (DvInteger (ucast (rd32 xs))) (off + 4)"
    and "length xs = 8 \<Longrightarrow> read_scalar kValueInt64 buf off = ReadOk (DvInteger (rd64 xs)) (off + 8)"
  using read_bytes_at [OF assms] by (simp_all add: read_scalar_def kValue_defs)

lemma read_scalar_float:
  assumes "drop off buf = replicate (pad_to 8 off) 0 @ le64 w @ r" and "off \<le> length buf"
  shows "read_scalar kValueFloat64 buf off = ReadOk (DvFloat64 w) (off + pad_to 8 off + 8)"
proof -
  have 1: "drop (off + pad_to 8 off) buf = le64 w @ r" "off + pad_to 8 off \<le> length buf"
    using drop_appendD [OF assms] by simp_all
  show ?thesis
    using read_align_pad [OF assms] read_bytes_at [OF 1] by (simp add: read_scalar_def kValue_defs)
qed

lemma read_scalar_string:
  assumes "drop off buf = word_of_nat (length s) # s @ r" and "length s < 254"
  shows "read_scalar kValueString buf off = ReadOk (DvString s) (Suc off + length s)"
proof -
  have 1: "drop (Suc off) buf = s @ r" "Suc off \<le> length buf"
    using drop_ConsD [OF assms(1)] by simp_all
  show ?thesis
    using read_length_small [OF assms] read_bytes_at [OF 1]
    by (simp add: read_scalar_def kValue_defs)
qed

lemma read_container:
  assumes "drop off buf = t # word_of_nat n # r" and "n < 254"
    and "(t = kValueList \<and> m = n) \<or> (t = kValueMap \<and> m = n * 2)"
    and "read_values fuel buf (off + 2) m = ReadOk vs off'"
  shows "message_read_fuel (Suc fuel) buf off = ReadOk (DvList n vs) off'"
proof -
  have d: "buf ! off = t" "off < length buf" "drop (Suc off) buf = word_of_nat n # r"
    using drop_ConsD [OF assms(1)] by simp_all
  show ?thesis
    using d read_length_small [OF d(3) assms(2)] assms(3,4)
    by (auto simp: message_read_fuel.simps(2) require_data_def)
qed

lemma enc_nonempty: "0 < length (enc pos v)"
  by (cases v) (auto simp: Let_def)

lemma read_enc:
  "drop off buf = enc off v @ r \<Longrightarrow> small v \<Longrightarrow> length (enc off v) \<le> fuel \<Longrightarrow>
     message_read_fuel fuel buf off = ReadOk (dv v) (off + length (enc off v))"
  and read_enc_list:
  "drop off buf = enc_list off vs @ r \<Longrightarrow> smalls vs \<Longrightarrow> length (enc_list off vs) \<le> fuel \<Longrightarrow>
     off \<le> length buf \<Longrightarrow>
     read_values fuel buf off (length vs) = ReadOk (dvs vs) (off + length (enc_list off vs))"
  and read_enc_fields:
  "drop off buf = enc_fields off kvs @ r \<Longrightarrow> small_fields kvs \<Longrightarrow> length (enc_fields off kvs) \<le> fuel \<Longrightarrow>
     off \<le> length buf \<Longrightarrow>
     read_values fuel buf off (length kvs * 2) = ReadOk (dv_fields kvs) (off + length (enc_fields off kvs))"
proof (induction off v and off vs and off kvs arbitrary: fuel r and fuel r and fuel r
    rule: enc_enc_list_enc_fields.induct)
  case (1 pos)
  then show ?case by (cases fuel) (auto simp: read_tag)
next
  case (2 pos v)
  then show ?case by (cases fuel) (auto simp: read_tag)
next
  case (3 pos v)
  then show ?case
    using read_scalar_fixed(1) [of "Suc pos" buf "le32 v" r] drop_ConsD [of pos buf]
    by (cases fuel) (auto simp: read_tag)
next
  case (4 pos v)
  then show ?case
    using read_scalar_fixed(2) [of "Suc pos" buf "le64 v" r] drop_ConsD [of pos buf]
    by (cases fuel) (auto simp: read_tag)
next
  case (5 pos v)
  then show ?case
    using read_scalar_float [of "Suc pos" buf v r] drop_ConsD [of pos buf]
    by (cases fuel) (auto simp: read_tag)
next
  case (6 pos s)
  then show ?case
    using read_scalar_string [of "Suc pos" buf s r] drop_ConsD [of pos buf]
    by (cases fuel) (auto simp: read_tag)
next
  case (7 pos vs)
  then obtain f where f: "fuel = Suc f" by (cases fuel) auto
  have d: "drop pos buf = kValueList # word_of_nat (length vs) # enc_list (pos + 2) vs @ r"
    using "7.prems" by simp
  have d2: "drop (pos + 2) buf = enc_list (pos + 2) vs @ r \<and> pos + 2 \<le> length buf"
    using drop_ConsD [OF conjunct2 [OF conjunct2 [OF drop_ConsD [OF d]]]] by simp
  have "read_values f buf (pos + 2) (length vs) = ReadOk (dvs vs) (pos + 2 + length (enc_list (pos + 2) vs))"
    using "7.IH" [of r f] d2 "7.prems" f by simp
  from read_container [OF d _ _ this] "7.prems" f show ?case by simp
next
  case (8 pos kvs)
  then obtain f where f: "fuel = Suc f" by (cases fuel) auto
  have d: "drop pos buf = kValueMap # word_of_nat (length kvs) # enc_fields (pos + 2) kvs @ r"
    using "8.prems" by simp
  have d2: "drop (pos + 2) buf = enc_fields (pos + 2) kvs @ r \<and> pos + 2 \<le> length buf"
    using drop_ConsD [OF conjunct2 [OF conjunct2 [OF drop_ConsD [OF d]]]] by simp
  have "read_values f buf (pos + 2) (length kvs * 2)
      = ReadOk (dv_fields kvs) (pos + 2 + length (enc_fields (pos + 2) kvs))"
    using "8.IH" [of r f] d2 "8.prems" f by simp
  from read_container [OF d _ _ this] "8.prems" f show ?case by simp
next
  case (9 pos)
  then show ?case by simp
next
  case (10 pos v vs)
  let ?e = "enc pos v" and ?p = "pos + length (enc pos v)"
  have d: "drop pos buf = ?e @ enc_list ?p vs @ r"
    using "10.prems" by (simp add: Let_def)
  have 1: "message_read_fuel fuel buf pos = ReadOk (dv v) ?p"
    using "10.IH"(1) [OF d] "10.prems" by (simp add: Let_def)
  have 2: "read_values fuel buf ?p (length vs) = ReadOk (dvs vs) (?p + length (enc_list ?p vs))"
    using "10.IH"(2) [OF refl, of r fuel] drop_appendD [OF d] "10.prems" by (simp add: Let_def)
  from 1 2 show ?case by (simp add: Let_def)
next
  case (11 pos)
  then show ?case by simp
next
  case (12 pos k v kvs)
  let ?ks = "kValueString # word_of_nat (length k) # k"
  let ?q = "pos + length ?ks"
  let ?p = "?q + length (enc ?q v)"
  have d: "drop pos buf = ?ks @ enc ?q v @ enc_fields ?p kvs @ r"
    using "12.prems"(1) by (simp add: Let_def add.assoc)
  obtain f where f: "fuel = Suc f" using "12.prems" by (cases fuel) (auto simp: Let_def)
  have d1: "drop (Suc pos) buf = word_of_nat (length k) # k @ enc ?q v @ enc_fields ?p kvs @ r"
    using drop_ConsD [of pos buf] d by simp
  have 0: "message_read_fuel fuel buf pos = ReadOk (DvString k) ?q"
    using read_tag [of pos buf kValueString] d read_scalar_string [OF d1] "12.prems" f by simp
  have d2: "drop ?q buf = enc ?q v @ enc_fields ?p kvs @ r" "?q \<le> length buf"
    using drop_appendD [OF d] "12.prems" by simp_all
  have 1: "message_read_fuel fuel buf ?q = ReadOk (dv v) ?p"
    using "12.IH"(1) [OF refl d2(1)] "12.prems" by (simp add: Let_def)
  have 2: "read_values fuel buf ?p (length kvs * 2) = ReadOk (dv_fields kvs) (?p + length (enc_fields ?p kvs))"
    using "12.IH"(2) [OF refl refl, of r fuel] drop_appendD [OF d2] "12.prems" by (simp add: Let_def)
  from 0 1 2 show ?case by (simp add: Let_def)
qed

text \<open>
  C1: when the method name and every string, list and map of the argument are shorter than 254, the
  message the builder writes for a method call is decoded by two calls of \<open>message_read\<close>, which return
  the name and the argument as the reader represents it and end exactly at the end of the message.
  That representation \<open>dv\<close> keeps nulls, booleans, 64-bit integers, doubles, strings and lists as they
  are; a 32-bit integer is widened without its sign, and a map is the list of its keys and values in
  turn. (The builder mangles longer strings.)
\<close>
theorem method_call_round_trip:
  assumes "length name < 254" and "small v"
  shows "\<exists>msg off. message_builder_finish (method_call name (push_bval v)) = map Some msg
    \<and> message_read msg 0 = ReadOk (DvString name) off
    \<and> message_read msg off = ReadOk (dv v) (length msg)"
proof -
  let ?n = "enc 0 (BString name)"
  let ?msg = "?n @ enc (2 + length name) v"
  have l: "length ?n = 2 + length name" by simp
  have 1: "message_read ?msg 0 = ReadOk (DvString name) (2 + length name)"
    using read_enc [of 0 ?msg "BString name" _ "Suc (length ?msg)"] assms(1)
    by (simp add: message_read_def)
  have d: "drop (2 + length name) ?msg = enc (2 + length name) v @ []" by simp
  have 2: "message_read ?msg (2 + length name) = ReadOk (dv v) (length ?msg)"
    using read_enc [OF d assms(2)] by (simp add: message_read_def)
  from 1 2 method_call_appended [OF assms] show ?thesis by blast
qed

theorem method_call_round_trip_witness:
  "\<exists>msg off. message_builder_finish (method_call [109] (push_bval (BMap [([97], BInt64 7), ([98], BBool True)]))) = map Some msg
    \<and> message_read msg 0 = ReadOk (DvString [109]) off
    \<and> message_read msg off = ReadOk (DvList 2 [DvString [97], DvInteger 7, DvString [98], DvBool True]) (length msg)"
  using method_call_round_trip [of "[109]" "BMap [([97], BInt64 7), ([98], BBool True)]"] by (simp add: numeral_2_eq_2)

text \<open>
  \<open>message_read\<close> decodes a 32-bit integer by zero extension, so a negative number, which
  Dart encodes in this form, is returned as a positive one.
\<close>
theorem negative_int32_read_as_positive:
  assumes "v <s (0 :: u32)"
  shows "\<exists>n. message_read (kValueInt32 # le32 v) 0 = ReadOk (DvInteger n) 5
    \<and> sint n = sint v + 2 ^ 32 \<and> 0 < sint n"
proof -
  have "message_read (kValueInt32 # le32 v) 0 = ReadOk (DvInteger (ucast v)) 5"
    using read_enc [of 0 "kValueInt32 # le32 v" "BInt32 v" "[]" "Suc 5"] by (simp add: message_read_def)
  moreover have "uint v < 2 ^ 32" using uint_lt2p [of v] by simp
  moreover have "sint v = uint v - 2 ^ 32"
    by (rule sint_negative) (use assms in \<open>simp add: word_sless_alt\<close>)
  moreover have "sint (ucast v :: u64) = uint v"
    by (rule sint_ucast_u64)
  ultimately show ?thesis
    using sint_ge [of v] by simp
qed

theorem negative_int32_read_as_positive_witness:
  "\<exists>n. message_read (kValueInt32 # le32 (- 1)) 0 = ReadOk (DvInteger n) 5 \<and> sint n = 4294967295"
  using negative_int32_read_as_positive [of "- 1"] by (auto simp: word_sless_alt)

end
