(* ===== verification/Messages.thy ===== *)
theory Messages
  imports MessageReader
begin

text \<open>
  \<open>src/messages.c\<close>: the decoders that turn the \<open>dart_value\<close> of a platform message into the
  C struct of the handler. \<open>DECODE\<close> checks the type of an element and assigns, so the
  conversion to a narrower field happens here. Callers do not read \<open>*out\<close> when a decoder
  returns false. Reading an element that is not in the values array is \<open>OutOfBounds\<close>;
  the section on bounds shows that no received message leads there.
\<close>

section \<open>The macro\<close>

datatype 'a decoded = Decoded 'a | Rejected | OutOfBounds

fun bind_d :: "'a decoded \<Rightarrow> ('a \<Rightarrow> 'b decoded) \<Rightarrow> 'b decoded" where
  "bind_d (Decoded x) f = f x"
| "bind_d Rejected f = Rejected"
| "bind_d OutOfBounds f = OutOfBounds"

definition decode_integer :: "dart_value list \<Rightarrow> nat \<Rightarrow> u64 decoded" where
  "decode_integer vs i =
     (if i < length vs then (case vs ! i of DvInteger n \<Rightarrow> Decoded n | _ \<Rightarrow> Rejected)
      else OutOfBounds)"

definition decode_float64 :: "dart_value list \<Rightarrow> nat \<Rightarrow> u64 decoded" where
  "decode_float64 vs i =
     (if i < length vs then (case vs ! i of DvFloat64 x \<Rightarrow> Decoded x | _ \<Rightarrow> Rejected)
      else OutOfBounds)"

text \<open>The checks that open every decoder: the value is a list and its \<open>length\<close> is \<open>n\<close>.\<close>

fun list_of_length :: "nat \<Rightarrow> dart_value \<Rightarrow> dart_value list decoded" where
  "list_of_length n (DvList len vs) = (if len \<noteq> n then Rejected else Decoded vs)"
| "list_of_length n _ = Rejected"

section \<open>The messages\<close>

record surface_pointer_event_message =
  pe_surface_handle :: u32
  pe_buttons :: u64
  pe_embedder_id :: u64
  pe_device_kind :: byte
  pe_local_pos_x :: u64
  pe_local_pos_y :: u64
  pe_global_pos_x :: u64
  pe_global_pos_y :: u64
  pe_platform_id :: u64
  pe_pointer :: u64
  pe_widget_size_x :: u64
  pe_widget_size_y :: u64
  pe_scroll_delta_x :: u64
  pe_scroll_delta_y :: u64
  pe_event_type :: byte
  pe_timestamp :: u64

definition decode_surface_pointer_event_message ::
    "dart_value \<Rightarrow> surface_pointer_event_message decoded" where
  "decode_surface_pointer_event_message value =
     bind_d (list_of_length 31 value) (\<lambda>vs.
     bind_d (decode_integer vs 0) (\<lambda>surface_handle.
     bind_d (decode_integer vs 1) (\<lambda>buttons.
     bind_d (decode_integer vs 7) (\<lambda>embedder_id.
     bind_d (decode_integer vs 8) (\<lambda>device_kind.
     bind_d (decode_float64 vs 11) (\<lambda>local_pos_x.
     bind_d (decode_float64 vs 12) (\<lambda>local_pos_y.
     bind_d (decode_integer vs 15) (\<lambda>platform_id.
     bind_d (decode_integer vs 16) (\<lambda>pointer.
     bind_d (decode_float64 vs 17) (\<lambda>global_pos_x.
     bind_d (decode_float64 vs 18) (\<lambda>global_pos_y.
     bind_d (decode_integer vs 25) (\<lambda>timestamp.
     bind_d (decode_integer vs 26) (\<lambda>event_type.
     bind_d (decode_float64 vs 27) (\<lambda>widget_size_x.
     bind_d (decode_float64 vs 28) (\<lambda>widget_size_y.
     bind_d (decode_float64 vs 29) (\<lambda>scroll_delta_x.
     bind_d (decode_float64 vs 30) (\<lambda>scroll_delta_y.
       Decoded \<lparr>pe_surface_handle = ucast surface_handle, pe_buttons = buttons,
         pe_embedder_id = embedder_id, pe_device_kind = ucast device_kind,
         pe_local_pos_x = local_pos_x, pe_local_pos_y = local_pos_y,
         pe_global_pos_x = global_pos_x, pe_global_pos_y = global_pos_y,
         pe_platform_id = platform_id, pe_pointer = pointer,
         pe_widget_size_x = widget_size_x, pe_widget_size_y = widget_size_y,
         pe_scroll_delta_x = scroll_delta_x, pe_scroll_delta_y = scroll_delta_y,
         pe_event_type = ucast event_type, pe_timestamp = timestamp\<rparr>)))))))))))))))))"

record surface_keyboard_key_message =
  kk_surface_handle :: u32
  kk_keycode :: u64
  kk_event_type :: byte
  kk_timestamp :: u64

definition decode_surface_keyboard_key_message ::
    "dart_value \<Rightarrow> surface_keyboard_key_message decoded" where
  "decode_surface_keyboard_key_message value =
     bind_d (list_of_length 4 value) (\<lambda>vs.
     bind_d (decode_integer vs 0) (\<lambda>surface_handle.
     bind_d (decode_integer vs 1) (\<lambda>keycode.
     bind_d (decode_integer vs 2) (\<lambda>event_type.
     bind_d (decode_integer vs 3) (\<lambda>timestamp.
       Decoded \<lparr>kk_surface_handle = ucast surface_handle, kk_keycode = keycode,
         kk_event_type = ucast event_type, kk_timestamp = timestamp\<rparr>)))))"

record surface_toplevel_set_size_message =
  ss_surface_handle :: u32
  ss_size_x :: u64
  ss_size_y :: u64

definition decode_surface_toplevel_set_size_message ::
    "dart_value \<Rightarrow> surface_toplevel_set_size_message decoded" where
  "decode_surface_toplevel_set_size_message value =
     bind_d (list_of_length 3 value) (\<lambda>vs.
     bind_d (decode_integer vs 0) (\<lambda>surface_handle.
     bind_d (decode_integer vs 1) (\<lambda>size_x.
     bind_d (decode_integer vs 2) (\<lambda>size_y.
       Decoded \<lparr>ss_surface_handle = ucast surface_handle, ss_size_x = size_x, ss_size_y = size_y\<rparr>))))"

record surface_toplevel_set_maximized_message =
  sm_surface_handle :: u32
  sm_maximized :: u64

definition decode_surface_toplevel_set_maximized_message ::
    "dart_value \<Rightarrow> surface_toplevel_set_maximized_message decoded" where
  "decode_surface_toplevel_set_maximized_message value =
     bind_d (list_of_length 2 value) (\<lambda>vs.
     bind_d (decode_integer vs 0) (\<lambda>surface_handle.
     bind_d (decode_integer vs 1) (\<lambda>maximized.
       Decoded \<lparr>sm_surface_handle = ucast surface_handle, sm_maximized = maximized\<rparr>)))"

record surface_toplevel_close_message =
  tc_surface_handle :: u32

definition decode_surface_toplevel_close_message ::
    "dart_value \<Rightarrow> surface_toplevel_close_message decoded" where
  "decode_surface_toplevel_close_message value =
     bind_d (list_of_length 1 value) (\<lambda>vs.
     bind_d (decode_integer vs 0) (\<lambda>surface_handle.
       Decoded \<lparr>tc_surface_handle = ucast surface_handle\<rparr>))"

record surface_begin_move_message =
  bm_surface_handle :: u32

definition decode_surface_begin_move_message ::
    "dart_value \<Rightarrow> surface_begin_move_message decoded" where
  "decode_surface_begin_move_message value =
     bind_d (list_of_length 1 value) (\<lambda>vs.
     bind_d (decode_integer vs 0) (\<lambda>surface_handle.
       Decoded \<lparr>bm_surface_handle = ucast surface_handle\<rparr>))"

record surface_begin_resize_message =
  br_surface_handle :: u32
  br_edges :: u64

definition decode_surface_begin_resize_message ::
    "dart_value \<Rightarrow> surface_begin_resize_message decoded" where
  "decode_surface_begin_resize_message value =
     bind_d (list_of_length 2 value) (\<lambda>vs.
     bind_d (decode_integer vs 0) (\<lambda>surface_handle.
     bind_d (decode_integer vs 1) (\<lambda>edges.
       Decoded \<lparr>br_surface_handle = ucast surface_handle, br_edges = edges\<rparr>)))"

record surface_set_position_message =
  sp_surface_handle :: u32
  sp_x :: u64
  sp_y :: u64

definition decode_surface_set_position_message ::
    "dart_value \<Rightarrow> surface_set_position_message decoded" where
  "decode_surface_set_position_message value =
     bind_d (list_of_length 3 value) (\<lambda>vs.
     bind_d (decode_integer vs 0) (\<lambda>surface_handle.
     bind_d (decode_integer vs 1) (\<lambda>x.
     bind_d (decode_integer vs 2) (\<lambda>y.
       Decoded \<lparr>sp_surface_handle = ucast surface_handle, sp_x = x, sp_y = y\<rparr>))))"

lemmas decoder_defs = decode_surface_pointer_event_message_def
  decode_surface_keyboard_key_message_def decode_surface_toplevel_set_size_message_def
  decode_surface_toplevel_set_maximized_message_def decode_surface_toplevel_close_message_def
  decode_surface_begin_move_message_def decode_surface_begin_resize_message_def
  decode_surface_set_position_message_def

section \<open>Memory safety\<close>

lemma bind_d_in_bounds:
  "m \<noteq> OutOfBounds \<Longrightarrow> (\<And>x. m = Decoded x \<Longrightarrow> f x \<noteq> OutOfBounds) \<Longrightarrow> bind_d m f \<noteq> OutOfBounds"
  by (cases m) auto

lemma decode_element_in_bounds:
  "i < length vs \<Longrightarrow> decode_integer vs i \<noteq> OutOfBounds"
  "i < length vs \<Longrightarrow> decode_float64 vs i \<noteq> OutOfBounds"
  by (auto simp: decode_integer_def decode_float64_def split: dart_value.splits)

lemma list_of_length_in_bounds: "list_of_length n v \<noteq> OutOfBounds"
  by (cases v) auto

text \<open>The array behind a list has room for at least \<open>length\<close> elements.\<close>

fun holds_its_length :: "dart_value \<Rightarrow> bool" where
  "holds_its_length (DvList n vs) = (n \<le> length vs)"
| "holds_its_length _ = True"

lemma list_of_length_Decoded:
  "list_of_length n v = Decoded vs \<Longrightarrow> holds_its_length v \<Longrightarrow> n \<le> length vs"
  by (cases v) (auto split: if_splits)

lemma read_scalar_not_list: "read_scalar t buf off \<noteq> ReadOk (DvList n vs) off'"
  by (auto simp: read_scalar_def split: option.splits)

lemma message_read_holds_its_length:
  assumes "message_read buf off = ReadOk v off'" and "off \<le> length buf"
  shows "holds_its_length v"
proof (cases v)
  case (DvList n vs)
  obtain fuel m o1 where 1: "read_length buf (off + 1) = Some (n, o1)"
      "read_values fuel buf o1 m = ReadOk vs off'" "n \<le> m" and "off < length buf"
    using assms(1) unfolding message_read_def message_read_fuel.simps(2) DvList
    by (fastforce simp: require_data_def read_scalar_not_list
        split: if_splits option.splits read.splits)
  then have "o1 \<le> length buf"
    using read_length_bounds [OF 1(1)] by simp
  from read_values_bounds [OF 1(2) this] 1(3) show ?thesis by (simp add: DvList)
qed auto

text \<open>
  C23: whatever bytes a platform message holds, once \<open>message_read\<close> has accepted its second
  value, none of the eight decoders reads an element outside the values array.
\<close>
theorem decoders_stay_in_bounds:
  assumes "message_read buf off = ReadOk v off'" and "off \<le> length buf"
  shows "decode_surface_pointer_event_message v \<noteq> OutOfBounds
    \<and> decode_surface_keyboard_key_message v \<noteq> OutOfBounds
    \<and> decode_surface_toplevel_set_size_message v \<noteq> OutOfBounds
    \<and> decode_surface_toplevel_set_maximized_message v \<noteq> OutOfBounds
    \<and> decode_surface_toplevel_close_message v \<noteq> OutOfBounds
    \<and> decode_surface_begin_move_message v \<noteq> OutOfBounds
    \<and> decode_surface_begin_resize_message v \<noteq> OutOfBounds
    \<and> decode_surface_set_position_message v \<noteq> OutOfBounds"
  unfolding decoder_defs
  by (intro conjI bind_d_in_bounds list_of_length_in_bounds decode_element_in_bounds;
      (simp; fail)?;
      use list_of_length_Decoded [OF _ message_read_holds_its_length [OF assms]] in force)

theorem decoders_stay_in_bounds_witness:
  "decode_surface_begin_move_message (DvList 1 [DvNull, DvNull]) \<noteq> OutOfBounds"
proof -
  have "message_read [13, 1, 0, 0] 0 = ReadOk (DvList 1 [DvNull, DvNull]) 4"
    by code_simp
  from decoders_stay_in_bounds [OF this] show ?thesis by simp
qed

section \<open>From Dart's bytes to the handler's struct\<close>

text \<open>
  How the standard codec of Dart sends an integer: in 32 bits when it fits into them, and else in 64.
  What the reader makes of it: a negative integer of 32 bits loses its sign.
\<close>

definition fits_int32 :: "u64 \<Rightarrow> bool" where
  "fits_int32 n \<longleftrightarrow> - (2 ^ 31) \<le> sint n \<and> sint n < 2 ^ 31"

definition dart_int :: "u64 \<Rightarrow> bval" where
  "dart_int n = (if fits_int32 n then BInt32 (ucast n) else BInt64 n)"

definition widened :: "u64 \<Rightarrow> u64" where
  "widened n = (if fits_int32 n \<and> sint n < 0 then n + 2 ^ 32 else n)"

lemma uint_sint_u64: "uint (n :: u64) = (if sint n < 0 then sint n + 2 ^ 64 else sint n)"
proof -
  have "take_bit 64 (uint n) = uint n" using uint_bounded [of n] by (simp add: take_bit_int_eq_self)
  then have "sint n = uint n - 2 ^ 64 * of_bool (bit (uint n) 63)"
    by (simp add: sint_uint signed_take_bit_eq_take_bit_minus)
  then show ?thesis using uint_bounded [of n] by (cases "bit (uint n) 63") auto
qed

lemma uint_low_word: "uint (ucast (ucast (n :: u64) :: u32) :: u64) = uint n mod 2 ^ 32"
  by (simp add: unsigned_ucast_eq take_bit_eq_mod uint_mod)

lemma ucast_add_pow2_32: "(ucast (n + 4294967296 :: u64) :: u32) = ucast n"
proof (rule word_uint_eqI)
  show "uint (ucast (n + 4294967296) :: u32) = uint (ucast n :: u32)"
    by (simp add: unsigned_ucast_eq uint_word_ariths take_bit_eq_mod uint_mod mod_mod_cancel)
qed

lemma byte_not_negative: "\<not> sint (ucast (b :: byte) :: u64) < 0"
proof -
  have "uint (ucast b :: u64) = uint b" by (simp add: uint_up_ucast is_up)
  then show ?thesis
    using uint_sint_u64 [of "ucast b"] uint_bounded [of b] sint_ge [of "ucast b :: u64"] by (auto split: if_splits)
qed

lemma negative_mod:
  assumes "- 2147483648 \<le> x" "x < (0 :: int)"
  shows "(x + 18446744073709551616) mod 4294967296 = x + 4294967296"
    and "(x + 18446744073709551616 + 4294967296) mod 18446744073709551616 = x + 4294967296"
proof -
  have "x + 18446744073709551616 = (x + 4294967296) + 4294967295 * 4294967296" by simp
  then have "(x + 18446744073709551616) mod 4294967296 = (x + 4294967296) mod 4294967296"
    by (simp only: mod_mult_self1)
  also have "(x + 4294967296) mod 4294967296 = x + 4294967296"
    by (rule mod_pos_pos_trivial) (use assms in simp_all)
  finally show "(x + 18446744073709551616) mod 4294967296 = x + 4294967296" .
  have "x + 18446744073709551616 + 4294967296 = (x + 4294967296) + 1 * 18446744073709551616" by simp
  then have "(x + 18446744073709551616 + 4294967296) mod 18446744073709551616 = (x + 4294967296) mod 18446744073709551616"
    by (simp only: mod_mult_self1)
  also have "(x + 4294967296) mod 18446744073709551616 = x + 4294967296"
    by (rule mod_pos_pos_trivial) (use assms in simp_all)
  finally show "(x + 18446744073709551616 + 4294967296) mod 18446744073709551616 = x + 4294967296" .
qed

lemma ucast_ucast_fits:
  assumes "fits_int32 n"
  shows "ucast (ucast n :: u32) = widened n"
proof (rule word_uint_eqI)
  show "uint (ucast (ucast n :: u32) :: u64) = uint (widened n)"
  proof (cases "sint n < 0")
    case True
    then have u: "uint n = sint n + 18446744073709551616" using uint_sint_u64 [of n] by simp
    have "uint (n + 4294967296) = (uint n + 4294967296) mod 18446744073709551616" by (simp add: uint_word_ariths)
    then have "uint (n + 4294967296) = sint n + 4294967296"
      using negative_mod(2) [of "sint n"] True assms unfolding u by (simp only: fits_int32_def) simp
    moreover have "uint n mod 4294967296 = sint n + 4294967296"
      using negative_mod(1) [of "sint n"] True assms unfolding u by (simp only: fits_int32_def) simp
    ultimately show ?thesis using True assms by (simp add: widened_def uint_low_word)
  next
    case False
    then have "uint n = sint n" using uint_sint_u64 [of n] by simp
    with False assms show ?thesis by (simp add: widened_def uint_low_word fits_int32_def)
  qed
qed

lemma dv_dart_int [simp]: "dv (dart_int n) = DvInteger (widened n)"
  by (cases "fits_int32 n") (simp_all add: dart_int_def ucast_ucast_fits, simp add: widened_def)

lemma small_dart_int [simp]: "small (dart_int n)"
  by (simp add: dart_int_def)

lemma ucast_widened [simp]: "(ucast (widened n) :: u32) = ucast n"
  by (simp add: widened_def ucast_add_pow2_32)

lemma widened_byte [simp]: "widened (ucast (b :: byte)) = ucast b"
  by (simp add: widened_def byte_not_negative)

text \<open>The list Dart sends for a pointer event, with the elements the decoder ignores as \<open>x\<close>.\<close>

definition pointer_event_fields :: "(nat \<Rightarrow> bval) \<Rightarrow> surface_pointer_event_message \<Rightarrow> u64 \<Rightarrow> bval list" where
  "pointer_event_fields x m handle =
     [dart_int handle, dart_int (pe_buttons m), x 2, x 3, x 4, x 5, x 6, dart_int (pe_embedder_id m),
      dart_int (ucast (pe_device_kind m)), x 9, x 10, BFloat64 (pe_local_pos_x m),
      BFloat64 (pe_local_pos_y m), x 13, x 14, dart_int (pe_platform_id m), dart_int (pe_pointer m),
      BFloat64 (pe_global_pos_x m), BFloat64 (pe_global_pos_y m), x 19, x 20, x 21, x 22, x 23,
      x 24, dart_int (pe_timestamp m), dart_int (ucast (pe_event_type m)),
      BFloat64 (pe_widget_size_x m), BFloat64 (pe_widget_size_y m),
      BFloat64 (pe_scroll_delta_x m), BFloat64 (pe_scroll_delta_y m)]"

lemma ucast_byte_u64 [simp]: "ucast (ucast (b :: byte) :: u64) = b"
  by (simp add: ucast_down_ucast_id is_down)

lemma nth_numeral_list [simp]:
  "numeral k < length (y # ys) \<Longrightarrow> (y # ys) ! numeral k = ys ! pred_numeral k"
  by (simp add: numeral_eq_Suc)

text \<open>
  C18: the list of 31 elements that Dart sends for a pointer event, anywhere in a message, with every
  integer in 32 bits when it fits and in 64 otherwise, and whatever the 15 elements the decoder skips
  hold (strings, lists and maps among them being short), is read to its end and decoded into the event
  that was sent: doubles, kinds and
  types exactly, the handle cut to its low 32 bits, and each of the other integers as it was unless it was
  negative and fitted into 32 bits, when \<open>2 ^ 32\<close> is added to it.
\<close>
theorem pointer_event_decoded:
  assumes "\<And>i. small (x i)"
  shows "\<exists>v. message_read (pre @ enc (length pre) (BList (pointer_event_fields x m handle)) @ r) (length pre)
        = ReadOk v (length pre + length (enc (length pre) (BList (pointer_event_fields x m handle))))
    \<and> decode_surface_pointer_event_message v = Decoded (m\<lparr>pe_surface_handle := ucast handle,
        pe_buttons := widened (pe_buttons m), pe_embedder_id := widened (pe_embedder_id m),
        pe_platform_id := widened (pe_platform_id m), pe_pointer := widened (pe_pointer m),
        pe_timestamp := widened (pe_timestamp m)\<rparr>)"
proof -
  let ?v = "BList (pointer_event_fields x m handle)" and ?o = "length pre"
  have "small ?v" by (simp add: pointer_event_fields_def assms)
  then have "message_read (pre @ enc ?o ?v @ r) ?o = ReadOk (dv ?v) (?o + length (enc ?o ?v))"
    using read_enc [of ?o "pre @ enc ?o ?v @ r" ?v r] by (simp add: message_read_def del: enc.simps)
  moreover have "decode_surface_pointer_event_message (dv ?v) = Decoded (m\<lparr>pe_surface_handle := ucast handle,
        pe_buttons := widened (pe_buttons m), pe_embedder_id := widened (pe_embedder_id m),
        pe_platform_id := widened (pe_platform_id m), pe_pointer := widened (pe_pointer m),
        pe_timestamp := widened (pe_timestamp m)\<rparr>)"
    by (simp add: decode_surface_pointer_event_message_def pointer_event_fields_def
        decode_integer_def decode_float64_def)
  ultimately show ?thesis by blast
qed

text \<open>After the name of a method; the pointer has the number \<open>-1\<close> and the time does not fit into 32 bits.\<close>

theorem pointer_event_decoded_witness:
  "\<exists>v off. message_read (enc 0 (BString [109]) @ enc 3 (BList (pointer_event_fields (\<lambda>_. BNull)
        (surface_pointer_event_message.make 0 1 2 3 4 5 6 7 8 (- 1) 10 11 12 13 14 (2 ^ 40)) 4294967303))) 3 = ReadOk v off
    \<and> decode_surface_pointer_event_message v =
        Decoded (surface_pointer_event_message.make 7 1 2 3 4 5 6 7 8 4294967295 10 11 12 13 14 (2 ^ 40))"
proof -
  have e: "(4294967303 :: u32) = 7" by code_simp
  have w: "widened 1 = 1" "widened 2 = 2" "widened 8 = 8" "widened (- 1) = 4294967295" "widened (2 ^ 40) = 2 ^ 40"
    by code_simp+
  have l: "length (enc 0 (BString [109])) = 3" by simp
  show ?thesis
    using pointer_event_decoded [of "\<lambda>_. BNull" "enc 0 (BString [109])"
        "surface_pointer_event_message.make 0 1 2 3 4 5 6 7 8 (- 1) 10 11 12 13 14 (2 ^ 40)" 4294967303 "[]"]
    unfolding l by (simp add: surface_pointer_event_message.defs e w del: enc.simps power_numeral) blast
qed

end
