(* ===== verification/TaskQueue.thy ===== *)
theory TaskQueue
  imports Prelude "HOL-Library.Multiset"
begin

text \<open>
  \<open>src/task.c\<close>: the queue of engine tasks that must run on the compositor's thread. The
  linked list \<open>queued_platform_tasks\<close> is a HOL list with its head first. The two calls of
  \<open>GetCurrentTime\<close> (one per function) are arguments, as is whether \<open>RunTask\<close> succeeds.
  What the functions ask of the event loop and of the engine is a list of effects in order.
  The mutex is held over each operation, so operations are atomic.
\<close>

section \<open>The code\<close>

record 't fwr_render_task =
  task :: 't
  target_time :: u64

datatype 't task_effect =
    NotifyWrite
  | NotifyRead
  | TimerUpdate int
  | RunTask 't
  | LogRunFailed

fun first_task_loop :: "'t fwr_render_task list \<Rightarrow> u64 \<Rightarrow> u64" where
  "first_task_loop [] first_task_ns = first_task_ns"
| "first_task_loop (n # ns) first_task_ns =
     first_task_loop ns (if first_task_ns > target_time n then target_time n else first_task_ns)"

text \<open>
  \<open>diff_ns\<close> is an \<open>int64_t\<close>, the division truncates, and the argument of
  \<open>wl_event_source_timer_update\<close> is an \<open>int\<close>.
\<close>

definition timer_delay :: "u64 \<Rightarrow> u64 \<Rightarrow> int" where
  "timer_delay first_task_ns now =
     (let diff_ns = sint (first_task_ns - now);
          diff_ms = (if 0 \<le> diff_ns then diff_ns div 1000000 else - (- diff_ns div 1000000))
      in to_i32 (word_of_int (diff_ms + 1)))"

definition engine_platform_task_queue_schedule ::
    "u64 \<Rightarrow> 't fwr_render_task list \<Rightarrow> 't task_effect list" where
  "engine_platform_task_queue_schedule now queue =
     (let first_task_ns = first_task_loop queue (- 1)
      in if first_task_ns \<noteq> 65535
         then (if first_task_ns \<le> now then [NotifyWrite, TimerUpdate 0]
               else [TimerUpdate (timer_delay first_task_ns now)])
         else [])"

definition engine_cb_platform_post_task ::
    "u64 \<Rightarrow> 't \<Rightarrow> u64 \<Rightarrow> 't fwr_render_task list \<Rightarrow>
     't fwr_render_task list \<times> 't task_effect list" where
  "engine_cb_platform_post_task now t target queue =
     (let queue' = \<lparr>task = t, target_time = target\<rparr> # queue
      in (queue', engine_platform_task_queue_schedule now queue'))"

text \<open>
  The mutex is recursive, so a task that runs may post tasks: \<open>run t\<close> is the outcome of
  \<open>RunTask\<close> with the posts it makes, each with the clock it reads, its task and its target.
\<close>

type_synonym 't engine = "'t \<Rightarrow> bool \<times> (u64 \<times> 't \<times> u64) list"

fun post_all :: "(u64 \<times> 't \<times> u64) list \<Rightarrow> 't fwr_render_task list \<Rightarrow>
    't fwr_render_task list \<times> 't task_effect list" where
  "post_all [] queue = (queue, [])"
| "post_all ((now, t, target) # ps) queue =
     (let (queue1, es) = engine_cb_platform_post_task now t target queue;
          (queue2, fs) = post_all ps queue1
      in (queue2, es @ fs))"

text \<open>
  The loop of \<open>engine_platform_task_queue_process\<close>: \<open>new_head\<close> is the list of requeued
  tasks, \<open>queued\<close> is \<open>instance->queued_platform_tasks\<close>, empty at first.
\<close>

fun process_loop :: "u64 \<Rightarrow> 't engine \<Rightarrow> 't fwr_render_task list \<Rightarrow> 't fwr_render_task list \<Rightarrow>
    't fwr_render_task list \<Rightarrow>
    't fwr_render_task list \<times> 't fwr_render_task list \<times> 't task_effect list" where
  "process_loop now run [] new_head queued = (new_head, queued, [])"
| "process_loop now run (cur # later) new_head queued =
     (if now > target_time cur
      then (let (ok, posts) = run (task cur);
                (queued1, es) = post_all posts queued;
                (new_head1, queued2, fs) = process_loop now run later new_head queued1
            in (new_head1, queued2,
                RunTask (task cur) # es @ (if ok then [] else [LogRunFailed]) @ fs))
      else process_loop now run later (cur # new_head) queued)"

definition engine_platform_task_queue_process ::
    "u64 \<Rightarrow> u64 \<Rightarrow> 't engine \<Rightarrow> 't fwr_render_task list \<Rightarrow>
     't fwr_render_task list \<times> 't task_effect list" where
  "engine_platform_task_queue_process now now' run queue =
     (let (new_head, queued, es) = process_loop now run queue [] [];
          queue' = (if new_head \<noteq> [] then new_head @ queued else queued)
      in (queue', es @ engine_platform_task_queue_schedule now' queue'))"

text \<open>The two event-loop callbacks; the second one first resets the eventfd.\<close>

definition engine_platform_task_queue_timer ::
    "u64 \<Rightarrow> u64 \<Rightarrow> 't engine \<Rightarrow> 't fwr_render_task list \<Rightarrow>
     't fwr_render_task list \<times> 't task_effect list" where
  "engine_platform_task_queue_timer now now' run queue =
     engine_platform_task_queue_process now now' run queue"

definition engine_renderer_task_queue_notifyfd ::
    "u64 \<Rightarrow> u64 \<Rightarrow> 't engine \<Rightarrow> 't fwr_render_task list \<Rightarrow>
     't fwr_render_task list \<times> 't task_effect list" where
  "engine_renderer_task_queue_notifyfd now now' run queue =
     (let (queue', es) = engine_platform_task_queue_process now now' run queue
      in (queue', NotifyRead # es))"

definition engine_cb_platform_runs_on_current_thread :: "int \<Rightarrow> int \<Rightarrow> bool" where
  "engine_cb_platform_runs_on_current_thread tid platform_tid = (tid = platform_tid)"

section \<open>Which tasks run\<close>

fun ran :: "'t task_effect list \<Rightarrow> 't list" where
  "ran [] = []"
| "ran (RunTask t # es) = t # ran es"
| "ran (_ # es) = ran es"

lemma ran_append [simp]: "ran (es @ fs) = ran es @ ran fs"
  by (induction es rule: ran.induct) auto

lemma ran_schedule [simp]: "ran (engine_platform_task_queue_schedule now q) = []"
  by (simp add: engine_platform_task_queue_schedule_def Let_def)

definition due :: "u64 \<Rightarrow> 't fwr_render_task \<Rightarrow> bool" where
  "due now t = (target_time t < now)"

definition posts_of :: "'t engine \<Rightarrow> 't \<Rightarrow> 't fwr_render_task list" where
  "posts_of run t = map (\<lambda>(now, u, target). \<lparr>task = u, target_time = target\<rparr>) (snd (run t))"

lemma post_all_result:
  "fst (post_all ps q) = rev (map (\<lambda>(now, t, target). \<lparr>task = t, target_time = target\<rparr>) ps) @ q
    \<and> ran (snd (post_all ps q)) = []"
  by (induction ps q rule: post_all.induct)
    (auto simp: engine_cb_platform_post_task_def Let_def split: prod.splits)

lemma process_loop_result:
  "process_loop now run q acc queued = (nh, qd, es) \<Longrightarrow>
     nh = rev (filter (\<lambda>t. \<not> due now t) q) @ acc
     \<and> qd = rev (concat (map (posts_of run \<circ> task) (filter (due now) q))) @ queued
     \<and> ran es = map task (filter (due now) q)"
proof (induction q arbitrary: acc queued nh qd es)
  case Nil
  then show ?case by simp
next
  case (Cons t q)
  show ?case
  proof (cases "due now t")
    case True
    obtain ok posts where r: "run (task t) = (ok, posts)" by (cases "run (task t)")
    obtain q1 es1 where p: "post_all posts queued = (q1, es1)" by (cases "post_all posts queued")
    obtain nh' qd' es' where l: "process_loop now run q acc q1 = (nh', qd', es')"
      by (cases "process_loop now run q acc q1")
    from Cons.IH [OF l] Cons.prems True r p l post_all_result [of posts queued] show ?thesis
      by (auto simp: due_def posts_of_def)
  next
    case False
    with Cons.prems have "process_loop now run q (t # acc) queued = (nh, qd, es)"
      by (simp add: due_def)
    from Cons.IH [OF this] False show ?thesis by simp
  qed
qed

lemma process_result:
  assumes "engine_platform_task_queue_process now now' run q = (q', es)"
  shows "q' = rev (filter (\<lambda>t. \<not> due now t) q) @ rev (concat (map (posts_of run \<circ> task) (filter (due now) q)))
    \<and> ran es = map task (filter (due now) q)"
proof -
  obtain nh qd es' where l: "process_loop now run q [] [] = (nh, qd, es')"
    by (cases "process_loop now run q [] []")
  from process_loop_result [OF l] assms l show ?thesis
    by (auto simp: engine_platform_task_queue_process_def Let_def split: if_splits)
qed

section \<open>The queue over time\<close>

text \<open>
  A step posts a task or processes the queue; its label lists the tasks posted and, read off
  the effects, the tasks run with the time \<open>process\<close> read.
\<close>

inductive task_step :: "'t fwr_render_task list \<Rightarrow> 't fwr_render_task list \<Rightarrow>
    ('t \<times> u64) list \<Rightarrow> 't fwr_render_task list \<Rightarrow> bool" where
  Post: "engine_cb_platform_post_task now t target q = (q', es) \<Longrightarrow>
     task_step q [\<lparr>task = t, target_time = target\<rparr>] [] q'"
| Process: "engine_platform_task_queue_process now now' run q = (q', es) \<Longrightarrow>
     task_step q (concat (map (posts_of run) (ran es))) (map (\<lambda>t. (t, now)) (ran es)) q'"

inductive task_history :: "'t fwr_render_task list \<Rightarrow> ('t \<times> u64) list \<Rightarrow>
    't fwr_render_task list \<Rightarrow> bool" where
  Start: "task_history [] [] []"
| Step: "task_history posted runs q \<Longrightarrow> task_step q ps rs q' \<Longrightarrow>
     task_history (posted @ ps) (runs @ rs) q'"

lemma mset_filter_split:
  "image_mset f (mset q) = image_mset f (mset (filter P q)) + image_mset f (mset (filter (\<lambda>x. \<not> P x) q))"
  by (induction q) auto

lemma task_step_conserves:
  "task_step q ps rs q' \<Longrightarrow>
     image_mset task (mset q) + image_mset task (mset ps) = mset (map fst rs) + image_mset task (mset q')
     \<and> set q' \<subseteq> set q \<union> set ps
     \<and> (\<forall>(t, now) \<in> set rs. \<exists>p \<in> set q. task p = t \<and> target_time p < now)"
proof (induction rule: task_step.induct)
  case (Post now t target q q' es)
  then show ?case
    by (auto simp: engine_cb_platform_post_task_def Let_def)
next
  case (Process now now' run q q' es)
  note r = process_result [OF Process]
  have "ran es = map task (filter (due now) q)" using r by simp
  then show ?case
    using r mset_filter_split [of task q "due now"]
    by (auto simp: due_def comp_def ac_simps)
qed

text \<open>
  C6: along any history of posts and wake-ups, including posts made by tasks while they run,
  the tasks posted so far are exactly the tasks run so far together with the tasks still
  queued, as multisets, so that no task is lost, run twice or invented; and every task that
  ran had been posted with a target time earlier than the time of the run.
\<close>
theorem tasks_run_once_after_target:
  assumes "task_history posted runs q"
  shows "image_mset task (mset posted) = mset (map fst runs) + image_mset task (mset q)
    \<and> set q \<subseteq> set posted
    \<and> (\<forall>(t, now) \<in> set runs. \<exists>p \<in> set posted. task p = t \<and> target_time p < now)"
  using assms
proof (induction rule: task_history.induct)
  case Start
  show ?case by simp
next
  case (Step posted runs q ps rs q')
  note S = task_step_conserves [OF Step.hyps(2)]
  have "image_mset task (mset (posted @ ps)) = mset (map fst (runs @ rs)) + image_mset task (mset q')"
    using S Step.IH by (simp add: ac_simps)
  moreover have "set q' \<subseteq> set (posted @ ps)"
    using S Step.IH by auto
  moreover have "\<forall>(t, now) \<in> set (runs @ rs). \<exists>p \<in> set (posted @ ps). task p = t \<and> target_time p < now"
    using S Step.IH by fastforce
  ultimately show ?case by blast
qed

theorem tasks_run_once_after_target_witness:
  "image_mset task (mset [\<lparr>task = ''a'', target_time = 5\<rparr>]) = mset (map fst [(''a'', 6 :: u64)])"
proof -
  let ?t = "\<lparr>task = ''a'', target_time = 5\<rparr>"
  let ?run = "\<lambda>_. (True, []) :: bool \<times> (u64 \<times> string \<times> u64) list"
  have 1: "task_history ([] @ [?t]) ([] @ []) [?t]"
    by (rule task_history.Step [OF task_history.Start]; rule task_step.Post [of 0 "''a''" 5])
      (simp add: engine_cb_platform_post_task_def Let_def)
  let ?es = "[RunTask ''a''] @ engine_platform_task_queue_schedule 6 []"
  have "engine_platform_task_queue_process 6 6 ?run [?t] = ([], ?es)"
    by (simp add: engine_platform_task_queue_process_def)
  from task_history.Step [OF 1 task_step.Process [OF this]]
  have "task_history [?t] [(''a'', 6)] []" by (simp add: posts_of_def)
  from tasks_run_once_after_target [OF this] show ?thesis by simp
qed

section \<open>Wake-ups\<close>







text \<open>
  the test against \<open>UINT16_MAX\<close> does not recognise the empty queue, whose minimum is
  \<open>UINT64_MAX\<close>: every wake-up that empties the queue arms the timer, with a delay that is
  negative once the engine's clock has passed two milliseconds.
\<close>
theorem empty_queue_arms_timer:
  assumes "2000000 \<le> uint now" and "uint now < 2 ^ 31 * 1000000"
  shows "\<exists>ms. engine_platform_task_queue_schedule now [] = [TimerUpdate ms] \<and> ms < 0"
proof -
  let ?d = "- 1 - uint now"
  have w: "- 1 - now = word_of_int ?d" by simp
  have s: "sint (- 1 - now) = ?d"
    unfolding w by (rule sint_wi64) (use assms uint_ge_0 [of now] in auto)
  have "\<not> 0 \<le> ?d" using uint_ge_0 [of now] by linarith
  then have "timer_delay (- 1) now = to_i32 (word_of_int (1 - (1 + uint now) div 1000000))"
    by (simp add: timer_delay_def s add.commute)
  also have "\<dots> = 1 - (1 + uint now) div 1000000"
    by (rule to_i32_of_int) (use assms in auto)
  finally have t: "timer_delay (- 1) now = 1 - (1 + uint now) div 1000000" .
  have "now \<noteq> - 1"
    using assms by (auto simp: unsigned_minus_1_eq_mask mask_eq_exp_minus_1)
  then have "\<not> - 1 \<le> now" by (simp add: word_order.extremum_unique)
  then show ?thesis
    using assms t by (simp add: engine_platform_task_queue_schedule_def Let_def)
qed

theorem empty_queue_arms_timer_witness:
  "\<exists>ms. engine_platform_task_queue_schedule 5000000 ([] :: unit fwr_render_task list) = [TimerUpdate ms] \<and> ms < 0"
  using empty_queue_arms_timer [of 5000000] by simp

end
