(* ===== verification/StdCodec.thy ===== *)
theory StdCodec
  imports MessageReader
begin

text \<open>
  The standard message codec of \<open>src/platform_channel.c\<close>, the second codec of the program
  (the plugins use it). Positions are offsets into a buffer whose address is \<open>base\<close>: this
  code aligns addresses, not offsets. When encoding, the pad bytes are skipped and keep whatever
  \<open>malloc\<close> returned: they are \<open>None\<close>. When decoding, \<open>heap n\<close> says whether \<open>calloc\<close> of
  \<open>n\<close> elements succeeds, and a write outside a block that was allocated is an error of its
  own. Sizes of values that are encoded are taken below 2 GiB, where the conversions between
  \<open>size_t\<close> and \<open>int\<close> are the identity; sizes that are decoded are any 32-bit number.
\<close>

section \<open>Values\<close>

text \<open>
  A typed array has the \<open>size\<close> field and the elements that are in memory behind its pointer.
  A string is the bytes up to, not including, the terminator that \<open>calloc\<close> left.
\<close>

datatype std_value =
    StdNull
  | StdTrue
  | StdFalse
  | StdInt32 u32
  | StdInt64 u64
  | StdLargeInt "byte list"
  | StdFloat64 u64
  | StdString "byte list"
  | StdUInt8Array nat "byte list"
  | StdInt32Array nat "u32 list"
  | StdInt64Array nat "u64 list"
  | StdFloat64Array nat "u64 list"
  | StdList "std_value list"
  | StdMap "(std_value \<times> std_value) list"

fun std_type :: "std_value \<Rightarrow> byte" where
  "std_type StdNull = 0"
| "std_type StdTrue = 1"
| "std_type StdFalse = 2"
| "std_type (StdInt32 _) = 3"
| "std_type (StdInt64 _) = 4"
| "std_type (StdLargeInt _) = 5"
| "std_type (StdFloat64 _) = 6"
| "std_type (StdString _) = 7"
| "std_type (StdUInt8Array _ _) = 8"
| "std_type (StdInt32Array _ _) = 9"
| "std_type (StdInt64Array _ _) = 10"
| "std_type (StdFloat64Array _ _) = 11"
| "std_type (StdList _) = 12"
| "std_type (StdMap _) = 13"

text \<open>What \<open>strlen\<close> and \<open>strcmp\<close> see of a block of bytes.\<close>

definition cstr :: "byte list \<Rightarrow> byte list" where
  "cstr bs = takeWhile (\<lambda>b. b \<noteq> 0) bs"

section \<open>Alignment and sizes\<close>

text \<open>\<open>_align\<close>: \<open>diff = ((((*value) + alignment) | alignment) - alignment) - *value\<close>\<close>

definition align_diff :: "nat \<Rightarrow> nat \<Rightarrow> nat" where
  "align_diff value alignment =
     (let a = alignment - 1 in ((or (value + a) a) - a) - value)"

definition advance_size_bytes :: "nat \<Rightarrow> nat" where
  "advance_size_bytes n = (if n < 254 then 1 else if n \<le> 65535 then 3 else 5)"

definition write_size :: "nat \<Rightarrow> byte list" where
  "write_size n =
     (if n < 254 then [word_of_nat n]
      else if n \<le> 65535 then 254 # le_enc 2 n
      else 255 # le_enc 4 n)"

lemma or_mask_eq: "or x (mask n) = push_bit n (drop_bit n x) + mask n" for x :: nat
proof -
  have "push_bit n (drop_bit n x) + mask n = or (push_bit n (drop_bit n x)) (mask n)"
    by (rule disjunctive_add) (auto simp: bit_simps)
  also have "\<dots> = or x (mask n)"
    by (rule bit_eqI) (auto simp: bit_simps)
  finally show ?thesis by simp
qed

lemma align_diff_pad:
  assumes "0 < n"
  shows "align_diff v (2 ^ n) = pad_to (2 ^ n) v"
proof -
  let ?m = "2 ^ n :: nat"
  have m: "mask n = ?m - 1" by (simp add: mask_eq_exp_minus_1)
  have d: "align_diff v ?m = (v + (?m - 1)) div ?m * ?m - v"
    unfolding align_diff_def Let_def m [symmetric] or_mask_eq
    by (simp add: push_bit_eq_mult drop_bit_eq_div)
  show ?thesis
  proof (cases "v mod ?m = 0")
    case True
    then obtain k where k: "v = ?m * k" by (metis mod_0_imp_dvd dvdE)
    have q: "(?m * k + (?m - 1)) div ?m = k"
      by (subst div_mult_self4) simp_all
    have "align_diff v ?m = 0" using d unfolding k q by simp
    then show ?thesis using True by (simp add: pad_to_def)
  next
    case False
    let ?k = "v div ?m" and ?r = "v mod ?m"
    have r: "0 < ?r" "?r < ?m" using False by simp_all
    have v: "v = ?m * ?k + ?r" by simp
    have "v + (?m - 1) = ?m * Suc ?k + (?r - 1)"
      using r by (subst v) simp
    then have "(v + (?m - 1)) div ?m = Suc ?k"
      using r by (metis Suc_leI Suc_pred div_less div_mult_self4 add.right_neutral less_imp_diff_less
          less_zeroE not_gr_zero)
    then have "align_diff v ?m = ?m * ?k + ?m - v"
      by (simp add: d algebra_simps)
    also have "\<dots> = ?m - ?r"
      using v by linarith
    finally show ?thesis using False by (simp add: pad_to_def)
  qed
qed

lemma align_diff_4 [simp]: "align_diff v 4 = pad_to 4 v"
  using align_diff_pad [of 2 v] by simp

lemma align_diff_8 [simp]: "align_diff v 8 = pad_to 8 v"
  using align_diff_pad [of 3 v] by simp

lemma pad_to_base_8 [simp]: "base mod 8 = 0 \<Longrightarrow> pad_to 8 (base + pos) = pad_to 8 pos"
  by (simp add: pad_to_def mod_add_left_eq [symmetric])

lemma pad_to_base_4 [simp]: "base mod 8 = 0 \<Longrightarrow> pad_to 4 (base + pos) = pad_to 4 pos"
proof -
  assume "base mod 8 = 0"
  then have "base mod 4 = 0" by presburger
  then show ?thesis by (simp add: pad_to_def mod_add_left_eq [symmetric])
qed

lemma length_write_size [simp]: "length (write_size n) = advance_size_bytes n"
  by (simp add: write_size_def advance_size_bytes_def)

section \<open>Encoding\<close>

text \<open>
  \<open>platch_calc_value_size_std\<close> from \<open>*size_out\<close> on entry to \<open>*size_out\<close> on exit; the
  position it aligns is relative to 0. A map evaluates key and value in turn.
\<close>

function (sequential) calc_value_size_std :: "std_value \<Rightarrow> nat \<Rightarrow> nat"
  and calc_size_list :: "std_value list \<Rightarrow> nat \<Rightarrow> nat"
  and calc_size_pairs :: "(std_value \<times> std_value) list \<Rightarrow> nat \<Rightarrow> nat" where
  "calc_value_size_std StdNull pos = pos + 1"
| "calc_value_size_std StdTrue pos = pos + 1"
| "calc_value_size_std StdFalse pos = pos + 1"
| "calc_value_size_std (StdInt32 _) pos = pos + 1 + 4"
| "calc_value_size_std (StdInt64 _) pos = pos + 1 + 8"
| "calc_value_size_std (StdFloat64 _) pos = pos + 1 + align_diff (pos + 1) 8 + 8"
| "calc_value_size_std (StdString s) pos =
     pos + 1 + advance_size_bytes (length (cstr s)) + length (cstr s)"
| "calc_value_size_std (StdLargeInt s) pos =
     pos + 1 + advance_size_bytes (length (cstr s)) + length (cstr s)"
| "calc_value_size_std (StdUInt8Array n _) pos = pos + 1 + advance_size_bytes n + n"
| "calc_value_size_std (StdInt32Array n _) pos =
     (let p = pos + 1 + advance_size_bytes n in p + align_diff p 4 + n * 4)"
| "calc_value_size_std (StdInt64Array n _) pos =
     (let p = pos + 1 + advance_size_bytes n in p + align_diff p 8 + n * 8)"
| "calc_value_size_std (StdFloat64Array n _) pos =
     (let p = pos + 1 + advance_size_bytes n in p + align_diff p 8 + n * 8)"
| "calc_value_size_std (StdList vs) pos =
     calc_size_list vs (pos + 1 + advance_size_bytes (length vs))"
| "calc_value_size_std (StdMap kvs) pos =
     calc_size_pairs kvs (pos + 1 + advance_size_bytes (length kvs))"
| "calc_size_list [] pos = pos"
| "calc_size_list (v # vs) pos = calc_size_list vs (calc_value_size_std v pos)"
| "calc_size_pairs [] pos = pos"
| "calc_size_pairs ((k, v) # kvs) pos =
     calc_size_pairs kvs (calc_value_size_std v (calc_value_size_std k pos))"
  by pat_completeness auto
termination
  by (relation "measure (\<lambda>x. case x of Inl (v, _) \<Rightarrow> size v
        | Inr (Inl (vs, _)) \<Rightarrow> size_list size vs | Inr (Inr (kvs, _)) \<Rightarrow> size_list (size_prod size size) kvs)")
    auto

text \<open>
  \<open>platch_write_value_to_buffer_std\<close> at offset \<open>pos\<close> of a buffer at \<open>base\<close>: the bytes it
  leaves from \<open>pos\<close> on. \<open>_align\<close> moves the pointer without writing.
\<close>

definition skip :: "nat \<Rightarrow> byte option list" where
  "skip n = replicate n None"

function (sequential) write_std :: "nat \<Rightarrow> std_value \<Rightarrow> nat \<Rightarrow> byte option list"
  and write_std_list :: "nat \<Rightarrow> std_value list \<Rightarrow> nat \<Rightarrow> byte option list"
  and write_std_pairs :: "nat \<Rightarrow> (std_value \<times> std_value) list \<Rightarrow> nat \<Rightarrow> byte option list" where
  "write_std base StdNull pos = map Some [std_type StdNull]"
| "write_std base StdTrue pos = map Some [std_type StdTrue]"
| "write_std base StdFalse pos = map Some [std_type StdFalse]"
| "write_std base (StdInt32 n) pos = map Some (std_type (StdInt32 n) # le32 n)"
| "write_std base (StdInt64 n) pos = map Some (std_type (StdInt64 n) # le64 n)"
| "write_std base (StdFloat64 x) pos =
     map Some [std_type (StdFloat64 x)] @ skip (align_diff (base + pos + 1) 8) @ map Some (le64 x)"
| "write_std base (StdLargeInt s) pos =
     map Some (std_type (StdLargeInt s) # write_size (length (cstr s)) @ cstr s)"
| "write_std base (StdString s) pos =
     map Some (std_type (StdString s) # write_size (length (cstr s)) @ cstr s)"
| "write_std base (StdUInt8Array n bs) pos =
     map Some (std_type (StdUInt8Array n bs) # write_size n @ take n bs)"
| "write_std base (StdInt32Array n xs) pos =
     map Some (std_type (StdInt32Array n xs) # write_size n)
     @ skip (align_diff (base + pos + 1 + length (write_size n)) 4)
     @ map Some (concat (map le32 (take n xs)))"
| "write_std base (StdInt64Array n xs) pos =
     map Some (std_type (StdInt64Array n xs) # write_size n)
     @ skip (align_diff (base + pos + 1 + length (write_size n)) 8)
     @ map Some (concat (map le64 (take n xs)))"
| "write_std base (StdFloat64Array n xs) pos =
     map Some (std_type (StdFloat64Array n xs) # write_size n)
     @ skip (align_diff (base + pos + 1 + length (write_size n)) 8)
     @ map Some (concat (map le64 (take n xs)))"
| "write_std base (StdList vs) pos =
     map Some (std_type (StdList vs) # write_size (length vs))
     @ write_std_list base vs (pos + 1 + length (write_size (length vs)))"
| "write_std base (StdMap kvs) pos =
     map Some (std_type (StdMap kvs) # write_size (length kvs))
     @ write_std_pairs base kvs (pos + 1 + length (write_size (length kvs)))"
| "write_std_list base [] pos = []"
| "write_std_list base (v # vs) pos =
     (let bs = write_std base v pos in bs @ write_std_list base vs (pos + length bs))"
| "write_std_pairs base [] pos = []"
| "write_std_pairs base ((k, v) # kvs) pos =
     (let ks = write_std base k pos; bs = write_std base v (pos + length ks)
      in ks @ bs @ write_std_pairs base kvs (pos + length ks + length bs))"
  by pat_completeness auto
termination
  by (relation "measure (\<lambda>x. case x of Inl (_, v, _) \<Rightarrow> size v
        | Inr (Inl (_, vs, _)) \<Rightarrow> size_list size vs | Inr (Inr (_, kvs, _)) \<Rightarrow> size_list (size_prod size size) kvs)")
    auto

section \<open>Decoding\<close>

datatype errno = EBADMSG | EINVAL | ENOMEM | EIO

text \<open>
  Besides the error codes: a write through the NULL that an unchecked \<open>calloc\<close> returned, a
  write outside the block, and the bound on the nesting depth.
\<close>

datatype dec_error = Errno errno | NullWrite | HeapOverflow | OutOfFuel

text \<open>Where the struct that receives a value lies.\<close>

datatype slot = InBlock | AtNull | PastBlock

definition read_n :: "byte list \<Rightarrow> nat \<Rightarrow> nat \<Rightarrow> dec_error + (byte list \<times> nat)" where
  "read_n buf n off =
     (if length buf - off < n then Inl (Errno EBADMSG) else Inr (bytes_at buf off n, off + n))"

definition advance_std :: "byte list \<Rightarrow> nat \<Rightarrow> nat \<Rightarrow> dec_error + nat" where
  "advance_std buf n off =
     (if length buf - off < n then Inl (Errno EBADMSG) else Inr (off + n))"

definition align_std :: "nat \<Rightarrow> byte list \<Rightarrow> nat \<Rightarrow> nat \<Rightarrow> dec_error + nat" where
  "align_std base buf alignment off = advance_std buf (align_diff (base + off) alignment) off"

definition read_size :: "byte list \<Rightarrow> nat \<Rightarrow> dec_error + (nat \<times> nat)" where
  "read_size buf off =
     bind_r (read_n buf 1 off) (\<lambda>(bs, off1).
       if hd bs \<le> 253 then Inr (unat (hd bs), off1)
       else if hd bs = 254 then bind_r (read_n buf 2 off1) (\<lambda>(cs, off2). Inr (le_dec cs, off2))
       else bind_r (read_n buf 4 off1) (\<lambda>(cs, off2). Inr (le_dec cs, off2)))"

text \<open>The elements of a typed array that lie in the message, from \<open>off\<close> on.\<close>

fun words32 :: "byte list \<Rightarrow> u32 list" where
  "words32 (a # b # c # d # bs) = rd32 [a, b, c, d] # words32 bs"
| "words32 _ = []"

fun words64 :: "byte list \<Rightarrow> u64 list" where
  "words64 (a # b # c # d # e # f # g # h # bs) = rd64 [a, b, c, d, e, f, g, h] # words64 bs"
| "words64 _ = []"

definition decode_string :: "(nat \<Rightarrow> bool) \<Rightarrow> byte list \<Rightarrow> nat \<Rightarrow> dec_error + (byte list \<times> nat)" where
  "decode_string heap buf off =
     bind_r (read_size buf off) (\<lambda>(size, off1).
       if \<not> heap ((size + 1) mod 2 ^ 32) then Inl (Errno ENOMEM)
       else if 2 ^ 31 \<le> size then Inl (Errno EBADMSG)
       else read_n buf size off1)"

text \<open>
  A typed array with elements of \<open>w\<close> bytes: \<open>size * w\<close> is computed in \<open>uint32_t\<close>, and is negative
  in the \<open>int\<close> of \<open>_advance\<close> from 2 GiB on, which no message has left. The result is the \<open>size\<close> field and the bytes the cursor passed over.
\<close>

definition decode_array ::
    "nat \<Rightarrow> byte list \<Rightarrow> nat \<Rightarrow> nat \<Rightarrow> dec_error + (nat \<times> byte list \<times> nat)" where
  "decode_array base buf w off =
     bind_r (read_size buf off) (\<lambda>(size, off1).
     bind_r (if w = 1 then Inr off1 else align_std base buf w off1) (\<lambda>off2.
       let bytes = (size * w) mod 2 ^ 32 in
       if length buf - off2 < bytes \<or> 2 ^ 31 \<le> bytes then Inl (Errno EBADMSG)
       else bind_r (advance_std buf bytes off2) (\<lambda>off3. Inr (size, bytes_at buf off2 bytes, off3))))"

text \<open>The cases of \<open>platch_decode_value_std\<close> without recursion.\<close>

definition decode_flat ::
    "(nat \<Rightarrow> bool) \<Rightarrow> nat \<Rightarrow> byte list \<Rightarrow> byte \<Rightarrow> nat \<Rightarrow> dec_error + (std_value \<times> nat)" where
  "decode_flat heap base buf type off =
     (if type = 0 then Inr (StdNull, off)
      else if type = 1 then Inr (StdTrue, off)
      else if type = 2 then Inr (StdFalse, off)
      else if type = 3 then bind_r (read_n buf 4 off) (\<lambda>(bs, off1). Inr (StdInt32 (rd32 bs), off1))
      else if type = 4 then bind_r (read_n buf 8 off) (\<lambda>(bs, off1). Inr (StdInt64 (rd64 bs), off1))
      else if type = 6 then
        bind_r (align_std base buf 8 off) (\<lambda>off1.
        bind_r (read_n buf 8 off1) (\<lambda>(bs, off2). Inr (StdFloat64 (rd64 bs), off2)))
      else if type = 5 then
        bind_r (decode_string heap buf off) (\<lambda>(s, off1). Inr (StdLargeInt s, off1))
      else if type = 7 then
        bind_r (decode_string heap buf off) (\<lambda>(s, off1). Inr (StdString s, off1))
      else if type = 8 then
        bind_r (decode_array base buf 1 off) (\<lambda>(n, bs, off1). Inr (StdUInt8Array n bs, off1))
      else if type = 9 then
        bind_r (decode_array base buf 4 off) (\<lambda>(n, bs, off1). Inr (StdInt32Array n (words32 bs), off1))
      else if type = 10 then
        bind_r (decode_array base buf 8 off) (\<lambda>(n, bs, off1). Inr (StdInt64Array n (words64 bs), off1))
      else if type = 11 then
        bind_r (decode_array base buf 8 off) (\<lambda>(n, bs, off1). Inr (StdFloat64Array n (words64 bs), off1))
      else Inl (Errno EBADMSG))"

text \<open>
  The recursive cases. The type byte is read before the first store to the receiving struct.
  The list's \<open>calloc\<close> is not checked; the map's block has \<open>size * 2\<close> elements in
  \<open>uint32_t\<close> arithmetic, keys from index 0 and values from index \<open>size\<close>.
\<close>

function (sequential) decode_std_fuel ::
    "(nat \<Rightarrow> bool) \<Rightarrow> nat \<Rightarrow> byte list \<Rightarrow> nat \<Rightarrow> slot \<Rightarrow> nat \<Rightarrow> dec_error + (std_value \<times> nat)"
  and decode_elems ::
    "(nat \<Rightarrow> bool) \<Rightarrow> nat \<Rightarrow> byte list \<Rightarrow> nat \<Rightarrow> slot \<Rightarrow> nat \<Rightarrow> nat \<Rightarrow> dec_error + (std_value list \<times> nat)"
  and decode_pairs ::
    "(nat \<Rightarrow> bool) \<Rightarrow> nat \<Rightarrow> byte list \<Rightarrow> nat \<Rightarrow> nat \<Rightarrow> nat \<Rightarrow> nat \<Rightarrow> nat \<Rightarrow>
     dec_error + ((std_value \<times> std_value) list \<times> nat)" where
  "decode_std_fuel heap base buf 0 slot off = Inl OutOfFuel"
| "decode_std_fuel heap base buf (Suc fuel) slot off =
     bind_r (read_n buf 1 off) (\<lambda>(bs, off1).
       if slot = AtNull then Inl NullWrite
       else if slot = PastBlock then Inl HeapOverflow
       else if hd bs = 12 then
         bind_r (read_size buf off1) (\<lambda>(size, off2).
         bind_r (decode_elems heap base buf fuel (if heap size then InBlock else AtNull) size off2)
           (\<lambda>(vs, off3). Inr (StdList vs, off3)))
       else if hd bs = 13 then
         bind_r (read_size buf off1) (\<lambda>(size, off2).
           let block = (size * 2) mod 2 ^ 32 in
           if \<not> heap block then Inl (Errno ENOMEM)
           else bind_r (decode_pairs heap base buf fuel block size size off2)
             (\<lambda>(kvs, off3). Inr (StdMap kvs, off3)))
       else decode_flat heap base buf (hd bs) off1)"
| "decode_elems heap base buf fuel slot 0 off = Inr ([], off)"
| "decode_elems heap base buf fuel slot (Suc n) off =
     bind_r (decode_std_fuel heap base buf fuel slot off) (\<lambda>(v, off1).
     bind_r (decode_elems heap base buf fuel slot n off1) (\<lambda>(vs, off2). Inr (v # vs, off2)))"
| "decode_pairs heap base buf fuel block sz 0 off = Inr ([], off)"
| "decode_pairs heap base buf fuel block sz (Suc n) off =
     (let i = sz - Suc n in
      bind_r (decode_std_fuel heap base buf fuel (if i < block then InBlock else PastBlock) off)
        (\<lambda>(k, off1).
      bind_r (decode_std_fuel heap base buf fuel (if sz + i < block then InBlock else PastBlock) off1)
        (\<lambda>(v, off2).
      bind_r (decode_pairs heap base buf fuel block sz n off2)
        (\<lambda>(kvs, off3). Inr ((k, v) # kvs, off3)))))"
  by pat_completeness auto
termination
  by (relation "measures [
       \<lambda>x. case x of Inl (_, _, _, f, _) \<Rightarrow> f
             | Inr (Inl (_, _, _, f, _)) \<Rightarrow> f | Inr (Inr (_, _, _, f, _)) \<Rightarrow> f,
       \<lambda>x. case x of Inl _ \<Rightarrow> 0
             | Inr (Inl (_, _, _, _, _, n, _)) \<Rightarrow> Suc n | Inr (Inr (_, _, _, _, _, _, n, _)) \<Rightarrow> Suc n]")
    auto

declare decode_std_fuel.simps(2) [simp del]

definition decode_value_std ::
    "(nat \<Rightarrow> bool) \<Rightarrow> nat \<Rightarrow> byte list \<Rightarrow> nat \<Rightarrow> dec_error + (std_value \<times> nat)" where
  "decode_value_std heap base buf off =
     decode_std_fuel heap base buf (Suc (length buf - off)) InBlock off"


section \<open>Well-formed values\<close>

text \<open>
  Strings without a NUL, arrays whose \<open>size\<close> field is their length, and sizes for which the
  32-bit products of the decoder do not wrap.
\<close>

fun wf_std :: "std_value \<Rightarrow> bool" where
  "wf_std (StdLargeInt s) = (0 \<notin> set s \<and> length s < 2 ^ 31)"
| "wf_std (StdString s) = (0 \<notin> set s \<and> length s < 2 ^ 31)"
| "wf_std (StdUInt8Array n bs) = (n = length bs \<and> n < 2 ^ 28)"
| "wf_std (StdInt32Array n xs) = (n = length xs \<and> n < 2 ^ 28)"
| "wf_std (StdInt64Array n xs) = (n = length xs \<and> n < 2 ^ 28)"
| "wf_std (StdFloat64Array n xs) = (n = length xs \<and> n < 2 ^ 28)"
| "wf_std (StdList vs) = (length vs < 2 ^ 31 \<and> (\<forall>v \<in> set vs. wf_std v))"
| "wf_std (StdMap kvs) = (length kvs < 2 ^ 31 \<and> (\<forall>p \<in> set kvs. wf_std (fst p) \<and> wf_std (snd p)))"
| "wf_std _ = True"

lemma cstr_id [simp]: "0 \<notin> set s \<Longrightarrow> cstr s = s"
  by (auto simp: cstr_def takeWhile_eq_all_conv)

lemma length_concat_le [simp]:
  "length (concat (map le32 xs)) = 4 * length xs" "length (concat (map le64 ys)) = 8 * length ys"
  by (induction xs; simp) (induction ys; simp)

lemma length_skip [simp]: "length (skip n) = n"
  by (simp add: skip_def)

lemma calc_size_exact:
  "base mod 8 = 0 \<Longrightarrow> wf_std v \<Longrightarrow> pos + length (write_std base v pos) = calc_value_size_std v pos"
  and calc_size_list_exact:
  "base mod 8 = 0 \<Longrightarrow> (\<forall>v \<in> set vs. wf_std v) \<Longrightarrow>
     pos + length (write_std_list base vs pos) = calc_size_list vs pos"
  and calc_size_pairs_exact:
  "base mod 8 = 0 \<Longrightarrow> (\<forall>p \<in> set kvs. wf_std (fst p) \<and> wf_std (snd p)) \<Longrightarrow>
     pos + length (write_std_pairs base kvs pos) = calc_size_pairs kvs pos"
proof (induction base v pos and base vs pos and base kvs pos
    rule: write_std_write_std_list_write_std_pairs.induct)
  case (6 base x pos)
  then show ?case using pad_to_base_8 [of base "Suc pos"] by simp
next
  case (10 base n xs pos)
  then show ?case
    using pad_to_base_4 [of base "Suc (pos + advance_size_bytes n)"] by (simp add: Let_def add.assoc)
next
  case (11 base n xs pos)
  then show ?case
    using pad_to_base_8 [of base "Suc (pos + advance_size_bytes n)"] by (simp add: Let_def add.assoc)
next
  case (12 base n xs pos)
  then show ?case
    using pad_to_base_8 [of base "Suc (pos + advance_size_bytes n)"] by (simp add: Let_def add.assoc)
next
  case (16 base v vs pos)
  then show ?case by (simp add: Let_def flip: add.assoc)
next
  case (18 base k v kvs pos)
  then show ?case by (simp add: Let_def flip: add.assoc)
qed (auto simp: add.assoc)

text \<open>
  C14: the size \<open>platch_calc_value_size_std\<close> computes is exactly the number of bytes
  \<open>platch_write_value_to_buffer_std\<close> moves the cursor by, at any offset of a buffer whose
  address is a multiple of 8, so the encoder neither overruns the block \<open>platch_encode\<close>
  allocates nor leaves bytes at its end unused.
\<close>
theorem calc_size_is_bytes_written:
  assumes "base mod 8 = 0" and "wf_std v"
  shows "calc_value_size_std v pos = pos + length (write_std base v pos)"
  using calc_size_exact [OF assms] by simp

theorem calc_size_is_bytes_written_witness:
  "calc_value_size_std (StdMap [(StdString [107], StdFloat64 0)]) 1
     = 1 + length (write_std 16 (StdMap [(StdString [107], StdFloat64 0)]) 1)"
  using calc_size_is_bytes_written [of 16 "StdMap [(StdString [107], StdFloat64 0)]" 1] by simp

section \<open>Round trip\<close>

text \<open>The bytes \<open>bs\<close> are what was written, with any byte in the gaps.\<close>

definition fills :: "byte option list \<Rightarrow> byte list \<Rightarrow> bool" where
  "fills os bs = list_all2 (\<lambda>o' b. case o' of None \<Rightarrow> True | Some x \<Rightarrow> b = x) os bs"

lemma fills_length: "fills os bs \<Longrightarrow> length bs = length os"
  by (simp add: fills_def list_all2_lengthD)

lemma fills_append: "fills (os @ os') bs \<longleftrightarrow> (\<exists>xs ys. bs = xs @ ys \<and> fills os xs \<and> fills os' ys)"
  unfolding fills_def by (simp add: list_all2_append1) (metis list_all2_lengthD)

lemma fills_some [simp]: "fills (map Some xs) bs \<longleftrightarrow> bs = xs"
  unfolding fills_def by (induction xs arbitrary: bs) (auto simp: list_all2_Cons1)

lemma fills_nil [simp]: "fills [] bs \<longleftrightarrow> bs = []"
  by (simp add: fills_def)

lemma fills_Cons [simp]: "fills (Some x # os) bs \<longleftrightarrow> (\<exists>ys. bs = x # ys \<and> fills os ys)"
  by (auto simp: fills_def list_all2_Cons1)

lemma fills_skip [simp]: "fills (skip n) bs \<longleftrightarrow> length bs = n"
  unfolding fills_def skip_def by (induction n arbitrary: bs) (auto simp: list_all2_Cons1 length_Suc_conv)

lemma read_n_at:
  assumes "drop off buf = xs @ r" and "off \<le> length buf" and "length xs = n"
  shows "read_n buf n off = Inr (xs, off + n)"
  using drop_appendD [OF assms(1,2)] assms(2,3) by (auto simp: read_n_def)

lemma read_n_1: "drop off buf = x # r \<Longrightarrow> read_n buf 1 off = Inr ([x], Suc off)"
  using read_n_at [of off buf "[x]" r 1] drop_ConsD [of off buf x r] by simp

lemma advance_at:
  assumes "drop off buf = xs @ r" and "off \<le> length buf" and "length xs = n"
  shows "advance_std buf n off = Inr (off + n)"
  using drop_appendD [OF assms(1,2)] assms(2,3) by (auto simp: advance_std_def)

lemma read_size_at:
  assumes "drop off buf = write_size n @ r" and "n < 2 ^ 32" and "off \<le> length buf"
  shows "read_size buf off = Inr (n, off + advance_size_bytes n)"
proof -
  consider "n < 254" | "254 \<le> n" "n \<le> 65535" | "65535 < n" by linarith
  then show ?thesis
  proof cases
    case 1
    then have "unat (word_of_nat n :: byte) = n" by (simp add: unat_of_nat)
    moreover from this 1 have "word_of_nat n \<le> (253 :: byte)"
      by (simp add: word_le_nat_alt)
    ultimately show ?thesis
      using assms 1 read_n_1 [of off buf "word_of_nat n" r]
      by (simp add: write_size_def read_size_def advance_size_bytes_def)
  next
    case 2
    have d: "drop off buf = 254 # le_enc 2 n @ r"
      using assms(1) 2 by (simp add: write_size_def)
    have "read_n buf 2 (Suc off) = Inr (le_enc 2 n, Suc off + 2)"
      by (rule read_n_at) (use drop_ConsD [OF d] in auto)
    then show ?thesis
      using 2 read_n_1 [OF d] by (simp add: read_size_def advance_size_bytes_def)
  next
    case 3
    have d: "drop off buf = 255 # le_enc 4 n @ r"
      using assms(1) 3 by (simp add: write_size_def)
    have "read_n buf 4 (Suc off) = Inr (le_enc 4 n, Suc off + 4)"
      by (rule read_n_at) (use drop_ConsD [OF d] in auto)
    then show ?thesis
      using 3 assms(2) read_n_1 [OF d] by (simp add: read_size_def advance_size_bytes_def)
  qed
qed

lemma words32_enc [simp]: "words32 (concat (map le32 xs)) = xs"
proof (induction xs)
  case Nil
  then show ?case by simp
next
  case (Cons x xs)
  obtain a b c d where e: "le32 x = [a, b, c, d]"
    using list_of_4 [of "le32 x"] by auto
  with Cons rd32_le32 [of x] show ?case by simp
qed

lemma words64_enc [simp]: "words64 (concat (map le64 xs)) = xs"
proof (induction xs)
  case Nil
  then show ?case by simp
next
  case (Cons x xs)
  obtain a b c d e f g h where e: "le64 x = [a, b, c, d, e, f, g, h]"
    using list_of_8 [of "le64 x"] by auto
  with Cons rd64_le64 [of x] show ?case by simp
qed

lemma decode_string_at:
  assumes "drop off buf = write_size (length s) @ s @ r" and "length s < 2 ^ 31" and "off \<le> length buf"
    and "\<And>n. heap n"
  shows "decode_string heap buf off = Inr (s, off + advance_size_bytes (length s) + length s)"
proof -
  have 1: "read_size buf off = Inr (length s, off + advance_size_bytes (length s))"
    using assms by (intro read_size_at) auto
  have "read_n buf (length s) (off + advance_size_bytes (length s))
      = Inr (s, off + advance_size_bytes (length s) + length s)"
    using drop_appendD [OF assms(1,3)] by (intro read_n_at) auto
  with 1 assms(2,4) show ?thesis by (simp add: decode_string_def)
qed

lemma decode_array_at:
  assumes "drop off buf = write_size n @ p @ bs @ r" and "n * 8 < 2 ^ 31" and "off \<le> length buf"
    and "w = 1 \<and> p = [] \<or> w = 4 \<and> length p = pad_to 4 (base + off + advance_size_bytes n)
         \<or> w = 8 \<and> length p = pad_to 8 (base + off + advance_size_bytes n)"
    and "length bs = n * w"
  shows "decode_array base buf w off
      = Inr (n, bs, off + advance_size_bytes n + length p + length bs)"
proof -
  let ?o1 = "off + advance_size_bytes n"
  have 1: "read_size buf off = Inr (n, ?o1)"
    using assms by (intro read_size_at) auto
  have d1: "drop ?o1 buf = p @ bs @ r" "?o1 \<le> length buf"
    using drop_appendD [OF assms(1,3)] by simp_all
  have 2: "(if w = 1 then Inr ?o1 else align_std base buf w ?o1) = Inr (?o1 + length p)"
    using assms(4) advance_at [OF d1] by (auto simp: align_std_def add.assoc)
  have d2: "drop (?o1 + length p) buf = bs @ r" "?o1 + length p \<le> length buf"
    using drop_appendD [OF d1] by simp_all
  have w: "n * w mod 2 ^ 32 = n * w" "\<not> 2 ^ 31 \<le> n * w"
    using assms(2,4) by auto
  have "\<not> length buf - (?o1 + length p) < n * w"
    using drop_appendD [OF d2] assms(5) by auto
  with 1 2 w advance_at [OF d2 assms(5)] drop_appendD [OF d2] assms(5) show ?thesis
    by (simp add: decode_array_def Let_def)
qed


lemma decode_flat_tag:
  assumes "drop off buf = t # r" and "t \<noteq> 12" and "t \<noteq> 13"
  shows "decode_std_fuel heap base buf (Suc fuel) InBlock off = decode_flat heap base buf t (Suc off)"
  using read_n_1 [OF assms(1)] assms(2,3) by (simp add: decode_std_fuel.simps(2))

lemma decode_list_tag:
  assumes "drop off buf = 12 # write_size n @ r" and "n < 2 ^ 31" and "\<And>n. heap n"
    and "decode_elems heap base buf fuel InBlock n (Suc off + advance_size_bytes n) = Inr (vs, off')"
  shows "decode_std_fuel heap base buf (Suc fuel) InBlock off = Inr (StdList vs, off')"
proof -
  have d: "drop (Suc off) buf = write_size n @ r" "Suc off \<le> length buf"
    using drop_ConsD [OF assms(1)] by simp_all
  have "read_size buf (Suc off) = Inr (n, Suc off + advance_size_bytes n)"
    using d assms(2) by (intro read_size_at) auto
  with read_n_1 [OF assms(1)] assms(3,4) show ?thesis by (simp add: decode_std_fuel.simps(2))
qed

lemma decode_map_tag:
  assumes "drop off buf = 13 # write_size n @ r" and "n < 2 ^ 31" and "\<And>n. heap n"
    and "decode_pairs heap base buf fuel (n * 2) n n (Suc off + advance_size_bytes n) = Inr (kvs, off')"
  shows "decode_std_fuel heap base buf (Suc fuel) InBlock off = Inr (StdMap kvs, off')"
proof -
  have d: "drop (Suc off) buf = write_size n @ r" "Suc off \<le> length buf"
    using drop_ConsD [OF assms(1)] by simp_all
  have "read_size buf (Suc off) = Inr (n, Suc off + advance_size_bytes n)"
    using d assms(2) by (intro read_size_at) auto
  moreover have "n * 2 mod 2 ^ 32 = n * 2"
    using assms(2) by simp
  ultimately show ?thesis
    using read_n_1 [OF assms(1)] assms(3,4) by (simp add: decode_std_fuel.simps(2) Let_def)
qed

lemma decode_flat_simps:
  "decode_flat heap base buf 0 off = Inr (StdNull, off)"
  "decode_flat heap base buf 1 off = Inr (StdTrue, off)"
  "decode_flat heap base buf 2 off = Inr (StdFalse, off)"
  "decode_flat heap base buf 3 off = bind_r (read_n buf 4 off) (\<lambda>(bs, off1). Inr (StdInt32 (rd32 bs), off1))"
  "decode_flat heap base buf 4 off = bind_r (read_n buf 8 off) (\<lambda>(bs, off1). Inr (StdInt64 (rd64 bs), off1))"
  "decode_flat heap base buf 5 off = bind_r (decode_string heap buf off) (\<lambda>(s, off1). Inr (StdLargeInt s, off1))"
  "decode_flat heap base buf 6 off = bind_r (align_std base buf 8 off) (\<lambda>off1.
        bind_r (read_n buf 8 off1) (\<lambda>(bs, off2). Inr (StdFloat64 (rd64 bs), off2)))"
  "decode_flat heap base buf 7 off = bind_r (decode_string heap buf off) (\<lambda>(s, off1). Inr (StdString s, off1))"
  "decode_flat heap base buf 8 off =
     bind_r (decode_array base buf 1 off) (\<lambda>(n, bs, off1). Inr (StdUInt8Array n bs, off1))"
  "decode_flat heap base buf 9 off =
     bind_r (decode_array base buf 4 off) (\<lambda>(n, bs, off1). Inr (StdInt32Array n (words32 bs), off1))"
  "decode_flat heap base buf 10 off =
     bind_r (decode_array base buf 8 off) (\<lambda>(n, bs, off1). Inr (StdInt64Array n (words64 bs), off1))"
  "decode_flat heap base buf 11 off =
     bind_r (decode_array base buf 8 off) (\<lambda>(n, bs, off1). Inr (StdFloat64Array n (words64 bs), off1))"
  by (simp_all add: decode_flat_def)

text \<open>One case of the round trip: a tag that does not recurse.\<close>

lemma flat_at:
  assumes "drop off buf = t # bs @ r" and "t \<noteq> 12" and "t \<noteq> 13" and "Suc (length bs) \<le> fuel"
    and "drop (Suc off) buf = bs @ r \<Longrightarrow> Suc off \<le> length buf \<Longrightarrow>
      decode_flat heap base buf t (Suc off) = Inr (v, Suc off + length bs)"
  shows "decode_std_fuel heap base buf fuel InBlock off = Inr (v, off + Suc (length bs))"
proof -
  obtain f where f: "fuel = Suc f" using assms(4) by (cases fuel) auto
  have "drop (Suc off) buf = bs @ r" "Suc off \<le> length buf"
    using drop_ConsD [OF assms(1)] by simp_all
  with assms(5) decode_flat_tag [OF assms(1-3)] show ?thesis by (simp add: f)
qed

lemma float64_at:
  assumes "drop off buf = p @ le64 x @ r" and "off \<le> length buf" and "length p = pad_to 8 (base + off)"
  shows "decode_flat heap base buf 6 off = Inr (StdFloat64 x, off + length p + 8)"
proof -
  have 1: "align_std base buf 8 off = Inr (off + length p)"
    using advance_at [OF assms(1,2)] assms(3) by (simp add: align_std_def)
  have d: "drop (off + length p) buf = le64 x @ r" "off + length p \<le> length buf"
    using drop_appendD [OF assms(1,2)] by simp_all
  have "read_n buf 8 (off + length p) = Inr (le64 x, off + length p + 8)"
    by (rule read_n_at [OF d]) simp
  with 1 show ?thesis by (simp add: decode_flat_simps)
qed


lemma array_bytes_at:
  assumes "drop off buf = write_size n @ p @ bs @ r" and "n < 2 ^ 28" and "off \<le> length buf"
    and "base mod 8 = 0"
    and "w = 4 \<and> length p = pad_to 4 (off + advance_size_bytes n)
         \<or> w = 8 \<and> length p = pad_to 8 (off + advance_size_bytes n)"
    and "length bs = n * w"
  shows "decode_array base buf w off = Inr (n, bs, off + advance_size_bytes n + length p + length bs)"
  by (rule decode_array_at [OF assms(1) _ assms(3) _ assms(6)]) (use assms in \<open>auto simp: add.assoc\<close>)

lemma decode_written:
  "fills (write_std base v off) bs \<Longrightarrow> drop off buf = bs @ r \<Longrightarrow> base mod 8 = 0 \<Longrightarrow> wf_std v \<Longrightarrow>
     length bs \<le> fuel \<Longrightarrow> base' mod 8 = 0 \<Longrightarrow>
     decode_std_fuel (\<lambda>_. True) base' buf fuel InBlock off = Inr (v, off + length bs)"
  and decode_written_list:
  "fills (write_std_list base vs off) bs \<Longrightarrow> drop off buf = bs @ r \<Longrightarrow> base mod 8 = 0 \<Longrightarrow>
     (\<forall>v \<in> set vs. wf_std v) \<Longrightarrow> length bs \<le> fuel \<Longrightarrow> base' mod 8 = 0 \<Longrightarrow>
     off \<le> length buf \<Longrightarrow>
     decode_elems (\<lambda>_. True) base' buf fuel InBlock (length vs) off = Inr (vs, off + length bs)"
  and decode_written_pairs:
  "fills (write_std_pairs base kvs off) bs \<Longrightarrow> drop off buf = bs @ r \<Longrightarrow> base mod 8 = 0 \<Longrightarrow>
     (\<forall>p \<in> set kvs. wf_std (fst p) \<and> wf_std (snd p)) \<Longrightarrow> length bs \<le> fuel \<Longrightarrow> base' mod 8 = 0 \<Longrightarrow>
     off \<le> length buf \<Longrightarrow> length kvs \<le> sz \<Longrightarrow>
     decode_pairs (\<lambda>_. True) base' buf fuel (sz * 2) sz (length kvs) off = Inr (kvs, off + length bs)"
proof (induction base v off and base vs off and base kvs off arbitrary: bs r fuel and bs r fuel and bs r fuel sz
    rule: write_std_write_std_list_write_std_pairs.induct)
  case (1 base pos)
  then show ?case using flat_at [of pos buf 0 "[]" r fuel] by (simp add: decode_flat_simps)
next
  case (2 base pos)
  then show ?case using flat_at [of pos buf 1 "[]" r fuel] by (simp add: decode_flat_simps)
next
  case (3 base pos)
  then show ?case using flat_at [of pos buf 2 "[]" r fuel] by (simp add: decode_flat_simps)
next
  case (4 base n pos)
  then show ?case
    using flat_at [of pos buf 3 "le32 n" r fuel] read_n_at [of "Suc pos" buf "le32 n" r 4]
    by (simp add: decode_flat_simps)
next
  case (5 base n pos)
  then show ?case
    using flat_at [of pos buf 4 "le64 n" r fuel] read_n_at [of "Suc pos" buf "le64 n" r 8]
    by (simp add: decode_flat_simps)
next
  case (6 base x pos)
  then obtain p where p: "bs = 6 # p @ le64 x" "length p = pad_to 8 (Suc pos)"
    using pad_to_base_8 [of base "Suc pos"] by (auto simp: fills_append)
  have "decode_flat (\<lambda>_. True) base' buf 6 (Suc pos) = Inr (StdFloat64 x, Suc pos + length (p @ le64 x))"
    if "drop (Suc pos) buf = (p @ le64 x) @ r" "Suc pos \<le> length buf"
    using float64_at [of "Suc pos" buf p x r base' "\<lambda>_. True"] that p(2)
      pad_to_base_8 [OF "6.prems"(6), of "Suc pos"] by simp
  from flat_at [of pos buf 6 "p @ le64 x" r fuel "\<lambda>_. True" base' "StdFloat64 x", OF _ _ _ _ this]
  show ?case using "6.prems"(2,5) p by simp
next
  case (7 base s pos)
  have b: "bs = 5 # write_size (length s) @ s" using "7.prems"(1,4) by (auto simp: fills_append)
  have "decode_string (\<lambda>_. True) buf (Suc pos) = Inr (s, Suc pos + advance_size_bytes (length s) + length s)"
    if "drop (Suc pos) buf = write_size (length s) @ s @ r" "Suc pos \<le> length buf"
    using that "7.prems"(4) by (intro decode_string_at) auto
  then show ?case
    using flat_at [of pos buf 5 "write_size (length s) @ s" r fuel "\<lambda>_. True" base'] "7.prems"(2,5) b
    by (simp add: decode_flat_simps)
next
  case (8 base s pos)
  have b: "bs = 7 # write_size (length s) @ s" using "8.prems"(1,4) by (auto simp: fills_append)
  have "decode_string (\<lambda>_. True) buf (Suc pos) = Inr (s, Suc pos + advance_size_bytes (length s) + length s)"
    if "drop (Suc pos) buf = write_size (length s) @ s @ r" "Suc pos \<le> length buf"
    using that "8.prems"(4) by (intro decode_string_at) auto
  then show ?case
    using flat_at [of pos buf 7 "write_size (length s) @ s" r fuel "\<lambda>_. True" base'] "8.prems"(2,5) b
    by (simp add: decode_flat_simps)
next
  case (9 base n xs pos)
  have b: "bs = 8 # write_size n @ xs" using "9.prems"(1,4) by (auto simp: fills_append)
  have "decode_array base' buf 1 (Suc pos) = Inr (n, xs, Suc pos + advance_size_bytes n + length xs)"
    if "drop (Suc pos) buf = write_size n @ xs @ r" "Suc pos \<le> length buf"
  proof -
    have n: "n = length xs" "n * 8 < 2 ^ 31" using "9.prems"(4) by simp_all
    have d: "drop (Suc pos) buf = write_size n @ [] @ xs @ r" using that(1) by simp
    have "length xs = n * 1" using n(1) by simp
    from decode_array_at [OF d n(2) that(2) _ this, of base'] show ?thesis
      by (simp only: list.size add_0_right simp_thms)
  qed
  then show ?case
    using flat_at [of pos buf 8 "write_size n @ xs" r fuel "\<lambda>_. True" base'] "9.prems"(2,4,5) b
    by (simp add: decode_flat_simps)
next
  case (10 base n xs pos)
  then obtain p where p: "bs = 9 # write_size n @ p @ concat (map le32 xs)"
      "length p = pad_to 4 (Suc pos + advance_size_bytes n)"
    using pad_to_base_4 [of base "Suc (pos + advance_size_bytes n)"] by (auto simp: fills_append add.assoc)
  have "decode_array base' buf 4 (Suc pos)
      = Inr (n, concat (map le32 xs), Suc pos + advance_size_bytes n + length p + length (concat (map le32 xs)))"
    if "drop (Suc pos) buf = (write_size n @ p @ concat (map le32 xs)) @ r" "Suc pos \<le> length buf"
  proof (rule array_bytes_at [of _ _ _ _ _ r])
    show "drop (Suc pos) buf = write_size n @ p @ concat (map le32 xs) @ r"
      using that(1) by simp
    show "n < 2 ^ 28" "base' mod 8 = 0" "length (concat (map le32 xs)) = n * 4"
      using "10.prems"(4,6) by simp_all
    show "4 = 4 \<and> length p = pad_to 4 (Suc pos + advance_size_bytes n)
        \<or> 4 = (8 :: nat) \<and> length p = pad_to 8 (Suc pos + advance_size_bytes n)"
      using p(2) by simp
  qed (rule that(2))
  then have "decode_flat (\<lambda>_. True) base' buf 9 (Suc pos)
      = Inr (StdInt32Array n xs, Suc pos + length (write_size n @ p @ concat (map le32 xs)))"
    if "drop (Suc pos) buf = (write_size n @ p @ concat (map le32 xs)) @ r" "Suc pos \<le> length buf"
    using that by (simp add: decode_flat_simps add.assoc)
  from flat_at [of pos buf 9 "write_size n @ p @ concat (map le32 xs)" r fuel "\<lambda>_. True" base' "StdInt32Array n xs",
      OF _ _ _ _ this]
  show ?case using "10.prems"(2,5) p by simp
next
  case (11 base n xs pos)
  then obtain p where p: "bs = 10 # write_size n @ p @ concat (map le64 xs)"
      "length p = pad_to 8 (Suc pos + advance_size_bytes n)"
    using pad_to_base_8 [of base "Suc (pos + advance_size_bytes n)"] by (auto simp: fills_append add.assoc)
  have "decode_array base' buf 8 (Suc pos)
      = Inr (n, concat (map le64 xs), Suc pos + advance_size_bytes n + length p + length (concat (map le64 xs)))"
    if "drop (Suc pos) buf = (write_size n @ p @ concat (map le64 xs)) @ r" "Suc pos \<le> length buf"
  proof (rule array_bytes_at [of _ _ _ _ _ r])
    show "drop (Suc pos) buf = write_size n @ p @ concat (map le64 xs) @ r"
      using that(1) by simp
    show "n < 2 ^ 28" "base' mod 8 = 0" "length (concat (map le64 xs)) = n * 8"
      using "11.prems"(4,6) by simp_all
    show "8 = 4 \<and> length p = pad_to 4 (Suc pos + advance_size_bytes n)
        \<or> 8 = (8 :: nat) \<and> length p = pad_to 8 (Suc pos + advance_size_bytes n)"
      using p(2) by simp
  qed (rule that(2))
  then have "decode_flat (\<lambda>_. True) base' buf 10 (Suc pos)
      = Inr (StdInt64Array n xs, Suc pos + length (write_size n @ p @ concat (map le64 xs)))"
    if "drop (Suc pos) buf = (write_size n @ p @ concat (map le64 xs)) @ r" "Suc pos \<le> length buf"
    using that by (simp add: decode_flat_simps add.assoc)
  from flat_at [of pos buf 10 "write_size n @ p @ concat (map le64 xs)" r fuel "\<lambda>_. True" base' "StdInt64Array n xs",
      OF _ _ _ _ this]
  show ?case using "11.prems"(2,5) p by simp
next
  case (12 base n xs pos)
  then obtain p where p: "bs = 11 # write_size n @ p @ concat (map le64 xs)"
      "length p = pad_to 8 (Suc pos + advance_size_bytes n)"
    using pad_to_base_8 [of base "Suc (pos + advance_size_bytes n)"] by (auto simp: fills_append add.assoc)
  have "decode_array base' buf 8 (Suc pos)
      = Inr (n, concat (map le64 xs), Suc pos + advance_size_bytes n + length p + length (concat (map le64 xs)))"
    if "drop (Suc pos) buf = (write_size n @ p @ concat (map le64 xs)) @ r" "Suc pos \<le> length buf"
  proof (rule array_bytes_at [of _ _ _ _ _ r])
    show "drop (Suc pos) buf = write_size n @ p @ concat (map le64 xs) @ r"
      using that(1) by simp
    show "n < 2 ^ 28" "base' mod 8 = 0" "length (concat (map le64 xs)) = n * 8"
      using "12.prems"(4,6) by simp_all
    show "8 = 4 \<and> length p = pad_to 4 (Suc pos + advance_size_bytes n)
        \<or> 8 = (8 :: nat) \<and> length p = pad_to 8 (Suc pos + advance_size_bytes n)"
      using p(2) by simp
  qed (rule that(2))
  then have "decode_flat (\<lambda>_. True) base' buf 11 (Suc pos)
      = Inr (StdFloat64Array n xs, Suc pos + length (write_size n @ p @ concat (map le64 xs)))"
    if "drop (Suc pos) buf = (write_size n @ p @ concat (map le64 xs)) @ r" "Suc pos \<le> length buf"
    using that by (simp add: decode_flat_simps add.assoc)
  from flat_at [of pos buf 11 "write_size n @ p @ concat (map le64 xs)" r fuel "\<lambda>_. True" base' "StdFloat64Array n xs",
      OF _ _ _ _ this]
  show ?case using "12.prems"(2,5) p by simp
next
  case (13 base vs pos)
  let ?n = "length vs"
  from 13 obtain ys where y: "bs = 12 # write_size ?n @ ys"
      "fills (write_std_list base vs (pos + 1 + length (write_size ?n))) ys"
    by (auto simp: fills_append)
  obtain f where f: "fuel = Suc f" using 13 y by (cases fuel) auto
  have d: "drop (Suc pos) buf = write_size ?n @ ys @ r" "Suc pos \<le> length buf"
    using drop_ConsD [of pos buf] 13 y by simp_all
  have "decode_elems (\<lambda>_. True) base' buf f InBlock ?n (pos + 1 + length (write_size ?n))
      = Inr (vs, pos + 1 + length (write_size ?n) + length ys)"
    using drop_appendD [OF d] 13 y f by (intro "13.IH" [of ys r]) auto
  then show ?case
    using decode_list_tag [of pos buf ?n "ys @ r" "\<lambda>_. True" base' f vs] 13 y f by simp
next
  case (14 base kvs pos)
  let ?n = "length kvs"
  from 14 obtain ys where y: "bs = 13 # write_size ?n @ ys"
      "fills (write_std_pairs base kvs (pos + 1 + length (write_size ?n))) ys"
    by (auto simp: fills_append)
  obtain f where f: "fuel = Suc f" using 14 y by (cases fuel) auto
  have d: "drop (Suc pos) buf = write_size ?n @ ys @ r" "Suc pos \<le> length buf"
    using drop_ConsD [of pos buf] 14 y by simp_all
  have "decode_pairs (\<lambda>_. True) base' buf f (?n * 2) ?n ?n (pos + 1 + length (write_size ?n))
      = Inr (kvs, pos + 1 + length (write_size ?n) + length ys)"
    using drop_appendD [OF d] 14 y f by (intro "14.IH" [of ys r]) auto
  then show ?case
    using decode_map_tag [of pos buf ?n "ys @ r" "\<lambda>_. True" base' f kvs] 14 y f by simp
next
  case (15 base pos)
  then show ?case by simp
next
  case (16 base v vs pos)
  from 16 obtain xs ys where y: "bs = xs @ ys" "fills (write_std base v pos) xs"
      "fills (write_std_list base vs (pos + length (write_std base v pos))) ys"
    by (auto simp: fills_append Let_def)
  note l = fills_length [OF y(2)]
  have d: "drop pos buf = xs @ ys @ r" using 16 y by simp
  have 1: "decode_std_fuel (\<lambda>_. True) base' buf fuel InBlock pos = Inr (v, pos + length xs)"
    using 16 y d by (intro "16.IH"(1) [of xs "ys @ r"]) auto
  have 2: "decode_elems (\<lambda>_. True) base' buf fuel InBlock (length vs) (pos + length xs)
      = Inr (vs, pos + length xs + length ys)"
    unfolding l using drop_appendD [OF d] 16 y l by (intro "16.IH"(2) [OF refl, of ys r]) auto
  from 1 2 y show ?case by simp
next
  case (17 base pos)
  then show ?case by simp
next
  case (18 base k v kvs pos)
  let ?p = "pos + length (write_std base k pos)"
  let ?q = "?p + length (write_std base v ?p)"
  from "18.prems"(1) obtain xs ys zs where y: "bs = xs @ ys @ zs" "fills (write_std base k pos) xs"
      "fills (write_std base v ?p) ys" "fills (write_std_pairs base kvs ?q) zs"
    by (auto simp: fills_append Let_def)
  note l = fills_length [OF y(2)] fills_length [OF y(3)]
  have d: "drop pos buf = xs @ (ys @ zs) @ r" using 18 y by simp
  have d1: "drop (pos + length xs) buf = ys @ zs @ r" "pos + length xs \<le> length buf"
    using drop_appendD [OF d] 18 by simp_all
  have d2: "drop (pos + length xs + length ys) buf = zs @ r" "pos + length xs + length ys \<le> length buf"
    using drop_appendD [OF d1] by simp_all
  have 1: "decode_std_fuel (\<lambda>_. True) base' buf fuel InBlock pos = Inr (k, pos + length xs)"
    by (rule "18.IH"(1) [of xs "(ys @ zs) @ r"]) (use "18.prems" y d in auto)
  have 2: "decode_std_fuel (\<lambda>_. True) base' buf fuel InBlock (pos + length xs) = Inr (v, pos + length xs + length ys)"
    unfolding l(1) by (rule "18.IH"(2) [OF refl, of ys "zs @ r"]) (use "18.prems" y d1 l in auto)
  have 3: "decode_pairs (\<lambda>_. True) base' buf fuel (sz * 2) sz (length kvs) (pos + length xs + length ys)
      = Inr (kvs, pos + length xs + length ys + length zs)"
    unfolding l by (rule "18.IH"(3) [OF refl refl, of zs r]) (use "18.prems" y d2 l in auto)
  have "sz - Suc (length kvs) < sz * 2" "sz + (sz - Suc (length kvs)) < sz * 2"
    using "18.prems" by auto
  with 1 2 3 y show ?case by (simp add: Let_def)
qed


text \<open>
  C7: a value written at any position of a buffer is decoded back to itself, ending where the
  written bytes end, whatever the alignment gaps and the surrounding bytes hold, for every value
  without NUL characters or oversized arrays, provided both buffers start at multiples of 8
  and no allocation fails.
\<close>
theorem std_round_trip:
  assumes "wf_std v" and "fills (write_std base v (length pre)) bs"
    and "base mod 8 = 0" and "base' mod 8 = 0"
  shows "decode_value_std (\<lambda>_. True) base' (pre @ bs @ post) (length pre)
    = Inr (v, length pre + length bs)"
  unfolding decode_value_std_def
  by (rule decode_written [OF assms(2) _ assms(3,1) _ assms(4)]) simp_all

theorem std_round_trip_witness:
  "decode_value_std (\<lambda>_. True) 16 ([1] @ (13 # 1 # 7 # 1 # 107 # 6 # 99 # le64 0) @ []) 1
     = Inr (StdMap [(StdString [107], StdFloat64 0)], 16)"
  using std_round_trip [of "StdMap [(StdString [107], StdFloat64 0)]" 8 "[1]"
      "13 # 1 # 7 # 1 # 107 # 6 # 99 # le64 0" 16 "[]"]
  by (simp add: write_size_def pad_to_def skip_def fills_def list_all2_map1 list_all2_same)

section \<open>Arbitrary messages\<close>

lemma read_n_bounds: "read_n buf n off = Inr (bs, off') \<Longrightarrow> off \<le> length buf \<Longrightarrow> off' = off + n \<and> off' \<le> length buf"
  by (auto simp: read_n_def split: if_splits)

lemma advance_bounds: "advance_std buf n off = Inr off' \<Longrightarrow> off \<le> length buf \<Longrightarrow> off \<le> off' \<and> off' \<le> length buf"
  by (auto simp: advance_std_def split: if_splits)

lemma align_bounds: "align_std base buf a off = Inr off' \<Longrightarrow> off \<le> length buf \<Longrightarrow> off \<le> off' \<and> off' \<le> length buf"
  using advance_bounds by (simp add: align_std_def)

lemma read_size_bounds:
  assumes "read_size buf off = Inr (n, off')" and "off \<le> length buf"
  shows "off < off' \<and> off' \<le> length buf"
proof -
  obtain bs off1 where 1: "read_n buf 1 off = Inr (bs, off1)"
    using assms(1) by (auto simp: read_size_def bind_r_Inr_iff)
  note b = read_n_bounds [OF 1 assms(2)]
  show ?thesis
    using assms(1) 1 b read_n_bounds [of buf 2 off1] read_n_bounds [of buf 4 off1]
    by (auto simp: read_size_def bind_r_Inr_iff split: if_splits)
qed

lemma decode_string_bounds:
  "decode_string heap buf off = Inr (s, off') \<Longrightarrow> off \<le> length buf \<Longrightarrow> off \<le> off' \<and> off' \<le> length buf"
  by (auto simp: decode_string_def bind_r_Inr_iff split: if_splits
      dest!: read_size_bounds read_n_bounds)

lemma decode_array_bounds:
  assumes "decode_array base buf w off = Inr (n, bs, off')" and "off \<le> length buf"
  shows "off \<le> off' \<and> off' \<le> length buf"
proof -
  obtain sz off1 where 1: "read_size buf off = Inr (sz, off1)"
    using assms(1) by (auto simp: decode_array_def bind_r_Inr_iff)
  then obtain off2 where 2: "(if w = 1 then Inr off1 else align_std base buf w off1) = Inr off2"
    using assms(1) by (auto simp: decode_array_def bind_r_Inr_iff)
  then have 3: "advance_std buf ((sz * w) mod 2 ^ 32) off2 = Inr off'"
    using assms(1) 1 by (auto simp: decode_array_def bind_r_Inr_iff Let_def split: if_splits)
  note b1 = read_size_bounds [OF 1 assms(2)]
  have b2: "off1 \<le> off2 \<and> off2 \<le> length buf"
    using 2 b1 align_bounds [of base buf w off1 off2] by (cases "w = 1") simp_all
  from advance_bounds [OF 3] b1 b2 show ?thesis by simp
qed

lemma bind_r_pair: "bind_r m (\<lambda>(x, o1). Inr (f x, o1)) = Inr (v, o') \<longleftrightarrow> (\<exists>x. m = Inr (x, o') \<and> v = f x)"
  by (auto simp: bind_r_Inr_iff)

lemma bind_r_triple:
  "bind_r m (\<lambda>(x, y, o1). Inr (f x y, o1)) = Inr (v, o') \<longleftrightarrow> (\<exists>x y. m = Inr (x, y, o') \<and> v = f x y)"
  by (auto simp: bind_r_Inr_iff)

lemma decode_float_bounds:
  assumes "bind_r (align_std base buf 8 off) (\<lambda>off1.
        bind_r (read_n buf 8 off1) (\<lambda>(bs, off2). Inr (StdFloat64 (rd64 bs), off2))) = Inr (v, off')"
    and "off \<le> length buf"
  shows "off \<le> off' \<and> off' \<le> length buf"
proof -
  obtain off1 bs where 1: "align_std base buf 8 off = Inr off1" and 2: "read_n buf 8 off1 = Inr (bs, off')"
    using assms(1) by (auto simp: bind_r_Inr_iff)
  from align_bounds [OF 1 assms(2)] read_n_bounds [OF 2] show ?thesis by simp
qed

lemma decode_flat_bounds:
  assumes "decode_flat heap base buf t off = Inr (v, off')" and "off \<le> length buf"
  shows "off \<le> off' \<and> off' \<le> length buf"
proof -
  note at = assms(1)
  have "t \<in> {0, 1, 2, 3, 4, 5, 6, 7, 8, 9, 10, 11}"
    using at by (auto simp: decode_flat_def split: if_splits)
  then show ?thesis
  proof (elim insertE emptyE)
    assume "t = 6"
    then show ?thesis
      using at decode_float_bounds [OF _ assms(2)] by (simp only: decode_flat_simps)
  qed (use at assms(2) in \<open>auto simp: decode_flat_simps bind_r_pair bind_r_triple assms(2)
      dest: read_n_bounds [OF _ assms(2)] decode_string_bounds [OF _ assms(2)]
        decode_array_bounds [OF _ assms(2)]\<close>)
qed

lemma bind_r_Inl_pair: "bind_r m (\<lambda>(x, o1). Inr (f x o1)) = Inl e \<longleftrightarrow> m = Inl e"
  by (auto simp: bind_r_Inl_iff)

lemma bind_r_Inl_triple: "bind_r m (\<lambda>(x, y, o1). Inr (f x y o1)) = Inl e \<longleftrightarrow> m = Inl e"
  by (auto simp: bind_r_Inl_iff)

lemma primitives_fuel [simp]:
  "read_n buf n off \<noteq> Inl OutOfFuel" "advance_std buf n off \<noteq> Inl OutOfFuel"
  "align_std base buf n off \<noteq> Inl OutOfFuel"
  by (simp_all add: read_n_def advance_std_def align_std_def)

lemma read_size_fuel [simp]: "read_size buf off \<noteq> Inl OutOfFuel"
  by (auto simp: read_size_def bind_r_Inl_iff split: if_splits)

lemma decode_string_fuel [simp]: "decode_string heap buf off \<noteq> Inl OutOfFuel"
  by (auto simp: decode_string_def bind_r_Inl_iff split: if_splits)

lemma decode_array_fuel [simp]: "decode_array base buf w off \<noteq> Inl OutOfFuel"
  by (auto simp: decode_array_def bind_r_Inl_iff Let_def split: if_splits)

lemma decode_flat_fuel [simp]: "decode_flat heap base buf t off \<noteq> Inl OutOfFuel"
proof (cases "t = 6")
  case True
  then show ?thesis by (auto simp: decode_flat_simps bind_r_Inl_iff)
next
  case False
  then show ?thesis
    by (simp add: decode_flat_def bind_r_Inl_pair bind_r_Inl_triple)
qed

definition decodes_forward :: "(nat \<Rightarrow> bool) \<Rightarrow> nat \<Rightarrow> byte list \<Rightarrow> nat \<Rightarrow> bool" where
  "decodes_forward heap base buf fuel \<longleftrightarrow>
     (\<forall>slot off. off \<le> length buf \<longrightarrow>
        (\<forall>v off'. decode_std_fuel heap base buf fuel slot off = Inr (v, off') \<longrightarrow> off < off' \<and> off' \<le> length buf)
        \<and> (length buf - off < fuel \<longrightarrow> decode_std_fuel heap base buf fuel slot off \<noteq> Inl OutOfFuel))"

lemma elems_forward:
  assumes "decodes_forward heap base buf fuel" and "off \<le> length buf"
  shows "(\<forall>vs off'. decode_elems heap base buf fuel slot n off = Inr (vs, off') \<longrightarrow> off \<le> off' \<and> off' \<le> length buf)
    \<and> (length buf - off < fuel \<longrightarrow> decode_elems heap base buf fuel slot n off \<noteq> Inl OutOfFuel)"
  using assms(2)
proof (induction n arbitrary: off)
  case 0
  then show ?case by simp
next
  case (Suc n)
  show ?case
  proof (cases "decode_std_fuel heap base buf fuel slot off")
    case (Inl e)
    then show ?thesis using assms(1) Suc.prems by (auto simp: decodes_forward_def)
  next
    case (Inr p)
    obtain v off1 where p: "p = (v, off1)" by (cases p)
    have o1: "off < off1 \<and> off1 \<le> length buf"
      using assms(1) Suc.prems Inr p by (auto simp: decodes_forward_def)
    from Suc.IH [of off1] o1 Inr p show ?thesis
      by (auto simp: bind_r_Inr_iff bind_r_Inl_iff)
  qed
qed

lemma pairs_forward:
  assumes "decodes_forward heap base buf fuel" and "off \<le> length buf"
  shows "(\<forall>vs off'. decode_pairs heap base buf fuel block sz n off = Inr (vs, off') \<longrightarrow> off \<le> off' \<and> off' \<le> length buf)
    \<and> (length buf - off < fuel \<longrightarrow> decode_pairs heap base buf fuel block sz n off \<noteq> Inl OutOfFuel)"
  using assms(2)
proof (induction n arbitrary: off)
  case 0
  then show ?case by simp
next
  case (Suc n)
  define s1 where "s1 = (if sz - Suc n < block then InBlock else PastBlock)"
  define s2 where "s2 = (if sz + (sz - Suc n) < block then InBlock else PastBlock)"
  have unf: "decode_pairs heap base buf fuel block sz (Suc n) off =
      bind_r (decode_std_fuel heap base buf fuel s1 off) (\<lambda>(k, off1).
      bind_r (decode_std_fuel heap base buf fuel s2 off1) (\<lambda>(v, off2).
      bind_r (decode_pairs heap base buf fuel block sz n off2) (\<lambda>(kvs, off3). Inr ((k, v) # kvs, off3))))"
    by (simp add: s1_def s2_def Let_def)
  note F = assms(1) [unfolded decodes_forward_def, rule_format]
  show ?case
  proof (cases "decode_std_fuel heap base buf fuel s1 off")
    case (Inl e)
    with F [OF Suc.prems, of s1] show ?thesis unfolding unf by auto
  next
    case (Inr p)
    obtain k off1 where p: "p = (k, off1)" by (cases p)
    have o1: "off < off1 \<and> off1 \<le> length buf"
      using F [OF Suc.prems, of s1] Inr p by auto
    show ?thesis
    proof (cases "decode_std_fuel heap base buf fuel s2 off1")
      case 2: (Inl e)
      with F [of off1 s2] o1 Inr p show ?thesis unfolding unf by auto
    next
      case 2: (Inr q)
      obtain v off2 where q: "q = (v, off2)" by (cases q)
      have o2: "off1 < off2 \<and> off2 \<le> length buf"
        using F [of off1 s2] o1 2 q by auto
      from Suc.IH [of off2] o1 o2 Inr 2 p q show ?thesis unfolding unf
        by (auto simp: bind_r_Inr_iff bind_r_Inl_iff)
    qed
  qed
qed

lemma decode_forward: "decodes_forward heap base buf fuel"
proof (induction fuel)
  case 0
  then show ?case by (simp add: decodes_forward_def)
next
  case (Suc fuel)
  show ?case
    unfolding decodes_forward_def
  proof (intro allI impI conjI)
    fix slot off v off'
    assume off: "off \<le> length buf" and d: "decode_std_fuel heap base buf (Suc fuel) slot off = Inr (v, off')"
    then obtain bs where r: "read_n buf 1 off = Inr (bs, off + 1)" and lt: "off < length buf"
      using read_n_bounds by (auto simp: decode_std_fuel.simps(2) bind_r_Inr_iff read_n_def split: if_splits)
    have sl: "slot = InBlock" using d r by (cases slot) (simp_all add: decode_std_fuel.simps(2))
    have "off < off' \<and> off' \<le> length buf"
    proof (cases "hd bs = 12")
      case True
      have "bind_r (read_size buf (off + 1)) (\<lambda>(sz, o2).
          bind_r (decode_elems heap base buf fuel (if heap sz then InBlock else AtNull) sz o2)
            (\<lambda>(vs, o3). Inr (StdList vs, o3))) = Inr (v, off')"
        using d unfolding decode_std_fuel.simps(2) r sl bind_r_simps
        by (simp only: prod.case slot.distinct True if_True if_False simp_thms)
      then obtain sz o2 where 1: "read_size buf (off + 1) = Inr (sz, o2)"
        and "bind_r (decode_elems heap base buf fuel (if heap sz then InBlock else AtNull) sz o2)
          (\<lambda>(vs, o3). Inr (StdList vs, o3)) = Inr (v, off')"
        by (rule bind_r_InrE)
      then obtain vs s where 2: "decode_elems heap base buf fuel s sz o2 = Inr (vs, off')"
        unfolding bind_r_pair by blast
      have o2: "off < o2" "o2 \<le> length buf" using read_size_bounds [OF 1] lt by simp_all
      from elems_forward [OF Suc o2(2), THEN conjunct1, rule_format, OF 2] o2 show ?thesis by linarith
    next
      case not_list: False
      show ?thesis
      proof (cases "hd bs = 13")
        case True
        have "bind_r (read_size buf (off + 1)) (\<lambda>(sz, o2).
            if \<not> heap ((sz * 2) mod 2 ^ 32) then Inl (Errno ENOMEM)
            else bind_r (decode_pairs heap base buf fuel ((sz * 2) mod 2 ^ 32) sz sz o2)
              (\<lambda>(kvs, o3). Inr (StdMap kvs, o3))) = Inr (v, off')"
          using d unfolding decode_std_fuel.simps(2) r sl bind_r_simps Let_def
          by (simp only: prod.case slot.distinct not_list [unfolded True] True if_True if_False simp_thms)
        then obtain sz o2 where 1: "read_size buf (off + 1) = Inr (sz, o2)"
          and 3: "(if \<not> heap ((sz * 2) mod 2 ^ 32) then Inl (Errno ENOMEM)
            else bind_r (decode_pairs heap base buf fuel ((sz * 2) mod 2 ^ 32) sz sz o2)
              (\<lambda>(kvs, o3). Inr (StdMap kvs, o3))) = Inr (v, off')"
          by (rule bind_r_InrE)
        from 3 have "bind_r (decode_pairs heap base buf fuel ((sz * 2) mod 2 ^ 32) sz sz o2)
              (\<lambda>(kvs, o3). Inr (StdMap kvs, o3)) = Inr (v, off')"
          by (cases "heap ((sz * 2) mod 2 ^ 32)") simp_all
        then obtain kvs bl where 2: "decode_pairs heap base buf fuel bl sz sz o2 = Inr (kvs, off')"
          unfolding bind_r_pair by blast
        have o2: "off < o2" "o2 \<le> length buf" using read_size_bounds [OF 1] lt by simp_all
        from pairs_forward [OF Suc o2(2), THEN conjunct1, rule_format, OF 2] o2 show ?thesis by linarith
      next
        case False
        have "decode_flat heap base buf (hd bs) (off + 1) = Inr (v, off')"
          using d unfolding decode_std_fuel.simps(2) r sl bind_r_simps by (simp add: False not_list)
        from decode_flat_bounds [OF this] lt show ?thesis by auto
      qed
    qed
    then show "off < off'" and "off' \<le> length buf" by simp_all
  next
    fix slot off
    assume off: "off \<le> length buf" and f: "length buf - off < Suc fuel"
    show "decode_std_fuel heap base buf (Suc fuel) slot off \<noteq> Inl OutOfFuel"
    proof (cases "off < length buf")
      case True
      then have r: "read_n buf 1 off = Inr (bytes_at buf off 1, off + 1)"
        by (simp add: read_n_def)
      have o2: "o2 \<le> length buf \<and> length buf - o2 < fuel" if "read_size buf (off + 1) = Inr (k, o2)" for k o2
        using read_size_bounds [OF that] True f by auto
      have E: "decode_elems heap base buf fuel s n o2 \<noteq> Inl OutOfFuel"
        and P: "decode_pairs heap base buf fuel b n m o2 \<noteq> Inl OutOfFuel"
        if "read_size buf (off + 1) = Inr (k, o2)" for s n b m o2 k
        using elems_forward [OF Suc conjunct1 [OF o2 [OF that]], THEN conjunct2, rule_format]
          pairs_forward [OF Suc conjunct1 [OF o2 [OF that]], THEN conjunct2, rule_format]
          conjunct2 [OF o2 [OF that]] by blast+
      have L: "bind_r (read_size buf (off + 1)) (\<lambda>(sz, o2).
          bind_r (decode_elems heap base buf fuel (if heap sz then InBlock else AtNull) sz o2)
            (\<lambda>(vs, o3). Inr (StdList vs, o3))) \<noteq> Inl OutOfFuel"
        by (intro bind_r_not_Inl read_size_fuel E) auto
      have M: "bind_r (read_size buf (off + 1)) (\<lambda>(sz, o2).
          if \<not> heap ((sz * 2) mod 2 ^ 32) then Inl (Errno ENOMEM)
          else bind_r (decode_pairs heap base buf fuel ((sz * 2) mod 2 ^ 32) sz sz o2)
            (\<lambda>(kvs, o3). Inr (StdMap kvs, o3))) \<noteq> Inl OutOfFuel"
      proof (intro bind_r_not_Inl read_size_fuel)
        fix sz o2 assume "read_size buf (off + 1) = Inr (sz, o2)"
        from P [OF this] show "(if \<not> heap ((sz * 2) mod 2 ^ 32) then Inl (Errno ENOMEM)
          else bind_r (decode_pairs heap base buf fuel ((sz * 2) mod 2 ^ 32) sz sz o2)
            (\<lambda>(kvs, o3). Inr (StdMap kvs, o3))) \<noteq> Inl OutOfFuel"
          by (simp only: bind_r_Inl_pair split: if_split) simp
      qed
      show ?thesis
        using L M decode_flat_fuel [of heap base buf "hd (bytes_at buf off 1)" "off + 1"]
        unfolding decode_std_fuel.simps(2) r bind_r_simps prod.case Let_def
        by (cases slot) (simp_all only: slot.distinct if_True if_False simp_thms dec_error.distinct sum.inject
            split: if_split)
    next
      case False
      then show ?thesis by (simp add: decode_std_fuel.simps(2) read_n_def)
    qed
  qed
qed

text \<open>
  C32: decoding stops on every message, with a value or an error, and a successful decode ends
  at a position after the start and not past the end of the message.
\<close>
theorem decode_value_std_terminates:
  assumes "off \<le> length buf"
  shows "decode_value_std heap base buf off \<noteq> Inl OutOfFuel
    \<and> (case decode_value_std heap base buf off of
         Inr (v, off') \<Rightarrow> off < off' \<and> off' \<le> length buf | Inl _ \<Rightarrow> True)"
  using decode_forward [of heap base buf "Suc (length buf - off)"] assms
  by (auto simp: decodes_forward_def decode_value_std_def split: sum.splits)

theorem decode_value_std_terminates_witness:
  "decode_value_std (\<lambda>_. True) 0 [12, 1, 12, 255] 0 \<noteq> Inl OutOfFuel"
  using decode_value_std_terminates [of 0 "[12, 1, 12, 255]" "\<lambda>_. True" 0] by simp

text \<open>
  a map whose size prefix is \<open>2 ^ 31\<close> makes \<open>size * 2\<close> wrap to 0, and the decoder
  writes its first key outside the block it allocated, for any message that has one more byte.
\<close>
theorem huge_map_overflows_heap:
  assumes "heap 0"
  shows "decode_value_std heap base (13 # 255 # le_enc 4 (2 ^ 31) @ t # r) 0 = Inl HeapOverflow"
proof -
  let ?buf = "13 # 255 # le_enc 4 (2 ^ 31) @ t # r"
  have l: "2 ^ 31 = Suc (2 ^ 31 - 1 :: nat)" by simp
  have s: "read_size ?buf 1 = Inr (2 ^ 31, 6)"
    using read_size_at [of 1 ?buf "2 ^ 31" "t # r"] by (simp add: write_size_def advance_size_bytes_def)
  have k: "read_n ?buf 1 6 = Inr ([t], 7)"
    using read_n_1 [of 6 ?buf t r] by simp
  obtain f where f: "Suc (length ?buf) = Suc (Suc f)" by simp
  have "decode_std_fuel heap base ?buf (Suc f) PastBlock 6 = Inl HeapOverflow"
    by (simp only: decode_std_fuel.simps(2) k bind_r_simps) simp
  then have "decode_pairs heap base ?buf (Suc f) 0 (2 ^ 31) (Suc (2 ^ 31 - 1)) 6 = Inl HeapOverflow"
    by (simp only: decode_pairs.simps Let_def) simp
  then have p: "decode_pairs heap base ?buf (Suc f) 0 (2 ^ 31) (2 ^ 31) 6 = Inl HeapOverflow"
    by (simp only: l [symmetric])
  have h: "read_n ?buf 1 0 = Inr ([13], 1)"
    using read_n_1 [of 0 ?buf 13] by simp
  have w: "(2 ^ 31 * 2) mod 2 ^ 32 = (0 :: nat)" by simp
  show ?thesis
    unfolding decode_value_std_def diff_zero f
    by (simp only: decode_std_fuel.simps(2) h bind_r_simps prod.case list.sel s Let_def w p assms) simp
qed

theorem huge_map_overflows_heap_witness:
  "decode_value_std (\<lambda>n. n < 1000) 0 (13 # 255 # le_enc 4 (2 ^ 31) @ 0 # []) 0 = Inl HeapOverflow"
  by (rule huge_map_overflows_heap) simp

text \<open>
  an array whose size prefix is \<open>2 ^ 30\<close> passes the bounds check, because
  \<open>size * 4\<close> wraps to 0: the decoder returns an array that claims 4 GiB of elements of which
  none is in the message.
\<close>
theorem huge_array_accepted:
  assumes "base mod 8 = 0"
  shows "decode_value_std heap base (9 # 255 # le_enc 4 (2 ^ 30) @ [a, b]) 0
    = Inr (StdInt32Array (2 ^ 30) [], 8)"
proof -
  let ?buf = "9 # 255 # le_enc 4 (2 ^ 30) @ [a, b]"
  have s: "read_size ?buf 1 = Inr (2 ^ 30, 6)"
    using read_size_at [of 1 ?buf "2 ^ 30" "[a, b]"] by (simp add: write_size_def advance_size_bytes_def)
  have "pad_to 4 (base + 6) = pad_to 4 6"
    using assms by (rule pad_to_base_4)
  then have al: "align_std base ?buf 4 6 = Inr 8"
    by (simp add: align_std_def advance_std_def pad_to_def)
  have "decode_array base ?buf 4 1 = Inr (2 ^ 30, [], 8)"
    using al unfolding decode_array_def s bind_r_simps prod.case
    by (simp add: Let_def advance_std_def bytes_at_def del: align_diff_4)
  then show ?thesis
    unfolding decode_value_std_def
    by (subst decode_flat_tag [of 0 ?buf 9]) (simp_all add: decode_flat_simps)
qed

theorem huge_array_accepted_witness:
  "decode_value_std (\<lambda>_. True) 0 (9 # 255 # le_enc 4 (2 ^ 30) @ [0, 0]) 0
     = Inr (StdInt32Array (2 ^ 30) [], 8)"
  by (rule huge_array_accepted) simp

end
