(* ===== verification/StdValues.thy ===== *)
theory StdValues
  imports StdCodec
begin

text \<open>
  Comparison and lookup of \<open>std_value\<close>s in \<open>src/platform_channel.c\<close>. The two values are
  distinct objects: the pointer comparisons that answer true for the same object are left out.
  A read outside an array (of the flags or of the keys) is \<open>None\<close>.
\<close>

section \<open>Doubles\<close>

definition f64_nan :: "u64 \<Rightarrow> bool" where
  "f64_nan w \<longleftrightarrow> (unat w div 2 ^ 52) mod 2 ^ 11 = 2047 \<and> unat w mod 2 ^ 52 \<noteq> 0"

definition f64_zero :: "u64 \<Rightarrow> bool" where
  "f64_zero w \<longleftrightarrow> unat w mod 2 ^ 63 = 0"

text \<open>\<open>==\<close> on doubles given by their bits.\<close>

definition f64_eq :: "u64 \<Rightarrow> u64 \<Rightarrow> bool" where
  "f64_eq a b \<longleftrightarrow> \<not> f64_nan a \<and> \<not> f64_nan b \<and> (a = b \<or> f64_zero a \<and> f64_zero b)"

section \<open>\<open>stdvalue_equals\<close>\<close>

text \<open>\<open>while (_keyInBAlsoInA[j] && (j < a->size)) j++\<close>: the flag is read before the bound.\<close>

function skip_flags :: "bool list \<Rightarrow> nat \<Rightarrow> nat option" where
  "skip_flags flags j =
     (if length flags \<le> j then None else if flags ! j then skip_flags flags (Suc j) else Some j)"
  by pat_completeness auto
termination by (relation "measure (\<lambda>(flags, j). length flags - j)") auto

declare skip_flags.simps [simp del]

lemma skip_flags_bounds:
  "skip_flags flags j = Some k \<Longrightarrow> j \<le> k \<and> k < length flags \<and> \<not> flags ! k"
proof (induction flags j rule: skip_flags.induct)
  case (1 flags j)
  then show ?case
    by (subst (asm) (2) skip_flags.simps) (auto split: if_splits)
qed

text \<open>The loops that compare two arrays of \<open>n\<close> elements each.\<close>

definition arrays_equal :: "('a \<Rightarrow> 'a \<Rightarrow> bool) \<Rightarrow> nat \<Rightarrow> 'a list \<Rightarrow> nat \<Rightarrow> 'a list \<Rightarrow> bool" where
  "arrays_equal eq n xs m ys \<longleftrightarrow> n = m \<and> list_all2 eq (take n xs) (take n ys)"

text \<open>
  \<open>equal_entries\<close> is the loop over the entries of \<open>a\<close>; \<open>find_entry\<close> is the inner
  \<open>while (j < a->size)\<close>, which ends with the \<open>j\<close> it stopped at, the flags, and whether the
  values of a matching key differ (then \<open>stdvalue_equals\<close> returns false).
\<close>

function (sequential) stdvalue_equals :: "std_value \<Rightarrow> std_value \<Rightarrow> bool option"
  and equal_elems :: "std_value list \<Rightarrow> std_value list \<Rightarrow> bool option"
  and equal_entries :: "nat \<Rightarrow> (std_value \<times> std_value) list \<Rightarrow> (std_value \<times> std_value) list \<Rightarrow>
    bool list \<Rightarrow> bool option"
  and find_entry :: "nat \<Rightarrow> std_value \<Rightarrow> std_value \<Rightarrow> (std_value \<times> std_value) list \<Rightarrow> bool list \<Rightarrow> nat \<Rightarrow>
    (nat \<times> bool list \<times> bool) option" where
  "stdvalue_equals StdNull b = (case b of StdNull \<Rightarrow> Some True | _ \<Rightarrow> Some False)"
| "stdvalue_equals StdTrue b = (case b of StdTrue \<Rightarrow> Some True | _ \<Rightarrow> Some False)"
| "stdvalue_equals StdFalse b = (case b of StdFalse \<Rightarrow> Some True | _ \<Rightarrow> Some False)"
| "stdvalue_equals (StdInt32 x) b = (case b of StdInt32 y \<Rightarrow> Some (x = y) | _ \<Rightarrow> Some False)"
| "stdvalue_equals (StdInt64 x) b = (case b of StdInt64 y \<Rightarrow> Some (x = y) | _ \<Rightarrow> Some False)"
| "stdvalue_equals (StdLargeInt s) b = (case b of StdLargeInt t \<Rightarrow> Some (cstr s = cstr t) | _ \<Rightarrow> Some False)"
| "stdvalue_equals (StdString s) b = (case b of StdString t \<Rightarrow> Some (cstr s = cstr t) | _ \<Rightarrow> Some False)"
| "stdvalue_equals (StdFloat64 x) b = (case b of StdFloat64 y \<Rightarrow> Some (f64_eq x y) | _ \<Rightarrow> Some False)"
| "stdvalue_equals (StdUInt8Array n xs) b = (case b of StdUInt8Array m ys \<Rightarrow> Some (arrays_equal (=) n xs m ys) | _ \<Rightarrow> Some False)"
| "stdvalue_equals (StdInt32Array n xs) b = (case b of StdInt32Array m ys \<Rightarrow> Some (arrays_equal (=) n xs m ys) | _ \<Rightarrow> Some False)"
| "stdvalue_equals (StdInt64Array n xs) b = (case b of StdInt64Array m ys \<Rightarrow> Some (arrays_equal (=) n xs m ys) | _ \<Rightarrow> Some False)"
| "stdvalue_equals (StdFloat64Array n xs) b = (case b of StdFloat64Array m ys \<Rightarrow> Some (arrays_equal f64_eq n xs m ys) | _ \<Rightarrow> Some False)"
| "stdvalue_equals (StdList vs) b = (case b of StdList ws \<Rightarrow> 
     (if length vs \<noteq> length ws then Some False else equal_elems vs ws) | _ \<Rightarrow> Some False)"
| "stdvalue_equals (StdMap kvs) b = (case b of StdMap lws \<Rightarrow> 
     (if length kvs \<noteq> length lws then Some False
      else equal_entries (length kvs) kvs lws (replicate (length kvs) False)) | _ \<Rightarrow> Some False)"
| "equal_elems [] _ = Some True"
| "equal_elems (v # vs) [] = None"
| "equal_elems (v # vs) (w # ws) =
     (case stdvalue_equals v w of
        None \<Rightarrow> None | Some False \<Rightarrow> Some False | Some True \<Rightarrow> equal_elems vs ws)"
| "equal_entries sz [] lws flags = Some True"
| "equal_entries sz ((k, v) # kvs) lws flags =
     (case find_entry sz k v lws flags 0 of
        None \<Rightarrow> None
      | Some (j, flags', differ) \<Rightarrow>
          if differ then Some False
          else if j + 1 \<ge> sz then Some False
          else equal_entries sz kvs lws flags')"
| "find_entry sz key val lws flags j =
     (if j < sz then
        (case skip_flags flags j of
           None \<Rightarrow> None
         | Some j' \<Rightarrow>
             if length lws \<le> j' then None
             else (case stdvalue_equals key (fst (lws ! j')) of
                None \<Rightarrow> None
              | Some False \<Rightarrow> find_entry sz key val lws flags (j' + 1)
              | Some True \<Rightarrow>
                  (case stdvalue_equals val (snd (lws ! j')) of
                     None \<Rightarrow> None
                   | Some same \<Rightarrow> Some (j', flags[j' := True], \<not> same))))
      else Some (j, flags, False))"
  by pat_completeness auto
termination
  by (relation "measures [
      \<lambda>x. case x of Inl (Inl (a, _)) \<Rightarrow> size a | Inl (Inr (vs, _)) \<Rightarrow> size_list size vs
        | Inr (Inl (_, kvs, _, _)) \<Rightarrow> size_list (size_prod size size) kvs
        | Inr (Inr (_, k, v, _, _, _)) \<Rightarrow> Suc (size k + size v),
      \<lambda>x. case x of Inr (Inr (n, _, _, _, _, j)) \<Rightarrow> n - j | _ \<Rightarrow> 0]")
    (auto dest: skip_flags_bounds)


declare find_entry.simps [simp del]

lemma find_entry_result:
  "find_entry sz key val lws flags j = Some (j', flags', differ) \<Longrightarrow> j' + 1 < sz \<Longrightarrow>
     flags' = flags[j' := True] \<and> j' < length flags \<and> \<not> flags ! j'"
proof (induction "sz - j" arbitrary: j rule: less_induct)
  case less
  note unf = less.prems(1) [unfolded find_entry.simps [of sz key val lws flags j]]
  have j: "j < sz" using unf less.prems(2) by (auto split: if_splits)
  with unf obtain k where k: "skip_flags flags j = Some k"
    by (auto split: option.splits)
  with unf j obtain eq where eq: "stdvalue_equals key (fst (lws ! k)) = Some eq" and "k < length lws"
    by (auto split: option.splits if_splits)
  note b = skip_flags_bounds [OF k]
  show ?case
  proof (cases eq)
    case True
    with unf j k eq b \<open>k < length lws\<close> show ?thesis
      by (auto split: option.splits)
  next
    case False
    with unf j k eq \<open>k < length lws\<close> have "find_entry sz key val lws flags (k + 1) = Some (j', flags', differ)"
      by (auto split: option.splits)
    moreover have "sz - (k + 1) < sz - j" using b j by auto
    ultimately show ?thesis using less.hyps less.prems(2) by blast
  qed
qed

lemma filter_id_update:
  "j < length xs \<Longrightarrow> \<not> xs ! j \<Longrightarrow> length (filter (\<lambda>b. b) (xs[j := True])) = Suc (length (filter (\<lambda>b. b) xs))"
proof (induction xs arbitrary: j)
  case Nil
  then show ?case by simp
next
  case (Cons x xs)
  then show ?case by (cases j) auto
qed

lemma equal_entries_room:
  "equal_entries sz kvs lws flags = Some True \<Longrightarrow> length flags = sz \<Longrightarrow>
     length (filter (\<lambda>b. b) (butlast flags)) + length kvs \<le> sz - 1"
proof (induction kvs arbitrary: flags)
  case Nil
  then show ?case using length_filter_le [of "\<lambda>b. b" "butlast flags"] by simp
next
  case (Cons e kvs)
  obtain k v where e: "e = (k, v)" by (cases e)
  obtain j flags' where f: "find_entry sz k v lws flags 0 = Some (j, flags', False)" and j: "j + 1 < sz"
    and r: "equal_entries sz kvs lws flags' = Some True"
    using Cons.prems(1) by (auto simp: e not_le split: option.splits if_splits prod.splits bool.splits)
  note F = find_entry_result [OF f j]
  have "length (filter (\<lambda>b. b) (butlast flags)) + Suc 0 = length (filter (\<lambda>b. b) (butlast flags'))"
    using F j Cons.prems(2)
    by (simp add: butlast_list_update filter_id_update nth_butlast)
  moreover have "length flags' = sz" using F Cons.prems(2) by simp
  ultimately show ?case using Cons.IH [OF r] by simp
qed

text \<open>
  no comparison of two maps that have entries answers true, not even of a map with an
  equal copy: the test \<open>j + 1 >= size\<close>, meant to notice that the inner loop ran to the end,
  also rejects a key that was found in the last position.
\<close>
theorem nonempty_maps_never_equal:
  assumes "kvs \<noteq> []"
  shows "stdvalue_equals (StdMap kvs) (StdMap lws) \<noteq> Some True"
proof
  assume "stdvalue_equals (StdMap kvs) (StdMap lws) = Some True"
  then have "equal_entries (length kvs) kvs lws (replicate (length kvs) False) = Some True"
    by (simp split: if_splits)
  from equal_entries_room [OF this] assms show False by (cases kvs) auto
qed

theorem nonempty_maps_never_equal_witness:
  "stdvalue_equals (StdMap [(StdString [97], StdNull)]) (StdMap [(StdString [97], StdNull)]) \<noteq> Some True"
  by (rule nonempty_maps_never_equal) simp

section \<open>Lookup\<close>

fun stdmap_get :: "(std_value \<times> std_value) list \<Rightarrow> std_value \<Rightarrow> std_value option option" where
  "stdmap_get [] key = Some None"
| "stdmap_get ((k, v) # kvs) key =
     (case stdvalue_equals k key of
        None \<Rightarrow> None | Some True \<Rightarrow> Some (Some v) | Some False \<Rightarrow> stdmap_get kvs key)"

definition stdmap_get_str :: "(std_value \<times> std_value) list \<Rightarrow> byte list \<Rightarrow> std_value option option" where
  "stdmap_get_str kvs key = stdmap_get kvs (StdString key)"

fun is_key :: "byte list \<Rightarrow> std_value \<Rightarrow> bool" where
  "is_key key (StdString s) = (cstr s = cstr key)"
| "is_key key _ = False"

lemma equals_string: "stdvalue_equals k (StdString key) = Some (is_key key k)"
  by (cases k) simp_all

text \<open>
  looking a string key up in a decoded map never reads out of bounds, whatever the types
  of its keys, and returns the value of the first entry whose key is that string, or nothing
  when there is none.
\<close>
theorem stdmap_get_str_first:
  "stdmap_get_str kvs key = Some (map_option snd (List.find (\<lambda>p. is_key key (fst p)) kvs))"
  unfolding stdmap_get_str_def
proof (induction kvs)
  case Nil
  show ?case by simp
next
  case (Cons p kvs)
  obtain k v where "p = (k, v)" by (cases p)
  with Cons show ?case by (simp add: equals_string split: bool.split)
qed

section \<open>Where comparison is right\<close>

text \<open>Values without maps, floating point numbers and malformed arrays.\<close>

fun plain :: "std_value \<Rightarrow> bool" where
  "plain (StdLargeInt s) = (0 \<notin> set s)"
| "plain (StdString s) = (0 \<notin> set s)"
| "plain (StdUInt8Array n xs) = (n = length xs)"
| "plain (StdInt32Array n xs) = (n = length xs)"
| "plain (StdInt64Array n xs) = (n = length xs)"
| "plain (StdFloat64 _) = False"
| "plain (StdFloat64Array _ _) = False"
| "plain (StdList vs) = (\<forall>v \<in> set vs. plain v)"
| "plain (StdMap _) = False"
| "plain _ = True"

lemma arrays_equal_iff: "n = length xs \<Longrightarrow> m = length ys \<Longrightarrow> arrays_equal (=) n xs m ys \<longleftrightarrow> xs = ys"
  by (auto simp: arrays_equal_def list_all2_eq [symmetric])

lemma plain_equals:
  "plain a \<Longrightarrow> plain b \<Longrightarrow> stdvalue_equals a b = Some (a = b)"
proof (induction a arbitrary: b)
  case (StdList vs)
  show ?case
  proof (cases b)
    case l: (StdList ws)
    have "length vs = length ws \<Longrightarrow> \<forall>v \<in> set vs. plain v \<and> (\<forall>b. plain b \<longrightarrow> stdvalue_equals v b = Some (v = b))
        \<Longrightarrow> \<forall>w \<in> set ws. plain w \<Longrightarrow> equal_elems vs ws = Some (vs = ws)" for vs ws
      by (induction vs ws rule: list_induct2) (auto split: bool.splits)
    with StdList l have "length vs = length ws \<Longrightarrow> equal_elems vs ws = Some (vs = ws)" by simp
    then show ?thesis by (auto simp: l)
  qed auto
next
  case (StdMap x)
  then show ?case by simp
qed (auto simp: arrays_equal_iff split: std_value.splits)

text \<open>
  on values without maps and doubles, whose strings hold no NUL and whose arrays have
  their claimed length, \<open>stdvalue_equals\<close> decides equality.
\<close>
theorem stdvalue_equals_correct:
  assumes "plain a" and "plain b"
  shows "stdvalue_equals a b = Some (a = b)"
  using assms by (rule plain_equals)

theorem stdvalue_equals_correct_witness:
  "stdvalue_equals (StdList [StdInt32 1, StdString [97]]) (StdList [StdInt32 1, StdString [98]]) = Some False"
  using stdvalue_equals_correct [of "StdList [StdInt32 1, StdString [97]]" "StdList [StdInt32 1, StdString [98]]"]
  by simp

end
