(* ===== verification/JsonCodec.thy ===== *)
theory JsonCodec
  imports StdValues
begin

text \<open>
  The JSON half of the codecs of \<open>src/platform_channel.c\<close>: size computation, writer, decoder,
  comparison and lookup. Three things are parameters: \<open>fmt\<close>, the text \<open>sprintf("%g")\<close>
  produces for a double (given by its bits), \<open>strtod\<close>, and the tokens the parser jsmn
  returns for a message, which theory \<open>Jsmn\<close> computes.
\<close>

section \<open>Values\<close>

datatype json_value =
    JsonNull
  | JsonTrue
  | JsonFalse
  | JsonNumber u64
  | JsonString "byte list"
  | JsonArray "json_value list"
  | JsonObject "(byte list \<times> json_value) list"

section \<open>Encoding\<close>

text \<open>The characters the writer puts a backslash before, and the letter that follows it.\<close>

definition escape_char :: "byte \<Rightarrow> byte list" where
  "escape_char b =
     (if b = 8 then [92, 98]
      else if b = 12 then [92, 102]
      else if b = 10 then [92, 110]
      else if b = 13 then [92, 114]
      else if b = 9 then [92, 116]
      else if b = 34 then [92, 116]
      else if b = 92 then [92, 92]
      else [b])"

definition calc_char_size :: "byte \<Rightarrow> nat" where
  "calc_char_size b = (if b \<in> {8, 12, 10, 13, 9, 34, 92} then 2 else 1)"

text \<open>The separator is written unless the element is the last one.\<close>

fun calc_value_size_json :: "(u64 \<Rightarrow> byte list) \<Rightarrow> json_value \<Rightarrow> nat"
  and calc_json_elems :: "(u64 \<Rightarrow> byte list) \<Rightarrow> json_value list \<Rightarrow> nat"
  and calc_json_fields :: "(u64 \<Rightarrow> byte list) \<Rightarrow> (byte list \<times> json_value) list \<Rightarrow> nat" where
  "calc_value_size_json fmt JsonNull = 4"
| "calc_value_size_json fmt JsonTrue = 4"
| "calc_value_size_json fmt JsonFalse = 5"
| "calc_value_size_json fmt (JsonNumber x) = length (fmt x)"
| "calc_value_size_json fmt (JsonString s) = 2 + sum_list (map calc_char_size (cstr s))"
| "calc_value_size_json fmt (JsonArray vs) = 2 + calc_json_elems fmt vs"
| "calc_value_size_json fmt (JsonObject kvs) = 2 + calc_json_fields fmt kvs"
| "calc_json_elems fmt [] = 0"
| "calc_json_elems fmt (v # vs) =
     calc_value_size_json fmt v + (if vs \<noteq> [] then 1 else 0) + calc_json_elems fmt vs"
| "calc_json_fields fmt [] = 0"
| "calc_json_fields fmt ((k, v) # kvs) =
     length (cstr k) + 3 + calc_value_size_json fmt v + (if kvs \<noteq> [] then 1 else 0)
     + calc_json_fields fmt kvs"

fun write_json :: "(u64 \<Rightarrow> byte list) \<Rightarrow> json_value \<Rightarrow> byte list"
  and write_json_elems :: "(u64 \<Rightarrow> byte list) \<Rightarrow> json_value list \<Rightarrow> byte list"
  and write_json_fields :: "(u64 \<Rightarrow> byte list) \<Rightarrow> (byte list \<times> json_value) list \<Rightarrow> byte list" where
  "write_json fmt JsonNull = [110, 117, 108, 108]"
| "write_json fmt JsonTrue = [116, 114, 117, 101]"
| "write_json fmt JsonFalse = [102, 97, 108, 115, 101]"
| "write_json fmt (JsonNumber x) = fmt x"
| "write_json fmt (JsonString s) = [34] @ concat (map escape_char (cstr s)) @ [34]"
| "write_json fmt (JsonArray vs) = [91] @ write_json_elems fmt vs @ [93]"
| "write_json fmt (JsonObject kvs) = [123] @ write_json_fields fmt kvs @ [125]"
| "write_json_elems fmt [] = []"
| "write_json_elems fmt (v # vs) =
     write_json fmt v @ (if vs \<noteq> [] then [44] else []) @ write_json_elems fmt vs"
| "write_json_fields fmt [] = []"
| "write_json_fields fmt ((k, v) # kvs) =
     [34] @ cstr k @ [34, 58] @ write_json fmt v @ (if kvs \<noteq> [] then [44] else [])
     @ write_json_fields fmt kvs"

lemma length_escape [simp]: "length (escape_char b) = calc_char_size b"
  by (simp add: escape_char_def calc_char_size_def)

lemma length_escapes [simp]: "length (concat (map escape_char s)) = sum_list (map calc_char_size s)"
  by (induction s) auto

lemma json_size_exact:
  "length (write_json fmt v) = calc_value_size_json fmt v"
  "length (write_json_elems fmt vs) = calc_json_elems fmt vs"
  "length (write_json_fields fmt kvs) = calc_json_fields fmt kvs"
  by (induction fmt v and fmt vs and fmt kvs rule: write_json_write_json_elems_write_json_fields.induct)
    auto

text \<open>
  the size computed for a JSON value is exactly the number of characters the writer
  produces, however numbers are formatted, so the one extra byte \<open>platch_encode\<close> allocates is
  all that the terminator of the last \<open>sprintf\<close> needs.
\<close>
theorem json_size_is_bytes_written:
  "length (write_json fmt v) = calc_value_size_json fmt v"
  by (rule json_size_exact)

text \<open>
  the writer escapes a double quote like a tab, so a string and the string with its quotes
  replaced by tabs are sent as the same text.
\<close>
theorem quote_written_as_tab:
  "write_json fmt (JsonString s) = write_json fmt (JsonString (map (\<lambda>b. if b = 34 then 9 else b) s))"
proof -
  have "cstr (map (\<lambda>b. if b = 34 then 9 else b) s) = map (\<lambda>b. if b = 34 then 9 else b) (cstr s)"
    by (induction s) (auto simp: cstr_def)
  moreover have "escape_char (if b = 34 then 9 else b) = escape_char b" for b
    by (simp add: escape_char_def)
  ultimately show ?thesis by (simp add: comp_def)
qed

section \<open>Decoding\<close>

datatype jsmn_type = JSMN_UNDEFINED | JSMN_OBJECT | JSMN_ARRAY | JSMN_STRING | JSMN_PRIMITIVE

record jsmntok =
  tok_type :: jsmn_type
  tok_start :: nat
  tok_end :: nat
  tok_size :: nat

definition undefined_token :: jsmntok where
  "undefined_token = \<lparr>tok_type = JSMN_UNDEFINED, tok_start = 0, tok_end = 0, tok_size = 0\<rparr>"

definition JSON_DECODE_TOKENLIST_SIZE :: nat where
  "JSON_DECODE_TOKENLIST_SIZE = 128"

datatype json_error = JsonErrno errno | TokenPastArray | CharPastMessage | JsonFuel

text \<open>
  A string is not copied: its value points into the message, where the decoder stores a NUL at
  \<open>end\<close>. \<open>message\<close> is the whole allocated buffer.
\<close>

definition token_text :: "byte list \<Rightarrow> jsmntok \<Rightarrow> byte list" where
  "token_text message t = cstr (take (tok_end t - tok_start t) (drop (tok_start t) message))"

definition decode_primitive ::
    "(byte list \<Rightarrow> u64) \<Rightarrow> byte list \<Rightarrow> jsmntok \<Rightarrow> json_error + json_value" where
  "decode_primitive strtod message t =
     (if length message \<le> tok_start t then Inl CharPastMessage
      else let c = message ! tok_start t in
        if c = 110 then Inr JsonNull
        else if c = 116 then Inr JsonTrue
        else if c = 102 then Inr JsonFalse
        else if length message \<le> tok_end t then Inl CharPastMessage
        else Inr (JsonNumber (strtod (token_text message t))))"

definition decode_token_string :: "byte list \<Rightarrow> jsmntok \<Rightarrow> json_error + json_value" where
  "decode_token_string message t =
     (if length message \<le> tok_end t then Inl CharPastMessage
      else Inr (JsonString (token_text message t)))"

text \<open>
  \<open>platch_decode_value_json\<close> on a tokenized message. \<open>i\<close> is the index of \<open>*pptoken\<close> in the
  token array, which has 128 elements. The count of remaining tokens is never tested. \<open>heap\<close>
  says whether \<open>calloc\<close> of a number of elements succeeds.
\<close>

function (sequential) decode_json_fuel ::
    "(nat \<Rightarrow> bool) \<Rightarrow> (byte list \<Rightarrow> u64) \<Rightarrow> byte list \<Rightarrow> jsmntok list \<Rightarrow> nat \<Rightarrow> nat \<Rightarrow>
     json_error + (json_value \<times> nat)"
  and decode_json_elems ::
    "(nat \<Rightarrow> bool) \<Rightarrow> (byte list \<Rightarrow> u64) \<Rightarrow> byte list \<Rightarrow> jsmntok list \<Rightarrow> nat \<Rightarrow> nat \<Rightarrow> nat \<Rightarrow>
     json_error + (json_value list \<times> nat)"
  and decode_json_fields ::
    "(nat \<Rightarrow> bool) \<Rightarrow> (byte list \<Rightarrow> u64) \<Rightarrow> byte list \<Rightarrow> jsmntok list \<Rightarrow> nat \<Rightarrow> nat \<Rightarrow> nat \<Rightarrow>
     json_error + ((byte list \<times> json_value) list \<times> nat)" where
  "decode_json_fuel heap strtod message toks 0 i = Inl JsonFuel"
| "decode_json_fuel heap strtod message toks (Suc fuel) i =
     (if length toks \<le> i then Inl TokenPastArray
      else let t = toks ! i in
        case tok_type t of
          JSMN_UNDEFINED \<Rightarrow> Inl (JsonErrno EBADMSG)
        | JSMN_PRIMITIVE \<Rightarrow> bind_r (decode_primitive strtod message t) (\<lambda>v. Inr (v, i + 1))
        | JSMN_STRING \<Rightarrow> bind_r (decode_token_string message t) (\<lambda>v. Inr (v, i + 1))
        | JSMN_ARRAY \<Rightarrow>
            if \<not> heap (tok_size t) then Inl (JsonErrno ENOMEM)
            else bind_r (decode_json_elems heap strtod message toks fuel (tok_size t) (i + 1))
              (\<lambda>(vs, j). Inr (JsonArray vs, j))
        | JSMN_OBJECT \<Rightarrow>
            if \<not> heap (tok_size t) then Inl (JsonErrno ENOMEM)
            else bind_r (decode_json_fields heap strtod message toks fuel (tok_size t) (i + 1))
              (\<lambda>(kvs, j). Inr (JsonObject kvs, j)))"
| "decode_json_elems heap strtod message toks fuel 0 i = Inr ([], i)"
| "decode_json_elems heap strtod message toks fuel (Suc n) i =
     bind_r (decode_json_fuel heap strtod message toks fuel i) (\<lambda>(v, j).
     bind_r (decode_json_elems heap strtod message toks fuel n j) (\<lambda>(vs, j'). Inr (v # vs, j')))"
| "decode_json_fields heap strtod message toks fuel 0 i = Inr ([], i)"
| "decode_json_fields heap strtod message toks fuel (Suc n) i =
     bind_r (decode_json_fuel heap strtod message toks fuel i) (\<lambda>(key, j).
       case key of
         JsonString k \<Rightarrow>
           bind_r (decode_json_fuel heap strtod message toks fuel j) (\<lambda>(v, j').
           bind_r (decode_json_fields heap strtod message toks fuel n j') (\<lambda>(kvs, j'').
             Inr ((k, v) # kvs, j'')))
       | _ \<Rightarrow> Inl (JsonErrno EBADMSG))"
  by pat_completeness auto
termination
  by (relation "measures [
       \<lambda>x. case x of Inl (_, _, _, _, f, _) \<Rightarrow> f
             | Inr (Inl (_, _, _, _, f, _)) \<Rightarrow> f | Inr (Inr (_, _, _, _, f, _)) \<Rightarrow> f,
       \<lambda>x. case x of Inl _ \<Rightarrow> 0
             | Inr (Inl (_, _, _, _, _, n, _)) \<Rightarrow> Suc n | Inr (Inr (_, _, _, _, _, n, _)) \<Rightarrow> Suc n]")
    auto

declare decode_json_fuel.simps(2) [simp del]

text \<open>
  The first call: \<open>jsmn\<close> is the tokens of the parser for the first \<open>size\<close> bytes, \<open>None\<close> when
  it reports an error (more tokens than the array holds included). The rest of the array is
  zero, that is, undefined tokens.
\<close>

definition decode_value_json ::
    "(byte list \<Rightarrow> jsmntok list option) \<Rightarrow> (nat \<Rightarrow> bool) \<Rightarrow> (byte list \<Rightarrow> u64) \<Rightarrow> byte list \<Rightarrow> nat \<Rightarrow>
     json_error + json_value" where
  "decode_value_json jsmn heap strtod message n =
     (case jsmn (take n message) of
        None \<Rightarrow> Inl (JsonErrno EBADMSG)
      | Some ts \<Rightarrow>
          let toks = ts @ replicate (JSON_DECODE_TOKENLIST_SIZE - length ts) undefined_token
          in bind_r (decode_json_fuel heap strtod message toks (Suc (length toks)) 0) (\<lambda>(v, _). Inr v))"


section \<open>The decoder stops\<close>

lemma token_step:
  assumes "decode_json_fuel heap strtod message toks (Suc fuel) i = Inr (v, j)"
  shows "i < length toks \<and> (j = i + 1
    \<or> (\<exists>n vs. decode_json_elems heap strtod message toks fuel n (i + 1) = Inr (vs, j))
    \<or> (\<exists>n kvs. decode_json_fields heap strtod message toks fuel n (i + 1) = Inr (kvs, j)))"
  using assms unfolding decode_json_fuel.simps(2) Let_def
  by (cases "tok_type (toks ! i)") (auto simp: bind_r_Inr_iff split: if_splits)

definition json_forward :: "(nat \<Rightarrow> bool) \<Rightarrow> (byte list \<Rightarrow> u64) \<Rightarrow> byte list \<Rightarrow> jsmntok list \<Rightarrow> nat \<Rightarrow> bool" where
  "json_forward heap strtod message toks fuel \<longleftrightarrow>
     (\<forall>i v j. decode_json_fuel heap strtod message toks fuel i = Inr (v, j) \<longrightarrow> i < j)
     \<and> (\<forall>i. length toks - i < fuel \<longrightarrow> decode_json_fuel heap strtod message toks fuel i \<noteq> Inl JsonFuel)"

lemma json_elems_forward:
  assumes "json_forward heap strtod message toks fuel"
  shows "(\<forall>vs j. decode_json_elems heap strtod message toks fuel n i = Inr (vs, j) \<longrightarrow> i \<le> j)
    \<and> (length toks - i < fuel \<longrightarrow> decode_json_elems heap strtod message toks fuel n i \<noteq> Inl JsonFuel)"
proof (induction n arbitrary: i)
  case 0
  then show ?case by simp
next
  case (Suc n)
  show ?case
  proof (cases "decode_json_fuel heap strtod message toks fuel i")
    case (Inl e)
    then show ?thesis using assms by (auto simp: json_forward_def)
  next
    case (Inr p)
    obtain v j where p: "p = (v, j)" by (cases p)
    have "i < j" using assms Inr p by (auto simp: json_forward_def)
    then show ?thesis using Suc.IH [of j] Inr p
      by (auto simp: bind_r_Inr_iff bind_r_Inl_iff)
  qed
qed

lemma json_fields_forward:
  assumes "json_forward heap strtod message toks fuel"
  shows "(\<forall>vs j. decode_json_fields heap strtod message toks fuel n i = Inr (vs, j) \<longrightarrow> i \<le> j)
    \<and> (length toks - i < fuel \<longrightarrow> decode_json_fields heap strtod message toks fuel n i \<noteq> Inl JsonFuel)"
proof (induction n arbitrary: i)
  case 0
  then show ?case by simp
next
  case (Suc n)
  show ?case
  proof (cases "decode_json_fuel heap strtod message toks fuel i")
    case (Inl e)
    then show ?thesis using assms by (auto simp: json_forward_def)
  next
    case (Inr p)
    obtain key j where p: "p = (key, j)" by (cases p)
    have j: "i < j" using assms Inr p by (auto simp: json_forward_def)
    show ?thesis
    proof (cases "\<exists>k. key = JsonString k")
      case False
      then show ?thesis using Inr p by (cases key) auto
    next
      case True
      then obtain k where k: "key = JsonString k" by blast
      show ?thesis
      proof (cases "decode_json_fuel heap strtod message toks fuel j")
        case 2: (Inl e)
        have "length toks - i < fuel \<Longrightarrow> e \<noteq> JsonFuel"
          using assms 2 j unfolding json_forward_def
          by (metis diff_le_mono2 le_less_trans less_imp_le)
        then show ?thesis using Inr p k 2 by auto
      next
        case 2: (Inr q)
        obtain v j' where q: "q = (v, j')" by (cases q)
        have "j < j'" using assms 2 q by (auto simp: json_forward_def)
        then show ?thesis using Suc.IH [of j'] Inr p k j 2 q
          by (auto simp: bind_r_Inr_iff bind_r_Inl_iff)
      qed
    qed
  qed
qed

lemma json_forward_all: "json_forward heap strtod message toks fuel"
proof (induction fuel)
  case 0
  then show ?case by (simp add: json_forward_def)
next
  case (Suc fuel)
  note E = json_elems_forward [OF Suc] and F = json_fields_forward [OF Suc]
  have "i < j" if "decode_json_fuel heap strtod message toks (Suc fuel) i = Inr (v, j)" for i v j
    using token_step [OF that] E [THEN conjunct1, rule_format] F [THEN conjunct1, rule_format]
    by (meson Suc_le_eq Suc_eq_plus1 lessI add.commute order_le_less_trans le_less_trans less_add_one less_le_trans)
  moreover have "decode_json_fuel heap strtod message toks (Suc fuel) i \<noteq> Inl JsonFuel"
    if "length toks - i < Suc fuel" for i
  proof (cases "length toks \<le> i")
    case True
    then show ?thesis by (simp add: decode_json_fuel.simps(2))
  next
    case False
    then have l: "length toks - (i + 1) < fuel" using that by auto
    have e: "decode_json_elems heap strtod message toks fuel n (i + 1) \<noteq> Inl JsonFuel"
      and f: "decode_json_fields heap strtod message toks fuel n (i + 1) \<noteq> Inl JsonFuel" for n
      using E [THEN conjunct2, rule_format, OF l] F [THEN conjunct2, rule_format, OF l] by blast+
    show ?thesis
      using e f unfolding decode_json_fuel.simps(2) Let_def
      by (cases "tok_type (toks ! i)")
        (auto simp: False bind_r_Inl_iff decode_primitive_def decode_token_string_def Let_def)
  qed
  ultimately show ?case by (auto simp: json_forward_def)
qed

text \<open>
  decoding a tokenized message stops with a value or an error whatever the tokens claim,
  since every call consumes a token and the array is finite.
\<close>
theorem decode_value_json_terminates:
  "decode_value_json jsmn heap strtod message n \<noteq> Inl JsonFuel"
proof (cases "jsmn (take n message)")
  case None
  then show ?thesis by (simp add: decode_value_json_def)
next
  case (Some ts)
  let ?toks = "ts @ replicate (JSON_DECODE_TOKENLIST_SIZE - length ts) undefined_token"
  have "decode_json_fuel heap strtod message ?toks (Suc (length ?toks)) 0 \<noteq> Inl JsonFuel"
    using json_forward_all [of heap strtod message ?toks "Suc (length ?toks)"]
    unfolding json_forward_def by (meson diff_le_self le_imp_less_Suc)
  with Some show ?thesis
    by (simp add: decode_value_json_def Let_def) (auto simp: bind_r_Inl_iff)
qed

section \<open>Decoding what was encoded\<close>

text \<open>
  The tokens of the text of a value at position \<open>pos\<close>, in the order and with the extents
  jsmn documents: a string token excludes the quotes, an array's size is the number of its
  elements, an object's the number of its keys.
\<close>

fun tokens :: "(u64 \<Rightarrow> byte list) \<Rightarrow> nat \<Rightarrow> json_value \<Rightarrow> jsmntok list"
  and tokens_elems :: "(u64 \<Rightarrow> byte list) \<Rightarrow> nat \<Rightarrow> json_value list \<Rightarrow> jsmntok list"
  and tokens_fields :: "(u64 \<Rightarrow> byte list) \<Rightarrow> nat \<Rightarrow> (byte list \<times> json_value) list \<Rightarrow> jsmntok list" where
  "tokens fmt pos JsonNull = [\<lparr>tok_type = JSMN_PRIMITIVE, tok_start = pos, tok_end = pos + 4, tok_size = 0\<rparr>]"
| "tokens fmt pos JsonTrue = [\<lparr>tok_type = JSMN_PRIMITIVE, tok_start = pos, tok_end = pos + 4, tok_size = 0\<rparr>]"
| "tokens fmt pos JsonFalse = [\<lparr>tok_type = JSMN_PRIMITIVE, tok_start = pos, tok_end = pos + 5, tok_size = 0\<rparr>]"
| "tokens fmt pos (JsonNumber x) =
     [\<lparr>tok_type = JSMN_PRIMITIVE, tok_start = pos, tok_end = pos + length (fmt x), tok_size = 0\<rparr>]"
| "tokens fmt pos (JsonString s) =
     [\<lparr>tok_type = JSMN_STRING, tok_start = pos + 1,
       tok_end = pos + 1 + length (concat (map escape_char (cstr s))), tok_size = 0\<rparr>]"
| "tokens fmt pos (JsonArray vs) =
     \<lparr>tok_type = JSMN_ARRAY, tok_start = pos, tok_end = pos + length (write_json fmt (JsonArray vs)),
       tok_size = length vs\<rparr> # tokens_elems fmt (pos + 1) vs"
| "tokens fmt pos (JsonObject kvs) =
     \<lparr>tok_type = JSMN_OBJECT, tok_start = pos, tok_end = pos + length (write_json fmt (JsonObject kvs)),
       tok_size = length kvs\<rparr> # tokens_fields fmt (pos + 1) kvs"
| "tokens_elems fmt pos [] = []"
| "tokens_elems fmt pos (v # vs) =
     tokens fmt pos v @ tokens_elems fmt (pos + length (write_json fmt v) + 1) vs"
| "tokens_fields fmt pos [] = []"
| "tokens_fields fmt pos ((k, v) # kvs) =
     \<lparr>tok_type = JSMN_STRING, tok_start = pos + 1, tok_end = pos + 1 + length (cstr k), tok_size = 1\<rparr>
     # tokens fmt (pos + length (cstr k) + 3) v
     @ tokens_fields fmt (pos + length (cstr k) + 3 + length (write_json fmt v) + 1) kvs"

text \<open>
  What the formatted numbers look like: \<open>%g\<close> produces at least one character, and only printable ones
  that mean nothing to a tokenizer (digits, sign, point, exponent, \<open>inf\<close>, \<open>nan\<close>).
\<close>

definition plain_numbers :: "(u64 \<Rightarrow> byte list) \<Rightarrow> bool" where
  "plain_numbers fmt \<longleftrightarrow>
     (\<forall>x. fmt x \<noteq> [] \<and> (\<forall>b \<in> set (fmt x). 32 < b \<and> b < 127 \<and> b \<notin> {34, 44, 58, 91, 93, 123, 125}))"

text \<open>
  What comes back. A number is what \<open>strtod\<close> makes of its text, which has six digits; but the decoder
  goes by the first character, so \<open>nan\<close> comes back as null. A string is the escaped text, since the
  decoder does not unescape.
\<close>

definition read_number :: "(byte list \<Rightarrow> u64) \<Rightarrow> byte list \<Rightarrow> json_value" where
  "read_number strtod xs =
     (if hd xs = 110 then JsonNull else if hd xs = 116 then JsonTrue else if hd xs = 102 then JsonFalse
      else JsonNumber (strtod xs))"

fun received :: "(byte list \<Rightarrow> u64) \<Rightarrow> (u64 \<Rightarrow> byte list) \<Rightarrow> json_value \<Rightarrow> json_value" where
  "received strtod fmt (JsonNumber x) = read_number strtod (fmt x)"
| "received strtod fmt (JsonString s) = JsonString (concat (map escape_char (cstr s)))"
| "received strtod fmt (JsonArray vs) = JsonArray (map (received strtod fmt) vs)"
| "received strtod fmt (JsonObject kvs) = JsonObject (map (\<lambda>(k, v). (cstr k, received strtod fmt v)) kvs)"
| "received strtod fmt v = v"

lemma plain_numbersD: "plain_numbers fmt \<Longrightarrow> fmt x \<noteq> [] \<and> 0 \<notin> set (fmt x)"
  unfolding plain_numbers_def by (metis word_not_simps(1))

lemma cstr_no_nul: "0 \<notin> set (cstr s)"
  by (auto simp: cstr_def dest: set_takeWhileD)

lemma escapes_no_nul: "0 \<notin> set (concat (map escape_char (cstr s)))"
  using cstr_no_nul [of s] by (auto simp: escape_char_def)

lemma token_text_at:
  assumes "drop (tok_start t) message = xs @ r" and "tok_end t = tok_start t + length xs" and "0 \<notin> set xs"
  shows "token_text message t = xs"
  using assms by (simp add: token_text_def)

lemma decode_string_token:
  assumes "drop i toks = t # ts" and "tok_type t = JSMN_STRING" and "tok_end t = tok_start t + length xs"
    and "drop (tok_start t) message = xs @ c # r" and "0 \<notin> set xs"
  shows "decode_json_fuel heap strtod message toks (Suc fuel) i = Inr (JsonString xs, i + 1)"
proof -
  have i: "i < length toks" "toks ! i = t"
    using drop_ConsD [of i toks t ts] assms(1)
    by (metis drop_eq_Nil2 linorder_not_less list.distinct(1), metis assms(1) nth_via_drop)
  have "length message - tok_start t = length xs + Suc (length r)"
    using assms(4) by (metis length_append length_drop length_Cons)
  then have "tok_end t < length message" using assms(3) by linarith
  with i assms token_text_at [OF assms(4,3,5)] show ?thesis
    by (simp add: decode_json_fuel.simps(2) decode_token_string_def)
qed


lemma decode_primitive_token:
  assumes "drop i toks = t # ts" and "tok_type t = JSMN_PRIMITIVE" and "tok_end t = tok_start t + length xs"
    and "drop (tok_start t) message = xs @ c # r" and "0 \<notin> set xs" and "xs \<noteq> []"
  shows "decode_json_fuel heap strtod message toks (Suc fuel) i =
    Inr (if hd xs = 110 then JsonNull else if hd xs = 116 then JsonTrue else if hd xs = 102 then JsonFalse
      else JsonNumber (strtod xs), i + 1)"
proof -
  have i: "i < length toks" "toks ! i = t"
    using drop_ConsD [OF assms(1)] by simp_all
  have l: "length message - tok_start t = length xs + Suc (length r)"
    using assms(4) by (metis length_append length_drop length_Cons)
  then have "tok_end t < length message" "tok_start t < length message" using assms(3) by linarith+
  moreover have "message ! tok_start t = hd xs"
    using assms(4,6) nth_via_drop [of "tok_start t" message "hd xs"] by (cases xs) auto
  ultimately show ?thesis
    using i assms token_text_at [OF assms(4,3,5)]
    by (simp add: decode_json_fuel.simps(2) decode_primitive_def Let_def)
qed

lemma drop_append_length: "drop i xs = ys @ zs \<Longrightarrow> drop (i + length ys) xs = zs"
  by (metis add.commute append_eq_conv_conj drop_drop)

lemma tokens_nonempty: "0 < length (tokens fmt pos v)"
  by (cases v) auto

text \<open>\<open>c # r\<close> is what follows the text: at least one character.\<close>

lemma decode_tokens:
  "drop pos message = write_json fmt v @ c # r \<Longrightarrow> drop i toks = tokens fmt pos v @ ts \<Longrightarrow>
     length (tokens fmt pos v) \<le> fuel \<Longrightarrow> plain_numbers fmt \<Longrightarrow>
     decode_json_fuel (\<lambda>_. True) strtod message toks fuel i = Inr (received strtod fmt v, i + length (tokens fmt pos v))"
  and decode_tokens_elems:
  "drop pos message = write_json_elems fmt vs @ c # r \<Longrightarrow> drop i toks = tokens_elems fmt pos vs @ ts \<Longrightarrow>
     length (tokens_elems fmt pos vs) \<le> fuel \<Longrightarrow> plain_numbers fmt \<Longrightarrow>
     decode_json_elems (\<lambda>_. True) strtod message toks fuel (length vs) i
       = Inr (map (received strtod fmt) vs, i + length (tokens_elems fmt pos vs))"
  and decode_tokens_fields:
  "drop pos message = write_json_fields fmt kvs @ c # r \<Longrightarrow> drop i toks = tokens_fields fmt pos kvs @ ts \<Longrightarrow>
     length (tokens_fields fmt pos kvs) \<le> fuel \<Longrightarrow> plain_numbers fmt \<Longrightarrow>
     decode_json_fields (\<lambda>_. True) strtod message toks fuel (length kvs) i
       = Inr (map (\<lambda>(k, v). (cstr k, received strtod fmt v)) kvs, i + length (tokens_fields fmt pos kvs))"
proof (induction fmt pos v and fmt pos vs and fmt pos kvs
    arbitrary: c r i ts fuel and c r i ts fuel and c r i ts fuel
    rule: tokens_tokens_elems_tokens_fields.induct)
  case (1 fmt pos)
  obtain f where f: "fuel = Suc f" using "1.prems"(3) by (cases fuel) auto
  show ?case
    using decode_primitive_token [of i toks _ ts "[110, 117, 108, 108]" message c r] 1 f by simp
next
  case (2 fmt pos)
  obtain f where f: "fuel = Suc f" using "2.prems"(3) by (cases fuel) auto
  show ?case
    using decode_primitive_token [of i toks _ ts "[116, 114, 117, 101]" message c r] 2 f by simp
next
  case (3 fmt pos)
  obtain f where f: "fuel = Suc f" using "3.prems"(3) by (cases fuel) auto
  show ?case
    using decode_primitive_token [of i toks _ ts "[102, 97, 108, 115, 101]" message c r] 3 f by simp
next
  case (4 fmt pos x)
  obtain f where f: "fuel = Suc f" using "4.prems"(3) by (cases fuel) auto
  show ?case
    using decode_primitive_token [of i toks _ ts "fmt x" message c r] 4 f plain_numbersD [of fmt x] by (simp add: read_number_def)
next
  case (5 fmt pos s)
  obtain f where f: "fuel = Suc f" using "5.prems"(3) by (cases fuel) auto
  have "drop (Suc pos) message = concat (map escape_char (cstr s)) @ 34 # c # r"
    using drop_ConsD [of pos message 34] "5.prems"(1) by simp
  then show ?case
    using decode_string_token [of i toks _ ts "concat (map escape_char (cstr s))" message 34 "c # r"]
      escapes_no_nul [of s] 5 f by simp
next
  case (6 fmt pos vs)
  obtain f where f: "fuel = Suc f" using "6.prems"(3) by (cases fuel) auto
  have m: "drop (pos + 1) message = write_json_elems fmt vs @ 93 # c # r"
    using drop_ConsD [of pos message 91] "6.prems"(1) by simp
  obtain t where t: "drop i toks = t # tokens_elems fmt (pos + 1) vs @ ts"
    "tok_type t = JSMN_ARRAY" "tok_size t = length vs"
    using "6.prems"(2) by simp
  have i: "i < length toks" "toks ! i = t" "drop (i + 1) toks = tokens_elems fmt (pos + 1) vs @ ts"
    using drop_ConsD [OF t(1)] by simp_all
  have "decode_json_elems (\<lambda>_. True) strtod message toks f (length vs) (i + 1)
      = Inr (map (received strtod fmt) vs, i + 1 + length (tokens_elems fmt (pos + 1) vs))"
    by (rule "6.IH" [OF m i(3)]) (use "6.prems" f in simp_all)
  with i t f show ?case by (simp add: decode_json_fuel.simps(2))
next
  case (7 fmt pos kvs)
  obtain f where f: "fuel = Suc f" using "7.prems"(3) by (cases fuel) auto
  have m: "drop (pos + 1) message = write_json_fields fmt kvs @ 125 # c # r"
    using drop_ConsD [of pos message 123] "7.prems"(1) by simp
  obtain t where t: "drop i toks = t # tokens_fields fmt (pos + 1) kvs @ ts"
    "tok_type t = JSMN_OBJECT" "tok_size t = length kvs"
    using "7.prems"(2) by simp
  have i: "i < length toks" "toks ! i = t" "drop (i + 1) toks = tokens_fields fmt (pos + 1) kvs @ ts"
    using drop_ConsD [OF t(1)] by simp_all
  have "decode_json_fields (\<lambda>_. True) strtod message toks f (length kvs) (i + 1)
      = Inr (map (\<lambda>(k, v). (cstr k, received strtod fmt v)) kvs, i + 1 + length (tokens_fields fmt (pos + 1) kvs))"
    by (rule "7.IH" [OF m i(3)]) (use "7.prems" f in simp_all)
  with i t f show ?case by (simp add: decode_json_fuel.simps(2))
next
  case (8 fmt pos)
  then show ?case by simp
next
  case (9 fmt pos v vs)
  let ?w = "write_json fmt v" and ?t = "tokens fmt pos v"
  have le: "pos \<le> length message"
    using "9.prems"(1) by (metis drop_eq_Nil2 linorder_le_cases append_is_Nil_conv list.distinct(1))
  obtain d q where d: "drop pos message = ?w @ d # q" and
    d': "vs \<noteq> [] \<Longrightarrow> q = write_json_elems fmt vs @ c # r"
    using "9.prems"(1) by (cases "vs = []") auto
  have i2: "drop (i + length ?t) toks = tokens_elems fmt (pos + length ?w + 1) vs @ ts"
    by (rule drop_append_length) (use "9.prems"(2) in simp)
  have 1: "decode_json_fuel (\<lambda>_. True) strtod message toks fuel i = Inr (received strtod fmt v, i + length ?t)"
    by (rule "9.IH"(1) [OF d]) (use "9.prems" in simp_all)
  have 2: "decode_json_elems (\<lambda>_. True) strtod message toks fuel (length vs) (i + length ?t)
      = Inr (map (received strtod fmt) vs, i + length ?t + length (tokens_elems fmt (pos + length ?w + 1) vs))"
  proof (cases "vs = []")
    case False
    have "drop (pos + length ?w + 1) message = write_json_elems fmt vs @ c # r"
      using drop_appendD [OF d le] drop_ConsD [of "pos + length ?w" message d q] d' [OF False] by simp
    then show ?thesis
      by (rule "9.IH"(2) [OF _ i2]) (use "9.prems" in simp_all)
  qed simp
  from 1 2 show ?case by simp
next
  case (10 fmt pos)
  then show ?case by simp
next
  case (11 fmt pos k v kvs)
  let ?w = "write_json fmt v" and ?p = "pos + length (cstr k) + 3"
  let ?t = "tokens fmt ?p v"
  obtain d q where d0: "drop pos message = 34 # cstr k @ 34 # 58 # ?w @ d # q" and
    d': "kvs \<noteq> [] \<Longrightarrow> q = write_json_fields fmt kvs @ c # r"
    using "11.prems"(1) by (cases "kvs = []") auto
  have d1: "drop (Suc pos) message = cstr k @ 34 # 58 # ?w @ d # q" "Suc pos \<le> length message"
    using drop_ConsD [OF d0] by simp_all
  have d2: "drop (Suc pos + length (cstr k)) message = [34, 58] @ ?w @ d # q"
    "Suc pos + length (cstr k) \<le> length message"
    using drop_appendD [OF d1] by simp_all
  have d3: "drop ?p message = ?w @ d # q" "?p \<le> length message"
    using drop_appendD [OF d2] by (simp_all add: add.commute numeral_3_eq_3)
  obtain f where f: "fuel = Suc f" using "11.prems"(3) by (cases fuel) auto
  have 0: "decode_json_fuel (\<lambda>_. True) strtod message toks fuel i = Inr (JsonString (cstr k), i + 1)"
    unfolding f
    by (rule decode_string_token [OF _ _ _ _ cstr_no_nul,
          where t = "\<lparr>tok_type = JSMN_STRING, tok_start = pos + 1, tok_end = pos + 1 + length (cstr k), tok_size = 1\<rparr>"
            and c = 34 and r = "58 # ?w @ d # q"])
      (rule trans [OF "11.prems"(2)], use d1 in simp_all)
  have i1: "drop (i + 1) toks = ?t @ tokens_fields fmt (?p + length ?w + 1) kvs @ ts"
    using drop_ConsD [of i toks] "11.prems"(2) by simp
  have i2: "drop (i + 1 + length ?t) toks = tokens_fields fmt (?p + length ?w + 1) kvs @ ts"
    using i1 by (rule drop_append_length)
  have 1: "decode_json_fuel (\<lambda>_. True) strtod message toks fuel (i + 1) = Inr (received strtod fmt v, i + 1 + length ?t)"
    by (rule "11.IH"(1) [OF d3(1) i1]) (use "11.prems" in simp_all)
  have 2: "decode_json_fields (\<lambda>_. True) strtod message toks fuel (length kvs) (i + 1 + length ?t)
      = Inr (map (\<lambda>(k, v). (cstr k, received strtod fmt v)) kvs,
          i + 1 + length ?t + length (tokens_fields fmt (?p + length ?w + 1) kvs))"
  proof (cases "kvs = []")
    case False
    have "drop (?p + length ?w + 1) message = write_json_fields fmt kvs @ c # r"
      using drop_appendD [OF d3] drop_ConsD [of "?p + length ?w" message d q] d' [OF False] by simp
    then show ?thesis
      by (rule "11.IH"(2) [OF _ i2]) (use "11.prems" in simp_all)
  qed simp
  from 0 1 2 show ?case by simp
qed

section \<open>Comparison and lookup\<close>

function (sequential) jsvalue_equals :: "json_value \<Rightarrow> json_value \<Rightarrow> bool option"
  and js_equal_elems :: "json_value list \<Rightarrow> json_value list \<Rightarrow> bool option"
  and js_equal_entries :: "nat \<Rightarrow> (byte list \<times> json_value) list \<Rightarrow> (byte list \<times> json_value) list \<Rightarrow>
    bool list \<Rightarrow> bool option"
  and js_find_entry :: "nat \<Rightarrow> byte list \<Rightarrow> json_value \<Rightarrow> (byte list \<times> json_value) list \<Rightarrow> bool list \<Rightarrow> nat \<Rightarrow>
    (nat \<times> bool list \<times> bool) option" where
  "jsvalue_equals JsonNull b = (case b of JsonNull \<Rightarrow> Some True | _ \<Rightarrow> Some False)"
| "jsvalue_equals JsonTrue b = (case b of JsonTrue \<Rightarrow> Some True | _ \<Rightarrow> Some False)"
| "jsvalue_equals JsonFalse b = (case b of JsonFalse \<Rightarrow> Some True | _ \<Rightarrow> Some False)"
| "jsvalue_equals (JsonNumber x) b = (case b of JsonNumber y \<Rightarrow> Some (f64_eq x y) | _ \<Rightarrow> Some False)"
| "jsvalue_equals (JsonString s) b = (case b of JsonString t \<Rightarrow> Some (cstr s = cstr t) | _ \<Rightarrow> Some False)"
| "jsvalue_equals (JsonArray vs) b = (case b of JsonArray ws \<Rightarrow>
     (if length vs \<noteq> length ws then Some False else js_equal_elems vs ws) | _ \<Rightarrow> Some False)"
| "jsvalue_equals (JsonObject kvs) b = (case b of JsonObject lws \<Rightarrow>
     (if length kvs \<noteq> length lws then Some False
      else js_equal_entries (length kvs) kvs lws (replicate (length kvs) False)) | _ \<Rightarrow> Some False)"
| "js_equal_elems [] _ = Some True"
| "js_equal_elems (v # vs) [] = None"
| "js_equal_elems (v # vs) (w # ws) =
     (case jsvalue_equals v w of
        None \<Rightarrow> None | Some False \<Rightarrow> Some False | Some True \<Rightarrow> js_equal_elems vs ws)"
| "js_equal_entries sz [] lws flags = Some True"
| "js_equal_entries sz ((k, v) # kvs) lws flags =
     (case js_find_entry sz k v lws flags 0 of
        None \<Rightarrow> None
      | Some (j, flags', differ) \<Rightarrow>
          if differ then Some False
          else if j + 1 \<ge> sz then Some False
          else js_equal_entries sz kvs lws flags')"
| "js_find_entry sz key val lws flags j =
     (if j < sz then
        (case skip_flags flags j of
           None \<Rightarrow> None
         | Some j' \<Rightarrow>
             if length lws \<le> j' then None
             else if cstr key \<noteq> cstr (fst (lws ! j')) then js_find_entry sz key val lws flags (j' + 1)
             else (case jsvalue_equals val (snd (lws ! j')) of
                     None \<Rightarrow> None
                   | Some same \<Rightarrow> Some (j', flags[j' := True], \<not> same)))
      else Some (j, flags, False))"
  by pat_completeness auto
termination
  by (relation "measures [
      \<lambda>x. case x of Inl (Inl (a, _)) \<Rightarrow> size a | Inl (Inr (vs, _)) \<Rightarrow> size_list size vs
        | Inr (Inl (_, kvs, _, _)) \<Rightarrow> size_list (size_prod (\<lambda>_. 0) size) kvs
        | Inr (Inr (_, _, v, _, _, _)) \<Rightarrow> Suc (size v),
      \<lambda>x. case x of Inr (Inr (n, _, _, _, _, j)) \<Rightarrow> n - j | _ \<Rightarrow> 0]")
    (auto dest: skip_flags_bounds)

fun jsobject_get :: "(byte list \<times> json_value) list \<Rightarrow> byte list \<Rightarrow> json_value option" where
  "jsobject_get [] key = None"
| "jsobject_get ((k, v) # kvs) key = (if cstr k = cstr key then Some v else jsobject_get kvs key)"

end
