(* ===== verification/PlatformChannel.thy ===== *)
theory PlatformChannel
  imports JsonCodec
begin

text \<open>
  The message layer of \<open>src/platform_channel.c\<close>: \<open>platch_encode\<close> and \<open>platch_decode\<close>
  for every codec, and the calls that send a message or a response through the engine. The
  library functions, the allocator and the addresses of the buffers are fields of a record.
\<close>

section \<open>Objects\<close>

datatype platch_codec =
    kNotImplemented
  | kStringCodec
  | kBinaryCodec
  | kJSONMessageCodec
  | kStandardMessageCodec
  | kStandardMethodCall
  | kStandardMethodCallResponse
  | kJSONMethodCall
  | kJSONMethodCallResponse

text \<open>
  \<open>struct platch_obj\<close> with the members its codec and \<open>success\<close> flag select. A method or
  an argument that was never assigned is \<open>None\<close>, and so is an error message that is NULL.
\<close>

datatype platch_obj =
    NotImplementedObj
  | StringObj "byte list"
  | BinaryObj "byte list"
  | JsonMessage json_value
  | StdMessage std_value
  | StdMethodCall "byte list" std_value
  | StdSuccess std_value
  | StdError "byte list" "byte list option" std_value
  | JsonMethodCall "byte list option" "json_value option"
  | JsonSuccess json_value
  | JsonError "byte list" "byte list option" json_value

datatype platch_error =
    PlatchErrno errno
  | StdFailure dec_error
  | JsonFailure json_error
  | NullString
  | Indeterminate
  | BufferOverrun

text \<open>The errors that the functions return; the others are accesses the code must not make.\<close>

fun error_returned :: "platch_error \<Rightarrow> bool" where
  "error_returned (PlatchErrno _) = True"
| "error_returned (StdFailure (Errno _)) = True"
| "error_returned (JsonFailure (JsonErrno _)) = True"
| "error_returned _ = False"

record platch_env =
  env_fmt :: "u64 \<Rightarrow> byte list"
  env_strtod :: "byte list \<Rightarrow> u64"
  env_jsmn :: "byte list \<Rightarrow> jsmntok list option"
  env_heap :: "nat \<Rightarrow> bool"
  env_enc_base :: nat
  env_dec_base :: nat

section \<open>Encoding\<close>

definition method_key :: "byte list" where "method_key = [109, 101, 116, 104, 111, 100]"
definition args_key :: "byte list" where "args_key = [97, 114, 103, 115]"

definition error_array :: "byte list \<Rightarrow> byte list option \<Rightarrow> json_value \<Rightarrow> json_value" where
  "error_array code msg details =
     JsonArray [JsonString code, case msg of Some m \<Rightarrow> JsonString m | None \<Rightarrow> JsonNull, details]"

text \<open>
  The first \<open>switch\<close> of \<open>platch_encode\<close>: the size of the block it allocates. The error
  message of a standard response goes to \<open>strlen\<close> even when it is NULL. For the JSON codecs
  the block has one byte more than the size that is returned.
\<close>

fun encode_size :: "platch_env \<Rightarrow> platch_obj \<Rightarrow> platch_error + nat" where
  "encode_size env NotImplementedObj = Inr 0"
| "encode_size env (StringObj s) = Inr (length (cstr s))"
| "encode_size env (BinaryObj bs) = Inr (length bs)"
| "encode_size env (JsonMessage v) = Inr (calc_value_size_json (env_fmt env) v)"
| "encode_size env (StdMessage v) = Inr (calc_value_size_std v 0)"
| "encode_size env (StdMethodCall m v) = Inr (calc_value_size_std v (calc_value_size_std (StdString m) 0))"
| "encode_size env (StdSuccess v) = Inr (calc_value_size_std v 1)"
| "encode_size env (StdError code None details) = Inl NullString"
| "encode_size env (StdError code (Some msg) details) =
     Inr (calc_value_size_std details (calc_value_size_std (StdString msg) (calc_value_size_std (StdString code) 1)))"
| "encode_size env (JsonMethodCall (Some m) (Some v)) =
     Inr (calc_value_size_json (env_fmt env) (JsonObject [(method_key, JsonString m), (args_key, v)]))"
| "encode_size env (JsonMethodCall _ _) = Inl Indeterminate"
| "encode_size env (JsonSuccess v) = Inr (calc_value_size_json (env_fmt env) (JsonArray [v]))"
| "encode_size env (JsonError code msg details) =
     Inr (calc_value_size_json (env_fmt env) (error_array code msg details))"

text \<open>Standard values one after the other, from \<open>pos\<close> on.\<close>

fun write_values :: "nat \<Rightarrow> std_value list \<Rightarrow> nat \<Rightarrow> byte option list" where
  "write_values base [] pos = []"
| "write_values base (v # vs) pos =
     (let bs = write_std base v pos in bs @ write_values base vs (pos + length bs))"

text \<open>The second \<open>switch\<close>: what is written into the block.\<close>

fun encode_bytes :: "platch_env \<Rightarrow> platch_obj \<Rightarrow> byte option list" where
  "encode_bytes env NotImplementedObj = []"
| "encode_bytes env (StringObj s) = map Some (cstr s)"
| "encode_bytes env (BinaryObj bs) = map Some bs"
| "encode_bytes env (JsonMessage v) = map Some (write_json (env_fmt env) v)"
| "encode_bytes env (StdMessage v) = write_values (env_enc_base env) [v] 0"
| "encode_bytes env (StdMethodCall m v) = write_values (env_enc_base env) [StdString m, v] 0"
| "encode_bytes env (StdSuccess v) = Some 0 # write_values (env_enc_base env) [v] 1"
| "encode_bytes env (StdError code msg details) =
     Some 1 # write_values (env_enc_base env)
       [StdString code, StdString (case msg of Some m \<Rightarrow> m | None \<Rightarrow> []), details] 1"
| "encode_bytes env (JsonMethodCall m v) =
     (case (m, v) of (Some m, Some v) \<Rightarrow>
        map Some (write_json (env_fmt env) (JsonObject [(method_key, JsonString m), (args_key, v)]))
      | _ \<Rightarrow> [])"
| "encode_bytes env (JsonSuccess v) = map Some (write_json (env_fmt env) (JsonArray [v]))"
| "encode_bytes env (JsonError code msg details) =
     map Some (write_json (env_fmt env) (error_array code msg details))"

text \<open>
  The message handed to the engine has the computed size: bytes of the block that were not
  written are indeterminate, and writing more than the block holds is \<open>BufferOverrun\<close>.
\<close>

definition platch_encode :: "platch_env \<Rightarrow> platch_obj \<Rightarrow> platch_error + byte option list" where
  "platch_encode env obj =
     bind_r (encode_size env obj) (\<lambda>n.
       let bs = encode_bytes env obj in
       if obj \<noteq> NotImplementedObj \<and> \<not> (\<exists>b. obj = BinaryObj b) \<and> \<not> env_heap env n
       then Inl (PlatchErrno ENOMEM)
       else if n < length bs then Inl BufferOverrun
       else Inr (bs @ replicate (n - length bs) None))"

section \<open>Decoding\<close>

definition lift_std :: "dec_error + 'a \<Rightarrow> platch_error + 'a" where
  "lift_std r = (case r of Inl e \<Rightarrow> Inl (StdFailure e) | Inr x \<Rightarrow> Inr x)"

definition lift_json :: "json_error + 'a \<Rightarrow> platch_error + 'a" where
  "lift_json r = (case r of Inl e \<Rightarrow> Inl (JsonFailure e) | Inr x \<Rightarrow> Inr x)"

definition env_decode_std :: "platch_env \<Rightarrow> byte list \<Rightarrow> nat \<Rightarrow> platch_error + (std_value \<times> nat)" where
  "env_decode_std env buf off = lift_std (decode_value_std (env_heap env) (env_dec_base env) buf off)"

definition env_decode_json :: "platch_env \<Rightarrow> byte list \<Rightarrow> nat \<Rightarrow> platch_error + json_value" where
  "env_decode_json env message n =
     lift_json (decode_value_json (env_jsmn env) (env_heap env) (env_strtod env) message n)"

text \<open>The loop over the members of a JSON method call.\<close>

fun json_call_members ::
    "(byte list \<times> json_value) list \<Rightarrow> byte list option \<Rightarrow> json_value option \<Rightarrow> platch_error + platch_obj" where
  "json_call_members [] m a = Inr (JsonMethodCall m a)"
| "json_call_members ((k, v) # kvs) m a =
     (case (cstr k = method_key, v) of
        (True, JsonString s) \<Rightarrow> json_call_members kvs (Some s) a
      | _ \<Rightarrow> if cstr k = args_key then json_call_members kvs m (Some v)
             else Inl (PlatchErrno EBADMSG))"

definition decode_json_response :: "json_value \<Rightarrow> platch_error + platch_obj" where
  "decode_json_response v =
     (case v of
        JsonArray [r] \<Rightarrow> Inr (JsonSuccess r)
      | JsonArray [JsonString code, JsonString msg, details] \<Rightarrow> Inr (JsonError code (Some msg) details)
      | JsonArray [JsonString code, JsonNull, details] \<Rightarrow> Inr (JsonError code None details)
      | _ \<Rightarrow> Inl (PlatchErrno EBADMSG))"

text \<open>The result of reading the success byte is not tested, and nonzero counts as success.\<close>

definition decode_std_response :: "platch_env \<Rightarrow> byte list \<Rightarrow> platch_error + platch_obj" where
  "decode_std_response env buf =
     (case buf of
        [] \<Rightarrow> Inl Indeterminate
      | b # _ \<Rightarrow>
          if b \<noteq> 0 then bind_r (env_decode_std env buf 1) (\<lambda>(v, _). Inr (StdSuccess v))
          else
            bind_r (env_decode_std env buf 1) (\<lambda>(code, o1).
            bind_r (env_decode_std env buf o1) (\<lambda>(msg, o2).
            bind_r (env_decode_std env buf o2) (\<lambda>(details, o3).
              case (code, msg) of
                (StdString c, StdString m) \<Rightarrow> Inr (StdError c (Some m) details)
              | (StdString c, StdNull) \<Rightarrow> Inr (StdError c None details)
              | _ \<Rightarrow> Inl (PlatchErrno EBADMSG)))))"

text \<open>
  \<open>pbuf\<close> is \<open>None\<close> for NULL, else the allocated bytes, of which the message is the first
  \<open>n\<close>.
\<close>

definition platch_decode ::
    "platch_env \<Rightarrow> byte list option \<Rightarrow> nat \<Rightarrow> platch_codec \<Rightarrow> platch_error + platch_obj" where
  "platch_decode env pbuf n codec =
     (case pbuf of
        None \<Rightarrow> if n = 0 then Inr NotImplementedObj else Inl NullString
      | Some message \<Rightarrow>
          (case codec of
             kStringCodec \<Rightarrow>
               if env_heap env (n + 1) then Inr (StringObj (take n message)) else Inl (PlatchErrno ENOMEM)
           | kBinaryCodec \<Rightarrow> Inr (BinaryObj (take n message))
           | kJSONMessageCodec \<Rightarrow> bind_r (env_decode_json env message n) (\<lambda>v. Inr (JsonMessage v))
           | kJSONMethodCall \<Rightarrow> bind_r (env_decode_json env message n) (\<lambda>v.
               case v of JsonObject kvs \<Rightarrow> json_call_members kvs None None
               | _ \<Rightarrow> Inl (PlatchErrno EBADMSG))
           | kJSONMethodCallResponse \<Rightarrow> bind_r (env_decode_json env message n) decode_json_response
           | kStandardMessageCodec \<Rightarrow>
               bind_r (env_decode_std env (take n message) 0) (\<lambda>(v, _). Inr (StdMessage v))
           | kStandardMethodCall \<Rightarrow>
               bind_r (env_decode_std env (take n message) 0) (\<lambda>(m, o1).
                 case m of
                   StdString name \<Rightarrow>
                     bind_r (env_decode_std env (take n message) o1) (\<lambda>(v, _). Inr (StdMethodCall name v))
                 | _ \<Rightarrow> Inl (PlatchErrno EBADMSG))
           | kStandardMethodCallResponse \<Rightarrow> decode_std_response env (take n message)
           | kNotImplemented \<Rightarrow> Inl (PlatchErrno EINVAL)))"


section \<open>The block is exactly filled\<close>

fun wf_obj :: "platch_obj \<Rightarrow> bool" where
  "wf_obj (StdMessage v) = wf_std v"
| "wf_obj (StdMethodCall m v) = (wf_std (StdString m) \<and> wf_std v)"
| "wf_obj (StdSuccess v) = wf_std v"
| "wf_obj (StdError c m d) = (wf_std (StdString c) \<and> (\<forall>s. m = Some s \<longrightarrow> wf_std (StdString s)) \<and> wf_std d)"
| "wf_obj _ = True"

lemma write_values_size:
  assumes "base mod 8 = 0" and "\<forall>v \<in> set vs. wf_std v"
  shows "pos + length (write_values base vs pos) = fold calc_value_size_std vs pos"
  using assms(2)
proof (induction vs arbitrary: pos)
  case Nil
  then show ?case by simp
next
  case (Cons v vs)
  then have "pos + length (write_std base v pos) = calc_value_size_std v pos"
    by (intro calc_size_exact [OF assms(1)]) simp
  with Cons show ?case by (simp add: Let_def flip: add.assoc)
qed

lemma encode_size_exact:
  assumes "env_enc_base env mod 8 = 0" and "wf_obj obj" and "encode_size env obj = Inr n"
  shows "length (encode_bytes env obj) = n"
proof -
  note W = write_values_size [OF assms(1)]
  show ?thesis
    using assms(2,3) W [of "[v]" 0 for v] W [of "[v]" 1 for v] W [of "[v, w]" 0 for v w]
      W [of "[v, w, x]" 1 for v w x]
    by (cases "(env, obj)" rule: encode_size.cases) (auto simp: json_size_exact simp del: wf_std.simps write_values.simps)
qed


lemma encode_fills_block:
  assumes "env_enc_base env mod 8 = 0" and "wf_obj obj" and "encode_size env obj = Inr n"
    and "env_heap env n"
  shows "platch_encode env obj = Inr (encode_bytes env obj)"
  using encode_size_exact [OF assms(1-3)] assms(3,4) by (simp add: platch_encode_def Let_def)

text \<open>
  for a well-formed object, when the allocation succeeds, the message \<open>platch_encode\<close>
  returns is exactly what was written: the writer never leaves the block, and no byte after the
  last written one is part of the message.
\<close>
theorem platch_encode_fills_block:
  assumes "env_enc_base env mod 8 = 0" and "wf_obj obj" and "encode_size env obj = Inr n"
    and "env_heap env n"
  shows "platch_encode env obj = Inr (encode_bytes env obj)"
  using assms by (rule encode_fills_block)

definition sample_env :: platch_env where
  "sample_env = \<lparr>env_fmt = \<lambda>_. [48], env_strtod = \<lambda>_. 0, env_jsmn = \<lambda>_. None, env_heap = \<lambda>_. True,
     env_enc_base = 16, env_dec_base = 32\<rparr>"

theorem platch_encode_fills_block_witness:
  "platch_encode sample_env (StdSuccess StdNull) = Inr [Some 0, Some 0]"
  using platch_encode_fills_block [of sample_env "StdSuccess StdNull" 2] by (simp add: sample_env_def)

section \<open>Method calls and replies\<close>

lemma decode_two:
  assumes "fills (write_values base [v, w] (length pre)) bs" and "base mod 8 = 0" and "base' mod 8 = 0"
    and "wf_std v" and "wf_std w"
  shows "\<exists>off. decode_value_std (\<lambda>_. True) base' (pre @ bs) (length pre) = Inr (v, off)
    \<and> decode_value_std (\<lambda>_. True) base' (pre @ bs) off = Inr (w, length (pre @ bs))"
proof -
  obtain xs ys where b: "bs = xs @ ys" "fills (write_std base v (length pre)) xs"
    "fills (write_std base w (length pre + length (write_std base v (length pre)))) ys"
    using assms(1) by (auto simp: fills_append Let_def)
  note l = fills_length [OF b(2)]
  have 1: "decode_value_std (\<lambda>_. True) base' (pre @ bs) (length pre) = Inr (v, length pre + length xs)"
    unfolding decode_value_std_def b(1)
    by (rule decode_written [OF b(2) _ assms(2,4) _ assms(3), of _ ys]) simp_all
  have 2: "decode_value_std (\<lambda>_. True) base' (pre @ bs) (length pre + length xs)
      = Inr (w, length pre + length xs + length ys)"
    unfolding decode_value_std_def b(1) l
    by (rule decode_written [OF b(3) _ assms(2,5) _ assms(3), of _ "[]"]) (simp_all add: l [symmetric])
  from 1 2 b(1) show ?thesis by auto
qed

lemma decode_first:
  assumes "fills (write_values base (v # vs) (length pre)) bs" and "base mod 8 = 0" and "base' mod 8 = 0"
    and "wf_std v"
  shows "\<exists>off. decode_value_std (\<lambda>_. True) base' (pre @ bs) (length pre) = Inr (v, off)"
proof -
  obtain xs ys where b: "bs = xs @ ys" "fills (write_std base v (length pre)) xs"
    using assms(1) by (auto simp: fills_append Let_def)
  have "decode_value_std (\<lambda>_. True) base' (pre @ bs) (length pre) = Inr (v, length pre + length xs)"
    unfolding decode_value_std_def b(1)
    by (rule decode_written [OF b(2) _ assms(2,4) _ assms(3), of _ ys]) simp_all
  then show ?thesis by blast
qed

text \<open>
  C9: a standard method call that is encoded, with anything in the alignment gaps, is decoded
  to the same method and argument.
\<close>
theorem std_method_call_round_trip:
  assumes "wf_obj (StdMethodCall name v)" and "platch_encode env (StdMethodCall name v) = Inr os"
    and "fills os msg" and "env_heap env = (\<lambda>_. True)"
    and "env_enc_base env mod 8 = 0" and "env_dec_base env mod 8 = 0"
  shows "platch_decode env (Some (msg @ rest)) (length msg) kStandardMethodCall = Inr (StdMethodCall name v)"
proof -
  have "os = encode_bytes env (StdMethodCall name v)"
    using assms(1,2) encode_fills_block [OF assms(5,1)] assms(4) by simp
  then have "fills (write_values (env_enc_base env) [StdString name, v] (length ([] :: byte list))) msg"
    using assms(3) by (simp only: encode_bytes.simps list.size)
  from decode_two [OF this assms(5,6)] assms(1)
  obtain off where "decode_value_std (\<lambda>_. True) (env_dec_base env) msg 0 = Inr (StdString name, off)"
    "decode_value_std (\<lambda>_. True) (env_dec_base env) msg off = Inr (v, length msg)"
    by auto
  with assms(4) show ?thesis
    by (simp add: platch_decode_def env_decode_std_def lift_std_def)
qed

theorem std_method_call_round_trip_witness:
  "platch_decode sample_env (Some ([7, 1, 97, 0] @ [9])) (length [7, 1, 97, 0 :: byte]) kStandardMethodCall = Inr (StdMethodCall [97] StdNull)"
proof -
  have e: "platch_encode sample_env (StdMethodCall [97] StdNull) = Inr (map Some [7, 1, 97, 0])"
    by (simp add: platch_encode_def sample_env_def write_size_def advance_size_bytes_def Let_def)
  show ?thesis
    using std_method_call_round_trip [OF _ e, of "[7, 1, 97, 0]" "[9]"]
    by (simp add: sample_env_def fills_def)
qed

text \<open>
  replies are encoded and decoded with opposite meanings of the first byte. The error reply
  the program sends for a code, a message and details is decoded by its own decoder as a
  success whose result is the error code, and a success reply is never decoded as a success.
\<close>
theorem std_replies_inverted:
  assumes "env_heap env = (\<lambda>_. True)" and "env_enc_base env mod 8 = 0" and "env_dec_base env mod 8 = 0"
    and wf: "wf_obj (StdError code (Some m) d)"
    and f: "fills (encode_bytes env (StdError code (Some m) d)) msg"
    and g: "fills (encode_bytes env (StdSuccess v)) msg'"
  shows "platch_decode env (Some msg) (length msg) kStandardMethodCallResponse = Inr (StdSuccess (StdString code))
    \<and> platch_decode env (Some msg') (length msg') kStandardMethodCallResponse \<noteq> Inr (StdSuccess w)"
proof
  from wf f obtain bs where b: "msg = [1] @ bs"
    "fills (write_values (env_enc_base env) [StdString code, StdString m, d] (length [1 :: byte])) bs"
    by (auto simp del: write_values.simps)
  from decode_first [OF b(2) assms(2,3)] wf obtain off where
    "decode_value_std (\<lambda>_. True) (env_dec_base env) ([1] @ bs) (length [1 :: byte]) = Inr (StdString code, off)"
    by auto
  with b(1) assms(1) show "platch_decode env (Some msg) (length msg) kStandardMethodCallResponse
      = Inr (StdSuccess (StdString code))"
    by (simp add: platch_decode_def decode_std_response_def env_decode_std_def lift_std_def)
next
  from g obtain bs where b: "msg' = 0 # bs" by auto
  show "platch_decode env (Some msg') (length msg') kStandardMethodCallResponse \<noteq> Inr (StdSuccess w)"
    unfolding b
    by (auto simp: platch_decode_def decode_std_response_def bind_r_Inr_iff split: std_value.splits)
qed

theorem std_replies_inverted_witness:
  "platch_decode sample_env (Some [1, 7, 1, 69, 7, 0, 0]) (length [1, 7, 1, 69, 7, 0, 0 :: byte])
       kStandardMethodCallResponse = Inr (StdSuccess (StdString [69]))"
  using std_replies_inverted [of sample_env "[69]" "[]" StdNull "[1, 7, 1, 69, 7, 0, 0]" StdNull "[0, 0]"]
  by (simp add: sample_env_def write_size_def)

section \<open>Sending\<close>

text \<open>
  The calls of \<open>platch_send\<close> on the allocator and the engine, in order. A callback makes it
  allocate the handler data and create a response handle. \<open>outcome\<close> is what the allocator and
  the engine answer; \<open>send_ok\<close> is the test \<open>ok != 0\<close> on the engine's result.
\<close>

datatype send_call =
    AllocBuffer
  | FreeBuffer
  | AllocHandlerData
  | FreeHandlerData
  | CreateResponseHandle
  | ReleaseResponseHandle
  | SendPlatformMessage "byte list" "byte option list"
  | SendPlatformMessageResponse "byte option list"
  | FreeBinaryData

record send_outcome =
  handler_alloc :: bool
  create_ok :: bool
  send_ok :: bool
  release_ok :: bool

datatype send_ret = Ret0 | RetErrno errno | RetEncode platch_error | RetEngine

fun owns_buffer :: "platch_obj \<Rightarrow> bool" where
  "owns_buffer (BinaryObj _) = False"
| "owns_buffer NotImplementedObj = False"
| "owns_buffer _ = True"

definition platch_send ::
    "platch_env \<Rightarrow> send_outcome \<Rightarrow> byte list \<Rightarrow> platch_obj \<Rightarrow> bool \<Rightarrow> send_ret \<times> send_call list" where
  "platch_send env out channel obj on_response =
     (case platch_encode env obj of
        Inl e \<Rightarrow> (RetEncode e, [])
      | Inr bytes \<Rightarrow>
          let alloc = (if owns_buffer obj then [AllocBuffer] else []);
              free = (if owns_buffer obj then [FreeBuffer] else []);
              send = SendPlatformMessage channel bytes
          in if on_response then
               (if \<not> handler_alloc out then (RetErrno ENOMEM, alloc)
                else if \<not> create_ok out
                then (Ret0, alloc @ [AllocHandlerData, CreateResponseHandle, FreeHandlerData])
                else
                  let pre = alloc @ [AllocHandlerData, CreateResponseHandle, send, ReleaseResponseHandle]
                  in if \<not> send_ok out then (RetEngine, pre @ free @ [FreeHandlerData])
                     else if \<not> release_ok out then (RetErrno EIO, pre @ free @ [FreeHandlerData])
                     else (Ret0, pre @ free))
             else if \<not> send_ok out then (RetEngine, alloc @ [send] @ free)
             else (Ret0, alloc @ [send] @ free))"

text \<open>
  Unlike \<open>platch_send\<close>, \<open>platch_respond\<close> frees every buffer that is not \<open>NULL\<close>: the data of a binary
  object is the caller's own (\<open>FreeBinaryData\<close>).
\<close>

definition platch_respond :: "platch_env \<Rightarrow> platch_obj \<Rightarrow> send_ret \<times> send_call list" where
  "platch_respond env obj =
     (case platch_encode env obj of
        Inl e \<Rightarrow> (RetEncode e, [])
      | Inr bytes \<Rightarrow>
          (Ret0, (if owns_buffer obj then [AllocBuffer] else []) @ [SendPlatformMessageResponse bytes]
            @ (case obj of NotImplementedObj \<Rightarrow> [] | BinaryObj _ \<Rightarrow> [FreeBinaryData] | _ \<Rightarrow> [FreeBuffer])))"

definition platch_call_std ::
    "platch_env \<Rightarrow> send_outcome \<Rightarrow> byte list \<Rightarrow> byte list \<Rightarrow> std_value \<Rightarrow> bool \<Rightarrow> send_ret \<times> send_call list" where
  "platch_call_std env out channel name arg on_response =
     platch_send env out channel (StdMethodCall name arg) on_response"

definition platch_call_json ::
    "platch_env \<Rightarrow> send_outcome \<Rightarrow> byte list \<Rightarrow> byte list \<Rightarrow> json_value \<Rightarrow> bool \<Rightarrow> send_ret \<times> send_call list" where
  "platch_call_json env out channel name arg on_response =
     platch_send env out channel (JsonMethodCall (Some name) (Some arg)) on_response"

definition platch_respond_not_implemented :: "platch_env \<Rightarrow> send_ret \<times> send_call list" where
  "platch_respond_not_implemented env = platch_respond env NotImplementedObj"

definition platch_respond_success_std :: "platch_env \<Rightarrow> std_value option \<Rightarrow> send_ret \<times> send_call list" where
  "platch_respond_success_std env v = platch_respond env (StdSuccess (case v of Some x \<Rightarrow> x | None \<Rightarrow> StdNull))"

definition platch_respond_error_std ::
    "platch_env \<Rightarrow> byte list \<Rightarrow> byte list option \<Rightarrow> std_value option \<Rightarrow> send_ret \<times> send_call list" where
  "platch_respond_error_std env code msg details =
     platch_respond env (StdError code msg (case details of Some x \<Rightarrow> x | None \<Rightarrow> StdNull))"

definition illegalargument :: "byte list" where
  "illegalargument = [105, 108, 108, 101, 103, 97, 108, 97, 114, 103, 117, 109, 101, 110, 116]"

definition platch_respond_illegal_arg_std ::
    "platch_env \<Rightarrow> byte list option \<Rightarrow> send_ret \<times> send_call list" where
  "platch_respond_illegal_arg_std env msg = platch_respond_error_std env illegalargument msg None"

definition platch_respond_success_json :: "platch_env \<Rightarrow> json_value option \<Rightarrow> send_ret \<times> send_call list" where
  "platch_respond_success_json env v = platch_respond env (JsonSuccess (case v of Some x \<Rightarrow> x | None \<Rightarrow> JsonNull))"

definition platch_respond_error_json ::
    "platch_env \<Rightarrow> byte list \<Rightarrow> byte list option \<Rightarrow> json_value option \<Rightarrow> send_ret \<times> send_call list" where
  "platch_respond_error_json env code msg details =
     platch_respond env (JsonError code msg (case details of Some x \<Rightarrow> x | None \<Rightarrow> JsonNull))"

definition platch_send_success_event_std ::
    "platch_env \<Rightarrow> send_outcome \<Rightarrow> byte list \<Rightarrow> std_value option \<Rightarrow> send_ret \<times> send_call list" where
  "platch_send_success_event_std env out channel v =
     platch_send env out channel (StdSuccess (case v of Some x \<Rightarrow> x | None \<Rightarrow> StdNull)) False"

definition platch_send_success_event_json ::
    "platch_env \<Rightarrow> send_outcome \<Rightarrow> byte list \<Rightarrow> json_value option \<Rightarrow> send_ret \<times> send_call list" where
  "platch_send_success_event_json env out channel v =
     platch_send env out channel (JsonSuccess (case v of Some x \<Rightarrow> x | None \<Rightarrow> JsonNull)) False"

text \<open>
  when the message is handed to the engine, or no callback was given, \<open>platch_send\<close> frees
  the buffer it owns as often as it was allocated, releases the response handle as often as it
  created one, and keeps the handler data exactly when the message was accepted and the handle
  released.
\<close>
theorem platch_send_resources:
  assumes "platch_send env out channel obj on_response = (ret, calls)"
    and "on_response \<Longrightarrow> handler_alloc out \<and> create_ok out"
  shows "count_list calls FreeBuffer = count_list calls AllocBuffer
    \<and> count_list calls ReleaseResponseHandle = count_list calls CreateResponseHandle
    \<and> count_list calls AllocHandlerData = count_list calls FreeHandlerData
        + (if on_response \<and> ret = Ret0 then 1 else 0)
    \<and> (ret = Ret0 \<longleftrightarrow> (\<exists>bytes. platch_encode env obj = Inr bytes) \<and> send_ok out
        \<and> (on_response \<longrightarrow> release_ok out))"
  using assms
  by (auto simp: platch_send_def Let_def split: sum.splits if_splits)

theorem platch_send_resources_witness:
  "count_list (snd (platch_send sample_env \<lparr>handler_alloc = True, create_ok = True, send_ok = False, release_ok = True\<rparr>
      [99] (StdSuccess StdNull) True)) FreeHandlerData = 1"
proof -
  obtain ret calls where p: "platch_send sample_env
      \<lparr>handler_alloc = True, create_ok = True, send_ok = False, release_ok = True\<rparr> [99] (StdSuccess StdNull) True
      = (ret, calls)" by (metis prod.exhaust)
  have "count_list calls AllocHandlerData = 1"
    using p by (auto simp: platch_send_def sample_env_def platch_encode_def Let_def)
  with platch_send_resources [OF p] p show ?thesis by simp
qed

text \<open>
  when the engine cannot create the response handle, \<open>platch_send\<close> reports success
  although no message was sent, and the encoded buffer is never freed.
\<close>
theorem platch_send_hides_create_failure:
  assumes "platch_encode env obj = Inr bytes" and "owns_buffer obj" and "handler_alloc out" and "\<not> create_ok out"
  shows "fst (platch_send env out channel obj True) = Ret0
    \<and> (\<forall>c b. SendPlatformMessage c b \<notin> set (snd (platch_send env out channel obj True)))
    \<and> AllocBuffer \<in> set (snd (platch_send env out channel obj True))
    \<and> FreeBuffer \<notin> set (snd (platch_send env out channel obj True))"
  using assms by (simp add: platch_send_def Let_def)

theorem platch_send_hides_create_failure_witness:
  "fst (platch_send sample_env \<lparr>handler_alloc = True, create_ok = False, send_ok = True, release_ok = True\<rparr>
     [99] (StdSuccess StdNull) True) = Ret0"
proof -
  have e: "platch_encode sample_env (StdSuccess StdNull) = Inr [Some 0, Some 0]"
    by (simp add: platch_encode_def sample_env_def Let_def)
  show ?thesis using platch_send_hides_create_failure [OF e] by simp
qed

end
