(* ===== verification/Doubles.thy ===== *)
theory Doubles
  imports Prelude "HOL-Library.Log_Nat"
begin

text \<open>
  The \<open>double\<close> of C as its 64 bits (IEEE 754 binary64): the value of a finite pattern as a
  rational number, rounding to the nearest pattern with ties to even, and the operations the
  program uses. A NaN result is one fixed pattern. Conversions to an integer type that C leaves
  undefined are \<open>None\<close>.
\<close>

section \<open>Values\<close>

definition f64_sign :: "u64 \<Rightarrow> bool" where "f64_sign w = (uint w div 2 ^ 63 = 1)"
definition f64_exp :: "u64 \<Rightarrow> int" where "f64_exp w = (uint w div 2 ^ 52) mod 2 ^ 11"
definition f64_frac :: "u64 \<Rightarrow> int" where "f64_frac w = uint w mod 2 ^ 52"

definition f64_isnan :: "u64 \<Rightarrow> bool" where "f64_isnan w = (f64_exp w = 2047 \<and> f64_frac w \<noteq> 0)"
definition f64_isinf :: "u64 \<Rightarrow> bool" where "f64_isinf w = (f64_exp w = 2047 \<and> f64_frac w = 0)"
definition f64_isfinite :: "u64 \<Rightarrow> bool" where "f64_isfinite w = (f64_exp w \<noteq> 2047)"

definition quiet_nan :: u64 where "quiet_nan = 0x7FF8000000000000"
definition f64_inf :: "bool \<Rightarrow> u64" where "f64_inf neg = (if neg then 0xFFF0000000000000 else 0x7FF0000000000000)"
definition zero_of_sign :: "bool \<Rightarrow> u64" where "zero_of_sign neg = (if neg then 0x8000000000000000 else 0)"

text \<open>The magnitude of a finite pattern is \<open>m * 2 ^ (max e 1 - 1075)\<close>, \<open>m\<close> with its hidden bit.\<close>

definition f64_val :: "u64 \<Rightarrow> rat" where
  "f64_val w =
     (let e = f64_exp w; m = (if e = 0 then f64_frac w else f64_frac w + 2 ^ 52); k = max e 1;
          v = (if k \<ge> 1075 then of_int (m * 2 ^ nat (k - 1075)) else of_int m / of_int (2 ^ nat (1075 - k)))
      in if f64_sign w then - v else v)"

section \<open>Rounding\<close>

definition round_half_even :: "rat \<Rightarrow> int" where
  "round_half_even x =
     (let f = \<lfloor>x\<rfloor>; d = x - of_int f
      in if d < 1 / 2 then f else if d > 1 / 2 then f + 1 else if even f then f else f + 1)"

text \<open>The exponent of a positive rational: \<open>2 ^ e \<le> x < 2 ^ (e + 1)\<close>.\<close>

definition pow2 :: "int \<Rightarrow> rat" where
  "pow2 e = (if e \<ge> 0 then of_int (2 ^ nat e) else 1 / of_int (2 ^ nat (- e)))"

definition rat_expo :: "rat \<Rightarrow> int" where
  "rat_expo x =
     (let (n, d) = quotient_of x; k = bitlen n - bitlen d
      in if pow2 k \<le> x then k else k - 1)"

text \<open>
  The pattern nearest to a rational: with \<open>e\<close> its exponent, not below that of the subnormals,
  and \<open>m\<close> its magnitude in units of \<open>2 ^ (e - 52)\<close>, the pattern is \<open>m\<close> added to the encoded
  exponent; a carry out of \<open>m\<close> goes to the exponent. The sign of a zero is given.
\<close>

definition f64_round :: "bool \<Rightarrow> rat \<Rightarrow> u64" where
  "f64_round zsign x =
     (if x = 0 then zero_of_sign zsign
      else let neg = (x < 0); a = \<bar>x\<bar>; e = max (rat_expo a) (- 1022);
               m = round_half_even (a / pow2 (e - 52));
               b = (e + 1022) * 2 ^ 52 + m
           in if b \<ge> 2047 * 2 ^ 52 then f64_inf neg
              else word_of_int (b + (if neg then 2 ^ 63 else 0)))"

section \<open>Operations\<close>

definition f64_of_int :: "int \<Rightarrow> u64" where "f64_of_int i = f64_round False (of_int i)"

definition f64_neg :: "u64 \<Rightarrow> u64" where "f64_neg w = xor w 0x8000000000000000"

definition f64_add :: "u64 \<Rightarrow> u64 \<Rightarrow> u64" where
  "f64_add a b =
     (if f64_isnan a \<or> f64_isnan b then quiet_nan
      else if f64_isinf a then (if f64_isinf b \<and> f64_sign a \<noteq> f64_sign b then quiet_nan else a)
      else if f64_isinf b then b
      else f64_round (f64_sign a \<and> f64_sign b) (f64_val a + f64_val b))"

definition f64_sub :: "u64 \<Rightarrow> u64 \<Rightarrow> u64" where "f64_sub a b = f64_add a (f64_neg b)"

definition f64_mul :: "u64 \<Rightarrow> u64 \<Rightarrow> u64" where
  "f64_mul a b =
     (let s = (f64_sign a \<noteq> f64_sign b) in
      if f64_isnan a \<or> f64_isnan b then quiet_nan
      else if f64_isinf a \<or> f64_isinf b then
        (if (f64_isfinite a \<and> f64_val a = 0) \<or> (f64_isfinite b \<and> f64_val b = 0) then quiet_nan else f64_inf s)
      else f64_round s (f64_val a * f64_val b))"

definition f64_div :: "u64 \<Rightarrow> u64 \<Rightarrow> u64" where
  "f64_div a b =
     (let s = (f64_sign a \<noteq> f64_sign b) in
      if f64_isnan a \<or> f64_isnan b \<or> (f64_isinf a \<and> f64_isinf b) then quiet_nan
      else if f64_isinf a then f64_inf s
      else if f64_isinf b then zero_of_sign s
      else if f64_val b = 0 then (if f64_val a = 0 then quiet_nan else f64_inf s)
      else f64_round s (f64_val a / f64_val b))"

text \<open>Comparisons; a NaN is unordered and different from everything.\<close>

definition f64_gt0 :: "u64 \<Rightarrow> bool" where
  "f64_gt0 w = (\<not> f64_isnan w \<and> (if f64_isinf w then \<not> f64_sign w else f64_val w > 0))"

definition f64_ne0 :: "u64 \<Rightarrow> bool" where
  "f64_ne0 w = (\<not> f64_isfinite w \<or> f64_val w \<noteq> 0)"

section \<open>Conversions to integers\<close>

text \<open>The integer part of a double given by its bits; \<open>None\<close> for an infinity or a NaN.\<close>

definition f64_trunc :: "u64 \<Rightarrow> int option" where
  "f64_trunc w =
     (let e = f64_exp w; m = f64_frac w + 2 ^ 52;
          v = (if e < 1075 then m div 2 ^ nat (1075 - e) else m * 2 ^ nat (e - 1075))
      in if e = 2047 then None
         else if e < 1023 then Some 0
         else Some (if f64_sign w then - v else v))"

definition f64_to_i32 :: "u64 \<Rightarrow> int option" where
  "f64_to_i32 w = (case f64_trunc w of
     Some i \<Rightarrow> if - (2 ^ 31) \<le> i \<and> i < 2 ^ 31 then Some i else None | None \<Rightarrow> None)"

definition f64_to_i64 :: "u64 \<Rightarrow> int option" where
  "f64_to_i64 w = (case f64_trunc w of
     Some i \<Rightarrow> if - (2 ^ 63) \<le> i \<and> i < 2 ^ 63 then Some i else None | None \<Rightarrow> None)"

lemma f64_to_i32_range: "f64_to_i32 w = Some i \<Longrightarrow> - (2 ^ 31) \<le> i \<and> i < 2 ^ 31"
  by (auto simp: f64_to_i32_def split: option.splits if_splits)

text \<open>Evaluation of the operations on given patterns.\<close>

named_theorems f64_eval

lemmas [f64_eval] = f64_add_def f64_sub_def f64_neg_def f64_mul_def f64_div_def f64_of_int_def f64_round_def
  f64_isnan_def f64_isinf_def f64_isfinite_def f64_exp_def f64_frac_def f64_sign_def f64_val_def
  f64_trunc_def f64_to_i32_def zero_of_sign_def f64_inf_def rat_expo_def pow2_def round_half_even_def Let_def

end
