(* ===== verification/TextInput.thy ===== *)
theory TextInput
  imports PlatformChannel Doubles
begin

text \<open>
  \<open>src/text_input.c\<close>: the text field being edited, kept as a C buffer of 8192 bytes with a
  length, a selection and a composing range, changed by messages on \<open>flutter/textinput\<close> and
  by keys. A function that reads or writes outside the buffer, converts a number that does not
  fit, or uses a value that was never assigned returns \<open>None\<close>. The key symbols of xkbcommon
  that the \<open>switch\<close> names are a datatype; every other symbol is \<open>OtherKey\<close>.
\<close>

section \<open>State\<close>

definition TEXT_INPUT_MAX_LENGTH :: nat where "TEXT_INPUT_MAX_LENGTH = 8192"

record text_input_state =
  ti_active :: bool
  connection_id :: int
  ti_text :: "byte list"
  text_length :: nat
  selection_base :: int
  selection_extent :: int
  composing_base :: int
  composing_extent :: int
  input_action :: "byte list"
  multiline :: bool

text \<open>
  \<open>UpdateEditingState\<close> carries what \<open>send_editing_state\<close> puts in its message: connection,
  text up to its terminator, selection and composing range.
\<close>

datatype text_effect =
    UpdateEditingState int "byte list" int int int int
  | PerformAction int "byte list"
  | RespondSuccessJson

definition send_editing_state :: "text_input_state \<Rightarrow> text_effect list" where
  "send_editing_state st =
     (if \<not> ti_active st then []
      else [UpdateEditingState (connection_id st) (cstr (ti_text st)) (selection_base st)
              (selection_extent st) (composing_base st) (composing_extent st)])"

definition perform_action :: "text_input_state \<Rightarrow> byte list \<Rightarrow> text_effect list" where
  "perform_action st action = (if \<not> ti_active st then [] else [PerformAction (connection_id st) action])"

definition fwr_text_input_init :: text_input_state where
  "fwr_text_input_init =
     \<lparr>ti_active = False, connection_id = 0, ti_text = replicate TEXT_INPUT_MAX_LENGTH 0, text_length = 0,
      selection_base = 0, selection_extent = 0, composing_base = -1, composing_extent = -1,
      input_action = replicate 64 0, multiline = False\<rparr>"

section \<open>Editing\<close>

text \<open>\<open>memmove(&a[dst], &a[src], n)\<close>, where \<open>n\<close> has been converted to \<open>size_t\<close>.\<close>

definition memmove :: "int \<Rightarrow> int \<Rightarrow> int \<Rightarrow> byte list \<Rightarrow> byte list option" where
  "memmove dst src count a =
     (let n = nat (count mod 2 ^ 64) in
      if 0 \<le> dst \<and> nat dst + n \<le> length a \<and> 0 \<le> src \<and> nat src + n \<le> length a
      then Some (take (nat dst) a @ take n (drop (nat src) a) @ drop (nat dst + n) a)
      else None)"

definition memcpy_in :: "int \<Rightarrow> byte list \<Rightarrow> byte list \<Rightarrow> byte list option" where
  "memcpy_in dst s a =
     (if 0 \<le> dst \<and> nat dst + length s \<le> length a
      then Some (take (nat dst) a @ s @ drop (nat dst + length s) a) else None)"

definition delete_selection :: "text_input_state \<Rightarrow> text_input_state option" where
  "delete_selection st =
     (if selection_base st = selection_extent st then Some st
      else
        let start = (if selection_base st < selection_extent st then selection_base st else selection_extent st);
            end' = (if selection_base st > selection_extent st then selection_base st else selection_extent st)
        in case memmove start end' (int (text_length st) - end' + 1) (ti_text st) of
             None \<Rightarrow> None
           | Some a \<Rightarrow> Some (st\<lparr>ti_text := a,
               text_length := nat ((int (text_length st) - (end' - start)) mod 2 ^ 64),
               selection_base := start, selection_extent := start\<rparr>))"

definition insert_text :: "byte list \<Rightarrow> text_input_state \<Rightarrow> text_input_state option" where
  "insert_text str st =
     (if text_length st + length str \<ge> TEXT_INPUT_MAX_LENGTH then Some st
      else case delete_selection st of
        None \<Rightarrow> None
      | Some st1 \<Rightarrow>
          let pos = selection_base st1; len = int (length str) in
          case memmove (pos + len) pos (int (text_length st1) - pos + 1) (ti_text st1) of
            None \<Rightarrow> None
          | Some a \<Rightarrow>
              (case memcpy_in pos str a of
                 None \<Rightarrow> None
               | Some b \<Rightarrow> Some (st1\<lparr>ti_text := b, text_length := text_length st1 + length str,
                   selection_base := pos + len, selection_extent := pos + len\<rparr>)))"

text \<open>The \<open>memmove\<close> of BackSpace and Delete: the byte at \<open>pos\<close> goes away.\<close>

definition delete_byte :: "int \<Rightarrow> text_input_state \<Rightarrow> text_input_state option" where
  "delete_byte pos st =
     (case memmove pos (pos + 1) (int (text_length st) - pos) (ti_text st) of
        None \<Rightarrow> None
      | Some a \<Rightarrow> Some (st\<lparr>ti_text := a, text_length := nat ((int (text_length st) - 1) mod 2 ^ 64)\<rparr>))"

definition utf8_encode :: "u32 \<Rightarrow> byte list" where
  "utf8_encode u =
     (if u < 0x80 then [ucast u]
      else if u < 0x800 then
        [ucast (or 0xC0 (drop_bit 6 u)), ucast (or 0x80 (and u 0x3F))]
      else if u < 0x10000 then
        [ucast (or 0xE0 (drop_bit 12 u)), ucast (or 0x80 (and (drop_bit 6 u) 0x3F)),
         ucast (or 0x80 (and u 0x3F))]
      else
        [ucast (or 0xF0 (drop_bit 18 u)), ucast (or 0x80 (and (drop_bit 12 u) 0x3F)),
         ucast (or 0x80 (and (drop_bit 6 u) 0x3F)), ucast (or 0x80 (and u 0x3F))])"

datatype keysym =
    BackSpace | Delete | Left | Right | Home | End | Return | KP_Enter | Tab | OtherKey

definition done_action :: "byte list" where
  "done_action = [84, 101, 120, 116, 73, 110, 112, 117, 116, 65, 99, 116, 105, 111, 110, 46, 100, 111, 110, 101]"

text \<open>The \<open>switch\<close>: the new state, whether it counts as changed, and other effects.\<close>

fun key_switch :: "keysym \<Rightarrow> u32 \<Rightarrow> text_input_state \<Rightarrow> (text_input_state \<times> bool \<times> text_effect list) option" where
  "key_switch BackSpace u st =
     (if selection_base st \<noteq> selection_extent st
      then map_option (\<lambda>s. (s, True, [])) (delete_selection st)
      else if selection_base st > 0 then
        let pos = selection_base st - 1 in
        map_option (\<lambda>s. (s\<lparr>selection_base := pos, selection_extent := pos\<rparr>, True, [])) (delete_byte pos st)
      else Some (st, False, []))"
| "key_switch Delete u st =
     (if selection_base st \<noteq> selection_extent st
      then map_option (\<lambda>s. (s, True, [])) (delete_selection st)
      else if selection_base st < int (text_length st)
      then map_option (\<lambda>s. (s, True, [])) (delete_byte (selection_base st) st)
      else Some (st, False, []))"
| "key_switch Left u st =
     (if selection_base st > 0
      then Some (st\<lparr>selection_base := selection_base st - 1, selection_extent := selection_base st - 1\<rparr>, True, [])
      else Some (st, False, []))"
| "key_switch Right u st =
     (if selection_base st < int (text_length st)
      then Some (st\<lparr>selection_base := selection_base st + 1, selection_extent := selection_base st + 1\<rparr>, True, [])
      else Some (st, False, []))"
| "key_switch Home u st = Some (st\<lparr>selection_base := 0, selection_extent := 0\<rparr>, True, [])"
| "key_switch End u st =
     Some (st\<lparr>selection_base := int (text_length st), selection_extent := int (text_length st)\<rparr>, True, [])"
| "key_switch Tab u st = Some (st, False, [])"
| "key_switch OtherKey u st =
     (if u \<ge> 0x20 \<and> u \<noteq> 0x7F
      then map_option (\<lambda>s. (s, True, [])) (insert_text (utf8_encode u) st)
      else Some (st, False, []))"
| "key_switch k u st =
     (if multiline st then map_option (\<lambda>s. (s, True, [])) (insert_text [10] st)
      else Some (st, False, perform_action st
             (if cstr (input_action st) \<noteq> [] then cstr (input_action st) else done_action)))"

definition fwr_text_input_handle_key ::
    "keysym \<Rightarrow> u32 \<Rightarrow> bool \<Rightarrow> text_input_state \<Rightarrow> (text_input_state \<times> text_effect list) option" where
  "fwr_text_input_handle_key k u pressed st =
     (if \<not> ti_active st \<or> \<not> pressed then Some (st, [])
      else map_option (\<lambda>(s, changed, es). (s, es @ (if changed then send_editing_state s else [])))
        (key_switch k u st))"


section \<open>Messages\<close>

text \<open>\<open>strncpy(dst, s, n)\<close>\<close>

definition strncpy :: "nat \<Rightarrow> byte list \<Rightarrow> byte list \<Rightarrow> byte list" where
  "strncpy n s dst = take n (cstr s @ replicate n 0) @ drop n dst"

fun input_type_members :: "(byte list \<times> json_value) list \<Rightarrow> bool \<Rightarrow> bool" where
  "input_type_members [] m = m"
| "input_type_members ((k, v) # kvs) m =
     input_type_members kvs
       (case v of JsonString s \<Rightarrow>
            if cstr k = ascii ''name'' \<and> contains (ascii ''multiline'') (cstr s) then True else m
        | _ \<Rightarrow> m)"

fun config_members :: "(byte list \<times> json_value) list \<Rightarrow> text_input_state \<Rightarrow> text_input_state" where
  "config_members [] st = st"
| "config_members ((k, v) # kvs) st =
     config_members kvs
       (case v of
          JsonString s \<Rightarrow>
            if cstr k = ascii ''inputAction'' then st\<lparr>input_action := strncpy 63 s (input_action st)\<rparr> else st
        | JsonObject ms \<Rightarrow>
            if cstr k = ascii ''inputType'' then st\<lparr>multiline := input_type_members ms (multiline st)\<rparr> else st
        | _ \<Rightarrow> st)"

text \<open>
  \<open>TextInput.setClient\<close>. The code reads \<open>array[0].number_value\<close> without looking at the type; for
  an element that is no number the bytes of the union are not determined by the message, so the
  result is \<open>None\<close>.
\<close>

fun set_client :: "json_value \<Rightarrow> text_input_state \<Rightarrow> text_input_state option" where
  "set_client (JsonArray (JsonNumber x # config # _)) st =
     (case f64_to_i64 x of
        None \<Rightarrow> None
      | Some cid \<Rightarrow>
          let st1 = st\<lparr>ti_active := True, connection_id := cid,
                ti_text := replicate TEXT_INPUT_MAX_LENGTH 0, text_length := 0,
                selection_base := 0, selection_extent := 0, composing_base := -1, composing_extent := -1,
                multiline := False, input_action := replicate 64 0\<rparr>
          in Some (case config of JsonObject kvs \<Rightarrow> config_members kvs st1 | _ \<Rightarrow> st1))"
| "set_client (JsonArray (_ # _ # _)) st = None"
| "set_client _ st = Some st"

definition set_text :: "byte list \<Rightarrow> text_input_state \<Rightarrow> text_input_state option" where
  "set_text s st =
     (let a = strncpy (TEXT_INPUT_MAX_LENGTH - 1) s (ti_text st)
      in if 0 \<in> set a then Some (st\<lparr>ti_text := a, text_length := length (cstr a)\<rparr>) else None)"

text \<open>One member of the argument of \<open>TextInput.setEditingState\<close>.\<close>

definition editing_member :: "byte list \<Rightarrow> json_value \<Rightarrow> text_input_state \<Rightarrow> text_input_state option" where
  "editing_member k v st =
     (case v of
        JsonString s \<Rightarrow> if k = ascii ''text'' then set_text s st else Some st
      | JsonNumber x \<Rightarrow>
          if k = ascii ''selectionBase'' then map_option (\<lambda>i. st\<lparr>selection_base := i\<rparr>) (f64_to_i32 x)
          else if k = ascii ''selectionExtent'' then map_option (\<lambda>i. st\<lparr>selection_extent := i\<rparr>) (f64_to_i32 x)
          else if k = ascii ''composingBase'' then map_option (\<lambda>i. st\<lparr>composing_base := i\<rparr>) (f64_to_i32 x)
          else if k = ascii ''composingExtent'' then map_option (\<lambda>i. st\<lparr>composing_extent := i\<rparr>) (f64_to_i32 x)
          else Some st
      | _ \<Rightarrow> Some st)"

fun editing_members :: "(byte list \<times> json_value) list \<Rightarrow> text_input_state \<Rightarrow> text_input_state option" where
  "editing_members [] st = Some st"
| "editing_members ((k, v) # kvs) st = Option.bind (editing_member (cstr k) v st) (editing_members kvs)"

definition set_editing_state :: "json_value \<Rightarrow> text_input_state \<Rightarrow> text_input_state option" where
  "set_editing_state arg st = (case arg of JsonObject kvs \<Rightarrow> editing_members kvs st | _ \<Rightarrow> Some st)"

definition clear_client :: "text_input_state \<Rightarrow> text_input_state" where
  "clear_client st =
     st\<lparr>ti_active := False, connection_id := 0, ti_text := replicate TEXT_INPUT_MAX_LENGTH 0, text_length := 0\<rparr>"

definition ignored_methods :: "byte list list" where
  "ignored_methods = map ascii [''TextInput.show'', ''TextInput.hide'',
     ''TextInput.setEditableSizeAndTransform'', ''TextInput.setMarkedTextRect'', ''TextInput.setStyle'',
     ''TextInput.setCaretRect'', ''TextInput.requestAutofill'', ''TextInput.finishAutofillContext'']"

text \<open>
  The dispatch of \<open>text_input_handle_message\<close> on a decoded message: the new state, whether the
  message was handled, and the response. \<open>obj.method\<close> is used even when decoding assigned none,
  as for an empty message, and \<open>platch_free_obj\<close> reads and frees \<open>obj.json_arg\<close> even then.
\<close>

fun handle_text_call :: "byte list \<Rightarrow> json_value option \<Rightarrow> text_input_state \<Rightarrow>
    (text_input_state \<times> bool \<times> text_effect list) option" where
  "handle_text_call m arg st =
     (if m = ascii ''TextInput.setClient'' then
        Option.bind arg (\<lambda>a. map_option (\<lambda>s. (s, True, [RespondSuccessJson])) (set_client a st))
      else if m = ascii ''TextInput.setEditingState'' then
        Option.bind arg (\<lambda>a. map_option (\<lambda>s. (s, True, [RespondSuccessJson])) (set_editing_state a st))
      else if m = ascii ''TextInput.clearClient'' then Some (clear_client st, True, [RespondSuccessJson])
      else if m \<in> set ignored_methods then Some (st, True, [RespondSuccessJson])
      else Some (st, False, []))"

definition text_input_handle_message ::
    "platch_env \<Rightarrow> bool \<Rightarrow> byte list \<Rightarrow> text_input_state \<Rightarrow> (text_input_state \<times> bool \<times> text_effect list) option" where
  "text_input_handle_message env malloc_ok message st =
     (if message \<noteq> [] \<and> \<not> malloc_ok then Some (st, False, [])
      else
        let copy = (if message \<noteq> [] then Some (message @ [0]) else None)
        in case platch_decode env copy (length message) kJSONMethodCall of
             Inl e \<Rightarrow> if error_returned e then Some (st, False, []) else None
           | Inr (JsonMethodCall (Some m) arg) \<Rightarrow>
               Option.bind (handle_text_call (cstr m) arg st) (\<lambda>r. if arg = None then None else Some r)
           | Inr _ \<Rightarrow> None)"

section \<open>The editor the keys implement\<close>

text \<open>A text with the positions of the two ends of its selection.\<close>

type_synonym editor = "byte list \<times> nat \<times> nat"

fun ed_delete :: "editor \<Rightarrow> editor" where
  "ed_delete (t, b, e) = (take (min b e) t @ drop (max b e) t, min b e, min b e)"

fun ed_insert :: "byte list \<Rightarrow> editor \<Rightarrow> editor" where
  "ed_insert s (t, b, e) =
     (if TEXT_INPUT_MAX_LENGTH \<le> length t + length s then (t, b, e)
      else let (t', p, _) = ed_delete (t, b, e)
           in (take p t' @ s @ drop p t', p + length s, p + length s))"

fun ed_key :: "keysym \<Rightarrow> u32 \<Rightarrow> bool \<Rightarrow> editor \<Rightarrow> editor" where
  "ed_key BackSpace u ml (t, b, e) =
     (if b \<noteq> e then ed_delete (t, b, e) else ed_delete (t, b - 1, b))"
| "ed_key Delete u ml (t, b, e) =
     (if b \<noteq> e then ed_delete (t, b, e) else ed_delete (t, b, min (b + 1) (length t)))"
| "ed_key Left u ml (t, b, e) = (if 0 < b then (t, b - 1, b - 1) else (t, b, e))"
| "ed_key Right u ml (t, b, e) = (if b < length t then (t, b + 1, b + 1) else (t, b, e))"
| "ed_key Home u ml (t, b, e) = (t, 0, 0)"
| "ed_key End u ml (t, b, e) = (t, length t, length t)"
| "ed_key Tab u ml (t, b, e) = (t, b, e)"
| "ed_key OtherKey u ml (t, b, e) =
     (if u \<ge> 0x20 \<and> u \<noteq> 0x7F then ed_insert (utf8_encode u) (t, b, e) else (t, b, e))"
| "ed_key k u ml (t, b, e) = (if ml then ed_insert [10] (t, b, e) else (t, b, e))"

text \<open>
  \<open>holds st t b e\<close>: the buffer holds the text \<open>t\<close>, terminated, and the selection runs
  between \<open>b\<close> and \<open>e\<close>.
\<close>

definition holds :: "text_input_state \<Rightarrow> editor \<Rightarrow> bool" where
  "holds st ed \<longleftrightarrow> (case ed of (t, b, e) \<Rightarrow>
     (\<exists>junk. ti_text st = t @ 0 # junk) \<and> length (ti_text st) = TEXT_INPUT_MAX_LENGTH
     \<and> text_length st = length t \<and> 0 \<notin> set t
     \<and> selection_base st = int b \<and> selection_extent st = int e \<and> b \<le> length t \<and> e \<le> length t)"

lemma memmove_eq:
  "dst + n \<le> length a \<Longrightarrow> src + n \<le> length a \<Longrightarrow> length a < 2 ^ 64 \<Longrightarrow>
     memmove (int dst) (int src) (int n) a = Some (take dst a @ take n (drop src a) @ drop (dst + n) a)"
proof -
  assume "dst + n \<le> length a" "src + n \<le> length a" "length a < 2 ^ 64"
  then have m: "int n mod 2 ^ 64 = int n" by (intro mod_pos_pos_trivial) auto
  show ?thesis
    unfolding memmove_def Let_def m nat_int using \<open>dst + n \<le> length a\<close> \<open>src + n \<le> length a\<close>
    by (simp only: of_nat_0_le_iff simp_thms if_True)
qed

lemma holdsI:
  "ti_text st = t @ 0 # junk \<Longrightarrow> length (ti_text st) = TEXT_INPUT_MAX_LENGTH \<Longrightarrow>
     text_length st = length t \<Longrightarrow> 0 \<notin> set t \<Longrightarrow> selection_base st = int b \<Longrightarrow>
     selection_extent st = int e \<Longrightarrow> b \<le> length t \<Longrightarrow> e \<le> length t \<Longrightarrow> holds st (t, b, e)"
  by (simp add: holds_def)

lemma holdsE:
  assumes "holds st (t, b, e)"
  obtains junk where "ti_text st = t @ 0 # junk" "length (ti_text st) = TEXT_INPUT_MAX_LENGTH"
    "text_length st = length t" "0 \<notin> set t" "selection_base st = int b" "selection_extent st = int e"
    "b \<le> length t" "e \<le> length t"
  using assms unfolding holds_def prod.case by blast

lemma take_drop_subset: "0 \<notin> set t \<Longrightarrow> 0 \<notin> set (take lo t @ drop hi t)"
  by (auto dest: in_set_takeD in_set_dropD)

lemma holds_text_less: "holds st (t, b, e) \<Longrightarrow> length t < TEXT_INPUT_MAX_LENGTH"
  by (auto simp: holds_def)

text \<open>Removing the bytes between \<open>lo\<close> and \<open>hi\<close>, as both \<open>memmove\<close>s that delete do.\<close>

lemma memmove_delete:
  assumes "a = t @ 0 # junk" and "lo \<le> hi" and "hi \<le> length t" and "length a < 2 ^ 64"
  shows "\<exists>a' junk'. memmove (int lo) (int hi) (int (length t) - int hi + 1) a = Some a'
    \<and> a' = (take lo t @ drop hi t) @ 0 # junk' \<and> length a' = length a"
proof -
  let ?n = "length t - hi + 1"
  have n: "int (length t) - int hi + 1 = int ?n" using assms(3) by simp
  have b: "lo + ?n \<le> length a" "hi + ?n \<le> length a" using assms by auto
  have "take ?n (drop hi a) = drop hi t @ [0]"
    using assms(1,3) by (simp add: Suc_diff_le)
  moreover have "take lo a = take lo t" using assms by simp
  ultimately have m: "memmove (int lo) (int hi) (int ?n) a = Some ((take lo t @ drop hi t) @ 0 # drop (lo + ?n) a)"
    using memmove_eq [OF b assms(4)] by simp
  have l: "length ((take lo t @ drop hi t) @ 0 # drop (lo + ?n) a) = length a"
    using assms b by simp
  show ?thesis
    unfolding n m by (intro exI conjI, rule refl, rule refl, rule l)
qed


text \<open>\<open>kept st st'\<close>: the members that editing does not touch.\<close>

definition kept :: "text_input_state \<Rightarrow> text_input_state \<Rightarrow> bool" where
  "kept st st' \<longleftrightarrow> ti_active st' = ti_active st \<and> connection_id st' = connection_id st
     \<and> composing_base st' = composing_base st \<and> composing_extent st' = composing_extent st
     \<and> input_action st' = input_action st \<and> multiline st' = multiline st"

lemma len64: "length (a :: byte list) = TEXT_INPUT_MAX_LENGTH \<Longrightarrow> length a < 2 ^ 64"
  by (simp add: TEXT_INPUT_MAX_LENGTH_def)

lemma nat_mod64: "0 \<le> i \<Longrightarrow> i < 2 ^ 64 \<Longrightarrow> nat (i mod 2 ^ 64) = nat i"
  by (simp add: mod_pos_pos_trivial)

lemma delete_selection_refines:
  assumes h: "holds st (t, b, e)"
  shows "\<exists>st'. delete_selection st = Some st' \<and> holds st' (ed_delete (t, b, e)) \<and> kept st st'"
proof (cases "b = e")
  case True
  then show ?thesis using h by (auto simp: delete_selection_def holds_def kept_def)
next
  case False
  let ?lo = "min b e" and ?hi = "max b e"
  obtain junk where a: "ti_text st = t @ 0 # junk" and l: "length (ti_text st) = TEXT_INPUT_MAX_LENGTH"
    and tl: "text_length st = length t" and nz: "0 \<notin> set t"
    and s: "selection_base st = int b" "selection_extent st = int e" and be: "b \<le> length t" "e \<le> length t"
    using h by (rule holdsE)
  have hi: "?lo \<le> ?hi" "?hi \<le> length t" using be by auto
  from memmove_delete [OF a hi len64 [OF l]] obtain a' junk' where
    m: "memmove (int ?lo) (int ?hi) (int (length t) - int ?hi + 1) (ti_text st) = Some a'"
    and a': "a' = (take ?lo t @ drop ?hi t) @ 0 # junk'" "length a' = length (ti_text st)" by blast
  let ?st = "st\<lparr>ti_text := a', text_length := length t - (?hi - ?lo), selection_base := int ?lo,
      selection_extent := int ?lo\<rparr>"
  have st: "(if int b < int e then int b else int e) = int ?lo" "(if int b > int e then int b else int e) = int ?hi"
    by auto
  have "length t < 2 ^ 64" using a l by (simp add: TEXT_INPUT_MAX_LENGTH_def)
  then have n: "nat ((int (length t) - (int ?hi - int ?lo)) mod 2 ^ 64) = length t - (?hi - ?lo)"
    using hi by (subst nat_mod64) auto
  have "delete_selection st = Some ?st"
    using False unfolding delete_selection_def s st Let_def tl by (simp only: m n of_nat_eq_iff if_False option.case)
  moreover have "length t - (hi - lo) = length (take lo t @ drop hi t) \<and> lo \<le> length (take lo t @ drop hi t)"
    if "lo \<le> hi" "hi \<le> length t" for lo hi
    using that by auto
  from this [OF hi] have "holds ?st (take ?lo t @ drop ?hi t, ?lo, ?lo)"
    using a' l take_drop_subset [OF nz] by (intro holdsI [where junk = junk']) simp_all
  moreover have "kept st ?st" by (simp add: kept_def)
  ultimately show ?thesis unfolding ed_delete.simps by (intro exI [of _ ?st] conjI)
qed

lemma memcpy_in_eq:
  "p + length s \<le> length a \<Longrightarrow> memcpy_in (int p) s a = Some (take p a @ s @ drop (p + length s) a)"
  by (simp add: memcpy_in_def)

lemma memmove_insert:
  assumes "a = t @ 0 # junk" and "p \<le> length t" and "length t + length s < length a" and "length a < 2 ^ 64"
  shows "\<exists>a' junk'. memmove (int p + int (length s)) (int p) (int (length t) - int p + 1) a = Some a'
    \<and> memcpy_in (int p) s a' = Some ((take p t @ s @ drop p t) @ 0 # junk')
    \<and> length ((take p t @ s @ drop p t) @ 0 # junk') = length a"
proof -
  let ?n = "length t - p + 1" and ?d = "p + length s"
  have e: "int p + int (length s) = int ?d" "int (length t) - int p + 1 = int ?n" using assms(2) by simp_all
  have b: "?d + ?n \<le> length a" "p + ?n \<le> length a" using assms by auto
  let ?a = "take ?d a @ take ?n (drop p a) @ drop (?d + ?n) a"
  let ?j = "drop (?d + ?n) a"
  have m: "memmove (int ?d) (int p) (int ?n) a = Some ?a" by (rule memmove_eq [OF b assms(4)])
  have t: "take ?n (drop p a) = drop p t @ [0]" using assms(1,2) by (simp add: Suc_diff_le)
  have len: "length (take ?d a) = ?d" using b by simp
  have "take p (take ?d a) = take p t" unfolding take_take assms(1) using assms(2) by simp
  then have tp: "take p ?a = take p t" using len by (simp add: take_append)
  have dp: "drop ?d ?a = (drop p t @ [0]) @ ?j" unfolding t drop_append len by simp
  have "p + length s \<le> length ?a" using len by simp
  from memcpy_in_eq [OF this] have c: "memcpy_in (int p) s ?a = Some ((take p t @ s @ drop p t) @ 0 # ?j)"
    unfolding tp dp by simp
  have l: "length ((take p t @ s @ drop p t) @ 0 # ?j) = length a" using b assms(2) by simp
  show ?thesis unfolding e m by (intro exI conjI, rule refl, rule c, rule l)
qed

lemma insert_text_refines:
  assumes h: "holds st (t, b, e)" and s: "0 \<notin> set s"
  shows "\<exists>st'. insert_text s st = Some st' \<and> holds st' (ed_insert s (t, b, e)) \<and> kept st st'"
proof (cases "TEXT_INPUT_MAX_LENGTH \<le> length t + length s")
  case True
  then show ?thesis using h by (auto simp: insert_text_def holds_def kept_def)
next
  case False
  obtain st1 where d: "delete_selection st = Some st1" "holds st1 (ed_delete (t, b, e))" "kept st st1"
    using delete_selection_refines [OF h] by blast
  obtain t1 p where ed: "ed_delete (t, b, e) = (t1, p, p)" by simp
  have tl: "text_length st = length t" and be: "b \<le> length t" "e \<le> length t" using h by (auto elim: holdsE)
  obtain junk where a: "ti_text st1 = t1 @ 0 # junk" and l: "length (ti_text st1) = TEXT_INPUT_MAX_LENGTH"
    and t1: "text_length st1 = length t1" "0 \<notin> set t1" "selection_base st1 = int p" "p \<le> length t1"
    using d(2) unfolding ed by (rule holdsE)
  have "length t1 \<le> length t" using ed be by auto
  then have lt: "length t1 + length s < length (ti_text st1)" using False l by simp
  from memmove_insert [OF a t1(4) lt len64 [OF l]] obtain a' junk' where
    m: "memmove (int p + int (length s)) (int p) (int (length t1) - int p + 1) (ti_text st1) = Some a'"
    and c: "memcpy_in (int p) s a' = Some ((take p t1 @ s @ drop p t1) @ 0 # junk')"
    and l': "length ((take p t1 @ s @ drop p t1) @ 0 # junk') = length (ti_text st1)" by blast
  let ?st = "st1\<lparr>ti_text := (take p t1 @ s @ drop p t1) @ 0 # junk', text_length := length t1 + length s,
      selection_base := int p + int (length s), selection_extent := int p + int (length s)\<rparr>"
  have "\<not> text_length st + length s \<ge> TEXT_INPUT_MAX_LENGTH" using False tl by simp
  then have "insert_text s st = Some ?st"
    unfolding insert_text_def by (simp only: d(1) Let_def t1 m c if_False option.case)
  moreover have "holds ?st (take p t1 @ s @ drop p t1, p + length s, p + length s)"
    using l' l t1 s take_drop_subset [OF t1(2)] by (intro holdsI [where junk = junk']) auto
  moreover have "kept st ?st" using d(3) by (simp add: kept_def)
  moreover have "ed_insert s (t, b, e) = (take p t1 @ s @ drop p t1, p + length s, p + length s)"
    using False ed by (simp only: ed_insert.simps if_False Let_def prod.case)
  ultimately show ?thesis by metis
qed

lemma delete_byte_refines:
  assumes h: "holds st (t, b, e)" and pos: "pos < length t"
  shows "\<exists>junk. delete_byte (int pos) st =
      Some (st\<lparr>ti_text := (take pos t @ drop (Suc pos) t) @ 0 # junk, text_length := length t - 1\<rparr>)
    \<and> length ((take pos t @ drop (Suc pos) t) @ 0 # junk) = TEXT_INPUT_MAX_LENGTH"
proof -
  obtain junk where a: "ti_text st = t @ 0 # junk" and l: "length (ti_text st) = TEXT_INPUT_MAX_LENGTH"
    and tl: "text_length st = length t" using h by (rule holdsE)
  have "pos \<le> Suc pos" "Suc pos \<le> length t" using pos by simp_all
  from memmove_delete [OF a this len64 [OF l]] obtain a' junk' where
    m: "memmove (int pos) (int (Suc pos)) (int (length t) - int (Suc pos) + 1) (ti_text st) = Some a'"
    and a': "a' = (take pos t @ drop (Suc pos) t) @ 0 # junk'" "length a' = length (ti_text st)" by blast
  have i: "int pos + 1 = int (Suc pos)" "int (length t) - int pos = int (length t) - int (Suc pos) + 1" by simp_all
  have "length t < 2 ^ 64" using a l by (simp add: TEXT_INPUT_MAX_LENGTH_def)
  then have n: "nat ((int (length t) - 1) mod 2 ^ 64) = length t - 1"
    using pos by (subst nat_mod64) auto
  have "delete_byte (int pos) st = Some (st\<lparr>ti_text := a', text_length := length t - 1\<rparr>)"
    unfolding delete_byte_def tl n i m option.case by (rule refl)
  then show ?thesis using a' l by auto
qed

lemma utf8_encode_nonzero:
  assumes "0x20 \<le> u"
  shows "0 \<notin> set (utf8_encode u)"
proof -
  have lo: "(0::byte) \<noteq> ucast (u :: u32)" if "0x20 \<le> u" "u < 0x80"
  proof
    assume "(0::byte) = ucast u"
    then have "uint (ucast u :: byte) = 0" by simp
    then have "uint u mod 256 = 0" by (simp add: unsigned_ucast_eq unsigned_take_bit_eq take_bit_eq_mod)
    then show False using that by (simp add: word_le_def word_less_def)
  qed
  have nz: "(0::byte) \<noteq> ucast (or c (v :: u32))" if "bit c 7" for c v
  proof
    assume "(0::byte) = ucast (or c v)"
    then have "bit (ucast (or c v) :: byte) 7 = bit (0::byte) 7" by simp
    then show False using that by (simp add: bit_ucast_iff bit_or_iff)
  qed
  have b: "bit (0x80::u32) 7" "bit (0xC0::u32) 7" "bit (0xE0::u32) 7" "bit (0xF0::u32) 7" by simp_all
  show ?thesis unfolding utf8_encode_def
    using assms lo nz [OF b(1)] nz [OF b(2)] nz [OF b(3)] nz [OF b(4)] by simp
qed

lemma kept_refl [simp]: "kept st st"
  by (simp add: kept_def)

lemma holds_move: "holds st (t, b, e) \<Longrightarrow> p \<le> length t \<Longrightarrow>
    holds (st\<lparr>selection_base := int p, selection_extent := int p\<rparr>) (t, p, p)"
  by (erule holdsE) (rule holdsI, simp_all)

lemma delete_byte_holds:
  assumes h: "holds st (t, b, e)" and pos: "pos < length t" and p: "p \<le> length t - 1"
  shows "\<exists>st'. delete_byte (int pos) st = Some st' \<and> kept st st'
    \<and> selection_base st' = int b \<and> selection_extent st' = int e
    \<and> holds (st'\<lparr>selection_base := int p, selection_extent := int p\<rparr>) (take pos t @ drop (Suc pos) t, p, p)"
proof -
  obtain junk where d: "delete_byte (int pos) st =
      Some (st\<lparr>ti_text := (take pos t @ drop (Suc pos) t) @ 0 # junk, text_length := length t - 1\<rparr>)"
    and l: "length ((take pos t @ drop (Suc pos) t) @ 0 # junk) = TEXT_INPUT_MAX_LENGTH"
    using delete_byte_refines [OF h pos] by blast
  have nz: "0 \<notin> set t" and s: "selection_base st = int b" "selection_extent st = int e"
    using h by (auto elim: holdsE)
  have t: "length (take pos t @ drop (Suc pos) t) = length t - 1" using pos by simp
  let ?st = "st\<lparr>ti_text := (take pos t @ drop (Suc pos) t) @ 0 # junk, text_length := length t - 1\<rparr>"
  have "holds (?st\<lparr>selection_base := int p, selection_extent := int p\<rparr>) (take pos t @ drop (Suc pos) t, p, p)"
    using l t p take_drop_subset [OF nz, of pos "Suc pos"] by (intro holdsI [where junk = junk]) simp_all
  then show ?thesis unfolding d using s by (intro exI [of _ ?st]) (simp add: kept_def)
qed

lemma key_switch_refines:
  assumes h: "holds st (t, b, e)"
  shows "\<exists>st' c es. key_switch k u st = Some (st', c, es) \<and> holds st' (ed_key k u (multiline st) (t, b, e))
    \<and> kept st st' \<and> (\<not> c \<longrightarrow> st' = st) \<and> (\<forall>c txt sb se cb ce. UpdateEditingState c txt sb se cb ce \<notin> set es)"
proof -
  have s: "selection_base st = int b" "selection_extent st = int e" "text_length st = length t"
    "b \<le> length t" "e \<le> length t" using h by (auto elim: holdsE)
  have sel: ?thesis if "k = BackSpace \<or> k = Delete" "b \<noteq> e"
    using delete_selection_refines [OF h] that s by (elim disjE exE conjE) auto
  have ins: "\<exists>st' c es. map_option (\<lambda>s. (s, True, [])) (insert_text x st) = Some (st', c, es) \<and>
      holds st' (ed_insert x (t, b, e)) \<and> kept st st' \<and> (\<not> c \<longrightarrow> st' = st)
      \<and> (\<forall>c txt sb se cb ce. UpdateEditingState c txt sb se cb ce \<notin> set es)" if "0 \<notin> set x" for x
    using insert_text_refines [OF h that] by (elim exE conjE) auto
  show ?thesis
  proof (cases k)
    case BackSpace
    show ?thesis
    proof (cases "b = e \<and> 0 < b")
      case True
      then have "b - 1 < length t" "b - 1 \<le> length t - 1" "int b - 1 = int (b - 1)" using s by auto
      then show ?thesis using delete_byte_holds [OF h, of "b - 1" "b - 1"] s True BackSpace
        by (elim exE conjE) (auto simp: kept_def Let_def)
    next
      case False
      then show ?thesis using sel h s BackSpace by (cases "b = e") auto
    qed
  next
    case Delete
    show ?thesis
    proof (cases "b = e \<and> b < length t")
      case True
      then have p: "b < length t" "b \<le> length t - 1" by auto
      obtain st' where d: "delete_byte (int b) st = Some st'" "kept st st'" "selection_base st' = int b"
        "selection_extent st' = int b" "holds (st'\<lparr>selection_base := int b, selection_extent := int b\<rparr>)
           (take b t @ drop (Suc b) t, b, b)"
        using delete_byte_holds [OF h p] True by auto
      have "holds st' (take b t @ drop (Suc b) t, b, b)" using d(3-5) by (simp add: holds_def)
      then show ?thesis using d(1,2) True s Delete by auto
    next
      case False
      then show ?thesis using sel h s Delete by (cases "b = e") auto
    qed
  next
    case Left
    show ?thesis
    proof (cases b)
      case 0
      then show ?thesis using h s Left by (simp add: ex_bool_eq)
    next
      case (Suc p)
      then show ?thesis using holds_move [OF h, of p] s Left by (simp add: kept_def ex_bool_eq)
    qed
  next
    case Right
    then show ?thesis using holds_move [OF h, of "Suc b"] h s
      by (cases "b < length t") (simp_all add: kept_def ex_bool_eq add.commute)
  next
    case Home
    then show ?thesis using holds_move [OF h, of 0] by (simp add: kept_def ex_bool_eq)
  next
    case End
    then show ?thesis using holds_move [OF h, of "length t"] s by (simp add: kept_def ex_bool_eq)
  next
    case OtherKey
    then show ?thesis using ins utf8_encode_nonzero h by (simp add: ex_bool_eq)
  qed (use ins [of "[10]"] h in \<open>simp_all add: ex_bool_eq perform_action_def\<close>)
qed

lemma cstr_terminated: "0 \<notin> set t \<Longrightarrow> cstr (t @ 0 # junk) = t"
  unfolding cstr_def by (subst takeWhile_append2) auto

text \<open>The effect that tells the framework about an edited text.\<close>

fun reports :: "text_effect \<Rightarrow> editor \<Rightarrow> bool" where
  "reports (UpdateEditingState _ t b e _ _) ed \<longleftrightarrow> ed = (t, nat b, nat e) \<and> 0 \<le> b \<and> 0 \<le> e"
| "reports _ _ \<longleftrightarrow> True"

lemma send_editing_state_reports: "holds st ed \<Longrightarrow> \<forall>x \<in> set (send_editing_state st). reports x ed"
proof -
  assume h: "holds st ed"
  obtain t b e where ed: "ed = (t, b, e)" by (cases ed)
  show ?thesis using h unfolding ed
    by (elim holdsE) (simp add: send_editing_state_def cstr_terminated)
qed

text \<open>A sequence of key events, with their effects in order.\<close>

fun handle_keys :: "(keysym \<times> u32 \<times> bool) list \<Rightarrow> text_input_state \<Rightarrow> (text_input_state \<times> text_effect list list) option" where
  "handle_keys [] st = Some (st, [])"
| "handle_keys ((k, u, pressed) # ks) st =
     Option.bind (fwr_text_input_handle_key k u pressed st) (\<lambda>(st1, es).
       map_option (\<lambda>(st2, ess). (st2, es # ess)) (handle_keys ks st1))"

fun ed_keys :: "(keysym \<times> u32 \<times> bool) list \<Rightarrow> bool \<Rightarrow> editor \<Rightarrow> editor list" where
  "ed_keys [] ml ed = []"
| "ed_keys ((k, u, pressed) # ks) ml ed =
     (let ed' = (if pressed then ed_key k u ml ed else ed) in ed' # ed_keys ks ml ed')"

lemma handle_key_refines:
  assumes h: "holds st ed" and "ti_active st"
  shows "\<exists>st' es. fwr_text_input_handle_key k u pressed st = Some (st', es)
    \<and> holds st' (if pressed then ed_key k u (multiline st) ed else ed) \<and> kept st st'
    \<and> (\<forall>x \<in> set es. reports x (if pressed then ed_key k u (multiline st) ed else ed))"
proof (cases pressed)
  case True
  obtain t b e where ed: "ed = (t, b, e)" by (cases ed)
  obtain st' c es where k: "key_switch k u st = Some (st', c, es)"
    and h': "holds st' (ed_key k u (multiline st) ed)" "kept st st'"
    and n: "\<forall>c txt sb se cb ce. UpdateEditingState c txt sb se cb ce \<notin> set es"
    using key_switch_refines [OF h [unfolded ed]] unfolding ed by blast
  have "reports x (ed_key k u (multiline st) ed)" if "x \<in> set es" for x
    using n that by (cases x) auto
  then show ?thesis using True assms(2) k h' send_editing_state_reports [OF h'(1)]
    by (auto simp: fwr_text_input_handle_key_def)
qed (use h in \<open>simp add: fwr_text_input_handle_key_def\<close>)

text \<open>
  C19: whatever keys are typed into an active text field whose buffer is well formed, no byte is
  read or written outside the buffer, and after every key the buffer holds the text and the
  selection that the same keys give in an editor over lists of bytes; every state reported to the
  framework is the editor's.
\<close>

theorem typing_refines_editor:
  assumes "holds st ed" and "ti_active st"
  shows "\<exists>st' ess. handle_keys ks st = Some (st', ess)
    \<and> holds st' (last (ed # ed_keys ks (multiline st) ed)) \<and> kept st st'
    \<and> list_all2 (\<lambda>es ed'. \<forall>x \<in> set es. reports x ed') ess (ed_keys ks (multiline st) ed)"
  using assms
proof (induction ks arbitrary: st ed)
  case (Cons key ks)
  obtain k u p where key: "key = (k, u, p)" by (cases key)
  let ?ed = "if p then ed_key k u (multiline st) ed else ed"
  obtain st1 es where 1: "fwr_text_input_handle_key k u p st = Some (st1, es)" "holds st1 ?ed" "kept st st1"
    "\<forall>x \<in> set es. reports x ?ed"
    using handle_key_refines [OF Cons.prems] by blast
  have a: "ti_active st1" "multiline st1 = multiline st" using 1(3) Cons.prems(2) by (simp_all add: kept_def)
  obtain st2 ess where 2: "handle_keys ks st1 = Some (st2, ess)"
    "holds st2 (last (?ed # ed_keys ks (multiline st) ?ed))" "kept st1 st2"
    "list_all2 (\<lambda>es ed'. \<forall>x \<in> set es. reports x ed') ess (ed_keys ks (multiline st) ?ed)"
    using Cons.IH [OF 1(2) a(1)] unfolding a(2) by blast
  have "kept st st2" using 1(3) 2(3) by (simp add: kept_def)
  then show ?case using 1 2 unfolding key by (simp add: Let_def)
qed simp

abbreviation empty_field :: text_input_state where
  "empty_field \<equiv> fwr_text_input_init\<lparr>ti_active := True\<rparr>"

lemma empty_field_holds: "holds empty_field ([], 0, 0)"
proof -
  have "replicate TEXT_INPUT_MAX_LENGTH (0::byte) = 0 # replicate 8191 0"
    by (simp add: TEXT_INPUT_MAX_LENGTH_def flip: replicate_Suc)
  then show ?thesis by (intro holdsI [where junk = "replicate 8191 0"]) (simp_all add: fwr_text_input_init_def TEXT_INPUT_MAX_LENGTH_def)
qed

theorem typing_refines_editor_witness:
  "\<exists>st' ess. handle_keys [(OtherKey, 0x41, True), (Left, 0, True), (OtherKey, 0x42, True)] empty_field = Some (st', ess)
    \<and> holds st' ([0x42, 0x41], 1, 1)"
proof -
  have "last (([], 0, 0) # ed_keys [(OtherKey, 0x41, True), (Left, 0, True), (OtherKey, 0x42, True)]
      (multiline empty_field) ([], 0, 0)) = ([0x42, 0x41], 1, 1)"
    by (simp add: fwr_text_input_init_def utf8_encode_def TEXT_INPUT_MAX_LENGTH_def Let_def)
  then show ?thesis using typing_refines_editor
      [OF empty_field_holds, of "[(OtherKey, 0x41, True), (Left, 0, True), (OtherKey, 0x42, True)]"]
    by (auto simp del: handle_keys.simps ed_keys.simps)
qed

text \<open>
  Positions are bytes of the buffer, so BackSpace behind a character of two bytes leaves its
  first byte.
\<close>

lemma backspace_splits_character:
  assumes "holds st ([0xC3, 0xA9], 2, 2)" and "ti_active st"
  shows "\<exists>st' es. fwr_text_input_handle_key BackSpace 0 True st = Some (st', es) \<and> holds st' ([0xC3], 1, 1)"
  using handle_key_refines [OF assms, of BackSpace 0 True] by auto

text \<open>
  the selection that Flutter sends for a field without one, -1 to -1, is stored as it is, and
  typing a character then moves memory in front of the buffer.
\<close>

theorem unset_selection_breaks_typing:
  assumes "ti_active st" and "0x20 \<le> u" and "u \<noteq> 0x7F"
    and "text_length st + length (utf8_encode u) < TEXT_INPUT_MAX_LENGTH"
  shows "Option.bind (set_editing_state (JsonObject [(ascii ''selectionBase'', JsonNumber 0xBFF0000000000000),
      (ascii ''selectionExtent'', JsonNumber 0xBFF0000000000000)]) st)
    (fwr_text_input_handle_key OtherKey u True) = None"
proof -
  have f: "f64_to_i32 0xBFF0000000000000 = Some (-1)" by (simp add: f64_eval)
  have c: "cstr (ascii ''selectionBase'') = ascii ''selectionBase''"
    "cstr (ascii ''selectionExtent'') = ascii ''selectionExtent''"
    "ascii ''selectionExtent'' \<noteq> ascii ''selectionBase''"
    by (simp_all add: cstr_def ascii_def)
  let ?st = "st\<lparr>selection_base := -1, selection_extent := -1\<rparr>"
  have "set_editing_state (JsonObject [(ascii ''selectionBase'', JsonNumber 0xBFF0000000000000),
      (ascii ''selectionExtent'', JsonNumber 0xBFF0000000000000)]) st = Some ?st"
    by (simp add: set_editing_state_def editing_member_def c f)
  moreover have "insert_text (utf8_encode u) ?st = None"
    using assms(4) by (simp add: insert_text_def delete_selection_def memmove_def Let_def)
  ultimately show ?thesis using assms by (simp add: fwr_text_input_handle_key_def)
qed

theorem unset_selection_breaks_typing_witness:
  "Option.bind (set_editing_state (JsonObject [(ascii ''selectionBase'', JsonNumber 0xBFF0000000000000),
      (ascii ''selectionExtent'', JsonNumber 0xBFF0000000000000)]) empty_field)
    (fwr_text_input_handle_key OtherKey 0x41 True) = None"
  by (rule unset_selection_breaks_typing)
    (simp_all add: fwr_text_input_init_def TEXT_INPUT_MAX_LENGTH_def utf8_encode_def)

end
