(* ===== verification/PluginRegistry.thy ===== *)
theory PluginRegistry
  imports StdCodec
begin

text \<open>
  \<open>src/plugin_registry.c\<close>: the plugins and the channel handlers, in two arrays that double when
  they are full. An array is the list of its slots, \<open>None\<close> being a slot that is still zero from
  \<open>calloc\<close>, with the length the code keeps beside it; an access outside the allocation is
  \<open>None\<close>. The code does not look at the result of \<open>calloc\<close>, so allocation succeeds here. The
  functions stored in a handler are the parameter \<open>'h\<close>, the \<open>data\<close> pointers are \<open>'d\<close>.
\<close>

section \<open>Growing arrays\<close>

record 'a array =
  slots :: "'a option list"
  arr_len :: nat
  arr_cap :: nat

definition array_new :: "'a array" where
  "array_new = \<lparr>slots = replicate 8 None, arr_len = 0, arr_cap = 8\<rparr>"

text \<open>
  The growth block: the capacity doubles, a zeroed array is allocated and the first \<open>len\<close>
  slots are copied; \<open>None\<close> when the copy leaves one of the two arrays.
\<close>

definition array_grow :: "'a array \<Rightarrow> 'a array option" where
  "array_grow a =
     (if arr_len a \<ge> arr_cap a
      then let cap = arr_cap a * 2 in
           (if arr_len a \<le> length (slots a) \<and> arr_len a \<le> cap
            then Some (a\<lparr>arr_cap := cap, slots := take (arr_len a) (slots a) @ replicate (cap - arr_len a) None\<rparr>)
            else None)
      else Some a)"

text \<open>Taking the next slot and filling it.\<close>

definition array_push :: "'a array \<Rightarrow> 'a \<Rightarrow> 'a array option" where
  "array_push a x =
     Option.bind (array_grow a) (\<lambda>a1.
       let i = arr_len a1 in
       if i < length (slots a1) then Some (a1\<lparr>arr_len := i + 1, slots := (slots a1)[i := Some x]\<rparr>)
       else None)"

text \<open>
  The loop of the two \<open>find_idx\<close> functions from index \<open>i\<close> on, with \<open>n\<close> elements to go. It
  returns the index as \<open>size_t\<close>, \<open>-1\<close> when there is none.
\<close>

fun find_idx_from :: "nat \<Rightarrow> nat \<Rightarrow> ('a \<Rightarrow> int) \<Rightarrow> int \<Rightarrow> 'a option list \<Rightarrow> u64 option" where
  "find_idx_from 0 i key wanted xs = Some (- 1)"
| "find_idx_from (Suc n) i key wanted xs =
     (if i < length xs then
        (case xs ! i of
           None \<Rightarrow> if wanted = 0 then Some (word_of_nat i) else find_idx_from n (i + 1) key wanted xs
         | Some x \<Rightarrow> if key x = wanted then Some (word_of_nat i) else find_idx_from n (i + 1) key wanted xs)
      else None)"

definition array_find :: "('a \<Rightarrow> int) \<Rightarrow> int \<Rightarrow> 'a array \<Rightarrow> u64 option" where
  "array_find key wanted a = find_idx_from (arr_len a) 0 key wanted (slots a)"

definition array_ok :: "'a array \<Rightarrow> bool" where
  "array_ok a \<longleftrightarrow> length (slots a) = arr_cap a \<and> arr_len a \<le> arr_cap a \<and> 0 < arr_cap a
     \<and> (\<forall>i < arr_len a. slots a ! i \<noteq> None)"

definition array_list :: "'a array \<Rightarrow> 'a list" where
  "array_list a = map the (take (arr_len a) (slots a))"

lemma array_new_ok [simp]: "array_ok array_new" "array_list array_new = []"
  by (simp_all add: array_ok_def array_new_def array_list_def)

lemma array_grow_ok:
  assumes "array_ok a"
  shows "\<exists>a1. array_grow a = Some a1 \<and> array_ok a1 \<and> arr_len a1 = arr_len a
    \<and> take (arr_len a) (slots a1) = take (arr_len a) (slots a) \<and> arr_len a < arr_cap a1"
  using assms by (auto simp: array_grow_def array_ok_def Let_def nth_append)

text \<open>Pushing on a well-formed array never leaves it and appends one element.\<close>

lemma array_push_ok:
  assumes "array_ok a"
  shows "\<exists>a'. array_push a x = Some a' \<and> array_ok a' \<and> array_list a' = array_list a @ [x]"
proof -
  obtain a1 where g: "array_grow a = Some a1" and ok: "array_ok a1" and l: "arr_len a1 = arr_len a"
    and t: "take (arr_len a) (slots a1) = take (arr_len a) (slots a)" and c: "arr_len a < arr_cap a1"
    using array_grow_ok [OF assms] by blast
  let ?a = "a1\<lparr>arr_len := arr_len a + 1, slots := (slots a1)[arr_len a := Some x]\<rparr>"
  have i: "arr_len a < length (slots a1)" using ok c by (simp add: array_ok_def)
  have "array_push a x = Some ?a" using g i l by (simp add: array_push_def Let_def)
  moreover have "array_ok ?a"
    using ok c l by (auto simp: array_ok_def nth_list_update less_Suc_eq)
  moreover have "array_list ?a = array_list a @ [x]"
    using i t by (simp add: array_list_def take_Suc_conv_app_nth take_update_cancel)
  ultimately show ?thesis by blast
qed

section \<open>The registry\<close>

record ('d, 'v) fwr_plugin =
  plugin_id :: int
  plugin_data :: 'd
  vtable :: 'v

record ('d, 'h) fwr_plugin_channel_handler =
  handler_id :: int
  handler_name :: "byte list"
  handler_data :: 'd
  handle_message :: 'h

record ('d, 'v, 'h) fwr_plugin_registry =
  next_id :: int
  plugins :: "('d, 'v) fwr_plugin array"
  plugin_channel_handlers :: "('d, 'h) fwr_plugin_channel_handler array"

definition fwr_plugin_registry_init :: "('d, 'v, 'h) fwr_plugin_registry" where
  "fwr_plugin_registry_init =
     \<lparr>next_id = 0, plugins = array_new, plugin_channel_handlers = array_new\<rparr>"

definition plugin_find_idx :: "('d, 'v, 'h) fwr_plugin_registry \<Rightarrow> int \<Rightarrow> u64 option" where
  "plugin_find_idx r i = array_find plugin_id i (plugins r)"

definition channel_handler_find_idx :: "('d, 'v, 'h) fwr_plugin_registry \<Rightarrow> int \<Rightarrow> u64 option" where
  "channel_handler_find_idx r i = array_find handler_id i (plugin_channel_handlers r)"

text \<open>\<open>next_id++\<close> on an \<open>int\<close>: \<open>None\<close> when it overflows.\<close>

definition take_id :: "('d, 'v, 'h) fwr_plugin_registry \<Rightarrow> (int \<times> ('d, 'v, 'h) fwr_plugin_registry) option" where
  "take_id r = (if next_id r + 1 < 2 ^ 31 then Some (next_id r, r\<lparr>next_id := next_id r + 1\<rparr>) else None)"

definition fwr_plugin_registry_register ::
    "'v \<Rightarrow> 'd \<Rightarrow> ('d, 'v, 'h) fwr_plugin_registry \<Rightarrow> (int \<times> ('d, 'v, 'h) fwr_plugin_registry) option" where
  "fwr_plugin_registry_register vt d r =
     Option.bind (take_id r) (\<lambda>(i, r1).
       map_option (\<lambda>ps. (i, r1\<lparr>plugins := ps\<rparr>))
         (array_push (plugins r1) \<lparr>plugin_id = i, plugin_data = d, vtable = vt\<rparr>))"

text \<open>Both unregister functions look the id up and stop at a TODO.\<close>

definition fwr_plugin_registry_unregister ::
    "int \<Rightarrow> ('d, 'v, 'h) fwr_plugin_registry \<Rightarrow> ('d, 'v, 'h) fwr_plugin_registry option" where
  "fwr_plugin_registry_unregister i r = map_option (\<lambda>_. r) (plugin_find_idx r i)"

text \<open>The name is copied up to its terminator.\<close>

definition fwr_plugin_registry_channel_handler_register ::
    "byte list \<Rightarrow> 'd \<Rightarrow> 'h \<Rightarrow> ('d, 'v, 'h) fwr_plugin_registry \<Rightarrow> (int \<times> ('d, 'v, 'h) fwr_plugin_registry) option" where
  "fwr_plugin_registry_channel_handler_register channel_name d h r =
     Option.bind (take_id r) (\<lambda>(i, r1).
       map_option (\<lambda>hs. (i, r1\<lparr>plugin_channel_handlers := hs\<rparr>))
         (array_push (plugin_channel_handlers r1)
            \<lparr>handler_id = i, handler_name = cstr channel_name, handler_data = d, handle_message = h\<rparr>))"

definition fwr_plugin_registry_channel_handler_unregister ::
    "int \<Rightarrow> ('d, 'v, 'h) fwr_plugin_registry \<Rightarrow> ('d, 'v, 'h) fwr_plugin_registry option" where
  "fwr_plugin_registry_channel_handler_unregister i r = map_option (\<lambda>_. r) (channel_handler_find_idx r i)"

text \<open>
  \<open>fwr_message_send_response\<close>: the answer of the engine's \<open>SendPlatformMessageResponse\<close>
  (\<open>kSuccess\<close> or not) as a boolean.
\<close>

definition fwr_message_send_response :: "('r \<Rightarrow> bool) \<Rightarrow> 'r \<Rightarrow> bool" where
  "fwr_message_send_response send_ok response = (if send_ok response then True else False)"

section \<open>Well-formedness\<close>

definition registry_handlers :: "('d, 'v, 'h) fwr_plugin_registry \<Rightarrow> ('d, 'h) fwr_plugin_channel_handler list" where
  "registry_handlers r = array_list (plugin_channel_handlers r)"

definition registry_plugins :: "('d, 'v, 'h) fwr_plugin_registry \<Rightarrow> ('d, 'v) fwr_plugin list" where
  "registry_plugins r = array_list (plugins r)"

text \<open>
  A registry is well typed when both arrays are, and the identifiers, which the two kinds share,
  are distinct and below \<open>next_id\<close>.
\<close>

definition registry_ok :: "('d, 'v, 'h) fwr_plugin_registry \<Rightarrow> bool" where
  "registry_ok r \<longleftrightarrow> array_ok (plugins r) \<and> array_ok (plugin_channel_handlers r) \<and> 0 \<le> next_id r
     \<and> distinct (map plugin_id (registry_plugins r) @ map handler_id (registry_handlers r))
     \<and> (\<forall>i \<in> set (map plugin_id (registry_plugins r) @ map handler_id (registry_handlers r)). 0 \<le> i \<and> i < next_id r)"

text \<open>The calls a client can make, and their sequences.\<close>

datatype ('d, 'v, 'h) registry_call =
    Register 'v 'd
  | Unregister int
  | HandlerRegister "byte list" 'd 'h
  | HandlerUnregister int

fun registry_step :: "('d, 'v, 'h) registry_call \<Rightarrow> ('d, 'v, 'h) fwr_plugin_registry \<Rightarrow> ('d, 'v, 'h) fwr_plugin_registry option" where
  "registry_step (Register vt d) r = map_option snd (fwr_plugin_registry_register vt d r)"
| "registry_step (Unregister i) r = fwr_plugin_registry_unregister i r"
| "registry_step (HandlerRegister n d h) r = map_option snd (fwr_plugin_registry_channel_handler_register n d h r)"
| "registry_step (HandlerUnregister i) r = fwr_plugin_registry_channel_handler_unregister i r"

fun registry_run :: "('d, 'v, 'h) registry_call list \<Rightarrow> ('d, 'v, 'h) fwr_plugin_registry \<Rightarrow> ('d, 'v, 'h) fwr_plugin_registry option" where
  "registry_run [] r = Some r"
| "registry_run (c # cs) r = Option.bind (registry_step c r) (registry_run cs)"

text \<open>The channel handlers that a sequence of calls registers, in order.\<close>

fun registered :: "('d, 'v, 'h) registry_call list \<Rightarrow> (byte list \<times> 'd \<times> 'h) list" where
  "registered [] = []"
| "registered (HandlerRegister n d h # cs) = (cstr n, d, h) # registered cs"
| "registered (_ # cs) = registered cs"

lemma find_idx_from_total:
  "i + n \<le> length xs \<Longrightarrow> find_idx_from n i key wanted xs \<noteq> None"
  by (induction n i key wanted xs rule: find_idx_from.induct) (auto split: option.split)

lemma array_find_total: "array_ok a \<Longrightarrow> array_find key wanted a \<noteq> None"
  unfolding array_find_def by (rule find_idx_from_total) (simp add: array_ok_def)

lemma take_id_ok: "next_id r < 2 ^ 31 - 1 \<Longrightarrow> take_id r = Some (next_id r, r\<lparr>next_id := next_id r + 1\<rparr>)"
  by (simp add: take_id_def)

lemmas registry_simps = registry_ok_def registry_handlers_def registry_plugins_def

lemma registry_step_ok:
  assumes "registry_ok r" and "next_id r < 2 ^ 31 - 1"
  shows "\<exists>r'. registry_step c r = Some r' \<and> registry_ok r' \<and> next_id r' \<le> next_id r + 1
    \<and> map (\<lambda>h. (handler_name h, handler_data h, handle_message h)) (registry_handlers r')
      = map (\<lambda>h. (handler_name h, handler_data h, handle_message h)) (registry_handlers r) @ registered [c]"
proof -
  note id = take_id_ok [OF assms(2)]
  have arr: "array_ok (plugins r)" "array_ok (plugin_channel_handlers r)" using assms(1) by (simp_all add: registry_ok_def)
  show ?thesis
  proof (cases c)
    case (Register vt d)
    obtain ps where "array_push (plugins r) \<lparr>plugin_id = next_id r, plugin_data = d, vtable = vt\<rparr> = Some ps"
      "array_ok ps" "array_list ps = array_list (plugins r) @ [\<lparr>plugin_id = next_id r, plugin_data = d, vtable = vt\<rparr>]"
      using array_push_ok [OF arr(1)] by blast
    then show ?thesis using assms(1) Register id
      by (intro exI [of _ "r\<lparr>next_id := next_id r + 1, plugins := ps\<rparr>"])
        (auto simp: fwr_plugin_registry_register_def registry_simps intro: order.strict_implies_order)
  next
    case (Unregister i)
    then show ?thesis using assms(1) array_find_total [OF arr(1), of plugin_id i]
      by (auto simp: fwr_plugin_registry_unregister_def plugin_find_idx_def)
  next
    case (HandlerRegister n d h)
    obtain hs where "array_push (plugin_channel_handlers r)
        \<lparr>handler_id = next_id r, handler_name = cstr n, handler_data = d, handle_message = h\<rparr> = Some hs"
      "array_ok hs" "array_list hs = array_list (plugin_channel_handlers r)
        @ [\<lparr>handler_id = next_id r, handler_name = cstr n, handler_data = d, handle_message = h\<rparr>]"
      using array_push_ok [OF arr(2)] by blast
    then show ?thesis using assms(1) HandlerRegister id
      by (intro exI [of _ "r\<lparr>next_id := next_id r + 1, plugin_channel_handlers := hs\<rparr>"])
        (auto simp: fwr_plugin_registry_channel_handler_register_def registry_simps
          intro: order.strict_implies_order)
  next
    case (HandlerUnregister i)
    then show ?thesis using assms(1) array_find_total [OF arr(2), of handler_id i]
      by (auto simp: fwr_plugin_registry_channel_handler_unregister_def channel_handler_find_idx_def)
  qed
qed

lemma registry_init_ok [simp]: "registry_ok fwr_plugin_registry_init" "registry_handlers fwr_plugin_registry_init = []"
  by (simp_all add: fwr_plugin_registry_init_def registry_simps)

lemma registered_cons: "registered (c # cs) = registered [c] @ registered cs"
  by (cases c) simp_all

lemma registry_run_ok:
  assumes "registry_ok r" and "next_id r + int (length cs) < 2 ^ 31"
  shows "\<exists>r'. registry_run cs r = Some r' \<and> registry_ok r'
    \<and> map (\<lambda>h. (handler_name h, handler_data h, handle_message h)) (registry_handlers r')
      = map (\<lambda>h. (handler_name h, handler_data h, handle_message h)) (registry_handlers r) @ registered cs"
  using assms
proof (induction cs arbitrary: r)
  case (Cons c cs)
  have "next_id r < 2 ^ 31 - 1" using Cons.prems(2) by simp
  from registry_step_ok [OF Cons.prems(1) this, of c] obtain r1 where 1: "registry_step c r = Some r1" "registry_ok r1"
    "next_id r1 \<le> next_id r + 1"
    "map (\<lambda>h. (handler_name h, handler_data h, handle_message h)) (registry_handlers r1)
      = map (\<lambda>h. (handler_name h, handler_data h, handle_message h)) (registry_handlers r) @ registered [c]" by blast
  have "next_id r1 + int (length cs) < 2 ^ 31" using 1(3) Cons.prems(2) by simp
  from Cons.IH [OF 1(2) this] 1 show ?case by (auto simp: registered_cons [of c cs])
qed simp

text \<open>
  C24: starting from a fresh registry, no sequence of fewer than 2^31 calls leaves its arrays, however
  often they grow; the registry stays well typed, identifiers are never given twice, and the
  handlers are those registered, in the order of registration.
\<close>

theorem registry_stays_well_typed:
  fixes cs :: "('d, 'v, 'h) registry_call list"
  assumes "length cs < 2 ^ 31"
  shows "\<exists>r. registry_run cs fwr_plugin_registry_init = Some r \<and> registry_ok r
    \<and> map (\<lambda>h. (handler_name h, handler_data h, handle_message h)) (registry_handlers r) = registered cs"
proof -
  have "next_id (fwr_plugin_registry_init :: ('d, 'v, 'h) fwr_plugin_registry) + int (length cs) < 2 ^ 31"
    using assms by (simp add: fwr_plugin_registry_init_def)
  from registry_run_ok [OF registry_init_ok(1) this] show ?thesis by simp
qed

theorem registry_stays_well_typed_witness:
  "\<exists>r. registry_run (replicate 9 (HandlerRegister [97] (5::nat) True :: (nat, unit, bool) registry_call))
      fwr_plugin_registry_init = Some r \<and> registry_ok r
    \<and> map (\<lambda>h. (handler_name h, handler_data h, handle_message h)) (registry_handlers r) = replicate 9 ([97], 5, True)"
proof -
  let ?c = "HandlerRegister [97] (5::nat) True :: (nat, unit, bool) registry_call"
  have "registered (replicate n ?c) = replicate n ([97], 5, True)" for n
    by (induction n) simp_all
  with registry_stays_well_typed [of "replicate 9 ?c"] show ?thesis by simp
qed

text \<open>Unregistering a handler changes nothing: it still receives the messages of its channel.\<close>

lemma unregister_keeps_handler:
  "fwr_plugin_registry_channel_handler_unregister i r = Some r' \<Longrightarrow> r' = r"
  by (auto simp: fwr_plugin_registry_channel_handler_unregister_def)

end
