(* ===== verification/Instance.thy ===== *)
theory Instance
  imports HandleMap MessageBuilder PlatformChannel PluginRegistry Doubles
begin

text \<open>
  The data of \<open>include/instance.h\<close> and \<open>include/input.h\<close> that the event handlers share, the calls
  they make on the Flutter engine and on wlroots, and what they read from wlroots.

  Objects that this program allocates are named by addresses (\<open>ptr\<close>) and kept in stores; an
  address that is not in its store was never allocated or has been freed, and using it is
  \<open>None\<close>. Objects of wlroots are opaque references (\<open>wref\<close>). A C \<open>int\<close> is an \<open>int\<close> in its range,
  a \<open>double\<close> its bits.
\<close>

type_synonym ptr = nat
type_synonym wref = nat

section \<open>Arithmetic on \<open>int\<close>\<close>

text \<open>Signed overflow is \<open>None\<close>.\<close>

definition in_i32 :: "int \<Rightarrow> bool" where "in_i32 i \<longleftrightarrow> - (2 ^ 31) \<le> i \<and> i < 2 ^ 31"

definition i32 :: "int \<Rightarrow> int option" where "i32 i = (if in_i32 i then Some i else None)"

text \<open>An \<open>int\<close> or \<open>uint32_t\<close> as the \<open>int64_t\<close> argument of a message.\<close>

definition i64 :: "int \<Rightarrow> u64" where "i64 i = word_of_int i"

definition u32_i64 :: "u32 \<Rightarrow> u64" where "u32_i64 w = ucast w"

section \<open>Data\<close>

record wlr_box =
  box_x :: int
  box_y :: int
  box_width :: int
  box_height :: int

record output_mode =
  om_width :: int
  om_height :: int
  om_refresh :: int

record fwr_output =
  out_id :: u32
  out_wlr :: wref
  scene_output :: "wref option"
  layout_output :: "wref option"

record fwr_view =
  v_handle :: u32
  v_toplevel :: wref
  v_xdg_surface :: wref
  v_x :: int
  v_y :: int
  v_width :: int
  v_height :: int
  v_current_output :: "ptr option"
  v_output_scale :: u64
  geo_x :: int
  geo_y :: int
  v_maximized :: bool
  v_fullscreen :: bool
  v_activated :: bool
  uses_ssd :: bool
  v_texture_id :: int
  v_texture_registered :: bool
  v_subsurfaces :: "ptr list"
  v_scene_tree :: "wref option"
  v_scene_xdg_tree :: "wref option"
  resize_in_progress :: bool
  pending_width :: int
  pending_height :: int
  resize_request_id :: u64

record fwr_subsurface =
  s_handle :: u32
  s_parent_view :: ptr
  s_wlr_subsurface :: wref
  s_surface :: wref
  s_x :: int
  s_y :: int
  s_width :: int
  s_height :: int
  s_current_output :: "ptr option"
  s_output_scale :: u64
  s_texture_id :: int
  s_texture_registered :: bool

record fwr_popup =
  p_handle :: u32
  p_xdg_popup :: wref
  p_xdg_surface :: wref
  p_parent_view :: ptr
  parent_view_handle :: u32
  p_x :: int
  p_y :: int
  p_width :: int
  p_height :: int
  p_current_output :: "ptr option"
  p_output_scale :: u64
  p_scene_tree :: "wref option"
  p_texture_id :: int
  p_texture_registered :: bool
  unconstrained :: bool

datatype fwr_grab_type = FWR_GRAB_NONE | FWR_GRAB_MOVE | FWR_GRAB_RESIZE

record fwr_grab_state =
  grab_type :: fwr_grab_type
  grab_view_handle :: u32
  start_cursor_x :: u64
  start_cursor_y :: u64
  start_view_x :: int
  start_view_y :: int
  start_view_width :: int
  start_view_height :: int
  resize_edges :: u32

record fwr_scroll_cache =
  sc_delta :: u64
  sc_delta_discrete :: int
  sc_source :: u32
  sc_relative_direction :: u32
  sc_orientation :: u32
  sc_time_msec :: u32
  sc_valid :: bool

record fwr_button_cache =
  bc_time_msec :: u32
  bc_valid :: bool

record surface_button_state =
  sb_surface_handle :: u32
  sb_buttons :: u64
  sb_active :: bool

record fwr_input_state =
  fl_mouse_button_mask :: u32
  flutter_cursor_x :: u64
  flutter_cursor_y :: u64
  last_scroll_x :: fwr_scroll_cache
  last_scroll_y :: fwr_scroll_cache
  last_button :: fwr_button_cache
  grab :: fwr_grab_state

text \<open>The channel handlers this program registers.\<close>

datatype handler_fn = text_input_handler | cursor_handler

text \<open>
  The instance, with the objects it owns: \<open>outputs\<close>, \<open>views_list\<close> in the order of their lists,
  the static array of button states and the text input state, which are globals. \<open>cursor_x\<close> and
  \<open>cursor_y\<close> are the position of the wlroots cursor.
\<close>

record fwr_instance =
  engine :: bool
  output_store :: "ptr \<Rightarrow> fwr_output option"
  view_store :: "ptr \<Rightarrow> fwr_view option"
  subsurface_store :: "ptr \<Rightarrow> fwr_subsurface option"
  popup_store :: "ptr \<Rightarrow> fwr_popup option"
  views :: "ptr handle_map"
  subsurfaces :: "ptr handle_map"
  popups :: "ptr handle_map"
  views_list :: "ptr list"
  current_focused_view :: u32
  cursor_x :: u64
  cursor_y :: u64
  current_xcursor_name :: "byte list option"
  client_cursor_surface :: "wref option"
  client_cursor_hotspot_x :: int
  client_cursor_hotspot_y :: int
  input :: fwr_input_state
  direct_input_mode :: bool
  direct_input_surface :: u32
  outputs :: "ptr list"
  vsync_output :: "ptr option"
  next_output_id :: u32
  vsync_rate_limit :: int
  vsync_baton :: int
  plugin_registry :: "(unit, unit, handler_fn) fwr_plugin_registry"
  surface_button_states :: "surface_button_state list"
  xdg_data :: "wref \<Rightarrow> ptr option"
  wl_socket :: "byte list"

section \<open>What handlers read\<close>

text \<open>
  The state of wlroots and of the engine as a handler finds it. A handler reads each of these
  once, or several times with no call in between that changes it, so a value stands for what the
  code reads at the place where it reads it: \<open>e_current_mode\<close> and \<open>e_layout_box\<close> after a commit
  of the same handler, \<open>e_preferred_mode\<close> before it. \<open>e_calloc\<close> is the address of the next
  allocation, \<open>e_commit_ok\<close> the answer of \<open>wlr_output_commit_state\<close>, \<open>e_register_ok\<close> that of
  \<open>RegisterExternalTexture\<close>.
\<close>

record wlr_env =
  e_calloc :: ptr
  e_platch :: platch_env
  e_time :: u64
  e_register_ok :: bool
  e_commit_ok :: bool
  e_current_mode :: "wref \<Rightarrow> output_mode option"
  e_preferred_mode :: "wref \<Rightarrow> output_mode option"
  e_modes :: "wref \<Rightarrow> output_mode list"
  e_output_width :: "wref \<Rightarrow> int"
  e_output_height :: "wref \<Rightarrow> int"
  e_output_scale :: "wref \<Rightarrow> u64"
  e_output_transform :: "wref \<Rightarrow> int"
  e_output_name :: "wref \<Rightarrow> byte list option"
  e_output_make :: "wref \<Rightarrow> byte list option"
  e_output_model :: "wref \<Rightarrow> byte list option"
  e_layout_box :: "wref option \<Rightarrow> wlr_box"
  e_layout_at :: "u64 \<Rightarrow> u64 \<Rightarrow> wref option"
  e_scene_output_create :: "wref option"
  e_layout_add_auto :: "wref option"
  e_scene :: bool
  e_scene_create :: "wref option"
  e_scene_xdg_create :: "wref option"
  e_scene_enabled :: "wref \<Rightarrow> bool"
  e_surface :: "wref \<Rightarrow> wref option"
  e_is_toplevel :: "wref \<Rightarrow> bool"
  e_xdg_surface_of :: "wref \<Rightarrow> wref option"
  e_toplevel_of :: "wref \<Rightarrow> wref"
  e_geometry :: "wref \<Rightarrow> wlr_box"
  e_surface_width :: "wref \<Rightarrow> int"
  e_surface_height :: "wref \<Rightarrow> int"
  e_mapped :: "wref \<Rightarrow> bool"
  e_title :: "wref \<Rightarrow> byte list option"
  e_app_id :: "wref \<Rightarrow> byte list option"
  e_pid :: "wref \<Rightarrow> int"
  e_uid :: "wref \<Rightarrow> u32"
  e_gid :: "wref \<Rightarrow> u32"
  e_surface_at :: "wref \<Rightarrow> u64 \<Rightarrow> u64 \<Rightarrow> (wref \<times> u64 \<times> u64) option"
  e_focused_surface :: "wref option"
  e_keyboard :: "wref option"
  e_popup_grab :: bool

section \<open>What handlers do\<close>

record pointer_event =
  pv_phase :: nat
  pv_x :: u64
  pv_y :: u64
  pv_device :: int
  pv_signal_kind :: nat
  pv_scroll_delta_x :: u64
  pv_scroll_delta_y :: u64
  pv_device_kind :: nat
  pv_buttons :: u64

text \<open>
  Calls on the engine, on wlroots and on the library functions. \<open>Respond\<close> is
  \<open>SendPlatformMessageResponse\<close> with the handle of the message being handled; \<open>Platch\<close> is a
  call made by \<open>platform_channel.c\<close>; \<open>Message\<close> is \<open>SendPlatformMessage\<close> on the channel
  \<open>wlroots\<close> with or without a response handle.
\<close>

datatype output_change = ChangeMode output_mode | ChangeScale u64 | ChangeInitial "output_mode option" u64 | ChangeRequested

datatype engine_call =
    CreateHandle
  | Message "byte option list" bool
  | ReleaseHandle
  | WindowMetrics int int
  | OnVsync int u64 u64
  | Pointer pointer_event
  | RegisterTexture int
  | UnregisterTexture int
  | MarkFrameAvailable int

datatype output_call =
    InitRender wref
  | CommitState wref output_change
  | ScheduleFrame wref
  | LayoutAdd wref int int
  | LayoutAddAuto wref
  | SceneLayoutAddOutput wref wref
  | SceneOutputDestroy wref

datatype scene_call =
    TreeCreate
  | XdgCreate wref wref
  | SetPosition wref int int
  | SetEnabled wref bool
  | RaiseToTop wref
  | DestroyNode wref

datatype toplevel_call =
    SetSize int int
  | SetMaximized bool
  | SetActivated bool
  | SetResizing bool
  | SendClose

datatype seat_call =
    PointerEnter wref u64 u64
  | PointerMotion u32 u64 u64
  | PointerButton u32 u32 bool
  | PointerAxis u32 fwr_scroll_cache
  | PointerFrame
  | PointerClearFocus
  | KeyboardEnter "wref option" "wref option"
  | KeyboardKey u32 u32 bool
  | KeyboardModifiers wref
  | KeyboardClearFocus
  | SetKeyboard wref

datatype effect =
    Respond "byte list"
  | Platch send_call
  | Engine engine_call
  | Output output_call
  | Scene scene_call
  | Toplevel wref toplevel_call
  | Seat seat_call
  | DestroyCachedTexture ptr
  | UnconstrainPopup wref wlr_box
  | CursorSetXcursor "byte list"
  | CursorSetSurface "wref option" int int

text \<open>A handler gives the new instance and its calls in order, or \<open>None\<close>.\<close>

type_synonym outcome = "(fwr_instance \<times> effect list) option"

definition method_call_null_success :: "byte list" where "method_call_null_success = [0, 0]"

abbreviation respond_success :: effect where "respond_success \<equiv> Respond method_call_null_success"
abbreviation respond_failure :: effect where "respond_failure \<equiv> Respond []"

text \<open>The responses among the calls of a handler.\<close>

fun is_response :: "effect \<Rightarrow> bool" where
  "is_response (Respond _) = True"
| "is_response (Platch (SendPlatformMessageResponse _)) = True"
| "is_response _ = False"

definition responses :: "effect list \<Rightarrow> nat" where
  "responses es = length (List.filter is_response es)"

lemma responses_simps [simp]:
  "responses [] = 0" "responses (e # es) = (if is_response e then 1 else 0) + responses es"
  "responses (es @ es') = responses es + responses es'"
  by (simp_all add: responses_def)

section \<open>Stores\<close>

definition set_view :: "ptr \<Rightarrow> fwr_view \<Rightarrow> fwr_instance \<Rightarrow> fwr_instance" where
  "set_view p v st = st\<lparr>view_store := (view_store st)(p \<mapsto> v)\<rparr>"

definition set_popup :: "ptr \<Rightarrow> fwr_popup \<Rightarrow> fwr_instance \<Rightarrow> fwr_instance" where
  "set_popup p v st = st\<lparr>popup_store := (popup_store st)(p \<mapsto> v)\<rparr>"

definition set_subsurface :: "ptr \<Rightarrow> fwr_subsurface \<Rightarrow> fwr_instance \<Rightarrow> fwr_instance" where
  "set_subsurface p v st = st\<lparr>subsurface_store := (subsurface_store st)(p \<mapsto> v)\<rparr>"

text \<open>\<open>handle_map_get(instance->views, h, &view)\<close> with the view it points to.\<close>

datatype 'a lookup = NotFound | Dangling | Found ptr 'a

definition get_view :: "fwr_instance \<Rightarrow> u32 \<Rightarrow> fwr_view lookup" where
  "get_view st h =
     (case handle_map_get (views st) h of
        None \<Rightarrow> NotFound
      | Some p \<Rightarrow> (case view_store st p of None \<Rightarrow> Dangling | Some v \<Rightarrow> Found p v))"

definition get_popup :: "fwr_instance \<Rightarrow> u32 \<Rightarrow> fwr_popup lookup" where
  "get_popup st h =
     (case handle_map_get (popups st) h of
        None \<Rightarrow> NotFound
      | Some p \<Rightarrow> (case popup_store st p of None \<Rightarrow> Dangling | Some v \<Rightarrow> Found p v))"

definition get_subsurface :: "fwr_instance \<Rightarrow> u32 \<Rightarrow> fwr_subsurface lookup" where
  "get_subsurface st h =
     (case handle_map_get (subsurfaces st) h of
        None \<Rightarrow> NotFound
      | Some p \<Rightarrow> (case subsurface_store st p of None \<Rightarrow> Dangling | Some v \<Rightarrow> Found p v))"

section \<open>Messages to Dart\<close>

text \<open>
  Every sender builds a method call with a map of a literal size, creates a response handle,
  sends and releases the handle. \<open>send_message_no_handle\<close> is the form of \<open>input.c\<close>, which sends
  without a handle.
\<close>

definition map_message :: "string \<Rightarrow> nat \<Rightarrow> (string \<times> bval) list \<Rightarrow> byte option list" where
  "map_message name n flds =
     message_builder_finish (method_call (ascii name) (push_map_arg n (map (\<lambda>(k, v). (ascii k, v)) flds)))"

definition send_message :: "string \<Rightarrow> nat \<Rightarrow> (string \<times> bval) list \<Rightarrow> effect list" where
  "send_message name n flds =
     [Engine CreateHandle, Engine (Message (map_message name n flds) True), Engine ReleaseHandle]"

definition send_message_no_handle :: "string \<Rightarrow> nat \<Rightarrow> (string \<times> bval) list \<Rightarrow> effect list" where
  "send_message_no_handle name n flds = [Engine (Message (map_message name n flds) False)]"

definition c_string :: "byte list option \<Rightarrow> bval" where
  "c_string s = BString (case s of None \<Rightarrow> [] | Some s \<Rightarrow> cstr s)"

definition bint :: "int \<Rightarrow> bval" where "bint i = BInt64 (i64 i)"
definition bhandle :: "u32 \<Rightarrow> bval" where "bhandle h = BInt64 (u32_i64 h)"
definition bflag :: "bool \<Rightarrow> bval" where "bflag b = BInt64 (if b then 1 else 0)"

lemma responses_send [simp]:
  "responses (send_message name n flds) = 0" "responses (send_message_no_handle name n flds) = 0"
  by (simp_all add: send_message_def send_message_no_handle_def)

end
