(* ===== verification/Outputs.thy ===== *)
theory Outputs
  imports Instance "HOL-Library.Multiset"
begin

text \<open>
  \<open>src/output.c\<close>: the list of monitors, the choice of the one that drives Flutter's frames, the
  baton of the engine's vsync request, mode, position and scale of a monitor, and the messages
  about monitors. Of \<open>output_frame\<close> the part before the render pass is modelled. A handler is
  called with the address of its \<open>fwr_output\<close>.
\<close>

section \<open>Choosing the vsync output\<close>

definition get_output_refresh :: "wlr_env \<Rightarrow> wref \<Rightarrow> int" where
  "get_output_refresh env w = (case e_current_mode env w of Some m \<Rightarrow> om_refresh m | None \<Rightarrow> 60000)"

fun highest_loop :: "wlr_env \<Rightarrow> (ptr \<Rightarrow> fwr_output option) \<Rightarrow> ptr list \<Rightarrow> ptr option \<Rightarrow> int \<Rightarrow> ptr option option" where
  "highest_loop env store [] best best_refresh = Some best"
| "highest_loop env store (p # ps) best best_refresh =
     (case store p of
        None \<Rightarrow> None
      | Some out \<Rightarrow>
          let refresh = get_output_refresh env (out_wlr out)
          in if refresh > best_refresh then highest_loop env store ps (Some p) refresh
             else highest_loop env store ps best best_refresh)"

definition fwr_select_highest_refresh_output :: "wlr_env \<Rightarrow> fwr_instance \<Rightarrow> fwr_instance option" where
  "fwr_select_highest_refresh_output env st =
     map_option (\<lambda>best. st\<lparr>vsync_output := best\<rparr>) (highest_loop env (output_store st) (outputs st) None 0)"

text \<open>\<open>find_output_by_id\<close>; the outer option is the access to the list.\<close>

fun find_output_by_id :: "(ptr \<Rightarrow> fwr_output option) \<Rightarrow> u32 \<Rightarrow> ptr list \<Rightarrow> (ptr \<times> fwr_output) option option" where
  "find_output_by_id store i [] = Some None"
| "find_output_by_id store i (p # ps) =
     (case store p of
        None \<Rightarrow> None
      | Some out \<Rightarrow> if out_id out = i then Some (Some (p, out)) else find_output_by_id store i ps)"

definition fwr_set_vsync_output :: "wlr_env \<Rightarrow> u32 \<Rightarrow> fwr_instance \<Rightarrow> fwr_instance option" where
  "fwr_set_vsync_output env i st =
     (if i = 0 then fwr_select_highest_refresh_output env st
      else case find_output_by_id (output_store st) i (outputs st) of
        None \<Rightarrow> None
      | Some (Some (p, out)) \<Rightarrow> Some (st\<lparr>vsync_output := Some p\<rparr>)
      | Some None \<Rightarrow> fwr_select_highest_refresh_output env st)"

definition fwr_set_vsync_rate_limit :: "int \<Rightarrow> fwr_instance \<Rightarrow> fwr_instance" where
  "fwr_set_vsync_rate_limit max_hz st = st\<lparr>vsync_rate_limit := max_hz\<rparr>"

section \<open>Outputs by position\<close>

definition fwr_get_first_output :: "fwr_instance \<Rightarrow> ptr option" where
  "fwr_get_first_output st = (case outputs st of [] \<Rightarrow> None | p # _ \<Rightarrow> Some p)"

fun find_output_by_wlr :: "(ptr \<Rightarrow> fwr_output option) \<Rightarrow> wref \<Rightarrow> ptr list \<Rightarrow> ptr option option" where
  "find_output_by_wlr store w [] = Some None"
| "find_output_by_wlr store w (p # ps) =
     (case store p of
        None \<Rightarrow> None
      | Some out \<Rightarrow> if out_wlr out = w then Some (Some p) else find_output_by_wlr store w ps)"

definition box_center :: "int \<Rightarrow> int \<Rightarrow> u64" where
  "box_center x width = f64_add (f64_of_int x) (f64_div (f64_of_int width) (f64_of_int 2))"

definition fwr_output_for_box :: "wlr_env \<Rightarrow> fwr_instance \<Rightarrow> int \<Rightarrow> int \<Rightarrow> int \<Rightarrow> int \<Rightarrow> ptr option option" where
  "fwr_output_for_box env st x y width height =
     (case e_layout_at env (box_center x width) (box_center y height) of
        None \<Rightarrow> Some (fwr_get_first_output st)
      | Some w \<Rightarrow>
          (case find_output_by_wlr (output_store st) w (outputs st) of
             None \<Rightarrow> None
           | Some (Some p) \<Rightarrow> Some (Some p)
           | Some None \<Rightarrow> Some (fwr_get_first_output st)))"

section \<open>Configuration\<close>

fun find_mode :: "int \<Rightarrow> int \<Rightarrow> int \<Rightarrow> output_mode list \<Rightarrow> output_mode option \<Rightarrow> output_mode option" where
  "find_mode width height refresh [] best = best"
| "find_mode width height refresh (m # ms) best =
     (if om_width m = width \<and> om_height m = height then
        (if refresh = 0 \<or> om_refresh m = refresh then
           (if refresh \<noteq> 0 then Some m else find_mode width height refresh ms (Some m))
         else find_mode width height refresh ms best)
      else find_mode width height refresh ms best)"

definition fwr_set_output_mode ::
    "wlr_env \<Rightarrow> u32 \<Rightarrow> int \<Rightarrow> int \<Rightarrow> int \<Rightarrow> fwr_instance \<Rightarrow> (bool \<times> effect list) option" where
  "fwr_set_output_mode env i width height refresh st =
     (case find_output_by_id (output_store st) i (outputs st) of
        None \<Rightarrow> None
      | Some None \<Rightarrow> Some (False, [])
      | Some (Some (p, out)) \<Rightarrow>
          (case find_mode width height refresh (e_modes env (out_wlr out)) None of
             None \<Rightarrow> Some (False, [])
           | Some m \<Rightarrow> Some (e_commit_ok env, [Output (CommitState (out_wlr out) (ChangeMode m))])))"

definition fwr_set_output_position :: "u32 \<Rightarrow> int \<Rightarrow> int \<Rightarrow> fwr_instance \<Rightarrow> (bool \<times> effect list) option" where
  "fwr_set_output_position i x y st =
     (case find_output_by_id (output_store st) i (outputs st) of
        None \<Rightarrow> None
      | Some None \<Rightarrow> Some (False, [])
      | Some (Some (p, out)) \<Rightarrow> Some (True, [Output (LayoutAdd (out_wlr out) x y)]))"

definition fwr_set_output_scale :: "wlr_env \<Rightarrow> u32 \<Rightarrow> u64 \<Rightarrow> fwr_instance \<Rightarrow> (bool \<times> effect list) option" where
  "fwr_set_output_scale env i scale st =
     (case find_output_by_id (output_store st) i (outputs st) of
        None \<Rightarrow> None
      | Some None \<Rightarrow> Some (False, [])
      | Some (Some (p, out)) \<Rightarrow> Some (e_commit_ok env, [Output (CommitState (out_wlr out) (ChangeScale scale))]))"

section \<open>Messages\<close>

definition mode_value :: "output_mode \<Rightarrow> bval" where
  "mode_value m = BMap [(ascii ''width'', bint (om_width m)), (ascii ''height'', bint (om_height m)),
     (ascii ''refresh'', bint (om_refresh m))]"

definition output_added_fields :: "wlr_env \<Rightarrow> fwr_output \<Rightarrow> (string \<times> bval) list" where
  "output_added_fields env out =
     (let w = out_wlr out; b = e_layout_box env (Some w) in
      [(''id'', bhandle (out_id out)),
       (''name'', c_string (e_output_name env w)),
       (''make'', c_string (e_output_make env w)),
       (''model'', c_string (e_output_model env w)),
       (''x'', bint (box_x b)), (''y'', bint (box_y b)),
       (''width'', bint (e_output_width env w)), (''height'', bint (e_output_height env w)),
       (''refresh'', bint (get_output_refresh env w)),
       (''scale'', BFloat64 (e_output_scale env w)),
       (''transform'', bint (e_output_transform env w)),
       (''modes'', BList (map mode_value (e_modes env w)))])"

definition send_output_added :: "wlr_env \<Rightarrow> fwr_instance \<Rightarrow> fwr_output \<Rightarrow> effect list" where
  "send_output_added env st out =
     (if \<not> engine st then [] else send_message ''output_added'' 12 (output_added_fields env out))"

fun send_outputs_loop :: "wlr_env \<Rightarrow> fwr_instance \<Rightarrow> ptr list \<Rightarrow> effect list option" where
  "send_outputs_loop env st [] = Some []"
| "send_outputs_loop env st (p # ps) =
     (case output_store st p of
        None \<Rightarrow> None
      | Some out \<Rightarrow> map_option ((@) (send_output_added env st out)) (send_outputs_loop env st ps))"

definition fwr_send_all_outputs :: "wlr_env \<Rightarrow> fwr_instance \<Rightarrow> effect list option" where
  "fwr_send_all_outputs env st = (if \<not> engine st then Some [] else send_outputs_loop env st (outputs st))"

definition send_output_removed :: "fwr_instance \<Rightarrow> u32 \<Rightarrow> effect list" where
  "send_output_removed st i =
     (if \<not> engine st then [] else send_message ''output_removed'' 1 [(''id'', bhandle i)])"

section \<open>Frames\<close>

text \<open>The rate limit, on both paths that give a baton back.\<close>

definition limit_interval :: "int \<Rightarrow> u64 \<Rightarrow> u64" where
  "limit_interval rate_limit ns =
     (if rate_limit > 0 then
        let limited_ns = 1000000000 div word_of_int rate_limit in if limited_ns > ns then limited_ns else ns
      else ns)"

text \<open>\<open>atomic_exchange(&vsync_baton, 0)\<close> and, for a baton, the answer to the engine.\<close>

definition return_baton :: "wlr_env \<Rightarrow> u64 \<Rightarrow> fwr_instance \<Rightarrow> fwr_instance \<times> effect list" where
  "return_baton env ns st =
     (let baton = vsync_baton st; st1 = st\<lparr>vsync_baton := 0\<rparr> in
      if baton \<noteq> 0
      then (st1, [Engine (OnVsync baton (e_time env) (e_time env + limit_interval (vsync_rate_limit st) ns))])
      else (st1, []))"

definition mode_interval :: "wlr_env \<Rightarrow> wref \<Rightarrow> u64" where
  "mode_interval env w =
     (case e_current_mode env w of
        Some m \<Rightarrow> if om_refresh m > 0 then 1000000000000 div word_of_int (om_refresh m) else 16600000
      | None \<Rightarrow> 16600000)"

definition output_frame_vsync :: "wlr_env \<Rightarrow> ptr \<Rightarrow> fwr_instance \<Rightarrow> outcome" where
  "output_frame_vsync env p st =
     (case output_store st p of
        None \<Rightarrow> None
      | Some out \<Rightarrow>
          Some (if vsync_output st = Some p then return_baton env (mode_interval env (out_wlr out)) st else (st, [])))"

text \<open>\<open>refresh\<close> is the interval in nanoseconds that the present event carries, a C \<open>int\<close>.\<close>

definition output_present :: "wlr_env \<Rightarrow> ptr \<Rightarrow> int \<Rightarrow> fwr_instance \<Rightarrow> outcome" where
  "output_present env p refresh st =
     (case output_store st p of
        None \<Rightarrow> None
      | Some out \<Rightarrow>
          Some (if vsync_output st \<noteq> Some p then (st, [])
                else return_baton env (if word_of_int refresh = (0 :: u64) then 16600000 else word_of_int refresh) st))"

definition fwr_engine_vsync_callback :: "int \<Rightarrow> fwr_instance \<Rightarrow> fwr_instance" where
  "fwr_engine_vsync_callback baton st = st\<lparr>vsync_baton := baton\<rparr>"

section \<open>Coming and going\<close>

definition metrics_if_positive :: "wlr_env \<Rightarrow> fwr_instance \<Rightarrow> effect list" where
  "metrics_if_positive env st =
     (let b = e_layout_box env None in
      if engine st \<and> box_width b > 0 \<and> box_height b > 0
      then [Engine (WindowMetrics (box_width b) (box_height b))] else [])"

definition output_request_state :: "wlr_env \<Rightarrow> ptr \<Rightarrow> fwr_instance \<Rightarrow> outcome" where
  "output_request_state env p st =
     (case output_store st p of
        None \<Rightarrow> None
      | Some out \<Rightarrow> Some (st, Output (CommitState (out_wlr out) ChangeRequested) # metrics_if_positive env st))"

definition output_destroy :: "wlr_env \<Rightarrow> ptr \<Rightarrow> fwr_instance \<Rightarrow> outcome" where
  "output_destroy env p st =
     (case output_store st p of
        None \<Rightarrow> None
      | Some out \<Rightarrow>
          let was_vsync_output = (vsync_output st = Some p);
              st1 = st\<lparr>outputs := remove1 p (outputs st)\<rparr>;
              scene = (case scene_output out of Some s \<Rightarrow> [Output (SceneOutputDestroy s)] | None \<Rightarrow> []);
              st2 = (if was_vsync_output then st1\<lparr>vsync_output := None\<rparr> else st1);
              st3 = st2\<lparr>output_store := (output_store st2)(p := None)\<rparr>
          in map_option (\<lambda>st4. (st4, scene @ send_output_removed st2 (out_id out) @ metrics_if_positive env st4))
               (if was_vsync_output then fwr_select_highest_refresh_output env st3 else Some st3))"

definition fwr_server_new_output :: "wlr_env \<Rightarrow> wref \<Rightarrow> fwr_instance \<Rightarrow> outcome" where
  "fwr_server_new_output env w st =
     (let p = e_calloc env; i = next_output_id st + 1;
          out = \<lparr>out_id = i, out_wlr = w, scene_output = e_scene_output_create env, layout_output = None\<rparr>;
          st1 = st\<lparr>next_output_id := i, output_store := (output_store st)(p \<mapsto> out), outputs := p # outputs st\<rparr>;
          pre = [Output (InitRender w), Output (CommitState w (ChangeInitial (e_preferred_mode env w) (f64_of_int 1)))]
      in if \<not> e_commit_ok env
         then Some (st1\<lparr>output_store := (output_store st1)(p := None), outputs := remove1 p (outputs st1)\<rparr>, pre)
         else
           let out2 = out\<lparr>layout_output := e_layout_add_auto env\<rparr>;
               st2 = st1\<lparr>output_store := (output_store st1)(p \<mapsto> out2)\<rparr>;
               add = (case (layout_output out2, scene_output out2) of
                        (Some l, Some s) \<Rightarrow> [Output (SceneLayoutAddOutput l s)] | _ \<Rightarrow> []);
               b = e_layout_box env None
           in map_option (\<lambda>st3. (st3, pre @ [Output (LayoutAddAuto w)] @ add @ send_output_added env st3 out2 @
                  (if engine st3 then [Engine (WindowMetrics (box_width b) (box_height b))] else [])
                  @ [Output (ScheduleFrame w)]))
                (fwr_select_highest_refresh_output env st2))"

section \<open>Events\<close>

datatype output_event =
    NewOutput wref
  | DestroyOutput ptr
  | Frame ptr
  | Present ptr int
  | RequestState ptr
  | SetVsyncOutput u32
  | SetVsyncRateLimit int
  | VsyncRequest int

fun output_step :: "wlr_env \<Rightarrow> output_event \<Rightarrow> fwr_instance \<Rightarrow> outcome" where
  "output_step env (NewOutput w) st = fwr_server_new_output env w st"
| "output_step env (DestroyOutput p) st = output_destroy env p st"
| "output_step env (Frame p) st = output_frame_vsync env p st"
| "output_step env (Present p r) st = output_present env p r st"
| "output_step env (RequestState p) st = output_request_state env p st"
| "output_step env (SetVsyncOutput i) st = map_option (\<lambda>s. (s, [])) (fwr_set_vsync_output env i st)"
| "output_step env (SetVsyncRateLimit hz) st = Some (fwr_set_vsync_rate_limit hz st, [])"
| "output_step env (VsyncRequest b) st = Some (fwr_engine_vsync_callback b st, [])"

text \<open>
  What the libraries guarantee of an event: a listener fires only for an object that was not
  destroyed, and \<open>calloc\<close> returns memory that is not in use.
\<close>

fun output_enabled :: "wlr_env \<Rightarrow> output_event \<Rightarrow> fwr_instance \<Rightarrow> bool" where
  "output_enabled env (NewOutput w) st \<longleftrightarrow> e_calloc env \<notin> set (outputs st)"
| "output_enabled env (DestroyOutput p) st \<longleftrightarrow> p \<in> set (outputs st)"
| "output_enabled env (Frame p) st \<longleftrightarrow> p \<in> set (outputs st)"
| "output_enabled env (Present p r) st \<longleftrightarrow> p \<in> set (outputs st)"
| "output_enabled env (RequestState p) st \<longleftrightarrow> p \<in> set (outputs st)"
| "output_enabled env _ st \<longleftrightarrow> True"

text \<open>The runs, with the events and the calls made.\<close>

inductive output_run :: "fwr_instance \<Rightarrow> output_event list \<Rightarrow> effect list \<Rightarrow> fwr_instance \<Rightarrow> bool" for st0 where
  start: "output_run st0 [] [] st0"
| event: "output_run st0 evs es st \<Longrightarrow> output_enabled env e st \<Longrightarrow> output_step env e st = Some (st', es') \<Longrightarrow>
    output_run st0 (evs @ [e]) (es @ es') st'"

inductive_cases output_run_snocE: "output_run st0 (evs @ [e]) es st"

section \<open>Which output is chosen\<close>

definition refresh_of :: "wlr_env \<Rightarrow> (ptr \<Rightarrow> fwr_output option) \<Rightarrow> ptr \<Rightarrow> int" where
  "refresh_of env store p = get_output_refresh env (out_wlr (the (store p)))"

text \<open>\<open>p\<close> is the first of the list's outputs that refresh fastest.\<close>

definition first_highest :: "(ptr \<Rightarrow> int) \<Rightarrow> ptr list \<Rightarrow> ptr \<Rightarrow> bool" where
  "first_highest f ps p \<longleftrightarrow>
     (\<exists>xs ys. ps = xs @ p # ys \<and> (\<forall>q \<in> set xs. f q < f p) \<and> (\<forall>q \<in> set ys. f q \<le> f p))"

lemma first_highest_Cons: "f q < f p \<Longrightarrow> first_highest f ps p \<Longrightarrow> first_highest f (q # ps) p"
  unfolding first_highest_def by (metis append_Cons set_ConsD)

lemma first_highest_hd: "\<forall>q \<in> set ps. f q \<le> f p \<Longrightarrow> first_highest f (p # ps) p"
  unfolding first_highest_def by (intro exI [of _ "[]"] exI [of _ ps]) auto

lemma first_highest_in: "first_highest f ps p \<Longrightarrow> p \<in> set ps"
  by (auto simp: first_highest_def)

lemma highest_loop_spec:
  assumes "\<forall>p \<in> set ps. store p \<noteq> None"
  shows "\<exists>b. highest_loop env store ps best r = Some b
    \<and> (b = best \<and> (\<forall>p \<in> set ps. refresh_of env store p \<le> r)
       \<or> (\<exists>p. b = Some p \<and> r < refresh_of env store p \<and> first_highest (refresh_of env store) ps p))"
  using assms
proof (induction ps arbitrary: best r)
  case (Cons q ps)
  let ?f = "refresh_of env store"
  obtain out where out: "store q = Some out" using Cons.prems by auto
  have f: "get_output_refresh env (out_wlr out) = ?f q" using out by (simp add: refresh_of_def)
  have ps: "\<forall>p \<in> set ps. store p \<noteq> None" using Cons.prems by simp
  show ?case
  proof (cases "?f q > r")
    case True
    then have "highest_loop env store (q # ps) best r = highest_loop env store ps (Some q) (?f q)"
      using out f by (simp add: Let_def)
    with Cons.IH [OF ps, of "Some q" "?f q"] True show ?thesis
      by (force intro: first_highest_hd first_highest_Cons)
  next
    case False
    then have "highest_loop env store (q # ps) best r = highest_loop env store ps best r"
      using out f by (simp add: Let_def)
    with Cons.IH [OF ps, of best r] False show ?thesis
      by (force intro: first_highest_Cons)
  qed
qed simp

text \<open>The state of the component is well formed: every listed output is allocated, once, and the
  vsync output is one of them.\<close>

definition outputs_ok :: "fwr_instance \<Rightarrow> bool" where
  "outputs_ok st \<longleftrightarrow> distinct (outputs st) \<and> (\<forall>p \<in> set (outputs st). output_store st p \<noteq> None)
     \<and> (\<forall>p. vsync_output st = Some p \<longrightarrow> p \<in> set (outputs st))"

lemma select_highest_spec:
  assumes "\<forall>p \<in> set (outputs st). output_store st p \<noteq> None"
  shows "\<exists>b. fwr_select_highest_refresh_output env st = Some (st\<lparr>vsync_output := b\<rparr>)
    \<and> (case b of
         None \<Rightarrow> \<forall>p \<in> set (outputs st). refresh_of env (output_store st) p \<le> 0
       | Some p \<Rightarrow> 0 < refresh_of env (output_store st) p
           \<and> first_highest (refresh_of env (output_store st)) (outputs st) p)"
  using highest_loop_spec [OF assms, of env None 0]
  by (auto simp: fwr_select_highest_refresh_output_def)

text \<open>
  the vsync output that is selected automatically is the first of the connected outputs with
  the highest refresh rate; nothing else of the state changes. No output is selected only when
  none has a positive refresh rate.
\<close>

theorem vsync_output_is_fastest:
  assumes "outputs_ok st"
  shows "\<exists>b. fwr_select_highest_refresh_output env st = Some (st\<lparr>vsync_output := b\<rparr>)
    \<and> (case b of
         None \<Rightarrow> \<forall>p \<in> set (outputs st). refresh_of env (output_store st) p \<le> 0
       | Some p \<Rightarrow> 0 < refresh_of env (output_store st) p
           \<and> first_highest (refresh_of env (output_store st)) (outputs st) p)"
  using assms by (intro select_highest_spec) (simp add: outputs_ok_def)

lemma find_output_by_id_spec:
  assumes "\<forall>p \<in> set ps. store p \<noteq> None"
  shows "\<exists>r. find_output_by_id store i ps = Some r
    \<and> (case r of None \<Rightarrow> \<forall>p \<in> set ps. out_id (the (store p)) \<noteq> i
       | Some (p, out) \<Rightarrow> p \<in> set ps \<and> store p = Some out \<and> out_id out = i)"
  using assms by (induction ps) (auto split: option.splits)

section \<open>The runs keep the state well formed\<close>

lemma select_highest_ok:
  assumes "distinct (outputs st)" and "\<forall>p \<in> set (outputs st). output_store st p \<noteq> None"
  shows "\<exists>st'. fwr_select_highest_refresh_output env st = Some st' \<and> outputs_ok st' \<and> vsync_baton st' = vsync_baton st"
  using select_highest_spec [OF assms(2), of env] assms
  by (force simp: outputs_ok_def split: option.splits dest: first_highest_in)

lemma return_baton_ok: "outputs_ok st \<Longrightarrow> outputs_ok (fst (return_baton env ns st))"
  by (auto simp: return_baton_def Let_def outputs_ok_def)

lemma new_output_ok:
  assumes "outputs_ok st" and "e_calloc env \<notin> set (outputs st)"
  shows "\<exists>st' es. fwr_server_new_output env w st = Some (st', es) \<and> outputs_ok st' \<and> vsync_baton st' = vsync_baton st"
proof (cases "e_commit_ok env")
  case False
  then show ?thesis using assms by (auto simp: fwr_server_new_output_def Let_def outputs_ok_def)
next
  case True
  let ?p = "e_calloc env"
  let ?out = "\<lparr>out_id = next_output_id st + 1, out_wlr = w, scene_output = e_scene_output_create env,
      layout_output = e_layout_add_auto env\<rparr>"
  let ?st = "st\<lparr>next_output_id := next_output_id st + 1, outputs := ?p # outputs st,
      output_store := (output_store st)(?p \<mapsto> ?out)\<rparr>"
  have "distinct (outputs ?st)" "\<forall>p \<in> set (outputs ?st). output_store ?st p \<noteq> None"
    using assms by (auto simp: outputs_ok_def)
  from select_highest_ok [OF this, of env] True show ?thesis
    by (auto simp: fwr_server_new_output_def Let_def)
qed

lemma output_destroy_ok:
  assumes "outputs_ok st" and "p \<in> set (outputs st)"
  shows "\<exists>st' es. output_destroy env p st = Some (st', es) \<and> outputs_ok st' \<and> vsync_baton st' = vsync_baton st"
proof -
  obtain out where out: "output_store st p = Some out" using assms by (auto simp: outputs_ok_def)
  have d: "distinct (outputs st)" using assms(1) by (simp add: outputs_ok_def)
  show ?thesis
  proof (cases "vsync_output st = Some p")
    case True
    let ?st = "st\<lparr>outputs := remove1 p (outputs st), vsync_output := None, output_store := (output_store st)(p := None)\<rparr>"
    have "distinct (outputs ?st)" "\<forall>q \<in> set (outputs ?st). output_store ?st q \<noteq> None"
      using assms d by (auto simp: outputs_ok_def)
    from select_highest_ok [OF this, of env] True out show ?thesis
      by (auto simp: output_destroy_def Let_def)
  next
    case False
    then show ?thesis using assms d out by (auto simp: output_destroy_def Let_def outputs_ok_def)
  qed
qed

lemma set_vsync_output_ok:
  assumes "outputs_ok st"
  shows "\<exists>st'. fwr_set_vsync_output env i st = Some st' \<and> outputs_ok st' \<and> vsync_baton st' = vsync_baton st"
proof -
  have ok: "distinct (outputs st)" "\<forall>p \<in> set (outputs st). output_store st p \<noteq> None"
    using assms by (simp_all add: outputs_ok_def)
  obtain r where r: "find_output_by_id (output_store st) i (outputs st) = Some r"
    "case r of None \<Rightarrow> True | Some (p, out) \<Rightarrow> p \<in> set (outputs st)"
    using find_output_by_id_spec [OF ok(2), of i] by (auto split: option.splits)
  show ?thesis
  proof (cases "i = 0 \<or> r = None")
    case True
    then show ?thesis using select_highest_ok [OF ok, of env] r by (auto simp: fwr_set_vsync_output_def)
  next
    case False
    then show ?thesis using r assms by (cases r) (auto simp: fwr_set_vsync_output_def outputs_ok_def)
  qed
qed

text \<open>The batons that a sequence of calls gives back.\<close>

fun returned :: "effect list \<Rightarrow> int list" where
  "returned [] = []"
| "returned (Engine (OnVsync b t u) # es) = b # returned es"
| "returned (_ # es) = returned es"

fun requested :: "output_event list \<Rightarrow> int list" where
  "requested [] = []"
| "requested (VsyncRequest b # evs) = b # requested evs"
| "requested (_ # evs) = requested evs"

definition held :: "fwr_instance \<Rightarrow> int multiset" where
  "held st = (if vsync_baton st = 0 then {#} else {#vsync_baton st#})"

lemma returned_append [simp]: "returned (es @ es') = returned es @ returned es'"
  by (induction es rule: returned.induct) simp_all

lemma requested_append [simp]: "requested (evs @ evs') = requested evs @ requested evs'"
  by (induction evs rule: requested.induct) simp_all

lemma returned_none [simp]:
  "returned (send_message name n flds) = []" "returned (metrics_if_positive env st) = []"
  "returned (send_output_added env st out) = []" "returned (send_output_removed st i) = []"
  by (simp_all add: send_message_def metrics_if_positive_def send_output_added_def send_output_removed_def Let_def)

lemma return_baton_held:
  "mset (returned (snd (return_baton env ns st))) + held (fst (return_baton env ns st)) = held st"
  by (auto simp: return_baton_def held_def Let_def)

lemma held_eq: "vsync_baton st' = vsync_baton st \<Longrightarrow> held st' = held st"
  by (simp add: held_def)

text \<open>
  One event: defined, keeps the state well formed, and the batons it gives back together with
  the one it keeps are among those it had and got.
\<close>

definition step_ok :: "fwr_instance \<Rightarrow> output_event \<Rightarrow> fwr_instance \<Rightarrow> effect list \<Rightarrow> bool" where
  "step_ok st e st' es \<longleftrightarrow> outputs_ok st' \<and> mset (returned es) + held st' \<subseteq># held st + mset (requested [e])"

lemma new_output_returned: "fwr_server_new_output env w st = Some (st', es) \<Longrightarrow> returned es = []"
  by (auto simp: fwr_server_new_output_def Let_def split: if_splits option.splits)

lemma output_destroy_returned: "output_destroy env p st = Some (st', es) \<Longrightarrow> returned es = []"
  by (auto simp: output_destroy_def Let_def split: if_splits option.splits)

lemma output_step_ok:
  assumes ok: "outputs_ok st" and en: "output_enabled env e st"
  shows "\<exists>st' es. output_step env e st = Some (st', es) \<and> step_ok st e st' es"
proof (cases e)
  case (NewOutput w)
  then show ?thesis using new_output_ok [OF ok, of env w] en new_output_returned [of env w st]
    by (auto simp: step_ok_def dest!: held_eq)
next
  case (DestroyOutput p)
  then show ?thesis using output_destroy_ok [OF ok, of p env] en output_destroy_returned [of env p st]
    by (auto simp: step_ok_def dest!: held_eq)
next
  case (Frame p)
  obtain out where out: "output_store st p = Some out" using ok en Frame by (auto simp: outputs_ok_def)
  then show ?thesis
    using Frame ok return_baton_ok [OF ok, of env "mode_interval env (out_wlr out)"]
      return_baton_held [of env "mode_interval env (out_wlr out)" st]
    by (cases "return_baton env (mode_interval env (out_wlr out)) st")
      (auto simp: output_frame_vsync_def step_ok_def)
next
  case (Present p r)
  obtain out where out: "output_store st p = Some out" using ok en Present by (auto simp: outputs_ok_def)
  let ?n = "if word_of_int r = (0 :: u64) then 16600000 else word_of_int r"
  show ?thesis using Present ok out return_baton_ok [OF ok, of env ?n] return_baton_held [of env ?n st]
    by (cases "return_baton env ?n st") (auto simp: output_present_def step_ok_def)
next
  case (RequestState p)
  obtain out where "output_store st p = Some out" using ok en RequestState by (auto simp: outputs_ok_def)
  then show ?thesis using ok RequestState by (auto simp: output_request_state_def step_ok_def)
next
  case (SetVsyncOutput i)
  then show ?thesis using set_vsync_output_ok [OF ok, of env i] by (auto simp: step_ok_def dest!: held_eq)
next
  case (SetVsyncRateLimit hz)
  then show ?thesis using ok by (simp add: fwr_set_vsync_rate_limit_def step_ok_def outputs_ok_def held_def)
next
  case (VsyncRequest b)
  then show ?thesis using ok by (auto simp: fwr_engine_vsync_callback_def step_ok_def outputs_ok_def held_def)
qed

lemma output_run_ok:
  "output_run st0 evs es st \<Longrightarrow> outputs_ok st0 \<Longrightarrow>
     outputs_ok st \<and> mset (returned es) + held st \<subseteq># held st0 + mset (requested evs)"
proof (induction rule: output_run.induct)
  case (event evs es st env e st' es')
  then have "step_ok st e st' es'" using output_step_ok [of st env e] by auto
  then have "mset (returned es') + held st' \<subseteq># held st + mset (requested [e])" "outputs_ok st'"
    by (simp_all add: step_ok_def)
  moreover have "mset (returned es) + held st \<subseteq># held st0 + mset (requested evs)" using event by simp
  ultimately show ?case
    by (simp add: ac_simps) (smt (verit) add.assoc add.commute subset_mset.add_mono subset_mset.add_le_cancel_left
        subset_mset.trans)
qed simp

text \<open>
  C10: whatever monitors come and go and whatever Dart and the engine ask for, no output handler
  touches a freed output: the vsync output is always NULL or a connected output, also after the
  one that drove the frames was unplugged.
\<close>

theorem vsync_output_never_dangles:
  assumes "output_run st0 evs es st" and "outputs st0 = []" and "vsync_output st0 = None"
  shows "outputs_ok st \<and> (output_enabled env e st \<longrightarrow> output_step env e st \<noteq> None)"
proof -
  have "outputs_ok st" using output_run_ok [OF assms(1)] assms(2,3) by (simp add: outputs_ok_def)
  then show ?thesis using output_step_ok [of st env e] by auto
qed

text \<open>
  C15: a baton is given back to the engine at most once and only if the engine handed it out,
  in whatever order frames, present events, hotplug and requests come.
\<close>

theorem batons_returned_at_most_once:
  assumes "output_run st0 evs es st" and "outputs st0 = []" and "vsync_output st0 = None" and "vsync_baton st0 = 0"
  shows "mset (returned es) \<subseteq># mset (requested evs)"
proof -
  have "outputs_ok st0" using assms(2,3) by (simp add: outputs_ok_def)
  then have "mset (returned es) + held st \<subseteq># mset (requested evs)"
    using output_run_ok [OF assms(1)] assms(4) by (simp add: held_def)
  then show ?thesis by (rule subset_mset.order_trans [OF mset_subset_eq_add_left])
qed

text \<open>A concrete environment with one monitor, for the instances of the theorems.\<close>

definition test_env :: wlr_env where
  "test_env =
     \<lparr>e_calloc = 7, e_platch = \<lparr>env_fmt = (\<lambda>_. []), env_strtod = (\<lambda>_. 0),
        env_jsmn = (\<lambda>_. None), env_heap = (\<lambda>_. True), env_enc_base = 0, env_dec_base = 0\<rparr>, e_time = 1000, e_register_ok = True, e_commit_ok = True,
      e_current_mode = (\<lambda>w. Some \<lparr>om_width = 1920, om_height = 1080, om_refresh = 60000\<rparr>),
      e_preferred_mode = (\<lambda>w. None), e_modes = (\<lambda>w. []), e_output_width = (\<lambda>w. 1920),
      e_output_height = (\<lambda>w. 1080), e_output_scale = (\<lambda>w. 0), e_output_transform = (\<lambda>w. 0),
      e_output_name = (\<lambda>w. None), e_output_make = (\<lambda>w. None), e_output_model = (\<lambda>w. None),
      e_layout_box = (\<lambda>w. \<lparr>box_x = 0, box_y = 0, box_width = 1920, box_height = 1080\<rparr>),
      e_layout_at = (\<lambda>x y. None), e_scene_output_create = None, e_layout_add_auto = None, e_scene = True,
      e_scene_create = Some 1, e_scene_xdg_create = Some 2, e_scene_enabled = (\<lambda>w. True), e_surface = Some,
      e_is_toplevel = (\<lambda>w. True), e_xdg_surface_of = Some, e_toplevel_of = (\<lambda>w. w),
      e_geometry = (\<lambda>w. \<lparr>box_x = 0, box_y = 0, box_width = 300, box_height = 200\<rparr>),
      e_surface_width = (\<lambda>w. 300), e_surface_height = (\<lambda>w. 200), e_mapped = (\<lambda>w. True),
      e_title = (\<lambda>w. None), e_app_id = (\<lambda>w. None), e_pid = (\<lambda>w. 1), e_uid = (\<lambda>w. 0), e_gid = (\<lambda>w. 0),
      e_surface_at = (\<lambda>w x y. None), e_focused_surface = None, e_keyboard = None, e_popup_grab = False\<rparr>"

definition no_scroll :: fwr_scroll_cache where
  "no_scroll = \<lparr>sc_delta = 0, sc_delta_discrete = 0, sc_source = 0, sc_relative_direction = 0,
     sc_orientation = 0, sc_time_msec = 0, sc_valid = False\<rparr>"

definition no_grab :: fwr_grab_state where
  "no_grab = \<lparr>grab_type = FWR_GRAB_NONE, grab_view_handle = 0, start_cursor_x = 0, start_cursor_y = 0,
     start_view_x = 0, start_view_y = 0, start_view_width = 0, start_view_height = 0, resize_edges = 0\<rparr>"

text \<open>The instance as \<open>calloc\<close> and the initialisers leave it, with or without an engine.\<close>

definition initial_instance :: "bool \<Rightarrow> fwr_instance" where
  "initial_instance eng =
     \<lparr>engine = eng, output_store = Map.empty, view_store = Map.empty, subsurface_store = Map.empty,
      popup_store = Map.empty, views = handle_map_new, subsurfaces = handle_map_new, popups = handle_map_new,
      views_list = [], current_focused_view = 0, cursor_x = 0, cursor_y = 0,
      current_xcursor_name = Some (ascii ''left_ptr''), client_cursor_surface = None,
      client_cursor_hotspot_x = 0, client_cursor_hotspot_y = 0,
      input = \<lparr>fl_mouse_button_mask = 0, flutter_cursor_x = 0, flutter_cursor_y = 0, last_scroll_x = no_scroll,
        last_scroll_y = no_scroll, last_button = \<lparr>bc_time_msec = 0, bc_valid = False\<rparr>, grab = no_grab\<rparr>,
      direct_input_mode = False, direct_input_surface = 0, outputs = [], vsync_output = None, next_output_id = 0,
      vsync_rate_limit = 0, vsync_baton = 0, plugin_registry = fwr_plugin_registry_init,
      surface_button_states = replicate 32 \<lparr>sb_surface_handle = 0, sb_buttons = 0, sb_active = False\<rparr>,
      xdg_data = Map.empty, wl_socket = []\<rparr>"

text \<open>A run: a monitor is plugged in, the engine asks for a frame, a frame is shown.\<close>

lemma example_run:
  "\<exists>st es. output_run (initial_instance False) [NewOutput 3, VsyncRequest 5, Frame 7] es st \<and> returned es = [5]
     \<and> outputs st = [7]"
proof -
  let ?st0 = "initial_instance False"
  obtain st1 es1 where 1: "output_step test_env (NewOutput 3) ?st0 = Some (st1, es1)" "outputs st1 = [7]"
    "vsync_output st1 = Some 7" "output_store st1 7 \<noteq> None" "returned es1 = []"
    by (auto simp: fwr_server_new_output_def test_env_def initial_instance_def Let_def get_output_refresh_def
        fwr_select_highest_refresh_output_def)
  let ?st2 = "st1\<lparr>vsync_baton := 5\<rparr>"
  obtain st3 es3 where 3: "output_step test_env (Frame 7) ?st2 = Some (st3, es3)" "returned es3 = [5]" "outputs st3 = [7]"
    using 1 by (auto simp: output_frame_vsync_def return_baton_def Let_def)
  have "output_run ?st0 ([] @ [NewOutput 3]) ([] @ es1) st1"
    by (rule output_run.event [OF output_run.start _ 1(1)]) (simp add: initial_instance_def)
  then have "output_run ?st0 (([] @ [NewOutput 3]) @ [VsyncRequest 5]) (([] @ es1) @ []) ?st2"
    by (rule output_run.event [where env = test_env]) (simp_all add: fwr_engine_vsync_callback_def)
  then have "output_run ?st0 ((([] @ [NewOutput 3]) @ [VsyncRequest 5]) @ [Frame 7]) ((([] @ es1) @ []) @ es3) st3"
    by (rule output_run.event [OF _ _ 3(1)]) (simp add: 1)
  then show ?thesis using 1 3 by (intro exI [of _ st3] exI [of _ "es1 @ es3"]) simp
qed

theorem vsync_output_never_dangles_witness:
  "\<exists>st es. output_run (initial_instance False) [NewOutput 3, VsyncRequest 5, Frame 7] es st \<and> outputs_ok st
     \<and> output_step test_env (DestroyOutput 7) st \<noteq> None"
proof -
  obtain st es where r: "output_run (initial_instance False) [NewOutput 3, VsyncRequest 5, Frame 7] es st"
    "outputs st = [7]" using example_run by blast
  have "outputs (initial_instance False) = []" "vsync_output (initial_instance False) = None"
    by (simp_all add: initial_instance_def)
  from vsync_output_never_dangles [OF r(1) this, of test_env "DestroyOutput 7"] r show ?thesis by auto
qed

theorem batons_returned_at_most_once_witness:
  "\<exists>st es. output_run (initial_instance False) [NewOutput 3, VsyncRequest 5, Frame 7] es st \<and> returned es = [5]
     \<and> mset (returned es) \<subseteq># {#5#}"
proof -
  obtain st es where r: "output_run (initial_instance False) [NewOutput 3, VsyncRequest 5, Frame 7] es st"
    "returned es = [5]" using example_run by blast
  have "outputs (initial_instance False) = []" "vsync_output (initial_instance False) = None"
    "vsync_baton (initial_instance False) = 0"
    by (simp_all add: initial_instance_def)
  from batons_returned_at_most_once [OF r(1) this] have "mset (returned es) \<subseteq># {#5#}" by simp
  then show ?thesis using r by blast
qed

theorem vsync_output_is_fastest_witness:
  "\<exists>b. fwr_select_highest_refresh_output test_env (initial_instance True) =
     Some ((initial_instance True)\<lparr>vsync_output := b\<rparr>)"
  using vsync_output_is_fastest [of "initial_instance True" test_env]
  by (auto simp: outputs_ok_def initial_instance_def)

section \<open>Modes, rate limits\<close>

lemma find_mode_exact: "refresh \<noteq> 0 \<Longrightarrow> find_mode w h refresh ms best =
    (case List.find (\<lambda>m. om_width m = w \<and> om_height m = h \<and> om_refresh m = refresh) ms of
       Some m \<Rightarrow> Some m | None \<Rightarrow> best)"
  by (induction ms arbitrary: best) auto

lemma find_mode_any: "find_mode w h 0 ms best =
    (case List.find (\<lambda>m. om_width m = w \<and> om_height m = h) (rev ms) of Some m \<Rightarrow> Some m | None \<Rightarrow> best)"
proof (induction ms arbitrary: best)
  case (Cons m ms)
  have "List.find P (xs @ [m]) = (case List.find P xs of Some x \<Rightarrow> Some x | None \<Rightarrow> if P m then Some m else None)" for P xs
    by (induction xs) auto
  with Cons show ?case by (auto split: option.split)
qed simp

text \<open>
  setting a mode asks the output for the first of its modes with the given size and refresh
  rate, for the last of that size when the rate is 0, and otherwise leaves the output alone and
  fails; it succeeds exactly when the commit does.
\<close>

theorem set_output_mode_picks_matching_mode:
  assumes "outputs_ok st"
  shows "\<exists>r. find_output_by_id (output_store st) i (outputs st) = Some r \<and>
    fwr_set_output_mode env i w h refresh st = Some
      (case r of None \<Rightarrow> (False, [])
       | Some (p, out) \<Rightarrow>
           (case (if refresh = 0 then List.find (\<lambda>m. om_width m = w \<and> om_height m = h) (rev (e_modes env (out_wlr out)))
                  else List.find (\<lambda>m. om_width m = w \<and> om_height m = h \<and> om_refresh m = refresh) (e_modes env (out_wlr out)))
            of None \<Rightarrow> (False, [])
             | Some m \<Rightarrow> (e_commit_ok env, [Output (CommitState (out_wlr out) (ChangeMode m))])))"
proof -
  have "\<forall>p \<in> set (outputs st). output_store st p \<noteq> None" using assms by (simp add: outputs_ok_def)
  then obtain r where "find_output_by_id (output_store st) i (outputs st) = Some r"
    using find_output_by_id_spec by blast
  then show ?thesis
    by (auto simp: fwr_set_output_mode_def find_mode_any find_mode_exact split: option.split)
qed

theorem set_output_mode_picks_matching_mode_witness:
  "fwr_set_output_mode test_env 1 1920 1080 0 (initial_instance True) = Some (False, [])"
  using set_output_mode_picks_matching_mode [of "initial_instance True" 1 test_env 1920 1080 0]
  by (auto simp: outputs_ok_def initial_instance_def)

text \<open>
  with a rate limit of \<open>hz\<close>, the frame target of every returned baton lies at least
  \<open>10^9 div hz\<close> nanoseconds after the current time, and exactly one output interval without one.
\<close>

theorem rate_limit_bounds_frame_target:
  assumes "vsync_baton st \<noteq> 0"
  shows "\<exists>d. snd (return_baton env ns st) = [Engine (OnVsync (vsync_baton st) (e_time env) (e_time env + d))]
    \<and> ns \<le> d \<and> (vsync_rate_limit st \<le> 0 \<longrightarrow> d = ns)
    \<and> (0 < vsync_rate_limit st \<longrightarrow> 1000000000 div word_of_int (vsync_rate_limit st) \<le> d
        \<and> d \<in> {ns, 1000000000 div word_of_int (vsync_rate_limit st)})"
  using assms by (auto simp: return_baton_def limit_interval_def Let_def)

theorem rate_limit_bounds_frame_target_witness:
  "\<exists>d. snd (return_baton test_env 16600000 ((initial_instance True)\<lparr>vsync_baton := 9, vsync_rate_limit := 30\<rparr>)) =
       [Engine (OnVsync 9 1000 (1000 + d))] \<and> 33333333 \<le> d"
  using rate_limit_bounds_frame_target [of "(initial_instance True)\<lparr>vsync_baton := 9, vsync_rate_limit := 30\<rparr>" test_env 16600000]
  by (auto simp: test_env_def)

text \<open>An output whose mode gives no refresh rate is never chosen, even as the only one.\<close>

lemma unknown_refresh_gives_no_vsync:
  assumes "outputs st = [p]" and "output_store st p = Some out"
    and "e_current_mode env (out_wlr out) = Some \<lparr>om_width = w, om_height = h, om_refresh = 0\<rparr>"
  shows "fwr_select_highest_refresh_output env st = Some (st\<lparr>vsync_output := None\<rparr>)"
  using assms by (simp add: fwr_select_highest_refresh_output_def get_output_refresh_def)

end
