(* ===== verification/Buttons.thy ===== *)
theory Buttons
  imports Instance
begin

text \<open>
  The button state of \<open>src/input.c\<close>: a static array of 32 entries that remembers, for a surface
  handle, the button mask of Flutter's last event, and the translation of a changed mask into
  press and release events of the Wayland seat. The bits of a Flutter mask and the Linux button
  codes are the constants of \<open>flutter_embedder.h\<close> and \<open>input-event-codes.h\<close>.
\<close>

section \<open>Button codes\<close>

definition BTN_LEFT :: u32 where "BTN_LEFT = 0x110"
definition BTN_RIGHT :: u32 where "BTN_RIGHT = 0x111"
definition BTN_MIDDLE :: u32 where "BTN_MIDDLE = 0x112"
definition BTN_FORWARD :: u32 where "BTN_FORWARD = 0x115"
definition BTN_BACK :: u32 where "BTN_BACK = 0x116"

lemmas button_code_defs = BTN_LEFT_def BTN_RIGHT_def BTN_MIDDLE_def BTN_FORWARD_def BTN_BACK_def

definition flutter_button_mask_from_linux :: "u32 \<Rightarrow> u64" where
  "flutter_button_mask_from_linux button =
     (if button = BTN_LEFT then 1 else if button = BTN_RIGHT then 2 else if button = BTN_MIDDLE then 4
      else if button = BTN_BACK then 8 else if button = BTN_FORWARD then 16 else 0)"

definition flutter_mouse_button_to_linux :: "u64 \<Rightarrow> u32 option" where
  "flutter_mouse_button_to_linux flutter_button =
     (if flutter_button = 1 then Some BTN_LEFT else if flutter_button = 2 then Some BTN_RIGHT
      else if flutter_button = 4 then Some BTN_MIDDLE else if flutter_button = 8 then Some BTN_BACK
      else if flutter_button = 16 then Some BTN_FORWARD else None)"

section \<open>The table\<close>

abbreviation "SURFACE_BUTTON_STATES_SIZE \<equiv> 32 :: nat"

definition entry_of :: "u32 \<Rightarrow> surface_button_state \<Rightarrow> bool" where
  "entry_of h s \<longleftrightarrow> sb_active s \<and> sb_surface_handle s = h"

definition get_surface_buttons :: "u32 \<Rightarrow> surface_button_state list \<Rightarrow> u64" where
  "get_surface_buttons h tab =
     (case find_index (entry_of h) tab of Some i \<Rightarrow> sb_buttons (tab ! i) | None \<Rightarrow> 0)"

definition set_surface_buttons :: "u32 \<Rightarrow> u64 \<Rightarrow> surface_button_state list \<Rightarrow> surface_button_state list" where
  "set_surface_buttons h buttons tab =
     (case find_index (entry_of h) tab of
        Some i \<Rightarrow> tab[i := (tab ! i)\<lparr>sb_buttons := buttons\<rparr>]
      | None \<Rightarrow>
          (case find_index (\<lambda>s. \<not> sb_active s) tab of
             Some i \<Rightarrow> tab[i := \<lparr>sb_surface_handle = h, sb_buttons = buttons, sb_active = True\<rparr>]
           | None \<Rightarrow> tab))"

definition fwr_clear_surface_buttons :: "u32 \<Rightarrow> surface_button_state list \<Rightarrow> surface_button_state list" where
  "fwr_clear_surface_buttons h tab =
     (case find_index (entry_of h) tab of
        Some i \<Rightarrow> tab[i := \<lparr>sb_surface_handle = 0, sb_buttons = 0, sb_active = False\<rparr>]
      | None \<Rightarrow> tab)"

section \<open>From masks to events\<close>

definition flutter_buttons :: "u64 list" where "flutter_buttons = [1, 2, 4, 8, 16]"

text \<open>The loop of both pointer handlers: button code and whether it is pressed.\<close>

definition button_change :: "u64 \<Rightarrow> u64 \<Rightarrow> u64 \<Rightarrow> (u32 \<times> bool) list" where
  "button_change prev_buttons next_buttons flutter_button =
     (if and (xor prev_buttons next_buttons) flutter_button = 0 then []
      else case flutter_mouse_button_to_linux flutter_button of
        None \<Rightarrow> []
      | Some linux_button \<Rightarrow> [(linux_button, and next_buttons flutter_button \<noteq> 0)])"

definition button_changes :: "u64 \<Rightarrow> u64 \<Rightarrow> (u32 \<times> bool) list" where
  "button_changes prev_buttons next_buttons = concat (map (button_change prev_buttons next_buttons) flutter_buttons)"

text \<open>The buttons that a mask says are down, and the effect of an event on a seat.\<close>

definition down :: "u64 \<Rightarrow> u32 set" where
  "down m = set (List.map_filter
     (\<lambda>fb. if and m fb = 0 then None else flutter_mouse_button_to_linux fb) flutter_buttons)"

fun seat_apply :: "u32 \<times> bool \<Rightarrow> u32 set \<Rightarrow> u32 set" where
  "seat_apply (b, True) S = insert b S"
| "seat_apply (b, False) S = S - {b}"

lemma and_pow2: "and (w :: u64) (2 ^ n) = 0 \<longleftrightarrow> \<not> bit w n" if "n < 64"
proof -
  have "and w (2 ^ n) = (if bit w n then 2 ^ n else 0)"
    using that by (auto intro!: bit_word_eqI simp: bit_simps)
  then show ?thesis using that by (auto simp: bit_simps)
qed

lemma mask_bits:
  "and (w :: u64) 1 = 0 \<longleftrightarrow> \<not> bit w 0" "and (w :: u64) 2 = 0 \<longleftrightarrow> \<not> bit w 1"
  "and (w :: u64) 4 = 0 \<longleftrightarrow> \<not> bit w 2" "and (w :: u64) 8 = 0 \<longleftrightarrow> \<not> bit w 3"
  "and (w :: u64) 16 = 0 \<longleftrightarrow> \<not> bit w 4"
  using and_pow2 [of 0 w] and_pow2 [of 1 w] and_pow2 [of 2 w] and_pow2 [of 3 w] and_pow2 [of 4 w] by simp_all

lemma in_down: "b \<in> down m \<longleftrightarrow>
    b = BTN_LEFT \<and> bit m 0 \<or> b = BTN_RIGHT \<and> bit m 1 \<or> b = BTN_MIDDLE \<and> bit m 2
    \<or> b = BTN_BACK \<and> bit m 3 \<or> b = BTN_FORWARD \<and> bit m 4"
  by (auto simp: down_def flutter_buttons_def flutter_mouse_button_to_linux_def map_filter_simps mask_bits
      split: if_splits)

lemma button_changes_eq: "button_changes p n =
    (if bit p 0 \<noteq> bit n 0 then [(BTN_LEFT, bit n 0)] else [])
    @ (if bit p 1 \<noteq> bit n 1 then [(BTN_RIGHT, bit n 1)] else [])
    @ (if bit p 2 \<noteq> bit n 2 then [(BTN_MIDDLE, bit n 2)] else [])
    @ (if bit p 3 \<noteq> bit n 3 then [(BTN_BACK, bit n 3)] else [])
    @ (if bit p 4 \<noteq> bit n 4 then [(BTN_FORWARD, bit n 4)] else [])"
  by (simp add: button_changes_def button_change_def flutter_buttons_def flutter_mouse_button_to_linux_def
      mask_bits bit_xor_iff)

text \<open>Replaying the events on the buttons that were down gives those that are down.\<close>

lemma in_replay_one:
  "b \<in> fold seat_apply (if x \<noteq> y then [(c, y)] else []) S \<longleftrightarrow> (if b = c \<and> x \<noteq> y then y else b \<in> S)"
  by (cases y) auto

lemma button_changes_replay: "fold seat_apply (button_changes p n) (down p) = down n"
proof (rule set_eqI)
  fix b
  have d: "BTN_LEFT \<noteq> BTN_RIGHT" "BTN_LEFT \<noteq> BTN_MIDDLE" "BTN_LEFT \<noteq> BTN_BACK" "BTN_LEFT \<noteq> BTN_FORWARD"
    "BTN_RIGHT \<noteq> BTN_MIDDLE" "BTN_RIGHT \<noteq> BTN_BACK" "BTN_RIGHT \<noteq> BTN_FORWARD" "BTN_MIDDLE \<noteq> BTN_BACK"
    "BTN_MIDDLE \<noteq> BTN_FORWARD" "BTN_BACK \<noteq> BTN_FORWARD"
    by (simp_all add: button_code_defs)
  show "b \<in> fold seat_apply (button_changes p n) (down p) \<longleftrightarrow> b \<in> down n"
    unfolding button_changes_eq fold_append comp_def in_replay_one in_down using d by auto
qed

text \<open>
  A run of events that a seat takes one by one, each press for a button that is up at that moment and
  each release for one that is down.
\<close>

fun alternates :: "(u32 \<times> bool) list \<Rightarrow> u32 set \<Rightarrow> bool" where
  "alternates [] S \<longleftrightarrow> True"
| "alternates ((b, s) # es) S \<longleftrightarrow> (s \<longleftrightarrow> b \<notin> S) \<and> alternates es (seat_apply (b, s) S)"

lemma alternates_append: "alternates (es @ fs) S \<longleftrightarrow> alternates es S \<and> alternates fs (fold seat_apply es S)"
  by (induction es S rule: alternates.induct) auto

lemma alternates_one: "alternates (if x \<noteq> y then [(c, y)] else []) S \<longleftrightarrow> (x \<noteq> y \<longrightarrow> (y \<longleftrightarrow> c \<notin> S))"
  by simp

lemma button_changes_alternate: "alternates (button_changes p n) (down p)"
  unfolding button_changes_eq alternates_append alternates_one in_replay_one in_down
  by (auto simp: button_code_defs)

section \<open>The table as a finite map\<close>

definition buttons_of :: "surface_button_state list \<Rightarrow> u32 \<Rightarrow> u64 option" where
  "buttons_of tab h = map_option (\<lambda>i. sb_buttons (tab ! i)) (find_index (entry_of h) tab)"

text \<open>No handle has two entries.\<close>

definition table_ok :: "surface_button_state list \<Rightarrow> bool" where
  "table_ok tab \<longleftrightarrow> (\<forall>i j. i < length tab \<longrightarrow> j < length tab \<longrightarrow> sb_active (tab ! i) \<longrightarrow> sb_active (tab ! j) \<longrightarrow>
     sb_surface_handle (tab ! i) = sb_surface_handle (tab ! j) \<longrightarrow> i = j)"

definition room :: "u32 \<Rightarrow> surface_button_state list \<Rightarrow> bool" where
  "room h tab \<longleftrightarrow> buttons_of tab h \<noteq> None \<or> (\<exists>s \<in> set tab. \<not> sb_active s)"

lemma find_entry_iff:
  assumes "table_ok tab"
  shows "find_index (entry_of h) tab = Some i \<longleftrightarrow> i < length tab \<and> entry_of h (tab ! i)"
proof
  assume "i < length tab \<and> entry_of h (tab ! i)"
  moreover from this have "find_index (entry_of h) tab \<noteq> None"
    unfolding find_index_None_iff by (metis nth_mem)
  ultimately show "find_index (entry_of h) tab = Some i"
    using find_index_SomeD [of "entry_of h" tab] assms unfolding table_ok_def entry_of_def by fastforce
qed (auto dest: find_index_SomeD)

lemma buttons_of_iff:
  "table_ok tab \<Longrightarrow> buttons_of tab h = Some b \<longleftrightarrow> (\<exists>i < length tab. entry_of h (tab ! i) \<and> sb_buttons (tab ! i) = b)"
  by (auto simp: buttons_of_def find_entry_iff)

lemma buttons_of_eqI:
  assumes "\<And>h b. buttons_of tab h = Some b \<longleftrightarrow> f h = Some b"
  shows "buttons_of tab = f"
proof
  fix h show "buttons_of tab h = f h"
    by (rule option.exhaust [of "f h"]) (metis assms not_Some_eq)+
qed

lemma get_surface_buttons_of: "get_surface_buttons h tab = (case buttons_of tab h of Some b \<Rightarrow> b | None \<Rightarrow> 0)"
  by (simp add: get_surface_buttons_def buttons_of_def split: option.split)

lemma set_surface_buttons_of:
  assumes ok: "table_ok tab"
  shows "table_ok (set_surface_buttons h b tab)
    \<and> buttons_of (set_surface_buttons h b tab) = (if room h tab then (buttons_of tab)(h \<mapsto> b) else buttons_of tab)"
proof (cases "find_index (entry_of h) tab")
  case (Some i)
  then have i: "i < length tab" "entry_of h (tab ! i)" by (auto dest: find_index_SomeD)
  let ?t = "tab[i := (tab ! i)\<lparr>sb_buttons := b\<rparr>]"
  have s: "set_surface_buttons h b tab = ?t" using Some by (simp add: set_surface_buttons_def)
  have t: "table_ok ?t" using ok i(1) unfolding table_ok_def by (auto simp: nth_list_update split: if_splits)
  have "buttons_of ?t k = Some c \<longleftrightarrow> ((buttons_of tab)(h \<mapsto> b)) k = Some c" for k c
    using i ok unfolding buttons_of_iff [OF t] fun_upd_apply
    by (auto simp: buttons_of_iff [OF ok] nth_list_update entry_of_def table_ok_def)
  then have "buttons_of ?t = (buttons_of tab)(h \<mapsto> b)" by (rule buttons_of_eqI)
  moreover have "room h tab" using Some by (simp add: room_def buttons_of_def)
  ultimately show ?thesis using s t by simp
next
  case None
  show ?thesis
  proof (cases "find_index (\<lambda>s. \<not> sb_active s) tab")
    case (Some i)
    then have i: "i < length tab" "\<not> sb_active (tab ! i)" by (auto dest: find_index_SomeD)
    let ?t = "tab[i := \<lparr>sb_surface_handle = h, sb_buttons = b, sb_active = True\<rparr>]"
    have s: "set_surface_buttons h b tab = ?t" using None Some by (simp add: set_surface_buttons_def)
    have n: "\<forall>j < length tab. \<not> entry_of h (tab ! j)" using None unfolding find_index_None_iff by auto
    have t: "table_ok ?t" using ok n i(1) unfolding table_ok_def by (auto simp: nth_list_update entry_of_def split: if_splits)
    have "buttons_of ?t k = Some c \<longleftrightarrow> ((buttons_of tab)(h \<mapsto> b)) k = Some c" for k c
      using i n unfolding buttons_of_iff [OF t] fun_upd_apply
      by (auto simp: buttons_of_iff [OF ok] nth_list_update entry_of_def)
    then have "buttons_of ?t = (buttons_of tab)(h \<mapsto> b)" by (rule buttons_of_eqI)
    moreover have "room h tab" using i by (auto simp: room_def)
    ultimately show ?thesis using s t by simp
  next
    case None2: None
    then have "\<not> room h tab" using None
      by (simp add: room_def buttons_of_def find_index_None_iff [of "\<lambda>s. \<not> sb_active s"])
    then show ?thesis using None None2 ok by (simp add: set_surface_buttons_def)
  qed
qed

lemma clear_surface_buttons_of:
  assumes ok: "table_ok tab"
  shows "table_ok (fwr_clear_surface_buttons h tab) \<and> buttons_of (fwr_clear_surface_buttons h tab) = (buttons_of tab)(h := None)"
proof (cases "find_index (entry_of h) tab")
  case (Some i)
  then have i: "i < length tab" "entry_of h (tab ! i)" by (auto dest: find_index_SomeD)
  let ?t = "tab[i := \<lparr>sb_surface_handle = 0, sb_buttons = 0, sb_active = False\<rparr>]"
  have s: "fwr_clear_surface_buttons h tab = ?t" using Some by (simp add: fwr_clear_surface_buttons_def)
  have t: "table_ok ?t" using ok i(1) unfolding table_ok_def by (auto simp: nth_list_update split: if_splits)
  have "buttons_of ?t k = Some c \<longleftrightarrow> ((buttons_of tab)(h := None)) k = Some c" for k c
    using i ok unfolding buttons_of_iff [OF t] fun_upd_apply
    by (auto simp: buttons_of_iff [OF ok] nth_list_update entry_of_def table_ok_def)
  then show ?thesis using s t buttons_of_eqI by metis
next
  case None
  then have "buttons_of tab h = None" by (simp add: buttons_of_def)
  then show ?thesis using None ok by (auto simp: fwr_clear_surface_buttons_def)
qed

section \<open>The interface of the pointer handlers\<close>

text \<open>
  What the handlers need of a store of button masks: a mask that was stored is found, other
  surfaces keep theirs, and a forgotten one counts as no button.
\<close>

locale button_store =
  fixes recall :: "u32 \<Rightarrow> 't \<Rightarrow> u64"
    and remember :: "u32 \<Rightarrow> u64 \<Rightarrow> 't \<Rightarrow> 't"
    and forget :: "u32 \<Rightarrow> 't \<Rightarrow> 't"
    and has_room :: "u32 \<Rightarrow> 't \<Rightarrow> bool"
    and valid :: "'t \<Rightarrow> bool"
  assumes recall_remember: "valid t \<Longrightarrow> has_room h t \<Longrightarrow> recall k (remember h b t) = (if k = h then b else recall k t)"
    and remember_valid: "valid t \<Longrightarrow> valid (remember h b t)"
    and remember_room: "valid t \<Longrightarrow> has_room h t \<Longrightarrow> has_room h (remember h b t)"
    and recall_forget: "valid t \<Longrightarrow> recall k (forget h t) = (if k = h then 0 else recall k t)"
    and forget_valid: "valid t \<Longrightarrow> valid (forget h t)"
begin

text \<open>The button part of the down and up events of one surface, one mask after the other.\<close>

fun press_all :: "u32 \<Rightarrow> u64 list \<Rightarrow> 't \<Rightarrow> (u32 \<times> bool) list \<times> 't" where
  "press_all h [] t = ([], t)"
| "press_all h (m # ms) t =
     (let (es, t') = press_all h ms (remember h m t) in (button_changes (recall h t) m @ es, t'))"

lemma press_all_replay:
  assumes "valid t" and "has_room h t"
  shows "fold seat_apply (fst (press_all h ms t)) (down (recall h t)) = down (last (recall h t # ms))
    \<and> recall h (snd (press_all h ms t)) = last (recall h t # ms) \<and> valid (snd (press_all h ms t))"
  using assms
proof (induction ms arbitrary: t)
  case (Cons m ms)
  have "valid (remember h m t)" "has_room h (remember h m t)" "recall h (remember h m t) = m"
    using Cons.prems by (simp_all add: remember_valid remember_room recall_remember)
  with Cons.IH [of "remember h m t"] show ?case
    by (cases "press_all h ms (remember h m t)") (simp add: button_changes_replay)
qed simp

lemma press_all_alternates:
  assumes "valid t" and "has_room h t"
  shows "alternates (fst (press_all h ms t)) (down (recall h t))"
  using assms
proof (induction ms arbitrary: t)
  case (Cons m ms)
  have "valid (remember h m t)" "has_room h (remember h m t)" "recall h (remember h m t) = m"
    using Cons.prems by (simp_all add: remember_valid remember_room recall_remember)
  with Cons.IH [of "remember h m t"] show ?case
    by (cases "press_all h ms (remember h m t)")
      (simp add: alternates_append button_changes_alternate button_changes_replay)
qed simp

lemma press_all_other:
  assumes "valid t" and "has_room h t" and "k \<noteq> h"
  shows "recall k (snd (press_all h ms t)) = recall k t"
  using assms
proof (induction ms arbitrary: t)
  case (Cons m ms)
  have "valid (remember h m t)" "has_room h (remember h m t)" "recall k (remember h m t) = recall k t"
    using Cons.prems by (simp_all add: remember_valid remember_room recall_remember)
  with Cons.IH [of "remember h m t"] Cons.prems(3) show ?case
    by (cases "press_all h ms (remember h m t)") simp
qed simp

end

lemma room_set: "table_ok tab \<Longrightarrow> room h tab \<Longrightarrow> room h (set_surface_buttons h b tab)"
  using set_surface_buttons_of [of tab h b] by (simp add: room_def)

interpretation bs: button_store get_surface_buttons set_surface_buttons fwr_clear_surface_buttons room table_ok
  by unfold_locales
    (simp_all add: get_surface_buttons_of set_surface_buttons_of clear_surface_buttons_of room_set)

text \<open>
  C35: the 32-entry table behaves like a map from surface handles to button masks as long as it has
  room for the handle; a handle it has no room for is dropped and changes nothing. Each handle keeps
  at most one entry.
\<close>

theorem button_table_refines_map:
  assumes "table_ok tab"
  shows "(let tab' = set_surface_buttons h b tab in
       table_ok tab' \<and> buttons_of tab' = (if room h tab then (buttons_of tab)(h \<mapsto> b) else buttons_of tab))
    \<and> (let tab' = fwr_clear_surface_buttons h tab in table_ok tab' \<and> buttons_of tab' = (buttons_of tab)(h := None))
    \<and> get_surface_buttons k tab = (case buttons_of tab k of Some m \<Rightarrow> m | None \<Rightarrow> 0)"
  using assms set_surface_buttons_of clear_surface_buttons_of get_surface_buttons_of by (simp add: Let_def)

abbreviation empty_table :: "surface_button_state list" where
  "empty_table \<equiv> replicate SURFACE_BUTTON_STATES_SIZE \<lparr>sb_surface_handle = 0, sb_buttons = 0, sb_active = False\<rparr>"

lemma empty_table_ok: "table_ok empty_table" "room h empty_table"
  by (auto simp: table_ok_def room_def)

theorem button_table_refines_map_witness:
  "buttons_of (set_surface_buttons 5 3 empty_table) 5 = Some 3"
  using button_table_refines_map [OF empty_table_ok(1), of 5 3 5] empty_table_ok(2) [of 5] by (simp only: Let_def) simp

text \<open>
  C39: for a surface that has an entry in the table or finds a free one, replaying on a seat all the
  button events sent for it, whatever masks Flutter reports one after the other, leaves exactly the
  buttons of the last mask pressed, and event for event a button is only pressed when it is up and
  only released when it is down. (Without room the mask is lost: \<open>full_table_drops\<close>.)
\<close>

theorem seat_follows_button_masks:
  assumes "table_ok tab" and "room h tab"
  shows "fold seat_apply (fst (bs.press_all h ms tab)) (down (get_surface_buttons h tab))
      = down (last (get_surface_buttons h tab # ms))
    \<and> alternates (fst (bs.press_all h ms tab)) (down (get_surface_buttons h tab))"
  using bs.press_all_replay [OF assms] bs.press_all_alternates [OF assms] by blast

theorem seat_follows_button_masks_witness:
  "fold seat_apply (fst (bs.press_all 5 [1, 3, 2] empty_table)) {} = {BTN_RIGHT}"
proof -
  have "fold seat_apply (fst (bs.press_all 5 [1, 3, 2] empty_table)) (down (get_surface_buttons 5 empty_table))
      = down (last (get_surface_buttons 5 empty_table # [1, 3, 2]))"
    using seat_follows_button_masks [OF empty_table_ok, of 5 "[1, 3, 2]"] by blast
  moreover have "get_surface_buttons 5 empty_table = 0"
  proof -
    have "find_index (entry_of 5) empty_table = None"
      by (simp only: find_index_None_iff) (auto simp: entry_of_def)
    then show ?thesis by (simp add: get_surface_buttons_def)
  qed
  moreover have "down 0 = {}" by (auto simp: in_down)
  moreover have "down 2 = {BTN_RIGHT}" by (auto simp: in_down button_code_defs bit_numeral_rec)
  ultimately show ?thesis by simp
qed

text \<open>When 32 surfaces have an entry, the mask of another is lost: its releases are never sent.\<close>

lemma full_table_drops:
  assumes "\<forall>s \<in> set tab. sb_active s \<and> sb_surface_handle s \<noteq> h"
  shows "get_surface_buttons h (set_surface_buttons h b tab) = 0"
proof -
  have "find_index (entry_of h) tab = None" using assms by (auto simp: find_index_None_iff entry_of_def)
  moreover have "find_index (\<lambda>s. \<not> sb_active s) tab = None" using assms by (auto simp: find_index_None_iff)
  ultimately show ?thesis by (simp add: set_surface_buttons_def get_surface_buttons_def)
qed

end
