(* ===== verification/Views.thy ===== *)
theory Views
  imports Outputs Buttons Messages
begin

text \<open>
  \<open>src/surface.c\<close>, toplevel windows: creation, mapping, commits, requests of the client, focus and
  destruction, and the requests that Dart makes about them. A handler of a listener is called with
  the address of the \<open>fwr_view\<close> that contains the listener. The registration and removal of
  listeners, logging and the release of the OpenGL texture cache (the call
  \<open>DestroyCachedTexture\<close>) are not followed.
\<close>

section \<open>Focus\<close>

text \<open>Loss of focus: the previously focused toplevel is deactivated.\<close>

definition deactivate_previous :: "wlr_env \<Rightarrow> wref option \<Rightarrow> fwr_instance \<Rightarrow> outcome" where
  "deactivate_previous env prev st =
     (case prev of
        None \<Rightarrow> Some (st, [])
      | Some s \<Rightarrow>
          (case e_xdg_surface_of env s of
             None \<Rightarrow> Some (st, [])
           | Some xs \<Rightarrow>
               if \<not> e_is_toplevel env xs then Some (st, [])
               else
                 let es = [Toplevel (e_toplevel_of env xs) (SetActivated False)] in
                 (case xdg_data st xs of
                    None \<Rightarrow> Some (st, es)
                  | Some q \<Rightarrow>
                      (case view_store st q of
                         None \<Rightarrow> None
                       | Some v \<Rightarrow> Some (set_view q (v\<lparr>v_activated := False\<rparr>) st, es)))))"

definition fwr_focus_view :: "wlr_env \<Rightarrow> ptr \<Rightarrow> fwr_instance \<Rightarrow> outcome" where
  "fwr_focus_view env p st =
     (case view_store st p of
        None \<Rightarrow> None
      | Some v \<Rightarrow>
          let surface = e_surface env (v_xdg_surface v) in
          if e_focused_surface env = surface then Some (st, [])
          else
            (case deactivate_previous env (e_focused_surface env) st of
               None \<Rightarrow> None
             | Some (st1, es1) \<Rightarrow>
                 (case view_store st1 p of
                    None \<Rightarrow> None
                  | Some v1 \<Rightarrow>
                      let (st2, es2) =
                        (if e_is_toplevel env (v_xdg_surface v1)
                         then (set_view p (v1\<lparr>v_activated := True\<rparr>) st1, [Toplevel (v_toplevel v1) (SetActivated True)])
                         else (st1, []))
                      in Some (st2\<lparr>current_focused_view := v_handle v1\<rparr>,
                           es1 @ es2 @ [Seat (KeyboardEnter surface (e_keyboard env))]))))"

text \<open>\<open>fwr_focus_view\<close> and raising, as the callers do it.\<close>

definition raise_view :: "fwr_view \<Rightarrow> effect list" where
  "raise_view v = (case v_scene_tree v of Some t \<Rightarrow> [Scene (RaiseToTop t)] | None \<Rightarrow> [])"

definition focus_and_raise :: "wlr_env \<Rightarrow> ptr \<Rightarrow> fwr_instance \<Rightarrow> outcome" where
  "focus_and_raise env p st =
     (case fwr_focus_view env p st of
        None \<Rightarrow> None
      | Some (st1, es) \<Rightarrow>
          (case view_store st1 p of None \<Rightarrow> None | Some v \<Rightarrow> Some (st1, es @ raise_view v)))"

section \<open>Scene nodes\<close>

definition view_update_scene :: "fwr_view \<Rightarrow> effect list" where
  "view_update_scene v =
     (case (v_scene_tree v, v_scene_xdg_tree v) of
        (Some _, Some t) \<Rightarrow> [Scene (SetPosition t 0 0)] | _ \<Rightarrow> [])"

definition view_create_scene :: "wlr_env \<Rightarrow> fwr_view \<Rightarrow> (fwr_view \<times> effect list) option" where
  "view_create_scene env v =
     (if v_scene_tree v \<noteq> None then Some (v, [])
      else if \<not> e_scene env then Some (v, [])
      else case e_scene_create env of
        None \<Rightarrow> None
      | Some t \<Rightarrow>
          let v1 = v\<lparr>v_scene_tree := Some t, v_scene_xdg_tree := e_scene_xdg_create env\<rparr>
          in Some (v1, [Scene TreeCreate, Scene (SetPosition t (v_x v) (v_y v)), Scene (XdgCreate t (v_xdg_surface v))]
               @ view_update_scene v1))"

definition view_destroy_scene :: "fwr_view \<Rightarrow> fwr_view \<times> effect list" where
  "view_destroy_scene v =
     (v\<lparr>v_scene_tree := None, v_scene_xdg_tree := None\<rparr>,
      case v_scene_tree v of Some t \<Rightarrow> [Scene (DestroyNode t)] | None \<Rightarrow> [])"

section \<open>Events of the client\<close>

definition output_id_of :: "fwr_instance \<Rightarrow> ptr option \<Rightarrow> u32 option" where
  "output_id_of st out = (case out of None \<Rightarrow> Some 0 | Some p \<Rightarrow> map_option out_id (output_store st p))"

text \<open>\<open>out ? out->wlr_output->scale : 1.0\<close>\<close>

definition output_scale_of :: "wlr_env \<Rightarrow> fwr_instance \<Rightarrow> ptr option \<Rightarrow> u64 option" where
  "output_scale_of env st out =
     (case out of None \<Rightarrow> Some (f64_of_int 1)
      | Some p \<Rightarrow> map_option (\<lambda>o'. e_output_scale env (out_wlr o')) (output_store st p))"

definition surface_map_fields :: "wlr_env \<Rightarrow> u32 \<Rightarrow> wref \<Rightarrow> fwr_view \<Rightarrow> (string \<times> bval) list" where
  "surface_map_fields env output_id surface v =
     [(''handle'', bhandle (v_handle v)), (''texture_id'', bint (v_texture_id v)),
      (''x'', bint (v_x v)), (''y'', bint (v_y v)),
      (''width'', bint (v_width v)), (''height'', bint (v_height v)),
      (''buffer_width'', bint (e_surface_width env surface)), (''buffer_height'', bint (e_surface_height env surface)),
      (''geo_x'', bint (geo_x v)), (''geo_y'', bint (geo_y v)),
      (''client_pid'', bint (e_pid env (v_xdg_surface v))), (''client_uid'', bhandle (e_uid env (v_xdg_surface v))),
      (''client_gid'', bhandle (e_gid env (v_xdg_surface v))),
      (''title'', c_string (e_title env (v_toplevel v))), (''app_id'', c_string (e_app_id env (v_toplevel v))),
      (''maximized'', bflag (v_maximized v)), (''activated'', bflag (v_activated v)),
      (''uses_csd'', bflag (\<not> uses_ssd v)),
      (''output_id'', bhandle output_id), (''output_scale'', BFloat64 (v_output_scale v))]"

definition xdg_toplevel_map :: "wlr_env \<Rightarrow> ptr \<Rightarrow> fwr_instance \<Rightarrow> outcome" where
  "xdg_toplevel_map env p st =
     Option.bind (view_store st p) (\<lambda>v0.
     Option.bind (view_create_scene env v0) (\<lambda>(v1, es1).
     let g = e_geometry env (v_xdg_surface v1);
         v2 = v1\<lparr>v_width := box_width g, v_height := box_height g, geo_x := box_x g, geo_y := box_y g\<rparr> in
     Option.bind (fwr_output_for_box env st (v_x v2) (v_y v2) (v_width v2) (v_height v2)) (\<lambda>out.
     Option.bind (output_scale_of env st out) (\<lambda>scale.
     Option.bind (output_id_of st out) (\<lambda>oid.
     Option.bind (e_surface env (v_xdg_surface v2)) (\<lambda>surface.
     let v3 = v2\<lparr>v_current_output := out, v_output_scale := scale, v_texture_id := uint (v_handle v2),
                 v_texture_registered := e_register_ok env\<rparr>;
         en = (case v_scene_tree v1 of Some t \<Rightarrow> [Scene (SetEnabled t True)] | None \<Rightarrow> [])
     in Option.bind (fwr_focus_view env p (set_view p v3 st)) (\<lambda>(st', es').
       Some (st', es1 @ en @ [Engine (RegisterTexture (uint (v_handle v2)))]
         @ send_message ''surface_map'' 20 (surface_map_fields env oid surface v3) @ es'))))))))"

text \<open>The response handle made for \<open>surface_unmap\<close> is not released.\<close>

definition xdg_toplevel_unmap :: "ptr \<Rightarrow> fwr_instance \<Rightarrow> outcome" where
  "xdg_toplevel_unmap p st =
     Option.bind (view_store st p) (\<lambda>v.
       Some (st, (case v_scene_tree v of Some t \<Rightarrow> [Scene (SetEnabled t False)] | None \<Rightarrow> [])
         @ [Engine CreateHandle,
            Engine (Message (map_message ''surface_unmap'' 1 [(''handle'', bhandle (v_handle v))]) True)]))"

definition send_surface_title :: "wlr_env \<Rightarrow> fwr_view \<Rightarrow> effect list" where
  "send_surface_title env v =
     send_message ''surface_title'' 3 [(''handle'', bhandle (v_handle v)),
       (''title'', c_string (e_title env (v_toplevel v))), (''app_id'', c_string (e_app_id env (v_toplevel v)))]"

definition xdg_toplevel_set_title :: "wlr_env \<Rightarrow> ptr \<Rightarrow> fwr_instance \<Rightarrow> outcome" where
  "xdg_toplevel_set_title env p st = Option.bind (view_store st p) (\<lambda>v. Some (st, send_surface_title env v))"

definition xdg_toplevel_set_app_id :: "wlr_env \<Rightarrow> ptr \<Rightarrow> fwr_instance \<Rightarrow> outcome" where
  "xdg_toplevel_set_app_id env p st = Option.bind (view_store st p) (\<lambda>v. Some (st, send_surface_title env v))"

definition fwr_send_decoration_update :: "fwr_view \<Rightarrow> effect list" where
  "fwr_send_decoration_update v =
     send_message ''surface_decoration'' 2 [(''handle'', bhandle (v_handle v)), (''uses_csd'', bflag (\<not> uses_ssd v))]"

definition send_surface_geometry :: "wlr_env \<Rightarrow> wref \<Rightarrow> fwr_view \<Rightarrow> effect list" where
  "send_surface_geometry env surface v =
     send_message ''surface_geometry'' 7 [(''handle'', bhandle (v_handle v)),
       (''width'', bint (v_width v)), (''height'', bint (v_height v)),
       (''buffer_width'', bint (e_surface_width env surface)), (''buffer_height'', bint (e_surface_height env surface)),
       (''geo_x'', bint (geo_x v)), (''geo_y'', bint (geo_y v))]"

definition xdg_toplevel_commit :: "wlr_env \<Rightarrow> ptr \<Rightarrow> fwr_instance \<Rightarrow> outcome" where
  "xdg_toplevel_commit env p st =
     Option.bind (view_store st p) (\<lambda>v.
     let g = e_geometry env (v_xdg_surface v);
         geo_changed = (v_width v \<noteq> box_width g \<or> v_height v \<noteq> box_height g \<or> geo_x v \<noteq> box_x g \<or> geo_y v \<noteq> box_y g);
         v1 = v\<lparr>v_width := box_width g, v_height := box_height g, geo_x := box_x g, geo_y := box_y g\<rparr>;
         es = view_update_scene v1
           @ (if v_texture_registered v1 then [Engine (MarkFrameAvailable (v_texture_id v1))] else [])
     in if geo_changed
        then Option.bind (e_surface env (v_xdg_surface v)) (\<lambda>surface.
               Some (set_view p v1 st, es @ send_surface_geometry env surface v1))
        else Some (set_view p v1 st, es))"

definition xdg_toplevel_destroy :: "ptr \<Rightarrow> fwr_instance \<Rightarrow> outcome" where
  "xdg_toplevel_destroy p st =
     Option.bind (view_store st p) (\<lambda>v.
       let (v1, es) = view_destroy_scene v in
       Some (st\<lparr>surface_button_states := fwr_clear_surface_buttons (v_handle v) (surface_button_states st),
                views := snd (handle_map_remove (views st) (v_handle v)),
                views_list := remove1 p (views_list st),
                view_store := (view_store st)(p := None)\<rparr>,
             (if v_texture_registered v then [Engine (UnregisterTexture (v_texture_id v))] else [])
             @ [DestroyCachedTexture p] @ es))"

text \<open>The two grabs that a client with its own decorations starts.\<close>

definition xdg_toplevel_request_move :: "wlr_env \<Rightarrow> ptr \<Rightarrow> fwr_instance \<Rightarrow> outcome" where
  "xdg_toplevel_request_move env p st =
     Option.bind (view_store st p) (\<lambda>v.
       let i = input st;
           g = (grab i)\<lparr>grab_type := FWR_GRAB_MOVE, grab_view_handle := v_handle v,
             start_cursor_x := flutter_cursor_x i, start_cursor_y := flutter_cursor_y i,
             start_view_x := v_x v, start_view_y := v_y v\<rparr>
       in focus_and_raise env p (st\<lparr>input := i\<lparr>grab := g\<rparr>\<rparr>))"

definition xdg_toplevel_request_resize :: "wlr_env \<Rightarrow> u32 \<Rightarrow> ptr \<Rightarrow> fwr_instance \<Rightarrow> outcome" where
  "xdg_toplevel_request_resize env edges p st =
     Option.bind (view_store st p) (\<lambda>v.
       let i = input st;
           g = (grab i)\<lparr>grab_type := FWR_GRAB_RESIZE, grab_view_handle := v_handle v,
             start_cursor_x := flutter_cursor_x i, start_cursor_y := flutter_cursor_y i,
             start_view_x := v_x v, start_view_y := v_y v,
             start_view_width := v_width v, start_view_height := v_height v, resize_edges := edges\<rparr>
       in focus_and_raise env p (st\<lparr>input := i\<lparr>grab := g\<rparr>\<rparr>))"

definition send_surface_minimize :: "fwr_view \<Rightarrow> effect list" where
  "send_surface_minimize v = send_message ''surface_minimize'' 1 [(''handle'', bhandle (v_handle v))]"

definition xdg_toplevel_request_minimize :: "ptr \<Rightarrow> fwr_instance \<Rightarrow> outcome" where
  "xdg_toplevel_request_minimize p st = Option.bind (view_store st p) (\<lambda>v. Some (st, send_surface_minimize v))"

definition send_surface_maximize_request :: "fwr_view \<Rightarrow> bool \<Rightarrow> effect list" where
  "send_surface_maximize_request v maximized =
     send_message ''surface_request_maximize'' 2 [(''handle'', bhandle (v_handle v)), (''maximized'', bflag maximized)]"

definition xdg_toplevel_request_maximize :: "ptr \<Rightarrow> fwr_instance \<Rightarrow> outcome" where
  "xdg_toplevel_request_maximize p st =
     Option.bind (view_store st p) (\<lambda>v. Some (st, send_surface_maximize_request v (\<not> v_maximized v)))"

text \<open>A new toplevel, allocated at \<open>e_calloc\<close>, zeroed and filled in.\<close>

definition fwr_new_xdg_toplevel :: "wlr_env \<Rightarrow> wref \<Rightarrow> wref \<Rightarrow> fwr_instance \<Rightarrow> outcome" where
  "fwr_new_xdg_toplevel env toplevel xdg_surface st =
     (let p = e_calloc env;
          (h, vs) = handle_map_add (views st) p;
          off = uint (h mod 10) * 32;
          v = \<lparr>v_handle = h, v_toplevel = toplevel, v_xdg_surface = xdg_surface, v_x = 50 + off, v_y = 50 + off,
               v_width = 0, v_height = 0, v_current_output = None, v_output_scale = 0, geo_x = 0, geo_y = 0,
               v_maximized = False, v_fullscreen = False, v_activated = False, uses_ssd = False, v_texture_id = 0,
               v_texture_registered = False, v_subsurfaces = [], v_scene_tree = None, v_scene_xdg_tree = None,
               resize_in_progress = False, pending_width = 0, pending_height = 0, resize_request_id = 0\<rparr>
      in Some (st\<lparr>view_store := (view_store st)(p \<mapsto> v), views := vs, views_list := p # views_list st,
                  xdg_data := (xdg_data st)(xdg_surface \<mapsto> p)\<rparr>,
           [Toplevel toplevel (SetSize 0 0)]))"

section \<open>Requests from Dart\<close>

text \<open>
  The frame of every request handler: a message that does not decode is answered with an error,
  an unknown handle with success (the surface may just have gone), and the action is followed
  by success.
\<close>

definition decode_or_fail :: "'a decoded \<Rightarrow> fwr_instance \<Rightarrow> ('a \<Rightarrow> outcome) \<Rightarrow> outcome" where
  "decode_or_fail d st f =
     (case d of Decoded m \<Rightarrow> f m | Rejected \<Rightarrow> Some (st, [respond_failure]) | OutOfBounds \<Rightarrow> None)"

definition with_view :: "u32 \<Rightarrow> fwr_instance \<Rightarrow> (ptr \<Rightarrow> fwr_view \<Rightarrow> outcome) \<Rightarrow> outcome" where
  "with_view h st act =
     (case get_view st h of
        NotFound \<Rightarrow> Some (st, [respond_success])
      | Dangling \<Rightarrow> None
      | Found p v \<Rightarrow> map_option (\<lambda>(st', es). (st', es @ [respond_success])) (act p v))"

definition fwr_handle_surface_toplevel_set_size :: "wlr_env \<Rightarrow> dart_value \<Rightarrow> fwr_instance \<Rightarrow> outcome" where
  "fwr_handle_surface_toplevel_set_size env args st =
     decode_or_fail (decode_surface_toplevel_set_size_message args) st (\<lambda>m.
     with_view (ss_surface_handle m) st (\<lambda>p v.
       Some (st, if e_is_toplevel env (v_xdg_surface v)
         then [Toplevel (v_toplevel v) (SetSize (to_i32 (ss_size_x m)) (to_i32 (ss_size_y m)))] else [])))"

definition fwr_handle_surface_toplevel_set_maximized :: "wlr_env \<Rightarrow> dart_value \<Rightarrow> fwr_instance \<Rightarrow> outcome" where
  "fwr_handle_surface_toplevel_set_maximized env args st =
     decode_or_fail (decode_surface_toplevel_set_maximized_message args) st (\<lambda>m.
     with_view (sm_surface_handle m) st (\<lambda>p v.
       Some (if e_is_toplevel env (v_xdg_surface v)
         then (set_view p (v\<lparr>v_maximized := sm_maximized m \<noteq> 0\<rparr>) st, [Toplevel (v_toplevel v) (SetMaximized (sm_maximized m \<noteq> 0))])
         else (st, []))))"

definition fwr_handle_surface_toplevel_close :: "wlr_env \<Rightarrow> dart_value \<Rightarrow> fwr_instance \<Rightarrow> outcome" where
  "fwr_handle_surface_toplevel_close env args st =
     decode_or_fail (decode_surface_toplevel_close_message args) st (\<lambda>m.
     with_view (tc_surface_handle m) st (\<lambda>p v.
       Some (st, if e_is_toplevel env (v_xdg_surface v) then [Toplevel (v_toplevel v) SendClose] else [])))"

definition fwr_handle_surface_focus :: "wlr_env \<Rightarrow> dart_value \<Rightarrow> fwr_instance \<Rightarrow> outcome" where
  "fwr_handle_surface_focus env args st =
     decode_or_fail (decode_surface_toplevel_close_message args) st (\<lambda>m.
     with_view (tc_surface_handle m) st (\<lambda>p v. focus_and_raise env p st))"

definition FWR_SSD_TITLEBAR_HEIGHT :: int where "FWR_SSD_TITLEBAR_HEIGHT = 38"

text \<open>The loop over the subsurfaces of a view, and the one over all popups.\<close>

fun move_subsurfaces :: "ptr option \<Rightarrow> u64 \<Rightarrow> ptr list \<Rightarrow> fwr_instance \<Rightarrow> fwr_instance option" where
  "move_subsurfaces out scale [] st = Some st"
| "move_subsurfaces out scale (q # qs) st =
     (case subsurface_store st q of
        None \<Rightarrow> None
      | Some s \<Rightarrow> move_subsurfaces out scale qs (set_subsurface q (s\<lparr>s_current_output := out, s_output_scale := scale\<rparr>) st))"

fun move_popups :: "ptr \<Rightarrow> ptr option \<Rightarrow> u64 \<Rightarrow> (u32 \<times> ptr) list \<Rightarrow> fwr_instance \<Rightarrow> fwr_instance option" where
  "move_popups p out scale [] st = Some st"
| "move_popups p out scale ((h, q) # qs) st =
     (case popup_store st q of
        None \<Rightarrow> None
      | Some s \<Rightarrow> move_popups p out scale qs
          (if p_parent_view s = p then set_popup q (s\<lparr>p_current_output := out, p_output_scale := scale\<rparr>) st else st))"

definition fwr_handle_surface_set_position :: "wlr_env \<Rightarrow> dart_value \<Rightarrow> fwr_instance \<Rightarrow> outcome" where
  "fwr_handle_surface_set_position env args st =
     decode_or_fail (decode_surface_set_position_message args) st (\<lambda>m.
     with_view (sp_surface_handle m) st (\<lambda>p v.
       let v1 = v\<lparr>v_x := to_i32 (sp_x m), v_y := to_i32 (sp_y m)\<rparr> in
       Option.bind (fwr_output_for_box env st (v_x v1) (v_y v1) (v_width v1) (v_height v1)) (\<lambda>out.
       Option.bind
         (if v_current_output v1 \<noteq> out
          then Option.bind (output_scale_of env st out) (\<lambda>scale.
               Option.bind (move_subsurfaces out scale (v_subsurfaces v1)
                 (set_view p (v1\<lparr>v_current_output := out, v_output_scale := scale\<rparr>) st))
                 (\<lambda>st1. move_popups p out scale (entries (popups st1)) st1))
          else Some (set_view p v1 st))
         (\<lambda>st2. case v_scene_tree v1 of
            None \<Rightarrow> Some (st2, [])
          | Some t \<Rightarrow>
              Option.bind (i32 (v_y v1 + (if uses_ssd v1 then FWR_SSD_TITLEBAR_HEIGHT else 0))) (\<lambda>y.
                Some (st2, [Scene (SetPosition t (v_x v1) y)]))))))"

text \<open>An element of an argument list read as an integer, 0 for another type.\<close>

definition int_arg :: "dart_value list \<Rightarrow> nat \<Rightarrow> u64 option" where
  "int_arg vs i =
     (if i < length vs then Some (case vs ! i of DvInteger n \<Rightarrow> n | _ \<Rightarrow> 0) else None)"

definition fwr_handle_surface_request_resize :: "wlr_env \<Rightarrow> dart_value \<Rightarrow> fwr_instance \<Rightarrow> outcome" where
  "fwr_handle_surface_request_resize env args st =
     (case args of
        DvList n vs \<Rightarrow>
          if n < 4 then Some (st, [respond_failure])
          else
            Option.bind (int_arg vs 0) (\<lambda>h. Option.bind (int_arg vs 1) (\<lambda>w.
            Option.bind (int_arg vs 2) (\<lambda>ht. Option.bind (int_arg vs 3) (\<lambda>rid.
            with_view (ucast h) st (\<lambda>p v.
              Some (set_view p (v\<lparr>resize_in_progress := True, pending_width := to_i32 w, pending_height := to_i32 ht,
                                  resize_request_id := rid\<rparr>) st,
                (if e_is_toplevel env (v_xdg_surface v) then [Toplevel (v_toplevel v) (SetResizing True)] else [])
                @ [Toplevel (v_toplevel v) (SetSize (to_i32 w) (to_i32 ht))]))))))
      | _ \<Rightarrow> Some (st, [respond_failure]))"

definition fwr_handle_surface_end_resize :: "wlr_env \<Rightarrow> dart_value \<Rightarrow> fwr_instance \<Rightarrow> outcome" where
  "fwr_handle_surface_end_resize env args st =
     (case args of
        DvList n vs \<Rightarrow>
          if n < 1 then Some (st, [respond_failure])
          else
            Option.bind (int_arg vs 0) (\<lambda>h.
            with_view (ucast h) st (\<lambda>p v.
              Some (set_view p (v\<lparr>resize_in_progress := False, pending_width := 0, pending_height := 0,
                                  resize_request_id := 0\<rparr>) st,
                if e_is_toplevel env (v_xdg_surface v) then [Toplevel (v_toplevel v) (SetResizing False)] else [])))
      | _ \<Rightarrow> Some (st, [respond_failure]))"

end
