(* ===== verification/Popups.thy ===== *)
theory Popups
  imports Views
begin

text \<open>
  \<open>src/surface.c\<close>, the surfaces that belong to a toplevel: subsurfaces, which a view lists, and
  popups, which only the handle map holds. Both keep a pointer to their parent view. Their
  textures have the handle of the surface plus an offset as identifier.
\<close>

section \<open>Subsurfaces\<close>

definition send_subsurface_map :: "fwr_subsurface \<Rightarrow> fwr_view \<Rightarrow> effect list" where
  "send_subsurface_map s parent =
     send_message ''subsurface_map'' 7 [(''handle'', bhandle (s_handle s)), (''parent_handle'', bhandle (v_handle parent)),
       (''texture_id'', bint (s_texture_id s)), (''x'', bint (s_x s)), (''y'', bint (s_y s)),
       (''width'', bint (s_width s)), (''height'', bint (s_height s))]"

definition send_subsurface_unmap :: "fwr_subsurface \<Rightarrow> fwr_view \<Rightarrow> effect list" where
  "send_subsurface_unmap s parent =
     send_message ''subsurface_unmap'' 2 [(''handle'', bhandle (s_handle s)), (''parent_handle'', bhandle (v_handle parent))]"

definition send_subsurface_position :: "fwr_subsurface \<Rightarrow> fwr_view \<Rightarrow> effect list" where
  "send_subsurface_position s parent =
     send_message ''subsurface_position'' 6 [(''handle'', bhandle (s_handle s)), (''parent_handle'', bhandle (v_handle parent)),
       (''x'', bint (s_x s)), (''y'', bint (s_y s)), (''width'', bint (s_width s)), (''height'', bint (s_height s))]"

text \<open>
  Every handler starts at \<open>sub->parent_view->instance\<close>. \<open>pos\<close> is the position that the
  \<open>wlr_subsurface\<close> has now.
\<close>

definition with_subsurface ::
    "ptr \<Rightarrow> fwr_instance \<Rightarrow> (fwr_subsurface \<Rightarrow> fwr_view \<Rightarrow> outcome) \<Rightarrow> outcome" where
  "with_subsurface q st f =
     Option.bind (subsurface_store st q) (\<lambda>s. Option.bind (view_store st (s_parent_view s)) (\<lambda>parent. f s parent))"

text \<open>\<open>100000 + handle\<close>, computed in \<open>uint32_t\<close>.\<close>

definition subsurface_texture_id :: "u32 \<Rightarrow> int" where "subsurface_texture_id h = uint (100000 + h)"
definition popup_texture_id :: "u32 \<Rightarrow> int" where "popup_texture_id h = uint (h + 200000)"

definition subsurface_handle_map :: "wlr_env \<Rightarrow> int \<times> int \<Rightarrow> ptr \<Rightarrow> fwr_instance \<Rightarrow> outcome" where
  "subsurface_handle_map env pos q st =
     with_subsurface q st (\<lambda>s parent.
       let s1 = s\<lparr>s_width := e_surface_width env (s_surface s), s_height := e_surface_height env (s_surface s),
                  s_x := fst pos, s_y := snd pos, s_texture_id := subsurface_texture_id (s_handle s),
                  s_texture_registered := e_register_ok env\<rparr>
       in Some (set_subsurface q s1 st,
            Engine (RegisterTexture (s_texture_id s1)) # send_subsurface_map s1 parent))"

definition subsurface_handle_unmap :: "ptr \<Rightarrow> fwr_instance \<Rightarrow> outcome" where
  "subsurface_handle_unmap q st = with_subsurface q st (\<lambda>s parent. Some (st, send_subsurface_unmap s parent))"

definition subsurface_handle_commit :: "wlr_env \<Rightarrow> int \<times> int \<Rightarrow> ptr \<Rightarrow> fwr_instance \<Rightarrow> outcome" where
  "subsurface_handle_commit env pos q st =
     with_subsurface q st (\<lambda>s parent.
       let s1 = s\<lparr>s_width := e_surface_width env (s_surface s), s_height := e_surface_height env (s_surface s),
                  s_x := fst pos, s_y := snd pos\<rparr>
       in Some (set_subsurface q s1 st,
            (if s_texture_registered s then [Engine (MarkFrameAvailable (s_texture_id s))] else [])
            @ (if s_x s \<noteq> s_x s1 \<or> s_y s \<noteq> s_y s1 \<or> s_width s \<noteq> s_width s1 \<or> s_height s \<noteq> s_height s1
               then send_subsurface_position s1 parent else [])))"

definition subsurface_handle_destroy :: "ptr \<Rightarrow> fwr_instance \<Rightarrow> outcome" where
  "subsurface_handle_destroy q st =
     with_subsurface q st (\<lambda>s parent.
       Some (set_view (s_parent_view s) (parent\<lparr>v_subsurfaces := remove1 q (v_subsurfaces parent)\<rparr>)
              (st\<lparr>subsurfaces := snd (handle_map_remove (subsurfaces st) (s_handle s)),
                  subsurface_store := (subsurface_store st)(q := None)\<rparr>),
             (if s_texture_registered s then [Engine (UnregisterTexture (s_texture_id s))] else [])
             @ [DestroyCachedTexture q]))"

definition handle_new_subsurface :: "wlr_env \<Rightarrow> wref \<Rightarrow> wref \<Rightarrow> ptr \<Rightarrow> fwr_instance \<Rightarrow> outcome" where
  "handle_new_subsurface env wsub surface p st =
     Option.bind (view_store st p) (\<lambda>v.
       let q = e_calloc env;
           (h, ss) = handle_map_add (subsurfaces st) q;
           s = \<lparr>s_handle = h, s_parent_view = p, s_wlr_subsurface = wsub, s_surface = surface, s_x = 0, s_y = 0,
                s_width = 0, s_height = 0, s_current_output = None, s_output_scale = 0, s_texture_id = 0,
                s_texture_registered = False\<rparr>
       in Some (set_view p (v\<lparr>v_subsurfaces := q # v_subsurfaces v\<rparr>)
                 (set_subsurface q s (st\<lparr>subsurfaces := ss\<rparr>)), []))"

section \<open>Popups\<close>

text \<open>
  What a popup handler reads of its \<open>wlr_xdg_popup\<close>: current and scheduled geometry, and the
  subsurfaces below and above, each with its surface (or NULL).
\<close>

record popup_view =
  pop_current :: wlr_box
  pop_scheduled :: wlr_box
  pop_below :: "wref option list"
  pop_above :: "wref option list"

definition first_mapped :: "wlr_env \<Rightarrow> wref option list \<Rightarrow> wref option" where
  "first_mapped env ss = (case List.find (\<lambda>s. case s of None \<Rightarrow> False | Some w \<Rightarrow> e_mapped env w) ss of
     None \<Rightarrow> None | Some s \<Rightarrow> s)"

definition content_surface :: "wlr_env \<Rightarrow> popup_view \<Rightarrow> wref \<Rightarrow> wref" where
  "content_surface env pv surf =
     (case first_mapped env (pop_below pv) of
        Some w \<Rightarrow> w
      | None \<Rightarrow> (case first_mapped env (pop_above pv) of Some w \<Rightarrow> w | None \<Rightarrow> surf))"

definition popup_map_fields :: "u32 \<Rightarrow> fwr_popup \<Rightarrow> (string \<times> bval) list" where
  "popup_map_fields output_id pp =
     [(''handle'', bhandle (p_handle pp)), (''parent_handle'', bhandle (parent_view_handle pp)),
      (''x'', bint (p_x pp)), (''y'', bint (p_y pp)), (''width'', bint (p_width pp)), (''height'', bint (p_height pp)),
      (''texture_id'', bint (p_texture_id pp)), (''output_id'', bhandle output_id),
      (''output_scale'', BFloat64 (p_output_scale pp))]"

definition send_popup_map :: "wlr_env \<Rightarrow> popup_view \<Rightarrow> ptr \<Rightarrow> fwr_instance \<Rightarrow> outcome" where
  "send_popup_map env pv q st =
     Option.bind (popup_store st q) (\<lambda>pp.
     Option.bind (e_surface env (p_xdg_surface pp)) (\<lambda>surf.
     Option.bind (output_id_of st (p_current_output pp)) (\<lambda>oid.
       let g = (if box_width (pop_current pv) = 0 \<or> box_height (pop_current pv) = 0 then pop_scheduled pv else pop_current pv);
           c = content_surface env pv surf;
           w = e_surface_width env c; h = e_surface_height env c;
           (w1, h1) = (if w = 0 \<or> h = 0
             then (if box_width g > 0 then box_width g else e_surface_width env surf,
                   if box_height g > 0 then box_height g else e_surface_height env surf)
             else (w, h));
           pp1 = pp\<lparr>p_x := box_x g, p_y := box_y g, p_width := w1, p_height := h1\<rparr>
       in Some (set_popup q pp1 st, send_message ''popup_map'' 9 (popup_map_fields oid pp1)))))"

definition send_popup_unmap :: "fwr_popup \<Rightarrow> effect list" where
  "send_popup_unmap pp = send_message ''popup_unmap'' 1 [(''handle'', bhandle (p_handle pp))]"

text \<open>Registration of the texture in the map handler and in the fallback of the commit handler.\<close>

definition register_popup_texture :: "wlr_env \<Rightarrow> ptr \<Rightarrow> fwr_popup \<Rightarrow> fwr_instance \<Rightarrow> fwr_instance \<times> effect list" where
  "register_popup_texture env q pp st =
     (let i = popup_texture_id (p_handle pp) in
      (set_popup q (pp\<lparr>p_texture_id := i, p_texture_registered := e_register_ok env\<rparr>) st, [Engine (RegisterTexture i)]))"

definition popup_handle_map :: "wlr_env \<Rightarrow> popup_view \<Rightarrow> ptr \<Rightarrow> fwr_instance \<Rightarrow> outcome" where
  "popup_handle_map env pv q st =
     Option.bind (popup_store st q) (\<lambda>pp.
       let (st1, es1) = (if \<not> p_texture_registered pp then register_popup_texture env q pp st else (st, []))
       in map_option (\<lambda>(st2, es2). (st2, es1 @ es2)) (send_popup_map env pv q st1))"

definition popup_handle_unmap :: "ptr \<Rightarrow> fwr_instance \<Rightarrow> outcome" where
  "popup_handle_unmap q st =
     Option.bind (popup_store st q) (\<lambda>pp.
       Some (if p_texture_registered pp
         then (set_popup q (pp\<lparr>p_texture_registered := False\<rparr>) st,
               send_popup_unmap pp @ [Engine (UnregisterTexture (p_texture_id pp))])
         else (st, send_popup_unmap pp)))"

definition popup_handle_destroy :: "ptr \<Rightarrow> fwr_instance \<Rightarrow> outcome" where
  "popup_handle_destroy q st =
     Option.bind (popup_store st q) (\<lambda>pp.
       Some (st\<lparr>surface_button_states := fwr_clear_surface_buttons (p_handle pp + 200000) (surface_button_states st),
                popups := snd (handle_map_remove (popups st) (p_handle pp)),
                popup_store := (popup_store st)(q := None)\<rparr>,
             (case p_scene_tree pp of Some t \<Rightarrow> [Scene (DestroyNode t)] | None \<Rightarrow> [])
             @ (if p_texture_registered pp then [Engine (UnregisterTexture (p_texture_id pp))] else [])
             @ [DestroyCachedTexture q]))"

text \<open>
  The first commit: the popup is kept inside the parent's output, which is looked up when the
  parent has none. The result is the new state and the box.
\<close>

definition constraint_output :: "wlr_env \<Rightarrow> fwr_view \<Rightarrow> fwr_instance \<Rightarrow> ptr option option" where
  "constraint_output env parent st =
     (case v_current_output parent of
        Some o' \<Rightarrow> Some (Some o')
      | None \<Rightarrow>
          (case fwr_output_for_box env st (v_x parent) (v_y parent) (v_width parent) (v_height parent) of
             None \<Rightarrow> None
           | Some (Some o') \<Rightarrow> Some (Some o')
           | Some None \<Rightarrow> Some (fwr_get_first_output st)))"

definition popup_unconstrain :: "wlr_env \<Rightarrow> ptr \<Rightarrow> fwr_popup \<Rightarrow> fwr_instance \<Rightarrow> outcome" where
  "popup_unconstrain env q pp st =
     Option.bind (view_store st (p_parent_view pp)) (\<lambda>parent.
     Option.bind (constraint_output env parent st) (\<lambda>out.
     Option.bind (output_scale_of env st out) (\<lambda>scale.
       let parent1 = (if v_current_output parent = None \<and> out \<noteq> None \<and>
                          fwr_output_for_box env st (v_x parent) (v_y parent) (v_width parent) (v_height parent) \<noteq> Some None
                      then parent\<lparr>v_current_output := out, v_output_scale := scale\<rparr> else parent);
           w = (case out of None \<Rightarrow> None | Some o' \<Rightarrow> map_option out_wlr (output_store st o'));
           b = e_layout_box env w;
           pp1 = (if out \<noteq> None then pp\<lparr>p_current_output := out, p_output_scale := scale\<rparr> else pp);
           b1 = (if box_width b \<le> 0 \<or> box_height b \<le> 0 then b\<lparr>box_width := 1920, box_height := 1080\<rparr> else b)
       in Option.bind (i32 (box_x b1 - v_x parent1)) (\<lambda>x.
          Option.bind (i32 (box_y b1 - v_y parent1)) (\<lambda>y.
            Some (set_popup q (pp1\<lparr>unconstrained := True\<rparr>) (set_view (p_parent_view pp) parent1 st),
              [UnconstrainPopup (p_xdg_popup pp) (b1\<lparr>box_x := x, box_y := y\<rparr>)]))))))"

text \<open>
  The part of a commit after the constraint: nothing for an unmapped surface; otherwise the
  texture is registered if it was not, a changed size is reported, and the texture is marked.
\<close>

definition popup_refresh :: "wlr_env \<Rightarrow> popup_view \<Rightarrow> ptr \<Rightarrow> fwr_instance \<Rightarrow> outcome" where
  "popup_refresh env pv q st =
     Option.bind (popup_store st q) (\<lambda>pp.
     Option.bind (e_surface env (p_xdg_surface pp)) (\<lambda>surf.
       if \<not> e_mapped env surf then Some (st, [])
       else
         Option.bind
           (if p_texture_registered pp then Some (st, [])
            else let (st1, es1) = register_popup_texture env q pp st in
                 if e_register_ok env then map_option (\<lambda>(s, es). (s, es1 @ es)) (send_popup_map env pv q st1)
                 else Some (st1, es1))
           (\<lambda>(st2, es2).
         Option.bind (popup_store st2 q) (\<lambda>pp2.
           if \<not> p_texture_registered pp2 then Some (st2, es2)
           else
             let c = content_surface env pv surf; w = e_surface_width env c; h = e_surface_height env c in
             Option.bind
               (if w > 0 \<and> h > 0 \<and> (w \<noteq> p_width pp2 \<or> h \<noteq> p_height pp2)
                then send_popup_map env pv q st2 else Some (st2, []))
               (\<lambda>(st3, es3). Some (st3, es2 @ es3 @ [Engine (MarkFrameAvailable (p_texture_id pp2))]))))))"

definition popup_handle_commit :: "wlr_env \<Rightarrow> popup_view \<Rightarrow> ptr \<Rightarrow> fwr_instance \<Rightarrow> outcome" where
  "popup_handle_commit env pv q st =
     Option.bind (popup_store st q) (\<lambda>pp.
     Option.bind (if \<not> unconstrained pp then popup_unconstrain env q pp st else Some (st, [])) (\<lambda>(st1, es1).
     map_option (\<lambda>(st2, es2). (st2, es1 @ es2)) (popup_refresh env pv q st1)))"

definition popup_handle_reposition :: "wlr_env \<Rightarrow> popup_view \<Rightarrow> ptr \<Rightarrow> fwr_instance \<Rightarrow> outcome" where
  "popup_handle_reposition env pv q st =
     Option.bind (popup_store st q) (\<lambda>pp.
     Option.bind (e_surface env (p_xdg_surface pp)) (\<lambda>surf.
       let g = pop_scheduled pv;
           st1 = set_popup q (pp\<lparr>p_x := box_x g, p_y := box_y g, p_width := box_width g, p_height := box_height g\<rparr>) st
       in if e_mapped env surf then send_popup_map env pv q st1 else Some (st1, [])))"

text \<open>The loop that looks for the parent view.\<close>

fun find_view_by_xdg :: "(ptr \<Rightarrow> fwr_view option) \<Rightarrow> wref \<Rightarrow> ptr list \<Rightarrow> (ptr \<times> fwr_view) option option" where
  "find_view_by_xdg store xs [] = Some None"
| "find_view_by_xdg store xs (p # ps) =
     (case store p of
        None \<Rightarrow> None
      | Some v \<Rightarrow> if v_xdg_surface v = xs then Some (Some (p, v)) else find_view_by_xdg store xs ps)"

definition fwr_new_xdg_popup :: "wlr_env \<Rightarrow> popup_view \<Rightarrow> wref \<Rightarrow> wref \<Rightarrow> wref \<Rightarrow> fwr_instance \<Rightarrow> outcome" where
  "fwr_new_xdg_popup env pv xdg_popup base parent_surface st =
     (case e_xdg_surface_of env parent_surface of
        None \<Rightarrow> Some (st, [])
      | Some parent_xdg \<Rightarrow>
          (case find_view_by_xdg (view_store st) parent_xdg (views_list st) of
             None \<Rightarrow> None
           | Some None \<Rightarrow> Some (st, [])
           | Some (Some (p, parent)) \<Rightarrow>
               let q = e_calloc env;
                   (h, ps) = handle_map_add (popups st) q;
                   g = pop_scheduled pv;
                   (tree, es) = (case v_scene_xdg_tree parent of
                      Some t \<Rightarrow> (e_scene_xdg_create env, [Scene (XdgCreate t base)]) | None \<Rightarrow> (None, []));
                   pp = \<lparr>p_handle = h, p_xdg_popup = xdg_popup, p_xdg_surface = base, p_parent_view = p,
                         parent_view_handle = v_handle parent, p_x = box_x g, p_y = box_y g,
                         p_width = box_width g, p_height = box_height g,
                         p_current_output = v_current_output parent, p_output_scale = v_output_scale parent,
                         p_scene_tree = tree, p_texture_id = 0, p_texture_registered = False, unconstrained = False\<rparr>;
                   st1 = set_popup q pp (st\<lparr>popups := ps, xdg_data := (xdg_data st)(base \<mapsto> q)\<rparr>)
               in Option.bind (e_surface env base) (\<lambda>surf.
                    if e_mapped env surf then map_option (\<lambda>(s, es'). (s, es @ es')) (popup_handle_map env pv q st1)
                    else Some (st1, es))))"

end
