(* ===== verification/InputEvents.thy ===== *)
theory InputEvents
  imports Views
begin

text \<open>
  \<open>src/input.c\<close>: pointer motion, buttons and scrolling from the devices, window move and resize
  grabs, keyboard shortcuts, and the pointer and key events that Dart sends back for a surface or
  a popup. The wlroots cursor has moved before a motion handler looks at it: its position is
  \<open>cursor_x\<close>, \<open>cursor_y\<close> of the instance.
\<close>

section \<open>Pointer events for Flutter\<close>

text \<open>Phases, signal kinds and device kinds of \<open>flutter_embedder.h\<close>.\<close>

definition kUp :: nat where "kUp = 1"
definition kDown :: nat where "kDown = 2"
definition kMove :: nat where "kMove = 3"
definition kAdd :: nat where "kAdd = 4"
definition kRemove :: nat where "kRemove = 5"
definition kHover :: nat where "kHover = 6"
definition kSignalNone :: nat where "kSignalNone = 0"
definition kSignalScroll :: nat where "kSignalScroll = 1"
definition kDeviceMouse :: nat where "kDeviceMouse = 1"
definition kDeviceTouch :: nat where "kDeviceTouch = 2"

definition send_flutter_mouse_event :: "nat \<Rightarrow> nat \<Rightarrow> u64 \<Rightarrow> u64 \<Rightarrow> fwr_instance \<Rightarrow> effect list" where
  "send_flutter_mouse_event phase signal dx dy st =
     (if \<not> engine st then []
      else [Engine (Pointer \<lparr>pv_phase = phase, pv_x = cursor_x st, pv_y = cursor_y st, pv_device = 0,
              pv_signal_kind = signal, pv_scroll_delta_x = dx, pv_scroll_delta_y = dy,
              pv_device_kind = kDeviceMouse, pv_buttons = ucast (fl_mouse_button_mask (input st))\<rparr>)])"

section \<open>Grabs\<close>

definition send_surface_position :: "fwr_view \<Rightarrow> effect list" where
  "send_surface_position v =
     send_message_no_handle ''surface_position'' 5 [(''handle'', bhandle (v_handle v)), (''x'', bint (v_x v)),
       (''y'', bint (v_y v)), (''width'', bint (v_width v)), (''height'', bint (v_height v))]"

definition send_grab_end :: "fwr_view \<Rightarrow> fwr_instance \<Rightarrow> effect list" where
  "send_grab_end v st =
     send_message_no_handle ''surface_grab_end'' 5 [(''handle'', bhandle (v_handle v)), (''x'', bint (v_x v)),
       (''y'', bint (v_y v)), (''cursor_x'', BFloat64 (cursor_x st)), (''cursor_y'', BFloat64 (cursor_y st))]"

definition place_node :: "fwr_view \<Rightarrow> effect list" where
  "place_node v = (case v_scene_tree v of Some t \<Rightarrow> [Scene (SetPosition t (v_x v) (v_y v))] | None \<Rightarrow> [])"

text \<open>\<open>(int)(cursor - start)\<close>\<close>

definition cursor_delta :: "u64 \<Rightarrow> u64 \<Rightarrow> int option" where
  "cursor_delta c start = f64_to_i32 (f64_sub c start)"

text \<open>The move branch, for the view \<open>v\<close> and the cursor at \<open>(cx, cy)\<close>.\<close>

definition move_view :: "fwr_grab_state \<Rightarrow> u64 \<Rightarrow> u64 \<Rightarrow> fwr_view \<Rightarrow> fwr_view option" where
  "move_view g cx cy v =
     Option.bind (cursor_delta cx (start_cursor_x g)) (\<lambda>dx.
     Option.bind (cursor_delta cy (start_cursor_y g)) (\<lambda>dy.
     Option.bind (i32 (start_view_x g + dx)) (\<lambda>x.
     Option.bind (i32 (start_view_y g + dy)) (\<lambda>y. Some (v\<lparr>v_x := x, v_y := y\<rparr>)))))"

text \<open>
  The resize branch: the edges are tested one after the other, each overwriting what an earlier
  one computed; then both sizes are raised to 100.
\<close>

definition edge_top :: "u32 \<Rightarrow> bool" where "edge_top e = (and e 1 \<noteq> 0)"
definition edge_bottom :: "u32 \<Rightarrow> bool" where "edge_bottom e = (and e 2 \<noteq> 0)"
definition edge_left :: "u32 \<Rightarrow> bool" where "edge_left e = (and e 4 \<noteq> 0)"
definition edge_right :: "u32 \<Rightarrow> bool" where "edge_right e = (and e 8 \<noteq> 0)"

definition resize_axis :: "bool \<Rightarrow> bool \<Rightarrow> int \<Rightarrow> int \<Rightarrow> int \<Rightarrow> int \<Rightarrow> (int \<times> int) option" where
  "resize_axis near far cur start_pos start_size d =
     Option.bind (if near then i32 (start_size - d) else Some start_size) (\<lambda>size1.
     Option.bind (if near then i32 (start_pos + d) else Some cur) (\<lambda>pos1.
     Option.bind (if far then i32 (start_size + d) else Some size1) (\<lambda>size2.
       Some (pos1, if size2 < 100 then 100 else size2))))"

definition resize_view :: "fwr_grab_state \<Rightarrow> u64 \<Rightarrow> u64 \<Rightarrow> fwr_view \<Rightarrow> fwr_view option" where
  "resize_view g cx cy v =
     (let e = resize_edges g in
      Option.bind (if edge_left e \<or> edge_right e then cursor_delta cx (start_cursor_x g) else Some 0) (\<lambda>dx.
      Option.bind (if edge_top e \<or> edge_bottom e then cursor_delta cy (start_cursor_y g) else Some 0) (\<lambda>dy.
      Option.bind (resize_axis (edge_top e) (edge_bottom e) (v_y v) (start_view_y g) (start_view_height g) dy) (\<lambda>(y, h).
      Option.bind (resize_axis (edge_left e) (edge_right e) (v_x v) (start_view_x g) (start_view_width g) dx) (\<lambda>(x, w).
        Some (v\<lparr>v_x := x, v_y := y, v_width := w, v_height := h\<rparr>))))))"

text \<open>
  A motion during a grab, for a cursor at \<open>(cx, cy)\<close>; both the motion handler of the device and
  the pointer events of Dart contain it. A view that is gone is left out.
\<close>

definition grab_motion :: "wlr_env \<Rightarrow> u64 \<Rightarrow> u64 \<Rightarrow> fwr_instance \<Rightarrow> outcome" where
  "grab_motion env cx cy st =
     (let g = grab (input st) in
      case get_view st (grab_view_handle g) of
        NotFound \<Rightarrow> Some (st, [])
      | Dangling \<Rightarrow> None
      | Found p v \<Rightarrow>
          (case grab_type g of
             FWR_GRAB_NONE \<Rightarrow> Some (st, [])
           | FWR_GRAB_MOVE \<Rightarrow>
               Option.bind (move_view g cx cy v) (\<lambda>v1.
                 Some (set_view p v1 st, place_node v1 @ send_surface_position v1))
           | FWR_GRAB_RESIZE \<Rightarrow>
               Option.bind (resize_view g cx cy v) (\<lambda>v1.
                 Some (set_view p v1 st, place_node v1
                   @ (if e_is_toplevel env (v_xdg_surface v1)
                      then [Toplevel (v_toplevel v1) (SetSize (v_width v1) (v_height v1))] else [])
                   @ send_surface_position v1))))"

definition end_grab :: "fwr_instance \<Rightarrow> outcome" where
  "end_grab st =
     (let i = input st;
          st1 = st\<lparr>input := i\<lparr>grab := (grab i)\<lparr>grab_type := FWR_GRAB_NONE, grab_view_handle := 0\<rparr>\<rparr>\<rparr>
      in case get_view st (grab_view_handle (grab i)) of
           NotFound \<Rightarrow> Some (st1, [])
         | Dangling \<Rightarrow> None
         | Found p v \<Rightarrow> Some (st1, send_grab_end v st))"

section \<open>Events of the devices\<close>

text \<open>The surface that receives input directly, if that mode is on and the surface exists.\<close>

definition direct_view :: "fwr_instance \<Rightarrow> fwr_view lookup" where
  "direct_view st =
     (if direct_input_mode st \<and> direct_input_surface st \<noteq> 0 then get_view st (direct_input_surface st) else NotFound)"

definition process_cursor_motion :: "wlr_env \<Rightarrow> u32 \<Rightarrow> fwr_instance \<Rightarrow> outcome" where
  "process_cursor_motion env time st =
     (if grab_type (grab (input st)) \<noteq> FWR_GRAB_NONE then
        map_option (\<lambda>(st1, es). (st1, es @ send_flutter_mouse_event kMove kSignalNone 0 0 st1))
          (grab_motion env (cursor_x st) (cursor_y st) st)
      else case direct_view st of
        Dangling \<Rightarrow> None
      | Found p v \<Rightarrow>
          Option.bind (e_surface env (v_xdg_surface v)) (\<lambda>surface.
          let sx = f64_sub (cursor_x st) (f64_of_int (v_x v));
              sy = f64_sub (f64_sub (cursor_y st) (f64_of_int (v_y v))) (f64_of_int (if uses_ssd v then 38 else 0))
          in Some (st, [Seat (PointerEnter surface sx sy), Seat (PointerMotion time sx sy), Seat PointerFrame]))
      | NotFound \<Rightarrow>
          Some (st, send_flutter_mouse_event
            (if fl_mouse_button_mask (input st) \<noteq> 0 then kMove else kHover) kSignalNone 0 0 st))"

definition on_server_cursor_button :: "wlr_env \<Rightarrow> u32 \<Rightarrow> u32 \<Rightarrow> bool \<Rightarrow> fwr_instance \<Rightarrow> outcome" where
  "on_server_cursor_button env time button pressed st0 =
     (let m = flutter_button_mask_from_linux button;
          old = fl_mouse_button_mask (input st0);
          new = ucast (if pressed then or (ucast old) m else and (ucast old) (not m));
          st = st0\<lparr>input := (input st0)\<lparr>fl_mouse_button_mask := new\<rparr>\<rparr>;
          seat = [Seat (PointerButton time button pressed), Seat PointerFrame];
          phase = (if pressed then kDown else kUp)
      in if \<not> pressed \<and> button = BTN_LEFT \<and> grab_type (grab (input st)) \<noteq> FWR_GRAB_NONE
         then map_option (\<lambda>(st1, es). (st1, es @ send_flutter_mouse_event kUp kSignalNone 0 0 st1 @ seat)) (end_grab st)
         else case direct_view st of
           Dangling \<Rightarrow> None
         | Found p v \<Rightarrow> Some (st, seat)
         | NotFound \<Rightarrow>
             if e_popup_grab env
             then Some (st, send_flutter_mouse_event phase kSignalNone 0 0 st @ seat)
             else
               let st1 = st\<lparr>input := (input st)\<lparr>last_button := \<lparr>bc_time_msec = time, bc_valid = True\<rparr>\<rparr>\<rparr>
               in Some (st1, send_flutter_mouse_event phase kSignalNone 0 0 st1))"

text \<open>\<open>event\<close> is the axis event as the cache keeps it, \<open>horizontal\<close> its orientation.\<close>

definition on_server_cursor_axis :: "bool \<Rightarrow> fwr_scroll_cache \<Rightarrow> fwr_instance \<Rightarrow> outcome" where
  "on_server_cursor_axis horizontal event st =
     (case direct_view st of
        Dangling \<Rightarrow> None
      | Found p v \<Rightarrow> Some (st, [Seat (PointerAxis (sc_time_msec event) event), Seat PointerFrame])
      | NotFound \<Rightarrow>
          let c = event\<lparr>sc_valid := True\<rparr>; d = f64_neg (sc_delta event);
              st1 = st\<lparr>input := (if horizontal then (input st)\<lparr>last_scroll_x := c\<rparr> else (input st)\<lparr>last_scroll_y := c\<rparr>)\<rparr>
          in Some (st1, send_flutter_mouse_event kHover kSignalScroll (if horizontal then d else 0)
                 (if horizontal then 0 else d) st1))"

text \<open>Touch: the points of a device, and the two events of a new or lifted finger.\<close>

abbreviation "FWR_MULTITOUCH_MAX \<equiv> 10 :: int"

definition screen_size :: "wlr_env \<Rightarrow> u64 \<times> u64" where
  "screen_size env =
     (let b = e_layout_box env None in
      (f64_of_int (if box_width b > 0 then box_width b else 1), f64_of_int (if box_height b > 0 then box_height b else 1)))"

definition touch_event :: "nat \<Rightarrow> int \<Rightarrow> u64 \<times> u64 \<Rightarrow> wlr_env \<Rightarrow> effect" where
  "touch_event phase touch_id pt env =
     Engine (Pointer \<lparr>pv_phase = phase, pv_x = f64_mul (fst pt) (fst (screen_size env)),
       pv_y = f64_mul (snd pt) (snd (screen_size env)), pv_device = touch_id, pv_signal_kind = kSignalNone,
       pv_scroll_delta_x = 0, pv_scroll_delta_y = 0, pv_device_kind = kDeviceTouch, pv_buttons = 0\<rparr>)"

text \<open>
  The handlers give the new touch points of the device; \<open>touch_id\<close> is a C \<open>int32_t\<close>, and a
  negative one would index in front of the array.
\<close>

definition on_server_cursor_touch_down ::
    "wlr_env \<Rightarrow> int \<Rightarrow> u64 \<times> u64 \<Rightarrow> (u64 \<times> u64) list \<Rightarrow> fwr_instance \<Rightarrow> ((u64 \<times> u64) list \<times> effect list) option" where
  "on_server_cursor_touch_down env touch_id pt pts st =
     (if \<not> engine st then Some (pts, [])
      else if touch_id \<ge> FWR_MULTITOUCH_MAX then Some (pts, [])
      else if touch_id < 0 \<or> int (length pts) \<le> touch_id then None
      else Some (pts[nat touch_id := pt], [touch_event kAdd touch_id pt env, touch_event kDown touch_id pt env]))"

definition on_server_cursor_touch_up ::
    "wlr_env \<Rightarrow> int \<Rightarrow> (u64 \<times> u64) list \<Rightarrow> fwr_instance \<Rightarrow> ((u64 \<times> u64) list \<times> effect list) option" where
  "on_server_cursor_touch_up env touch_id pts st =
     (if \<not> engine st then Some (pts, [])
      else if touch_id \<ge> FWR_MULTITOUCH_MAX then Some (pts, [])
      else if touch_id < 0 \<or> int (length pts) \<le> touch_id then None
      else let pt = pts ! nat touch_id in
        Some (pts, [touch_event kUp touch_id pt env, touch_event kRemove touch_id pt env]))"

definition on_server_cursor_touch_motion ::
    "wlr_env \<Rightarrow> int \<Rightarrow> u64 \<times> u64 \<Rightarrow> (u64 \<times> u64) list \<Rightarrow> fwr_instance \<Rightarrow> ((u64 \<times> u64) list \<times> effect list) option" where
  "on_server_cursor_touch_motion env touch_id pt pts st =
     (if \<not> engine st then Some (pts, [])
      else if touch_id \<ge> FWR_MULTITOUCH_MAX then Some (pts, [])
      else if touch_id < 0 \<or> int (length pts) \<le> touch_id then None
      else Some (pts[nat touch_id := pt], [touch_event kMove touch_id pt env]))"

text \<open>A client asks for a cursor image; \<open>focused\<close>: its seat client has the pointer.\<close>

definition on_seat_request_cursor :: "bool \<Rightarrow> wref option \<Rightarrow> int \<Rightarrow> int \<Rightarrow> fwr_instance \<Rightarrow> outcome" where
  "on_seat_request_cursor focused surface hotspot_x hotspot_y st =
     (if focused then
        Some (st\<lparr>client_cursor_surface := surface, client_cursor_hotspot_x := hotspot_x,
                 client_cursor_hotspot_y := hotspot_y,
                 current_xcursor_name := (if surface \<noteq> None then None else current_xcursor_name st)\<rparr>,
              [CursorSetSurface surface hotspot_x hotspot_y])
      else Some (st, []))"

section \<open>Keyboard\<close>

definition get_focused_view :: "fwr_instance \<Rightarrow> fwr_view lookup" where
  "get_focused_view st =
     (if current_focused_view st = 0 then NotFound else get_view st (current_focused_view st))"

text \<open>A view that is mapped: it has a scene tree and its node is enabled.\<close>

definition mapped_view :: "wlr_env \<Rightarrow> fwr_view \<Rightarrow> bool" where
  "mapped_view env v = (case v_scene_tree v of Some t \<Rightarrow> e_scene_enabled env t | None \<Rightarrow> False)"

text \<open>
  The circular list \<open>views_list\<close> with its head: position 0 is the head, position \<open>i + 1\<close> the
  element \<open>i\<close>. \<open>link_step\<close> is \<open>next\<close> or \<open>prev\<close>.
\<close>

definition link_step :: "bool \<Rightarrow> nat \<Rightarrow> nat \<Rightarrow> nat" where
  "link_step back n i = (if back then (if i = 0 then n else i - 1) else (if i = n then 0 else i + 1))"

text \<open>The first loop, up to the head of the list.\<close>

fun mapped_until_head :: "nat \<Rightarrow> wlr_env \<Rightarrow> (ptr \<Rightarrow> fwr_view option) \<Rightarrow> bool \<Rightarrow> ptr list \<Rightarrow> nat \<Rightarrow> ptr option option option" where
  "mapped_until_head 0 env store back vs i = None"
| "mapped_until_head (Suc k) env store back vs i =
     (if i = 0 then Some (Some None)
      else case store (vs ! (i - 1)) of
        None \<Rightarrow> Some None
      | Some v \<Rightarrow> if mapped_view env v then Some (Some (Some (vs ! (i - 1))))
                 else mapped_until_head k env store back vs (link_step back (length vs) i))"

text \<open>The second loop, from the other end up to \<open>stop\<close>, passing over the head.\<close>

fun mapped_until :: "nat \<Rightarrow> wlr_env \<Rightarrow> (ptr \<Rightarrow> fwr_view option) \<Rightarrow> bool \<Rightarrow> ptr list \<Rightarrow> nat \<Rightarrow> nat \<Rightarrow> ptr option option option" where
  "mapped_until 0 env store back vs stop i = None"
| "mapped_until (Suc k) env store back vs stop i =
     (if i = stop then Some (Some None)
      else if i = 0 then mapped_until k env store back vs stop (link_step back (length vs) 0)
      else case store (vs ! (i - 1)) of
        None \<Rightarrow> Some None
      | Some v \<Rightarrow> if mapped_view env v then Some (Some (Some (vs ! (i - 1))))
                 else mapped_until k env store back vs stop (link_step back (length vs) i))"

text \<open>
  \<open>get_next_mapped_view\<close> for the view at position \<open>start\<close> of the list. The outer option is the
  fuel, the next one the access to freed views.
\<close>

definition get_next_mapped_view ::
    "nat \<Rightarrow> wlr_env \<Rightarrow> (ptr \<Rightarrow> fwr_view option) \<Rightarrow> bool \<Rightarrow> ptr list \<Rightarrow> nat \<Rightarrow> ptr option option option" where
  "get_next_mapped_view fuel env store back vs start =
     (if vs = [] then Some (Some None)
      else let n = length vs; after = link_step back n (start + 1) in
        case mapped_until_head fuel env store back vs after of
          Some (Some None) \<Rightarrow> mapped_until fuel env store back vs after (link_step back n 0)
        | r \<Rightarrow> r)"

definition focus_view_and_raise :: "wlr_env \<Rightarrow> ptr \<Rightarrow> fwr_instance \<Rightarrow> outcome" where
  "focus_view_and_raise env p st =
     Option.bind (fwr_focus_view env p st) (\<lambda>(st1, es).
     Option.bind (view_store st1 p) (\<lambda>v. Some (st1, es @ raise_view v @ place_node v)))"

datatype shortcut_key = KeyTab | KeyLeft | KeyRight | KeyUp | KeyOther

definition find_ptr :: "ptr \<Rightarrow> ptr list \<Rightarrow> nat option" where "find_ptr p vs = find_index (\<lambda>q. q = p) vs"

definition alt_tab :: "wlr_env \<Rightarrow> bool \<Rightarrow> fwr_instance \<Rightarrow> outcome" where
  "alt_tab env shift st =
     (case get_focused_view st of
        Dangling \<Rightarrow> None
      | NotFound \<Rightarrow>
          (case views_list st of
             [] \<Rightarrow> Some (st, [])
           | p # _ \<Rightarrow>
               Option.bind (view_store st p) (\<lambda>v.
                 if mapped_view env v then focus_view_and_raise env p st else Some (st, [])))
      | Found p v \<Rightarrow>
          Option.bind (find_ptr p (views_list st)) (\<lambda>i.
            case get_next_mapped_view (2 * length (views_list st) + 2) env (view_store st) shift (views_list st) i of
              None \<Rightarrow> None
            | Some None \<Rightarrow> None
            | Some (Some None) \<Rightarrow> Some (st, [])
            | Some (Some (Some q)) \<Rightarrow> focus_view_and_raise env q st))"

text \<open>Super and an arrow: half of the first output, or maximised.\<close>

definition tile_view :: "wlr_env \<Rightarrow> shortcut_key \<Rightarrow> wref \<Rightarrow> ptr \<Rightarrow> fwr_view \<Rightarrow> fwr_instance \<Rightarrow> fwr_instance \<times> effect list" where
  "tile_view env key w p v st =
     (let half = e_output_width env w div 2;
          top = e_is_toplevel env (v_xdg_surface v);
          v1 = v\<lparr>v_maximized := False, v_x := (if key = KeyLeft then 0 else half), v_y := 0,
                 v_width := half, v_height := e_output_height env w\<rparr>
      in (set_view p v1 st,
          (if top then [Toplevel (v_toplevel v) (SetMaximized False)] else []) @ place_node v1
          @ (if top then [Toplevel (v_toplevel v) (SetSize (v_width v1) (v_height v1))] else [])
          @ send_surface_position v1))"

definition maximize_view :: "wlr_env \<Rightarrow> ptr \<Rightarrow> fwr_view \<Rightarrow> fwr_instance \<Rightarrow> fwr_instance \<times> effect list" where
  "maximize_view env p v st =
     (let v1 = v\<lparr>v_maximized := True, v_x := 0, v_y := 0\<rparr> in
      (set_view p v1 st,
       (if e_is_toplevel env (v_xdg_surface v) then [Toplevel (v_toplevel v) (SetMaximized True)] else [])
       @ place_node v1 @ send_surface_position v1))"

record modifiers =
  mod_alt :: bool
  mod_shift :: bool
  mod_logo :: bool

definition keyboard_handle_key ::
    "wlr_env \<Rightarrow> wref \<Rightarrow> modifiers \<Rightarrow> shortcut_key \<Rightarrow> u32 \<Rightarrow> u32 \<Rightarrow> bool \<Rightarrow> fwr_instance \<Rightarrow> outcome" where
  "keyboard_handle_key env kb mods ksym time keycode pressed st =
     (let pre = [Seat (SetKeyboard kb)];
          forward = Some (st, pre @ [Seat (KeyboardKey time keycode pressed)])
      in if \<not> pressed then forward
         else if mod_alt mods \<and> ksym = KeyTab
         then map_option (\<lambda>(s, es). (s, pre @ es)) (alt_tab env (mod_shift mods) st)
         else if mod_logo mods then
           (case get_focused_view st of
              Dangling \<Rightarrow> None
            | NotFound \<Rightarrow> Some (st, pre)
            | Found p v \<Rightarrow>
                (case fwr_get_first_output st of
                   None \<Rightarrow> Some (st, pre)
                 | Some o' \<Rightarrow>
                     Option.bind (output_store st o') (\<lambda>out.
                       if ksym = KeyLeft \<or> ksym = KeyRight
                       then let (s, es) = tile_view env ksym (out_wlr out) p v st in Some (s, pre @ es)
                       else if ksym = KeyUp then let (s, es) = maximize_view env p v st in Some (s, pre @ es)
                       else forward)))
         else forward)"

definition keyboard_handle_modifiers :: "wref \<Rightarrow> effect list" where
  "keyboard_handle_modifiers kb = [Seat (SetKeyboard kb), Seat (KeyboardModifiers kb)]"

section \<open>Alt and Tab: the next mapped view\<close>

definition is_mapped :: "wlr_env \<Rightarrow> (ptr \<Rightarrow> fwr_view option) \<Rightarrow> ptr \<Rightarrow> bool" where
  "is_mapped env store p = (case store p of Some v \<Rightarrow> mapped_view env v | None \<Rightarrow> False)"

lemma mapped_until_head_eq: "mapped_until_head k env store back vs i = mapped_until k env store back vs 0 i"
  by (induction k arbitrary: i) (auto split: option.split)

lemma find_at:
  assumes "i < j" and "j \<le> length vs"
  shows "List.find P (drop i (take j vs)) = (if P (vs ! i) then Some (vs ! i) else List.find P (drop (Suc i) (take j vs)))"
  using Cons_nth_drop_Suc [of i "take j vs"] assms by (metis find.simps(2) length_take min.absorb2 nth_take)

lemma find_rev_at:
  assumes "i \<le> j" and "j < length vs"
  shows "List.find P (rev (drop i (take (Suc j) vs)))
    = (if P (vs ! j) then Some (vs ! j) else List.find P (rev (drop i (take j vs))))"
  using assms by (simp add: take_Suc_conv_app_nth)

text \<open>Forward from position \<open>i\<close> over the positions up to \<open>m\<close>; backward down to \<open>s + 1\<close>.\<close>

lemma mapped_until_forward:
  assumes "\<forall>p \<in> set vs. store p \<noteq> None" and "m \<le> length vs"
  shows "1 \<le> i \<Longrightarrow> i \<le> m \<Longrightarrow> m - i + 2 \<le> k \<Longrightarrow>
    mapped_until k env store False vs (if m = length vs then 0 else m + 1) i
      = Some (Some (List.find (is_mapped env store) (drop (i - 1) (take m vs))))"
proof (induction k arbitrary: i)
  case (Suc k)
  obtain v where v: "store (vs ! (i - 1)) = Some v" using assms Suc.prems nth_mem [of "i - 1" vs] by fastforce
  have f: "List.find (is_mapped env store) (drop (i - 1) (take m vs))
      = (if mapped_view env v then Some (vs ! (i - 1)) else List.find (is_mapped env store) (drop i (take m vs)))"
    using find_at [of "i - 1" m vs] Suc.prems assms(2) v by (simp add: is_mapped_def)
  show ?case
  proof (cases "i = m")
    case True
    then have "mapped_until k env store False vs (if m = length vs then 0 else m + 1) (link_step False (length vs) i) = Some (Some None)"
      using Suc.prems assms(2) by (cases k) (auto simp: link_step_def)
    moreover have "vs \<noteq> []" using Suc.prems assms(2) by auto
    ultimately show ?thesis using True Suc.prems f v by (simp add: link_step_def)
  next
    case False
    then have "mapped_until k env store False vs (if m = length vs then 0 else m + 1) (Suc i)
        = Some (Some (List.find (is_mapped env store) (drop i (take m vs))))"
      using Suc.IH [of "Suc i"] Suc.prems by simp
    then show ?thesis using False Suc.prems assms(2) f v by (simp add: link_step_def)
  qed
qed simp

lemma mapped_until_backward:
  assumes "\<forall>p \<in> set vs. store p \<noteq> None"
  shows "s \<le> i \<Longrightarrow> i \<le> length vs \<Longrightarrow> i - s + 1 \<le> k \<Longrightarrow>
    mapped_until k env store True vs s i = Some (Some (List.find (is_mapped env store) (rev (drop s (take i vs)))))"
proof (induction k arbitrary: i)
  case (Suc k)
  show ?case
  proof (cases "i = s")
    case False
    then obtain j where j: "i = Suc j" "s \<le> j" "j < length vs" using Suc.prems by (cases i) auto
    obtain v where v: "store (vs ! j) = Some v" using assms j nth_mem [of j vs] by fastforce
    have "mapped_until k env store True vs s j = Some (Some (List.find (is_mapped env store) (rev (drop s (take j vs)))))"
      using Suc.IH [of j] Suc.prems j by simp
    moreover have "is_mapped env store (vs ! j) \<longleftrightarrow> mapped_view env v" using v by (simp add: is_mapped_def)
    ultimately show ?thesis using False v j find_rev_at [OF j(2,3), of "is_mapped env store"]
      by (simp add: link_step_def)
  qed simp
qed simp

lemma find_append: "List.find P (xs @ ys) = (case List.find P xs of Some x \<Rightarrow> Some x | None \<Rightarrow> List.find P ys)"
  by (induction xs) auto

text \<open>
  \<open>get_next_mapped_view\<close> always stops, within two rounds of the list, and finds the first mapped
  view in the circular order after the focused one (before it, with Shift), the focused view itself
  being tried last; it finds nothing only when no view is mapped.
\<close>
theorem next_view_in_rotation:
  assumes "start < length vs" and "\<forall>p \<in> set vs. store p \<noteq> None" and "2 * length vs + 2 \<le> fuel"
  shows "get_next_mapped_view fuel env store back vs start
    = Some (Some (List.find (is_mapped env store)
        (if back then rev (take start vs) @ rev (drop start vs) else drop (start + 1) vs @ take (start + 1) vs)))"
proof (cases "back")
  case True
  have "mapped_until fuel env store True vs 0 start = Some (Some (List.find (is_mapped env store) (rev (take start vs))))"
    using mapped_until_backward [OF assms(2), of 0 start fuel] assms(1,3) by simp
  moreover have "mapped_until fuel env store True vs start (length vs)
      = Some (Some (List.find (is_mapped env store) (rev (drop start vs))))"
    using mapped_until_backward [OF assms(2), of start "length vs" fuel] assms(1,3) by simp
  ultimately show ?thesis using True assms(1)
    by (auto simp: get_next_mapped_view_def mapped_until_head_eq link_step_def Let_def find_append split: option.split)
next
  case False
  have 1: "mapped_until fuel env store False vs 0 (if start + 1 = length vs then 0 else start + 2)
      = Some (Some (List.find (is_mapped env store) (drop (start + 1) vs)))"
  proof (cases "start + 1 = length vs")
    case True
    then show ?thesis using assms(3) by (cases fuel) auto
  next
    case False
    have "mapped_until fuel env store False vs (if length vs = length vs then 0 else length vs + 1) (start + 2)
        = Some (Some (List.find (is_mapped env store) (drop (start + 2 - 1) (take (length vs) vs))))"
      by (rule mapped_until_forward [OF assms(2)]) (use False assms(1,3) in auto)
    then show ?thesis using False by simp
  qed
  have 2: "mapped_until fuel env store False vs (if start + 1 = length vs then 0 else start + 2) 1
      = Some (Some (List.find (is_mapped env store) (take (start + 1) vs)))"
    using mapped_until_forward [OF assms(2), of "start + 1" 1 fuel] assms(1,3)
    by (cases "start + 1 = length vs") simp_all
  show ?thesis using False assms(1) 1 2
    by (auto simp: get_next_mapped_view_def mapped_until_head_eq link_step_def Let_def find_append split: option.split if_splits)
qed

section \<open>Interactive moves and resizes\<close>

lemma move_view_again: "move_view g cx cy v = Some v1 \<Longrightarrow> move_view g cx' cy' v1 = move_view g cx' cy' v"
  by (auto simp: move_view_def split: bind_splits)

lemma resize_axis_again:
  "resize_axis near far cur start_pos start_size d = Some (pos, size1) \<Longrightarrow>
     resize_axis near far pos start_pos start_size d' = resize_axis near far cur start_pos start_size d'"
  by (cases near) (auto simp: resize_axis_def split: bind_splits)

lemma resize_view_again:
  assumes "resize_view g cx cy v = Some v1"
  shows "resize_view g cx' cy' v1 = resize_view g cx' cy' v"
proof -
  let ?e = "resize_edges g"
  obtain dx dy x y w h where a:
    "resize_axis (edge_top ?e) (edge_bottom ?e) (v_y v) (start_view_y g) (start_view_height g) dy = Some (y, h)"
    "resize_axis (edge_left ?e) (edge_right ?e) (v_x v) (start_view_x g) (start_view_width g) dx = Some (x, w)"
    and v1: "v1 = v\<lparr>v_x := x, v_y := y, v_width := w, v_height := h\<rparr>"
    using assms by (auto simp: resize_view_def Let_def split: bind_splits)
  show ?thesis
    unfolding resize_view_def Let_def v1 by (simp add: resize_axis_again [OF a(1)] resize_axis_again [OF a(2)])
qed

lemma set_view_twice [simp]: "set_view p v (set_view p v' st) = set_view p v st"
  by (simp add: set_view_def)

lemma input_set_view [simp]: "input (set_view p v st) = input st"
  by (simp add: set_view_def)

lemma get_view_set_view: "get_view st h = Found p v \<Longrightarrow> get_view (set_view p v' st) h = Found p v'"
  by (auto simp: get_view_def set_view_def split: option.splits)

lemma grab_motion_again:
  assumes "grab_motion env cx cy st = Some (st1, es)"
  shows "grab_motion env' cx' cy' st1 = grab_motion env' cx' cy' st"
proof (cases "get_view st (grab_view_handle (grab (input st)))")
  case (Found p v)
  show ?thesis
  proof (cases "grab_type (grab (input st))")
    case FWR_GRAB_MOVE
    with assms Found obtain v1 where v1: "move_view (grab (input st)) cx cy v = Some v1" "st1 = set_view p v1 st"
      by (auto simp: grab_motion_def Let_def split: bind_splits)
    show ?thesis
      unfolding grab_motion_def Let_def v1(2)
      by (simp add: Found get_view_set_view [OF Found] FWR_GRAB_MOVE move_view_again [OF v1(1)])
  next
    case FWR_GRAB_RESIZE
    with assms Found obtain v1 where v1: "resize_view (grab (input st)) cx cy v = Some v1" "st1 = set_view p v1 st"
      by (auto simp: grab_motion_def Let_def split: bind_splits)
    show ?thesis
      unfolding grab_motion_def Let_def v1(2)
      by (simp add: Found get_view_set_view [OF Found] FWR_GRAB_RESIZE resize_view_again [OF v1(1)])
  qed (use assms Found in \<open>simp add: grab_motion_def Let_def\<close>)
qed (use assms in \<open>simp_all add: grab_motion_def Let_def\<close>)

text \<open>A drag: the cursor positions of the motions, one after the other.\<close>

fun drag :: "wlr_env \<Rightarrow> (u64 \<times> u64) list \<Rightarrow> fwr_instance \<Rightarrow> fwr_instance option" where
  "drag env [] st = Some st"
| "drag env ((cx, cy) # cs) st = Option.bind (grab_motion env cx cy st) (\<lambda>(st1, es). drag env cs st1)"

lemma drag_forgets: "drag env cs st = Some st1 \<Longrightarrow> grab_motion env' cx cy st1 = grab_motion env' cx cy st"
proof (induction env cs st rule: drag.induct)
  case (2 env x y cs st)
  then obtain st' es where "grab_motion env x y st = Some (st', es)" "drag env cs st' = Some st1"
    by (auto split: bind_splits)
  with 2 grab_motion_again show ?case by fastforce
qed simp

text \<open>
  C30: an interactive move or resize never accumulates errors: where the cursor went before does not
  matter, a motion to a position has the same effect on the window, and sends the same messages, as
  if it were the first motion of the grab.
\<close>
theorem grab_depends_on_last_position:
  assumes "drag env cs st = Some st1"
  shows "grab_motion env cx cy st1 = grab_motion env cx cy st"
  using assms by (rule drag_forgets)

text \<open>
  during a resize both sizes stay at least 100, an edge that is not dragged stays where it is
  (the left and top edge always; the opposite edge as long as the dragged size is at least 100).
\<close>
theorem resize_keeps_opposite_edge:
  assumes "resize_view g cx cy v = Some v1"
  shows "100 \<le> v_width v1 \<and> 100 \<le> v_height v1
    \<and> (\<not> edge_left (resize_edges g) \<longrightarrow> v_x v1 = v_x v) \<and> (\<not> edge_top (resize_edges g) \<longrightarrow> v_y v1 = v_y v)
    \<and> (edge_left (resize_edges g) \<and> \<not> edge_right (resize_edges g) \<and> 100 < v_width v1
         \<longrightarrow> v_x v1 + v_width v1 = start_view_x g + start_view_width g)
    \<and> (edge_top (resize_edges g) \<and> \<not> edge_bottom (resize_edges g) \<and> 100 < v_height v1
         \<longrightarrow> v_y v1 + v_height v1 = start_view_y g + start_view_height g)"
proof -
  have a: "100 \<le> size1 \<and> (\<not> near \<longrightarrow> pos = cur) \<and> (near \<and> \<not> far \<and> 100 < size1 \<longrightarrow> pos + size1 = start_pos + start_size)"
    if "resize_axis near far cur start_pos start_size d = Some (pos, size1)" for near far cur start_pos start_size d pos size1
    using that by (auto simp: resize_axis_def i32_def split: bind_splits if_splits)
  obtain dx dy x y w h where
    "resize_axis (edge_top (resize_edges g)) (edge_bottom (resize_edges g)) (v_y v) (start_view_y g) (start_view_height g) dy = Some (y, h)"
    "resize_axis (edge_left (resize_edges g)) (edge_right (resize_edges g)) (v_x v) (start_view_x g) (start_view_width g) dx = Some (x, w)"
    "v1 = v\<lparr>v_x := x, v_y := y, v_width := w, v_height := h\<rparr>"
    using assms by (auto simp: resize_view_def Let_def split: bind_splits)
  with a show ?thesis by fastforce
qed

text \<open>
  Past the minimum the position is not clamped with the size: dragging the left edge of a window to
  the right by more than its width less 100 pushes the whole window, with its right edge, to the
  right.
\<close>

lemma resize_past_minimum_moves_window:
  assumes "edge_left (resize_edges g)" and "\<not> edge_right (resize_edges g)" and "cursor_delta cx (start_cursor_x g) = Some dx"
    and "start_view_width g - dx < 100" and "resize_view g cx cy v = Some v1"
  shows "v_width v1 = 100 \<and> v_x v1 = start_view_x g + dx
    \<and> v_x v1 + v_width v1 > start_view_x g + start_view_width g"
  using assms by (auto simp: resize_view_def Let_def resize_axis_def i32_def split: bind_splits if_splits)

text \<open>A window of 300 by 200 at the origin, grabbed at its lower left corner.\<close>

definition sample_view :: fwr_view where
  "sample_view = \<lparr>v_handle = 1, v_toplevel = 4, v_xdg_surface = 5, v_x = 0, v_y = 0, v_width = 300, v_height = 200,
     v_current_output = None, v_output_scale = 0, geo_x = 0, geo_y = 0, v_maximized = False, v_fullscreen = False,
     v_activated = False, uses_ssd = False, v_texture_id = 1, v_texture_registered = True, v_subsurfaces = [],
     v_scene_tree = None, v_scene_xdg_tree = None, resize_in_progress = False, pending_width = 0, pending_height = 0,
     resize_request_id = 0\<rparr>"

definition sample_grab :: "fwr_grab_type \<Rightarrow> fwr_grab_state" where
  "sample_grab t = \<lparr>grab_type = t, grab_view_handle = 1, start_cursor_x = 0, start_cursor_y = 0,
     start_view_x = 0, start_view_y = 0, start_view_width = 300, start_view_height = 200, resize_edges = 6\<rparr>"

definition grabbed :: "fwr_grab_type \<Rightarrow> fwr_instance" where
  "grabbed t = (initial_instance True)\<lparr>view_store := [7 \<mapsto> sample_view], views := \<lparr>next_key = 2, entries = [(1, 7)]\<rparr>,
     views_list := [7], input := (input (initial_instance True))\<lparr>grab := sample_grab t\<rparr>\<rparr>"

lemma ten_pixels: "cursor_delta 0x4024000000000000 0 = Some 10"
  by code_simp

lemma grabbed_view: "get_view (grabbed t) 1 = Found 7 sample_view" "grab (input (grabbed t)) = sample_grab t"
  by (simp_all add: grabbed_def get_view_def handle_map_get_def)

lemma sample_drag: "drag test_env [(0x4024000000000000, 0x4024000000000000)] (grabbed FWR_GRAB_MOVE)
    = Some (set_view 7 (sample_view\<lparr>v_x := 10, v_y := 10\<rparr>) (grabbed FWR_GRAB_MOVE))"
  by (simp add: grab_motion_def Let_def grabbed_view)
    (simp add: sample_grab_def grabbed_view move_view_def ten_pixels i32_def in_i32_def)

theorem grab_depends_on_last_position_witness:
  "grab_motion test_env 0 0 (set_view 7 (sample_view\<lparr>v_x := 10, v_y := 10\<rparr>) (grabbed FWR_GRAB_MOVE))
     = grab_motion test_env 0 0 (grabbed FWR_GRAB_MOVE)"
  by (rule grab_depends_on_last_position [OF sample_drag])

lemma sample_resize: "resize_view (sample_grab FWR_GRAB_RESIZE) 0x4024000000000000 0x4024000000000000 sample_view
    = Some (sample_view\<lparr>v_x := 10, v_y := 0, v_width := 290, v_height := 210\<rparr>)"
  by (simp add: resize_view_def sample_grab_def sample_view_def edge_top_def edge_bottom_def edge_left_def edge_right_def
      ten_pixels resize_axis_def i32_def in_i32_def Let_def)

theorem resize_keeps_opposite_edge_witness:
  "v_x (sample_view\<lparr>v_x := 10, v_y := 0, v_width := 290, v_height := 210\<rparr>) + 290 = 300"
  using resize_keeps_opposite_edge [OF sample_resize]
  by (simp add: sample_grab_def edge_left_def edge_right_def)

theorem next_view_in_rotation_witness:
  "get_next_mapped_view 6 test_env (\<lambda>p. Some (sample_view\<lparr>v_scene_tree := if p = 9 then Some 1 else None\<rparr>)) True [8, 9] 0
     = Some (Some (Some 9))"
  using next_view_in_rotation [of 0 "[8, 9]" "\<lambda>p. Some (sample_view\<lparr>v_scene_tree := if p = 9 then Some 1 else None\<rparr>)" 6
      test_env True]
  by (simp add: is_mapped_def mapped_view_def test_env_def)

end
