(* ===== verification/DartInput.thy ===== *)
theory DartInput
  imports InputEvents Popups
begin

text \<open>
  \<open>src/input.c\<close>, the requests of Dart about input: pointer and key events that Flutter's widgets
  forward to a surface or a popup, and the start of an interactive move or resize.
\<close>

section \<open>Pointer events for a surface\<close>

definition pointerDownEvent :: byte where "pointerDownEvent = 1"
definition pointerUpEvent :: byte where "pointerUpEvent = 2"
definition pointerHoverEvent :: byte where "pointerHoverEvent = 3"
definition pointerMoveEvent :: byte where "pointerMoveEvent = 4"
definition pointerEnterEvent :: byte where "pointerEnterEvent = 5"
definition pointerExitEvent :: byte where "pointerExitEvent = 6"
definition pointerScrollEvent :: byte where "pointerScrollEvent = 7"

lemmas pointer_event_defs = pointerDownEvent_def pointerUpEvent_def pointerHoverEvent_def pointerMoveEvent_def
  pointerEnterEvent_def pointerExitEvent_def pointerScrollEvent_def

text \<open>\<open>(uint32_t)(timestamp / 1000)\<close>, a division of \<open>int64_t\<close> that truncates towards zero.\<close>

definition to_msec :: "u64 \<Rightarrow> u32" where
  "to_msec ts = word_of_int (let t = sint ts in if t < 0 then - ((- t) div 1000) else t div 1000)"

definition pointer_moves :: "byte \<Rightarrow> bool" where
  "pointer_moves e \<longleftrightarrow> e = pointerHoverEvent \<or> e = pointerMoveEvent"

definition pointer_presses :: "byte \<Rightarrow> bool" where
  "pointer_presses e \<longleftrightarrow> e = pointerDownEvent \<or> e = pointerUpEvent"

text \<open>The local position, in the coordinates of a buffer that the widget shows scaled.\<close>

definition scale_to_surface :: "wlr_env \<Rightarrow> wref \<Rightarrow> surface_pointer_event_message \<Rightarrow> u64 \<times> u64 \<Rightarrow> u64 \<times> u64" where
  "scale_to_surface env surface m pos =
     (if f64_gt0 (pe_widget_size_x m) \<and> f64_gt0 (pe_widget_size_y m) then
        let w = e_surface_width env surface; h = e_surface_height env surface in
        if w > 0 \<and> h > 0 then
          let sx = f64_div (f64_of_int w) (pe_widget_size_x m); sy = f64_div (f64_of_int h) (pe_widget_size_y m) in
          if f64_isfinite sx \<and> f64_isfinite sy \<and> f64_gt0 sx \<and> f64_gt0 sy
          then (f64_mul (fst pos) sx, f64_mul (snd pos) sy) else pos
        else pos
      else pos)"

text \<open>
  The buttons of a down or up event for the table entry \<open>h\<close>: the cached hardware time is used
  once, the changed buttons are sent, and the mask is remembered.
\<close>

definition press_buttons :: "u32 \<Rightarrow> u64 \<Rightarrow> u32 \<Rightarrow> fwr_instance \<Rightarrow> fwr_instance \<times> effect list" where
  "press_buttons h next_buttons time_msec st =
     (let lb = last_button (input st);
          button_time = (if bc_valid lb then bc_time_msec lb else time_msec);
          prev_buttons = get_surface_buttons h (surface_button_states st)
      in (st\<lparr>input := (input st)\<lparr>last_button := lb\<lparr>bc_valid := False\<rparr>\<rparr>,
             surface_button_states := set_surface_buttons h next_buttons (surface_button_states st)\<rparr>,
          map (\<lambda>(b, s). Seat (PointerButton button_time b s)) (button_changes prev_buttons next_buttons)))"

text \<open>A scroll event: the cached axis events, each at most once.\<close>

definition scroll_axes :: "surface_pointer_event_message \<Rightarrow> fwr_instance \<Rightarrow> fwr_instance \<times> effect list" where
  "scroll_axes m st =
     (let i = input st; cx = last_scroll_x i; cy = last_scroll_y i;
          ux = (f64_ne0 (pe_scroll_delta_x m) \<and> sc_valid cx);
          uy = (f64_ne0 (pe_scroll_delta_y m) \<and> sc_valid cy);
          i1 = i\<lparr>last_scroll_x := (if ux then cx\<lparr>sc_valid := False\<rparr> else cx),
                 last_scroll_y := (if uy then cy\<lparr>sc_valid := False\<rparr> else cy)\<rparr>
      in (st\<lparr>input := i1\<rparr>,
          (if ux then [Seat (PointerAxis (sc_time_msec cx) cx)] else [])
          @ (if uy then [Seat (PointerAxis (sc_time_msec cy) cy)] else []) @ [Seat PointerFrame]))"

text \<open>An event during a grab: a release ends it, a motion moves or resizes the grabbed view.\<close>

definition pointer_during_grab :: "wlr_env \<Rightarrow> surface_pointer_event_message \<Rightarrow> fwr_instance \<Rightarrow> outcome" where
  "pointer_during_grab env m st =
     (if pe_event_type m = pointerUpEvent then end_grab st
      else if pointer_moves (pe_event_type m) then grab_motion env (pe_global_pos_x m) (pe_global_pos_y m) st
      else Some (st, []))"

text \<open>An event for the surface under the pointer, \<open>pos\<close> being the position inside it.\<close>

definition pointer_on_surface ::
    "wlr_env \<Rightarrow> surface_pointer_event_message \<Rightarrow> ptr \<Rightarrow> wref \<Rightarrow> u64 \<times> u64 \<Rightarrow> fwr_instance \<Rightarrow> outcome" where
  "pointer_on_surface env m p surface pos st =
     (let e = pe_event_type m; (x, y) = pos; time_msec = to_msec (pe_timestamp m) in
      if e = pointerEnterEvent then Some (st, [Seat (PointerEnter surface x y), Seat PointerFrame])
      else if e = pointerExitEvent then Some (st, [Seat PointerClearFocus])
      else if pointer_moves e
      then Some (st, [Seat (PointerEnter surface x y), Seat (PointerMotion time_msec x y), Seat PointerFrame])
      else if pointer_presses e then
        Option.bind (focus_and_raise env p st) (\<lambda>(st1, es1).
          let (st2, es2) = press_buttons (pe_surface_handle m) (pe_buttons m) time_msec st1
          in Some (st2, Seat (PointerEnter surface x y) # es1 @ es2 @ [Seat PointerFrame]))
      else if e = pointerScrollEvent then Some (scroll_axes m st)
      else Some (st, []))"

definition fwr_handle_surface_pointer_event_message :: "wlr_env \<Rightarrow> dart_value \<Rightarrow> fwr_instance \<Rightarrow> outcome" where
  "fwr_handle_surface_pointer_event_message env args st =
     decode_or_fail (decode_surface_pointer_event_message args) st (\<lambda>m.
     with_view (pe_surface_handle m) st (\<lambda>p v.
       case e_surface env (v_xdg_surface v) of
         None \<Rightarrow> Some (st, [])
       | Some parent_surface \<Rightarrow>
           let (surface, pos) = (case e_surface_at env parent_surface (pe_local_pos_x m) (pe_local_pos_y m) of
                 Some (s, x, y) \<Rightarrow> (s, (x, y))
               | None \<Rightarrow> (parent_surface, (pe_local_pos_x m, pe_local_pos_y m)));
               st1 = st\<lparr>input := (input st)\<lparr>flutter_cursor_x := pe_global_pos_x m, flutter_cursor_y := pe_global_pos_y m\<rparr>\<rparr>
           in if grab_type (grab (input st1)) \<noteq> FWR_GRAB_NONE then pointer_during_grab env m st1
              else pointer_on_surface env m p surface
                     (if surface = parent_surface then scale_to_surface env surface m pos else pos) st1))"

section \<open>Pointer events for a popup\<close>

definition with_popup :: "u32 \<Rightarrow> fwr_instance \<Rightarrow> (ptr \<Rightarrow> fwr_popup \<Rightarrow> outcome) \<Rightarrow> outcome" where
  "with_popup h st act =
     (case get_popup st h of
        NotFound \<Rightarrow> Some (st, [respond_success])
      | Dangling \<Rightarrow> None
      | Found p v \<Rightarrow> map_option (\<lambda>(st', es). (st', es @ [respond_success])) (act p v))"

definition pointer_on_popup ::
    "surface_pointer_event_message \<Rightarrow> wref \<Rightarrow> u64 \<times> u64 \<Rightarrow> fwr_instance \<Rightarrow> fwr_instance \<times> effect list" where
  "pointer_on_popup m surface pos st =
     (let e = pe_event_type m; (x, y) = pos; time_msec = to_msec (pe_timestamp m) in
      if e = pointerEnterEvent then (st, [Seat (PointerEnter surface x y), Seat PointerFrame])
      else if e = pointerExitEvent then (st, [Seat PointerFrame])
      else if pointer_moves e
      then (st, [Seat (PointerEnter surface x y), Seat (PointerMotion time_msec x y), Seat PointerFrame])
      else if pointer_presses e then
        (let (st1, es) = press_buttons (pe_surface_handle m + 200000) (pe_buttons m) time_msec st
         in (st1, Seat (PointerEnter surface x y) # es @ [Seat PointerFrame]))
      else if e = pointerScrollEvent then scroll_axes m st
      else (st, []))"

definition fwr_handle_popup_pointer_event_message :: "wlr_env \<Rightarrow> dart_value \<Rightarrow> fwr_instance \<Rightarrow> outcome" where
  "fwr_handle_popup_pointer_event_message env args st =
     decode_or_fail (decode_surface_pointer_event_message args) st (\<lambda>m.
     with_popup (pe_surface_handle m) st (\<lambda>q pp.
       case e_surface env (p_xdg_surface pp) of
         None \<Rightarrow> Some (st, [])
       | Some popup_surface \<Rightarrow>
           let (surface, pos) = (case e_surface_at env popup_surface (pe_local_pos_x m) (pe_local_pos_y m) of
                 Some (s, x, y) \<Rightarrow> (s, (x, y))
               | None \<Rightarrow> (popup_surface, (pe_local_pos_x m, pe_local_pos_y m)))
           in Some (pointer_on_popup m surface pos st)))"

section \<open>Keys and grabs\<close>

definition fwr_handle_surface_keyboard_key_message :: "wlr_env \<Rightarrow> dart_value \<Rightarrow> fwr_instance \<Rightarrow> outcome" where
  "fwr_handle_surface_keyboard_key_message env args st =
     decode_or_fail (decode_surface_keyboard_key_message args) st (\<lambda>m.
     with_view (kk_surface_handle m) st (\<lambda>p v.
       map_option (\<lambda>(st1, es). (st1, es
           @ (case e_keyboard env of Some kb \<Rightarrow> [Seat (SetKeyboard kb)] | None \<Rightarrow> [])
           @ [Seat (KeyboardKey (to_msec (kk_timestamp m)) (ucast (kk_keycode m)) (kk_event_type m \<noteq> 0))]))
         (fwr_focus_view env p st)))"

definition fwr_handle_surface_begin_move :: "wlr_env \<Rightarrow> dart_value \<Rightarrow> fwr_instance \<Rightarrow> outcome" where
  "fwr_handle_surface_begin_move env args st =
     decode_or_fail (decode_surface_begin_move_message args) st (\<lambda>m.
     with_view (bm_surface_handle m) st (\<lambda>p v.
       let i = input st;
           g = (grab i)\<lparr>grab_type := FWR_GRAB_MOVE, grab_view_handle := v_handle v,
             start_cursor_x := cursor_x st, start_cursor_y := cursor_y st,
             start_view_x := v_x v, start_view_y := v_y v\<rparr>
       in focus_and_raise env p (st\<lparr>input := i\<lparr>grab := g\<rparr>\<rparr>)))"

definition fwr_handle_surface_begin_resize :: "wlr_env \<Rightarrow> dart_value \<Rightarrow> fwr_instance \<Rightarrow> outcome" where
  "fwr_handle_surface_begin_resize env args st =
     decode_or_fail (decode_surface_begin_resize_message args) st (\<lambda>m.
     with_view (br_surface_handle m) st (\<lambda>p v.
       let i = input st;
           g = (grab i)\<lparr>grab_type := FWR_GRAB_RESIZE, grab_view_handle := v_handle v,
             start_cursor_x := cursor_x st, start_cursor_y := cursor_y st,
             start_view_x := v_x v, start_view_y := v_y v,
             start_view_width := v_width v, start_view_height := v_height v,
             resize_edges := ucast (br_edges m)\<rparr>
       in focus_and_raise env p (st\<lparr>input := i\<lparr>grab := g\<rparr>\<rparr>)))"

end
