(* ===== verification/Cursor.thy ===== *)
theory Cursor
  imports Instance StdValues
begin

text \<open>
  \<open>src/cursor.c\<close>: the channel \<open>flutter/mousecursor\<close>. The chain of comparisons that translates
  Flutter's cursor kinds is kept as the table of its cases, in their order.
\<close>

definition cursor_table :: "(string \<times> string) list" where
  "cursor_table =
     [(''basic'', ''left_ptr''),
      (''none'', ''left_ptr''),
      (''click'', ''pointer''),
      (''pointer'', ''pointer''),
      (''text'', ''xterm''),
      (''verticalText'', ''vertical-text''),
      (''resizeLeft'', ''left_side''),
      (''resizeRight'', ''right_side''),
      (''resizeUp'', ''top_side''),
      (''resizeDown'', ''bottom_side''),
      (''resizeUpLeft'', ''top_left_corner''),
      (''resizeUpRight'', ''top_right_corner''),
      (''resizeDownLeft'', ''bottom_left_corner''),
      (''resizeDownRight'', ''bottom_right_corner''),
      (''resizeColumn'', ''col-resize''),
      (''resizeRow'', ''row-resize''),
      (''resizeUpDown'', ''ns-resize''),
      (''resizeLeftRight'', ''ew-resize''),
      (''resizeUpLeftDownRight'', ''nwse-resize''),
      (''resizeUpRightDownLeft'', ''nesw-resize''),
      (''grab'', ''grab''),
      (''grabbing'', ''grabbing''),
      (''move'', ''fleur''),
      (''allScroll'', ''all-scroll''),
      (''forbidden'', ''not-allowed''),
      (''noDrop'', ''no-drop''),
      (''wait'', ''wait''),
      (''progress'', ''progress''),
      (''contextMenu'', ''context-menu''),
      (''help'', ''help''),
      (''cell'', ''cell''),
      (''precise'', ''crosshair''),
      (''crosshair'', ''crosshair''),
      (''copy'', ''copy''),
      (''alias'', ''alias''),
      (''zoomIn'', ''zoom-in''),
      (''zoomOut'', ''zoom-out'')]"

definition flutter_cursor_to_xcursor :: "byte list option \<Rightarrow> byte list" where
  "flutter_cursor_to_xcursor kind =
     (case kind of
        None \<Rightarrow> ascii ''left_ptr''
      | Some k \<Rightarrow>
          (case List.find (\<lambda>(f, x). cstr k = ascii f) cursor_table of
             Some (f, x) \<Rightarrow> ascii x
           | None \<Rightarrow> ascii ''left_ptr''))"

definition respond_success_std :: "platch_env \<Rightarrow> effect list" where
  "respond_success_std env = map Platch (snd (platch_respond_success_std env None))"

text \<open>\<open>activateSystemCursor\<close>: what happens before the response.\<close>

definition activate_cursor :: "std_value \<Rightarrow> fwr_instance \<Rightarrow> outcome" where
  "activate_cursor arg st =
     (case arg of
        StdMap kvs \<Rightarrow>
          (case stdmap_get_str kvs (ascii ''kind'') of
             None \<Rightarrow> None
           | Some (Some (StdString k)) \<Rightarrow>
               let x = flutter_cursor_to_xcursor (Some k) in
               Some (st\<lparr>current_xcursor_name := Some x, client_cursor_surface := None\<rparr>, [CursorSetXcursor x])
           | Some _ \<Rightarrow> Some (st, []))
      | _ \<Rightarrow> Some (st, []))"

text \<open>The new state, whether the message was handled, and the calls.\<close>

definition cursor_handle_message ::
    "platch_env \<Rightarrow> byte list \<Rightarrow> fwr_instance \<Rightarrow> (fwr_instance \<times> bool \<times> effect list) option" where
  "cursor_handle_message env message st =
     (if message = [] then Some (st, False, [])
      else case platch_decode env (Some message) (length message) kStandardMethodCall of
        Inl e \<Rightarrow> if error_returned e then Some (st, False, []) else None
      | Inr (StdMethodCall m arg) \<Rightarrow>
          if cstr m = ascii ''activateSystemCursor''
          then map_option (\<lambda>(s, es). (s, True, es @ respond_success_std env)) (activate_cursor arg st)
          else if cstr m = ascii ''createSystemCursor'' \<or> cstr m = ascii ''deleteSystemCursor''
          then Some (st, True, respond_success_std env)
          else Some (st, False, [])
      | Inr _ \<Rightarrow> None)"

text \<open>\<open>fwr_cursor_init\<close> and the registration that ends \<open>fwr_text_input_init\<close>.\<close>

definition fwr_cursor_init :: "fwr_instance \<Rightarrow> fwr_instance option" where
  "fwr_cursor_init st =
     map_option (\<lambda>(_, r). st\<lparr>plugin_registry := r\<rparr>)
       (fwr_plugin_registry_channel_handler_register (ascii ''flutter/mousecursor'') () cursor_handler (plugin_registry st))"

definition text_input_register :: "fwr_instance \<Rightarrow> fwr_instance option" where
  "text_input_register st =
     map_option (\<lambda>(_, r). st\<lparr>plugin_registry := r\<rparr>)
       (fwr_plugin_registry_channel_handler_register (ascii ''flutter/textinput'') () text_input_handler (plugin_registry st))"

end
