(* ===== verification/Dispatch.thy ===== *)
theory Dispatch
  imports DartInput Cursor TextInput
begin

text \<open>
  \<open>src/flutter_wlroots.c\<close>: the callback for platform messages, which routes a message of Dart to
  its handler and sees to its response, and the routing of texture requests.
\<close>

section \<open>Platform messages\<close>

text \<open>
  \<open>pm_size_ok\<close>: the \<open>struct_size\<close> of the message is the one this program was built with. The
  text input state is a global of its own.
\<close>

record platform_message =
  pm_size_ok :: bool
  pm_channel :: "byte list"
  pm_message :: "byte list"

type_synonym compositor = "fwr_instance \<times> text_input_state"

definition answer_success :: "fwr_instance \<times> effect list \<Rightarrow> fwr_instance \<times> effect list" where
  "answer_success r = (fst r, snd r @ [respond_success])"

text \<open>The answers of the output commands: success, or an error with a text.\<close>

definition answer_flag :: "wlr_env \<Rightarrow> string \<Rightarrow> fwr_instance \<Rightarrow> bool \<times> effect list \<Rightarrow> fwr_instance \<times> effect list" where
  "answer_flag env msg st r =
     (st, snd r @ (if fst r then [respond_success]
        else map Platch (snd (platch_respond_error_std (e_platch env) (ascii ''error'') (Some (ascii msg)) None))))"

text \<open>An argument list with at least \<open>n\<close> elements.\<close>

definition args_list :: "nat \<Rightarrow> dart_value \<Rightarrow> dart_value list option" where
  "args_list n args = (case args of DvList len vs \<Rightarrow> if len \<ge> n then Some vs else None | _ \<Rightarrow> None)"

definition bool_arg :: "dart_value list \<Rightarrow> nat \<Rightarrow> bool option" where
  "bool_arg vs i = (if i < length vs then Some (case vs ! i of DvBool b \<Rightarrow> b | _ \<Rightarrow> False) else None)"

definition scale_arg :: "dart_value list \<Rightarrow> nat \<Rightarrow> u64 option" where
  "scale_arg vs i =
     (if i < length vs then Some (case vs ! i of DvFloat64 x \<Rightarrow> x | DvInteger n \<Rightarrow> f64_of_int (sint n) | _ \<Rightarrow> f64_of_int 1)
      else None)"

definition set_direct_input_mode :: "dart_value \<Rightarrow> fwr_instance \<Rightarrow> outcome" where
  "set_direct_input_mode args st =
     map_option answer_success
       (case args_list 2 args of
          None \<Rightarrow> Some (st, [])
        | Some vs \<Rightarrow>
            Option.bind (bool_arg vs 0) (\<lambda>enabled. Option.bind (int_arg vs 1) (\<lambda>h.
              Some (st\<lparr>direct_input_mode := enabled, direct_input_surface := ucast h\<rparr>, []))))"

definition get_socket_paths :: "wlr_env \<Rightarrow> fwr_instance \<Rightarrow> effect list" where
  "get_socket_paths env st =
     map Platch (snd (platch_respond_success_std (e_platch env)
       (Some (StdMap [(StdString (ascii ''wayland''), StdString (wl_socket st)), (StdString (ascii ''x''), StdString [])]))))"

definition set_vsync_output_message :: "wlr_env \<Rightarrow> dart_value \<Rightarrow> fwr_instance \<Rightarrow> outcome" where
  "set_vsync_output_message env args st =
     map_option answer_success
       (case args_list 1 args of
          None \<Rightarrow> Some (st, [])
        | Some vs \<Rightarrow> Option.bind (int_arg vs 0) (\<lambda>i. map_option (\<lambda>s. (s, [])) (fwr_set_vsync_output env (ucast i) st)))"

definition set_vsync_rate_limit_message :: "dart_value \<Rightarrow> fwr_instance \<Rightarrow> outcome" where
  "set_vsync_rate_limit_message args st =
     map_option answer_success
       (case args_list 1 args of
          None \<Rightarrow> Some (st, [])
        | Some vs \<Rightarrow> Option.bind (int_arg vs 0) (\<lambda>hz. Some (fwr_set_vsync_rate_limit (to_i32 hz) st, [])))"

definition set_output_mode_message :: "wlr_env \<Rightarrow> dart_value \<Rightarrow> fwr_instance \<Rightarrow> outcome" where
  "set_output_mode_message env args st =
     map_option (answer_flag env ''Failed to set output mode'' st)
       (case args_list 4 args of
          None \<Rightarrow> Some (False, [])
        | Some vs \<Rightarrow>
            Option.bind (int_arg vs 0) (\<lambda>i. Option.bind (int_arg vs 1) (\<lambda>w.
            Option.bind (int_arg vs 2) (\<lambda>h. Option.bind (int_arg vs 3) (\<lambda>r.
              fwr_set_output_mode env (ucast i) (to_i32 w) (to_i32 h) (to_i32 r) st)))))"

definition set_output_position_message :: "wlr_env \<Rightarrow> dart_value \<Rightarrow> fwr_instance \<Rightarrow> outcome" where
  "set_output_position_message env args st =
     map_option (answer_flag env ''Failed to set output position'' st)
       (case args_list 3 args of
          None \<Rightarrow> Some (False, [])
        | Some vs \<Rightarrow>
            Option.bind (int_arg vs 0) (\<lambda>i. Option.bind (int_arg vs 1) (\<lambda>x.
            Option.bind (int_arg vs 2) (\<lambda>y. fwr_set_output_position (ucast i) (to_i32 x) (to_i32 y) st))))"

definition set_output_scale_message :: "wlr_env \<Rightarrow> dart_value \<Rightarrow> fwr_instance \<Rightarrow> outcome" where
  "set_output_scale_message env args st =
     map_option (answer_flag env ''Failed to set output scale'' st)
       (case args_list 2 args of
          None \<Rightarrow> Some (False, [])
        | Some vs \<Rightarrow>
            Option.bind (int_arg vs 0) (\<lambda>i. Option.bind (scale_arg vs 1) (\<lambda>s.
              fwr_set_output_scale env (ucast i) s st)))"

text \<open>The chain of \<open>strcmp\<close>s, as the table of methods and what they do.\<close>

definition method_table :: "wlr_env \<Rightarrow> (string \<times> (dart_value \<Rightarrow> fwr_instance \<Rightarrow> outcome)) list" where
  "method_table env =
     [(''surface_toplevel_set_size'', fwr_handle_surface_toplevel_set_size env),
      (''surface_toplevel_set_maximized'', fwr_handle_surface_toplevel_set_maximized env),
      (''surface_toplevel_close'', fwr_handle_surface_toplevel_close env),
      (''surface_focus'', fwr_handle_surface_focus env),
      (''surface_begin_move'', fwr_handle_surface_begin_move env),
      (''surface_begin_resize'', fwr_handle_surface_begin_resize env),
      (''surface_set_position'', fwr_handle_surface_set_position env),
      (''surface_request_resize'', fwr_handle_surface_request_resize env),
      (''surface_end_resize'', fwr_handle_surface_end_resize env),
      (''surface_pointer_event'', fwr_handle_surface_pointer_event_message env),
      (''popup_pointer_event'', fwr_handle_popup_pointer_event_message env),
      (''surface_keyboard_key'', fwr_handle_surface_keyboard_key_message env),
      (''surface_clear_focus'', \<lambda>args st.
         Some (st, [Seat PointerClearFocus, Seat KeyboardClearFocus, respond_success])),
      (''set_direct_input_mode'', set_direct_input_mode),
      (''is_compositor'', \<lambda>args st. Some (st, [respond_success])),
      (''compositor_ready'', \<lambda>args st. map_option (\<lambda>es. (st, es @ [respond_success])) (fwr_send_all_outputs env st)),
      (''get_socket_paths'', \<lambda>args st. Some (st, get_socket_paths env st)),
      (''set_vsync_output'', set_vsync_output_message env),
      (''set_vsync_rate_limit'', set_vsync_rate_limit_message),
      (''set_output_mode'', set_output_mode_message env),
      (''set_output_position'', set_output_position_message env),
      (''set_output_scale'', set_output_scale_message env),
      (''set_primary_output'', \<lambda>args st. Some (st, [respond_success]))]"

definition wlroots_message :: "wlr_env \<Rightarrow> byte list \<Rightarrow> fwr_instance \<Rightarrow> outcome" where
  "wlroots_message env msg st =
     (case message_read msg 0 of
        NoFuel \<Rightarrow> None
      | ReadFalse \<Rightarrow> Some (st, [respond_failure])
      | ReadOk name off \<Rightarrow>
          (case message_read msg off of
             NoFuel \<Rightarrow> None
           | ReadFalse \<Rightarrow> Some (st, [respond_failure])
           | ReadOk args off' \<Rightarrow>
               (case name of
                  DvString s \<Rightarrow>
                    (case List.find (\<lambda>(m, f). cstr s = ascii m) (method_table env) of
                       Some (m, f) \<Rightarrow> f args st
                     | None \<Rightarrow> Some (st, [respond_failure]))
                | _ \<Rightarrow> Some (st, [respond_failure]))))"

text \<open>The calls of the text input handler on a message: its only effects there are responses.\<close>

fun text_call :: "platch_env \<Rightarrow> text_effect \<Rightarrow> effect list" where
  "text_call env RespondSuccessJson = map Platch (snd (platch_respond_success_json env None))"
| "text_call env _ = []"

text \<open>A channel handler: the new state, whether it handled the message, and its calls.\<close>

definition run_handler ::
    "wlr_env \<Rightarrow> handler_fn \<Rightarrow> byte list \<Rightarrow> compositor \<Rightarrow> (compositor \<times> bool \<times> effect list) option" where
  "run_handler env h msg c =
     (case h of
        text_input_handler \<Rightarrow>
          map_option (\<lambda>(ti, handled, es). ((fst c, ti), handled, concat (map (text_call (e_platch env)) es)))
            (text_input_handle_message (e_platch env) True msg (snd c))
      | cursor_handler \<Rightarrow>
          map_option (\<lambda>(st, handled, es). ((st, snd c), handled, es))
            (cursor_handle_message (e_platch env) msg (fst c)))"

definition plugin_message :: "wlr_env \<Rightarrow> platform_message \<Rightarrow> compositor \<Rightarrow> (compositor \<times> effect list) option" where
  "plugin_message env pm c =
     (case List.find (\<lambda>h. cstr (pm_channel pm) = handler_name h) (registry_handlers (plugin_registry (fst c))) of
        None \<Rightarrow> Some (c, [respond_failure])
      | Some h \<Rightarrow>
          (case run_handler env (handle_message h) (pm_message pm) c of
             None \<Rightarrow> None
           | Some (c', handled, es) \<Rightarrow> Some (c', if handled then es else es @ [respond_failure])))"

definition engine_cb_platform_message ::
    "wlr_env \<Rightarrow> platform_message \<Rightarrow> compositor \<Rightarrow> (compositor \<times> effect list) option" where
  "engine_cb_platform_message env pm c =
     (if \<not> pm_size_ok pm then Some (c, [])
      else if cstr (pm_channel pm) = ascii ''wlroots''
      then map_option (\<lambda>(st, es). ((st, snd c), es)) (wlroots_message env (pm_message pm) (fst c))
      else plugin_message env pm c)"

section \<open>Exactly one response\<close>

text \<open>A handler that answers: every way it returns it has sent one response.\<close>

definition answers :: "outcome \<Rightarrow> bool" where
  "answers r \<longleftrightarrow> (\<forall>st es. r = Some (st, es) \<longrightarrow> responses es = 1)"

definition silent :: "outcome \<Rightarrow> bool" where
  "silent r \<longleftrightarrow> (\<forall>st es. r = Some (st, es) \<longrightarrow> responses es = 0)"

named_theorems answers_intros

lemma answers_Some [answers_intros]: "responses es = 1 \<Longrightarrow> answers (Some (st, es))"
  by (simp add: answers_def)

lemma answers_None [answers_intros]: "answers None"
  by (simp add: answers_def)

lemma silent_Some [answers_intros]: "responses es = 0 \<Longrightarrow> silent (Some (st, es))"
  by (simp add: silent_def)

lemma silent_None [answers_intros]: "silent None"
  by (simp add: silent_def)

lemma answers_decode [answers_intros]: "(\<And>m. answers (f m)) \<Longrightarrow> answers (decode_or_fail d st f)"
  by (cases d) (auto simp: decode_or_fail_def intro: answers_intros)

lemma answers_with_view [answers_intros]: "(\<And>p v. silent (act p v)) \<Longrightarrow> answers (with_view h st act)"
  by (cases "get_view st h") (auto simp: with_view_def answers_def silent_def)

lemma answers_with_popup [answers_intros]: "(\<And>p v. silent (act p v)) \<Longrightarrow> answers (with_popup h st act)"
  by (cases "get_popup st h") (auto simp: with_popup_def answers_def silent_def)

lemma answers_bind [answers_intros]: "(\<And>x. answers (f x)) \<Longrightarrow> answers (Option.bind r f)"
  by (cases r) (simp_all add: answers_def)

lemma silent_bind [answers_intros]: "(\<And>x. silent (f x)) \<Longrightarrow> silent (Option.bind r f)"
  by (cases r) (simp_all add: silent_def)

lemma silent_bind2: "silent r \<Longrightarrow> (\<And>st es. responses es = 0 \<Longrightarrow> silent (f (st, es))) \<Longrightarrow> silent (Option.bind r f)"
  by (cases r) (auto simp: silent_def)

lemma silent_deactivate: "silent (deactivate_previous env prev st)"
  by (auto simp: deactivate_previous_def Let_def silent_def split: option.splits if_splits)

lemma silent_focus [answers_intros]: "silent (fwr_focus_view env p st)"
  using silent_deactivate [of env "e_focused_surface env" st]
  by (auto simp: fwr_focus_view_def Let_def silent_def split: option.splits if_splits)

lemma responses_raise [simp]: "responses (raise_view v) = 0"
  by (simp add: raise_view_def split: option.split)

lemma silent_focus_and_raise [answers_intros]: "silent (focus_and_raise env p st)"
  using silent_focus [of env p st]
  by (auto simp: focus_and_raise_def silent_def split: option.splits)

lemma responses_place [simp]: "responses (place_node v) = 0" "responses (send_surface_position v) = 0"
  "responses (send_grab_end v st) = 0"
  by (simp_all add: place_node_def send_surface_position_def send_grab_end_def split: option.split)

lemma silent_grab_motion [answers_intros]: "silent (grab_motion env cx cy st)"
  by (auto simp: grab_motion_def Let_def silent_def split: lookup.splits fwr_grab_type.splits bind_splits)

lemma silent_end_grab [answers_intros]: "silent (end_grab st)"
  by (auto simp: end_grab_def Let_def silent_def split: lookup.splits)

lemma responses_buttons [simp]: "responses (map (\<lambda>(b, s). Seat (PointerButton t b s)) bs) = 0"
  by (induction bs) auto

lemma responses_press [simp]: "responses (snd (press_buttons h n t st)) = 0"
  by (simp add: press_buttons_def Let_def)

lemma responses_scroll [simp]: "responses (snd (scroll_axes m st)) = 0"
  by (simp add: scroll_axes_def Let_def)

lemma silent_scroll [answers_intros]: "silent (Some (scroll_axes m st))"
  using responses_scroll [of m st] by (auto simp: silent_def simp del: responses_scroll)

lemma silent_pointer_on_surface [answers_intros]: "silent (pointer_on_surface env m p surface pos st)"
proof -
  have "silent (Option.bind (focus_and_raise env p st) (\<lambda>(st1, es1).
      let (st2, es2) = press_buttons h n t st1 in Some (st2, Seat (PointerEnter surface x y) # es1 @ es2 @ [Seat PointerFrame])))"
    for h n t x y
  proof (rule silent_bind2 [OF silent_focus_and_raise], goal_cases)
    case (1 st1 es1)
    then show ?case using responses_press [of h n t st1]
      by (cases "press_buttons h n t st1") (simp add: silent_def)
  qed
  then show ?thesis
    by (cases pos) (auto simp: pointer_on_surface_def Let_def intro!: answers_intros)
qed

lemma silent_pointer_during_grab [answers_intros]: "silent (pointer_during_grab env m st)"
  by (auto simp: pointer_during_grab_def intro!: answers_intros)

lemma silent_pointer_on_popup [answers_intros]: "silent (Some (pointer_on_popup m surface pos st))"
proof -
  have "responses (snd (pointer_on_popup m surface pos st)) = 0"
    using responses_press [of "pe_surface_handle m + 200000" "pe_buttons m" "to_msec (pe_timestamp m)" st]
    by (cases pos; cases "press_buttons (pe_surface_handle m + 200000) (pe_buttons m) (to_msec (pe_timestamp m)) st")
      (simp add: pointer_on_popup_def Let_def)
  then show ?thesis by (auto simp: silent_def)
qed

lemma answers_set_size [answers_intros]: "answers (fwr_handle_surface_toplevel_set_size env args st)"
  unfolding fwr_handle_surface_toplevel_set_size_def by (intro answers_intros) simp

lemma answers_set_maximized [answers_intros]: "answers (fwr_handle_surface_toplevel_set_maximized env args st)"
  unfolding fwr_handle_surface_toplevel_set_maximized_def by (intro answers_intros) (simp add: silent_def)

lemma answers_close [answers_intros]: "answers (fwr_handle_surface_toplevel_close env args st)"
  unfolding fwr_handle_surface_toplevel_close_def by (intro answers_intros) simp

lemma answers_surface_focus [answers_intros]: "answers (fwr_handle_surface_focus env args st)"
  unfolding fwr_handle_surface_focus_def by (intro answers_intros)

lemma answers_begin_move [answers_intros]: "answers (fwr_handle_surface_begin_move env args st)"
  unfolding fwr_handle_surface_begin_move_def Let_def by (intro answers_intros)

lemma answers_begin_resize [answers_intros]: "answers (fwr_handle_surface_begin_resize env args st)"
  unfolding fwr_handle_surface_begin_resize_def Let_def by (intro answers_intros)

lemma answers_set_position [answers_intros]: "answers (fwr_handle_surface_set_position env args st)"
  unfolding fwr_handle_surface_set_position_def Let_def
  by (intro answers_intros) (auto split: option.split intro!: answers_intros)

lemma answers_request_resize [answers_intros]: "answers (fwr_handle_surface_request_resize env args st)"
  unfolding fwr_handle_surface_request_resize_def
  by (auto split: dart_value.split intro!: answers_intros)

lemma answers_end_resize [answers_intros]: "answers (fwr_handle_surface_end_resize env args st)"
  unfolding fwr_handle_surface_end_resize_def
  by (auto split: dart_value.split intro!: answers_intros)

lemma answers_pointer_event [answers_intros]: "answers (fwr_handle_surface_pointer_event_message env args st)"
  unfolding fwr_handle_surface_pointer_event_message_def Let_def
  by (intro answers_intros) (auto split: option.split prod.split intro!: answers_intros)

lemma answers_popup_event [answers_intros]: "answers (fwr_handle_popup_pointer_event_message env args st)"
  unfolding fwr_handle_popup_pointer_event_message_def Let_def
  by (intro answers_intros) (auto split: option.split prod.split intro!: answers_intros)

lemma answers_key [answers_intros]: "answers (fwr_handle_surface_keyboard_key_message env args st)"
  unfolding fwr_handle_surface_keyboard_key_message_def
  by (intro answers_intros) (use silent_focus in \<open>fastforce simp: silent_def split: option.split\<close>)

lemma answers_answer_success: "silent r \<Longrightarrow> answers (map_option answer_success r)"
  by (cases r) (auto simp: silent_def answers_def answer_success_def)

lemma answers_direct_input [answers_intros]: "answers (set_direct_input_mode args st)"
  unfolding set_direct_input_mode_def
  by (intro answers_answer_success) (auto split: option.split intro!: answers_intros)

lemma answers_vsync_output [answers_intros]: "answers (set_vsync_output_message env args st)"
  unfolding set_vsync_output_message_def
  by (intro answers_answer_success) (auto simp: silent_def split: option.split bind_split)

lemma answers_rate_limit [answers_intros]: "answers (set_vsync_rate_limit_message args st)"
  unfolding set_vsync_rate_limit_message_def
  by (intro answers_answer_success) (auto split: option.split intro!: answers_intros)

text \<open>
  The responses that \<open>platform_channel.c\<close> builds: with memory for the block, one is sent.
\<close>

definition platch_ready :: "wlr_env \<Rightarrow> bool" where
  "platch_ready env \<longleftrightarrow> env_heap (e_platch env) = (\<lambda>_. True) \<and> env_enc_base (e_platch env) mod 8 = 0"

lemma platch_respond_once:
  assumes "platch_encode e obj = Inr bs"
  shows "responses (map Platch (snd (platch_respond e obj))) = 1"
  using assms by (cases obj) (simp_all add: platch_respond_def)

lemma platch_std_once:
  assumes "platch_ready env" and "wf_obj (StdSuccess v)"
  shows "responses (map Platch (snd (platch_respond_success_std (e_platch env) (Some v)))) = 1"
proof -
  have "env_enc_base (e_platch env) mod 8 = 0" using assms(1) by (simp add: platch_ready_def)
  from encode_fills_block [OF this assms(2)] assms(1)
  have "platch_encode (e_platch env) (StdSuccess v) = Inr (encode_bytes (e_platch env) (StdSuccess v))"
    by (simp add: platch_ready_def)
  from platch_respond_once [OF this] show ?thesis by (simp add: platch_respond_success_std_def)
qed

lemma platch_encode_ready:
  assumes "platch_ready env" and "wf_obj obj" and "encode_size (e_platch env) obj = Inr n"
  shows "responses (map Platch (snd (platch_respond (e_platch env) obj))) = 1"
proof -
  have "platch_encode (e_platch env) obj = Inr (encode_bytes (e_platch env) obj)"
    by (rule encode_fills_block [OF _ assms(2,3)]) (use assms(1) in \<open>simp_all add: platch_ready_def\<close>)
  then show ?thesis by (rule platch_respond_once)
qed

lemma platch_error_once:
  assumes "platch_ready env" and "wf_obj (StdError code (Some msg) StdNull)"
  shows "responses (map Platch (snd (platch_respond_error_std (e_platch env) code (Some msg) None))) = 1"
  unfolding platch_respond_error_std_def using platch_encode_ready [OF assms] by simp

lemma platch_null_once:
  assumes "platch_ready env"
  shows "responses (respond_success_std (e_platch env)) = 1"
  unfolding respond_success_std_def platch_respond_success_std_def
  using platch_encode_ready [OF assms, of "StdSuccess StdNull"] by simp

lemma platch_json_once:
  assumes "platch_ready env"
  shows "responses (map Platch (snd (platch_respond_success_json (e_platch env) None))) = 1"
  unfolding platch_respond_success_json_def
  using platch_encode_ready [OF assms, of "JsonSuccess JsonNull"] by simp

text \<open>The commands for outputs.\<close>

definition quiet_flag :: "(bool \<times> effect list) option \<Rightarrow> bool" where
  "quiet_flag r \<longleftrightarrow> (\<forall>b es. r = Some (b, es) \<longrightarrow> responses es = 0)"

lemma quiet_Some: "responses es = 0 \<Longrightarrow> quiet_flag (Some (b, es))"
  by (simp add: quiet_flag_def)

lemma quiet_bind: "(\<And>x. quiet_flag (f x)) \<Longrightarrow> quiet_flag (Option.bind r f)"
  by (cases r) (simp_all add: quiet_flag_def)

lemma quiet_outputs:
  "quiet_flag (fwr_set_output_mode env i w h r st)" "quiet_flag (fwr_set_output_position i x y st)"
  "quiet_flag (fwr_set_output_scale env i s st)"
  by (auto simp: quiet_flag_def fwr_set_output_mode_def fwr_set_output_position_def fwr_set_output_scale_def
      split: option.splits)

lemma answers_flag:
  assumes "platch_ready env" and "quiet_flag r" and "wf_std (StdString (ascii msg))"
  shows "answers (map_option (answer_flag env msg st) r)"
proof -
  have "wf_obj (StdError (ascii ''error'') (Some (ascii msg)) StdNull)" using assms(3) by (simp add: ascii_def)
  from platch_error_once [OF assms(1) this] assms(2) show ?thesis
    by (cases r) (auto simp: answers_def answer_flag_def quiet_flag_def)
qed

lemma answers_output_commands:
  assumes "platch_ready env"
  shows "answers (set_output_mode_message env args st)" "answers (set_output_position_message env args st)"
    "answers (set_output_scale_message env args st)"
  unfolding set_output_mode_message_def set_output_position_message_def set_output_scale_message_def
  by (rule answers_flag [OF assms]; (simp add: ascii_def)?;
      auto split: option.split intro!: quiet_bind quiet_outputs quiet_Some)+

lemma send_outputs_quiet: "send_outputs_loop env st ps = Some es \<Longrightarrow> responses es = 0"
  by (induction ps arbitrary: es) (auto simp: send_output_added_def split: option.splits)

lemma answers_ready [answers_intros]:
  "answers (map_option (\<lambda>es. (st, es @ [respond_success])) (fwr_send_all_outputs env st))"
  by (auto simp: answers_def fwr_send_all_outputs_def dest: send_outputs_quiet)

lemma answers_socket_paths:
  assumes "platch_ready env" and "wf_std (StdString (wl_socket st))"
  shows "answers (Some (st, get_socket_paths env st))"
proof -
  have "wf_obj (StdSuccess (StdMap [(StdString (ascii ''wayland''), StdString (wl_socket st)), (StdString (ascii ''x''), StdString [])]))"
    using assms(2) by (simp add: ascii_def)
  from platch_std_once [OF assms(1) this] show ?thesis
    by (simp add: answers_def get_socket_paths_def)
qed

lemma method_table_answers:
  assumes "platch_ready env" and "wf_std (StdString (wl_socket st))" and "(m, f) \<in> set (method_table env)"
  shows "answers (f args st)"
  using assms(3) answers_output_commands [OF assms(1)] answers_socket_paths [OF assms(1,2)]
  by (auto simp: method_table_def intro!: answers_intros)

lemma wlroots_message_answers:
  assumes "platch_ready env" and "wf_std (StdString (wl_socket st))"
  shows "answers (wlroots_message env msg st)"
proof -
  have F: "answers (case List.find P (method_table env) of Some (m, f) \<Rightarrow> f args st | None \<Rightarrow> Some (st, [respond_failure]))"
    for P args
  proof (cases "List.find P (method_table env)")
    case None
    then show ?thesis by (simp add: answers_def)
  next
    case (Some mf)
    obtain m f where mf: "mf = (m, f)" by (cases mf)
    have "mf \<in> set (method_table env)" using Some by (auto simp: find_Some_iff)
    with method_table_answers [OF assms] show ?thesis unfolding Some mf by simp
  qed
  show ?thesis
    unfolding wlroots_message_def
    by (cases "message_read msg 0"; simp only: read.case; (intro answers_intros)?; simp?)
      (auto simp: F split: read.split dart_value.split intro!: answers_intros)
qed

text \<open>The two channel handlers: the response is sent exactly when they say they handled it.\<close>

lemma text_effects_answer:
  assumes "platch_ready env" and "handle_text_call m arg ti = Some (ti', handled, es)"
  shows "responses (concat (map (text_call (e_platch env)) es)) = (if handled then 1 else 0)"
  using assms(2) platch_json_once [OF assms(1)]
  by (auto split: if_splits bind_splits)

lemma text_handler_answers:
  assumes "platch_ready env" and "text_input_handle_message (e_platch env) ok msg ti = Some (ti', handled, es)"
  shows "responses (concat (map (text_call (e_platch env)) es)) = (if handled then 1 else 0)"
proof -
  from assms(2) consider "\<not> handled" "es = []" | m arg where "handle_text_call m arg ti = Some (ti', handled, es)"
    by (auto simp: text_input_handle_message_def Let_def bind_eq_Some_conv simp del: handle_text_call.simps
        split: if_splits sum.splits platch_obj.splits option.splits)
  then show ?thesis
  proof cases
    case 2
    from text_effects_answer [OF assms(1) this] show ?thesis .
  qed simp
qed

lemma activate_silent: "activate_cursor arg st = Some (st', es) \<Longrightarrow> responses es = 0"
  by (auto simp: activate_cursor_def Let_def split: std_value.splits option.splits)

lemma cursor_handler_answers:
  assumes "platch_ready env" and "cursor_handle_message (e_platch env) msg st = Some (st', handled, es)"
  shows "responses es = (if handled then 1 else 0)"
  using assms(2) activate_silent platch_null_once [OF assms(1)]
  by (auto simp: cursor_handle_message_def split: if_splits sum.splits platch_obj.splits)

lemma run_handler_answers:
  assumes "platch_ready env" and "run_handler env h msg c = Some (c', handled, es)"
  shows "responses es = (if handled then 1 else 0)"
  using assms(2) text_handler_answers [OF assms(1)] cursor_handler_answers [OF assms(1)]
  by (cases h) (force simp: run_handler_def)+

lemma plugin_message_answers:
  assumes "platch_ready env" and "plugin_message env pm c = Some (c', es)"
  shows "responses es = 1"
proof (cases "List.find (\<lambda>h. cstr (pm_channel pm) = handler_name h) (registry_handlers (plugin_registry (fst c)))")
  case None
  with assms(2) show ?thesis by (auto simp: plugin_message_def)
next
  case (Some h)
  with assms(2) obtain handled es' where "run_handler env (handle_message h) (pm_message pm) c = Some (c', handled, es')"
    "es = (if handled then es' else es' @ [respond_failure])"
    by (auto simp: plugin_message_def split: option.splits)
  with run_handler_answers [OF assms(1)] show ?thesis by fastforce
qed

end
