(* ===== verification/Surfaces.thy ===== *)
theory Surfaces
  imports Dispatch
begin

text \<open>
  The objects of \<open>src/surface.c\<close> as a whole: toplevels, subsurfaces and popups are allocated,
  entered in a handle map, and freed when wlroots says so, while the client, the input devices and
  Dart act on them in any order. What every one of these events keeps: a handle leads to the object
  that carries it, and never to a freed one.
\<close>

section \<open>A handle map and the store it points into\<close>

definition tracks :: "ptr handle_map \<Rightarrow> (ptr \<Rightarrow> 'o option) \<Rightarrow> ('o \<Rightarrow> u32) \<Rightarrow> bool" where
  "tracks m store hnd \<longleftrightarrow> handle_inv m \<and>
     (\<forall>h p. handle_map_get m h = Some p \<longleftrightarrow> (\<exists>ob. store p = Some ob \<and> hnd ob = h))"

lemma tracks_get:
  "tracks m store hnd \<Longrightarrow> handle_map_get m h = Some p \<Longrightarrow> \<exists>ob. store p = Some ob \<and> hnd ob = h"
  by (simp add: tracks_def)

lemma tracks_add:
  assumes "tracks m store hnd" and "handle_room m" and "store p = None" and "hnd ob = fst (handle_map_add m p)"
  shows "tracks (snd (handle_map_add m p)) (store(p \<mapsto> ob)) hnd"
proof -
  have inv: "handle_inv m" and T: "\<And>h q. handle_map_get m h = Some q \<longleftrightarrow> (\<exists>ob. store q = Some ob \<and> hnd ob = h)"
    using assms(1) by (simp_all add: tracks_def)
  have fresh: "handle_map_get m (hnd ob) = None" using hs.add_fresh [OF inv] assms(4) by simp
  have "handle_map_get (snd (handle_map_add m p)) h = Some q \<longleftrightarrow> (\<exists>o'. (store(p \<mapsto> ob)) q = Some o' \<and> hnd o' = h)" for h q
    using T [of h q] T [of h p] fresh assms(3) unfolding hs.get_add [OF inv] assms(4) [symmetric]
    by (auto simp: fun_upd_def)
  then show ?thesis using hs.inv_add [OF inv assms(2)] unfolding tracks_def by blast
qed

lemma tracks_remove:
  assumes "tracks m store hnd" and "store p = Some ob"
  shows "tracks (snd (handle_map_remove m (hnd ob))) (store(p := None)) hnd"
proof -
  have inv: "handle_inv m" and T: "\<And>h q. handle_map_get m h = Some q \<longleftrightarrow> (\<exists>ob. store q = Some ob \<and> hnd ob = h)"
    using assms(1) by (simp_all add: tracks_def)
  have p: "handle_map_get m (hnd ob) = Some p" using T assms(2) by blast
  have "handle_map_get (snd (handle_map_remove m (hnd ob))) h = Some q
      \<longleftrightarrow> (\<exists>o'. (store(p := None)) q = Some o' \<and> hnd o' = h)" for h q
    using T [of h q] p assms(2) unfolding hs.get_remove [OF inv] by (auto simp: fun_upd_def)
  then show ?thesis using hs.inv_remove [OF inv] unfolding tracks_def by blast
qed

text \<open>Which object carries which handle; all that \<open>tracks\<close> depends on.\<close>

definition ids :: "('o \<Rightarrow> u32) \<Rightarrow> (ptr \<Rightarrow> 'o option) \<Rightarrow> ptr \<Rightarrow> u32 option" where
  "ids hnd store p = map_option hnd (store p)"

lemma tracks_ids: "tracks m store hnd \<longleftrightarrow> handle_inv m \<and> (\<forall>h p. handle_map_get m h = Some p \<longleftrightarrow> ids hnd store p = Some h)"
  by (auto simp: tracks_def ids_def)

lemma ids_upd [simp]: "ids hnd (store(p \<mapsto> ob)) = (ids hnd store)(p \<mapsto> hnd ob)"
  by (auto simp: ids_def fun_eq_iff)

lemma ids_same: "store p = Some ob \<Longrightarrow> (ids hnd store)(p \<mapsto> hnd ob) = ids hnd store"
  by (auto simp: ids_def fun_eq_iff)

lemma dom_ids: "dom (ids hnd store) = dom store"
  by (auto simp: ids_def)

section \<open>The invariant\<close>

definition surfaces_ok :: "fwr_instance \<Rightarrow> bool" where
  "surfaces_ok st \<longleftrightarrow> tracks (views st) (view_store st) v_handle \<and> tracks (popups st) (popup_store st) p_handle
     \<and> tracks (subsurfaces st) (subsurface_store st) s_handle
     \<and> distinct (views_list st) \<and> set (views_list st) = dom (view_store st)"

text \<open>What it rests on, and the relation to a state that agrees on that.\<close>

definition shape :: "fwr_instance \<Rightarrow> _" where
  "shape st = (views st, ids v_handle (view_store st), popups st, ids p_handle (popup_store st),
     subsurfaces st, ids s_handle (subsurface_store st), views_list st)"

lemma shape_ok: "shape st' = shape st \<Longrightarrow> surfaces_ok st' \<longleftrightarrow> surfaces_ok st"
  unfolding surfaces_ok_def tracks_ids dom_ids [of v_handle, symmetric] by (simp add: shape_def)

definition keeps :: "fwr_instance \<Rightarrow> outcome \<Rightarrow> bool" where
  "keeps st r \<longleftrightarrow> (\<forall>st' es. r = Some (st', es) \<longrightarrow> shape st' = shape st)"

lemma keepsD: "keeps st r \<Longrightarrow> r = Some (st', es) \<Longrightarrow> shape st' = shape st"
  by (simp add: keeps_def)

named_theorems keeps_intros

lemma keeps_Some [keeps_intros]: "shape st' = shape st \<Longrightarrow> keeps st (Some (st', es))"
  by (simp add: keeps_def)

lemma keeps_result: "shape (fst r) = shape st \<Longrightarrow> keeps st (Some r)"
  by (cases r) (simp add: keeps_def)

lemma keeps_None [keeps_intros]: "keeps st None"
  by (simp add: keeps_def)

lemma keeps_bind [keeps_intros]: "(\<And>x. r = Some x \<Longrightarrow> keeps st (f x)) \<Longrightarrow> keeps st (Option.bind r f)"
  by (cases r) (simp_all add: keeps_def)

lemma keeps_then:
  assumes "keeps st r" and "\<And>st1 es. r = Some (st1, es) \<Longrightarrow> shape st1 = shape st \<Longrightarrow> keeps st1 (f (st1, es))"
  shows "keeps st (Option.bind r f)"
  using assms by (cases r) (auto simp: keeps_def)

lemma keeps_map: "keeps st r \<Longrightarrow> (\<And>s es. fst (g (s, es)) = s) \<Longrightarrow> keeps st (map_option g r)"
  by (cases r) (auto simp: keeps_def, metis fst_conv)

lemma shape_simps [simp]:
  "shape (st\<lparr>input := i\<rparr>) = shape st" "shape (st\<lparr>current_focused_view := h\<rparr>) = shape st"
  "shape (st\<lparr>surface_button_states := t\<rparr>) = shape st" "shape (st\<lparr>vsync_output := w\<rparr>) = shape st"
  "shape (st\<lparr>vsync_rate_limit := n\<rparr>) = shape st" "shape (st\<lparr>direct_input_mode := b, direct_input_surface := h\<rparr>) = shape st"
  "shape (st\<lparr>cursor_x := x, cursor_y := y\<rparr>) = shape st" "shape (st\<lparr>xdg_data := d\<rparr>) = shape st"
  by (simp_all add: shape_def)

lemma shape_set_view: "view_store st p = Some v \<Longrightarrow> v_handle v' = v_handle v \<Longrightarrow> shape (set_view p v' st) = shape st"
  by (simp add: shape_def set_view_def) (metis ids_same)

lemma shape_set_popup: "popup_store st q = Some v \<Longrightarrow> p_handle v' = p_handle v \<Longrightarrow> shape (set_popup q v' st) = shape st"
  by (simp add: shape_def set_popup_def) (metis ids_same)

lemma shape_set_subsurface:
  "subsurface_store st q = Some v \<Longrightarrow> s_handle v' = s_handle v \<Longrightarrow> shape (set_subsurface q v' st) = shape st"
  by (simp add: shape_def set_subsurface_def) (metis ids_same)

section \<open>Events that allocate and free nothing\<close>

lemma get_view_store: "get_view st h = Found p v \<Longrightarrow> view_store st p = Some v"
  by (auto simp: get_view_def split: option.splits)

lemma get_popup_store: "get_popup st h = Found p v \<Longrightarrow> popup_store st p = Some v"
  by (auto simp: get_popup_def split: option.splits)

lemma keeps_deactivate: "keeps st (deactivate_previous env prev st)"
  by (auto simp: deactivate_previous_def Let_def intro!: keeps_intros shape_set_view split: option.split)

lemma keeps_focus [keeps_intros]: "keeps st (fwr_focus_view env p st)"
proof (cases "view_store st p")
  case None
  then show ?thesis by (simp add: fwr_focus_view_def keeps_None)
next
  case (Some v)
  show ?thesis
  proof (cases "deactivate_previous env (e_focused_surface env) st")
    case None
    then show ?thesis using Some by (simp add: fwr_focus_view_def Let_def keeps_def)
  next
    case S: (Some r)
    obtain st1 es1 where r: "r = (st1, es1)" by (cases r)
    have s1: "shape st1 = shape st" using keepsD [OF keeps_deactivate S [unfolded r]] .
    show ?thesis
    proof (cases "view_store st1 p")
      case (Some v1)
      then have "shape (set_view p (v1\<lparr>v_activated := True\<rparr>) st1) = shape st"
        by (subst shape_set_view [of st1 p v1]) (simp_all add: s1)
      with Some \<open>view_store st p = Some v\<close> s1 show ?thesis
        unfolding fwr_focus_view_def by (simp add: Let_def S r keeps_def)
    qed (use Some in \<open>simp add: fwr_focus_view_def Let_def S r keeps_def\<close>)
  qed
qed

lemma keeps_after: "keeps st r \<Longrightarrow> (\<And>s es s' es'. f (s, es) = Some (s', es') \<Longrightarrow> s' = s) \<Longrightarrow> keeps st (Option.bind r f)"
  by (cases r) (auto simp: keeps_def, metis)

lemma keeps_focus_and_raise [keeps_intros]: "keeps st (focus_and_raise env p st)"
proof -
  have "focus_and_raise env p st = Option.bind (fwr_focus_view env p st)
      (\<lambda>(st1, es). case view_store st1 p of None \<Rightarrow> None | Some v \<Rightarrow> Some (st1, es @ raise_view v))"
    by (simp add: focus_and_raise_def split: option.split)
  then show ?thesis by (auto intro!: keeps_after keeps_focus split: option.splits)
qed

lemma keeps_focus_view_and_raise: "keeps st (focus_view_and_raise env p st)"
  unfolding focus_view_and_raise_def by (rule keeps_after [OF keeps_focus]) (auto split: bind_splits)

lemma keeps_decode [keeps_intros]: "(\<And>m. d = Decoded m \<Longrightarrow> keeps st (f m)) \<Longrightarrow> keeps st (decode_or_fail d st f)"
  by (cases d) (auto simp: decode_or_fail_def keeps_def)

lemma keeps_with_view [keeps_intros]:
  "(\<And>p v. view_store st p = Some v \<Longrightarrow> keeps st (act p v)) \<Longrightarrow> keeps st (with_view h st act)"
  by (cases "get_view st h") (auto simp: with_view_def keeps_def dest: get_view_store)

lemma keeps_with_popup [keeps_intros]:
  "(\<And>p v. popup_store st p = Some v \<Longrightarrow> keeps st (act p v)) \<Longrightarrow> keeps st (with_popup h st act)"
  by (cases "get_popup st h") (auto simp: with_popup_def keeps_def dest: get_popup_store)

lemma keeps_from: "shape st1 = shape st \<Longrightarrow> keeps st1 r \<Longrightarrow> keeps st r"
  by (simp add: keeps_def)

lemma move_view_handle: "move_view g cx cy v = Some v' \<Longrightarrow> v_handle v' = v_handle v"
  by (auto simp: move_view_def split: bind_splits)

lemma resize_view_handle: "resize_view g cx cy v = Some v' \<Longrightarrow> v_handle v' = v_handle v"
  by (auto simp: resize_view_def Let_def split: bind_splits)

lemma keeps_grab_motion [keeps_intros]: "keeps st (grab_motion env cx cy st)"
  by (auto simp: grab_motion_def Let_def move_view_handle resize_view_handle dest: get_view_store
      intro!: keeps_intros shape_set_view split: lookup.split fwr_grab_type.split)

lemma keeps_end_grab [keeps_intros]: "keeps st (end_grab st)"
  by (auto simp: end_grab_def Let_def intro!: keeps_intros split: lookup.split)

lemma keeps_cursor_motion: "keeps st (process_cursor_motion env time st)"
  using keeps_grab_motion [of st env]
  by (auto simp: process_cursor_motion_def Let_def keeps_def split: lookup.splits bind_splits option.splits if_splits)

lemma keeps_cursor_button: "keeps st (on_server_cursor_button env time button pressed st)"
proof -
  have "keeps st (map_option (\<lambda>(st1, es). (st1, es @ f st1)) (end_grab (st\<lparr>input := i\<rparr>)))" for i f
    using keeps_end_grab [of "st\<lparr>input := i\<rparr>"] by (auto simp: keeps_def)
  then show ?thesis
    by (auto simp: on_server_cursor_button_def Let_def intro!: keeps_intros split: lookup.split)
qed

lemma keeps_cursor_axis: "keeps st (on_server_cursor_axis horizontal event st)"
  by (auto simp: on_server_cursor_axis_def Let_def intro!: keeps_intros split: lookup.split)

lemma keeps_alt_tab: "keeps st (alt_tab env shift st)"
  by (auto simp: alt_tab_def intro!: keeps_intros keeps_focus_view_and_raise
      split: lookup.split list.split option.split)

lemma shape_tile: "view_store st p = Some v \<Longrightarrow> shape (fst (tile_view env key w p v st)) = shape st"
  by (auto simp: tile_view_def Let_def intro!: shape_set_view)

lemma shape_maximize: "view_store st p = Some v \<Longrightarrow> shape (fst (maximize_view env p v st)) = shape st"
  by (auto simp: maximize_view_def Let_def intro!: shape_set_view)

lemma get_focused_store: "get_focused_view st = Found p v \<Longrightarrow> view_store st p = Some v"
  by (auto simp: get_focused_view_def dest: get_view_store split: if_splits)

lemma keeps_pair: "shape (fst r) = shape st \<Longrightarrow> keeps st (case r of (s, es) \<Rightarrow> Some (s, g s es))"
  by (cases r) (simp add: keeps_def)

lemma keeps_key: "keeps st (keyboard_handle_key env kb mods ksym time keycode pressed st)"
  unfolding keyboard_handle_key_def Let_def
  using keeps_alt_tab [of st env "mod_shift mods"]
  by (auto simp: shape_tile shape_maximize dest!: get_focused_store
      intro!: keeps_intros keeps_pair keeps_map split: lookup.split option.split)

section \<open>Requests of Dart\<close>

lemma keeps_set_size [keeps_intros]: "keeps st (fwr_handle_surface_toplevel_set_size env args st)"
  unfolding fwr_handle_surface_toplevel_set_size_def by (intro keeps_intros) simp

lemma keeps_set_maximized [keeps_intros]: "keeps st (fwr_handle_surface_toplevel_set_maximized env args st)"
  unfolding fwr_handle_surface_toplevel_set_maximized_def
  by (intro keeps_intros) (auto intro!: keeps_intros shape_set_view)

lemma keeps_close [keeps_intros]: "keeps st (fwr_handle_surface_toplevel_close env args st)"
  unfolding fwr_handle_surface_toplevel_close_def by (intro keeps_intros) simp

lemma keeps_surface_focus [keeps_intros]: "keeps st (fwr_handle_surface_focus env args st)"
  unfolding fwr_handle_surface_focus_def by (intro keeps_intros)

lemma keeps_begin_move [keeps_intros]: "keeps st (fwr_handle_surface_begin_move env args st)"
  unfolding fwr_handle_surface_begin_move_def Let_def
  by (intro keeps_intros) (rule keeps_from [OF _ keeps_focus_and_raise], simp)

lemma keeps_begin_resize [keeps_intros]: "keeps st (fwr_handle_surface_begin_resize env args st)"
  unfolding fwr_handle_surface_begin_resize_def Let_def
  by (intro keeps_intros) (rule keeps_from [OF _ keeps_focus_and_raise], simp)

lemma move_subsurfaces_shape: "move_subsurfaces out scale qs st = Some st' \<Longrightarrow> shape st' = shape st"
  by (induction qs arbitrary: st) (fastforce simp: shape_set_subsurface split: option.splits)+

lemma move_popups_shape: "move_popups p out scale qs st = Some st' \<Longrightarrow> shape st' = shape st"
  by (induction qs arbitrary: st) (fastforce simp: shape_set_popup split: option.splits if_splits)+

lemma keeps_set_position [keeps_intros]: "keeps st (fwr_handle_surface_set_position env args st)"
  unfolding fwr_handle_surface_set_position_def Let_def
  by (intro keeps_intros)
    (auto simp: shape_set_view dest!: move_subsurfaces_shape move_popups_shape intro!: keeps_intros
      split: option.split if_splits bind_splits)

lemma keeps_request_resize [keeps_intros]: "keeps st (fwr_handle_surface_request_resize env args st)"
  unfolding fwr_handle_surface_request_resize_def
  by (auto intro!: keeps_intros shape_set_view split: dart_value.split)

lemma keeps_end_resize [keeps_intros]: "keeps st (fwr_handle_surface_end_resize env args st)"
  unfolding fwr_handle_surface_end_resize_def
  by (auto intro!: keeps_intros shape_set_view split: dart_value.split)

lemma shape_press [simp]: "shape (fst (press_buttons h n t st)) = shape st"
  by (simp add: press_buttons_def Let_def shape_def)

lemma shape_scroll [simp]: "shape (fst (scroll_axes m st)) = shape st"
  by (simp add: scroll_axes_def Let_def)

lemma keeps_scroll: "keeps st (Some (scroll_axes m st))"
  by (rule keeps_result) simp

lemma keeps_pointer_on_surface: "keeps st (pointer_on_surface env m p surface pos st)"
proof -
  have "keeps st (Option.bind (focus_and_raise env p st) (\<lambda>(st1, es1).
      let (st2, es2) = press_buttons h n t st1 in Some (st2, Seat (PointerEnter surface x y) # es1 @ es2 @ [Seat PointerFrame])))"
    for h n t x y
  proof (rule keeps_then [OF keeps_focus_and_raise], goal_cases)
    case (1 st1 es1)
    then show ?case using shape_press [of h n t st1] by (cases "press_buttons h n t st1") (simp add: keeps_def)
  qed
  then show ?thesis
    by (cases pos) (auto simp: pointer_on_surface_def Let_def intro!: keeps_intros keeps_scroll)
qed

lemma keeps_pointer_event [keeps_intros]: "keeps st (fwr_handle_surface_pointer_event_message env args st)"
proof -
  have "keeps st (pointer_during_grab env m (st\<lparr>input := i\<rparr>))" for m i
    by (rule keeps_from [of "st\<lparr>input := i\<rparr>"]) (auto simp: pointer_during_grab_def intro!: keeps_intros)
  moreover have "keeps st (pointer_on_surface env m p s pos (st\<lparr>input := i\<rparr>))" for m p s pos i
    by (rule keeps_from [OF _ keeps_pointer_on_surface]) simp
  ultimately show ?thesis
    unfolding fwr_handle_surface_pointer_event_message_def Let_def
    by (intro keeps_intros) (auto intro!: keeps_intros split: option.split prod.split)
qed

lemma keeps_popup_event [keeps_intros]: "keeps st (fwr_handle_popup_pointer_event_message env args st)"
proof -
  have "shape (fst (pointer_on_popup m s pos st)) = shape st" for m s pos
    using shape_press [of "pe_surface_handle m + 200000" "pe_buttons m" "to_msec (pe_timestamp m)" st]
    by (cases pos; cases "press_buttons (pe_surface_handle m + 200000) (pe_buttons m) (to_msec (pe_timestamp m)) st")
      (simp add: pointer_on_popup_def Let_def)
  then have "keeps st (Some (pointer_on_popup m s pos st))" for m s pos by (rule keeps_result)
  then show ?thesis
    unfolding fwr_handle_popup_pointer_event_message_def Let_def
    by (intro keeps_intros) (auto intro!: keeps_intros split: option.split prod.split)
qed

lemma keeps_keyboard_key [keeps_intros]: "keeps st (fwr_handle_surface_keyboard_key_message env args st)"
  unfolding fwr_handle_surface_keyboard_key_message_def by (intro keeps_intros keeps_map) auto

lemma keeps_answer_success: "keeps st r \<Longrightarrow> keeps st (map_option answer_success r)"
  by (rule keeps_map) (simp_all add: answer_success_def)

lemma keeps_direct_input [keeps_intros]: "keeps st (set_direct_input_mode args st)"
  unfolding set_direct_input_mode_def
  by (intro keeps_answer_success) (auto intro!: keeps_intros split: option.split)

lemma shape_vsync_output: "fwr_set_vsync_output env i st = Some st' \<Longrightarrow> shape st' = shape st"
  by (auto simp: fwr_set_vsync_output_def fwr_select_highest_refresh_output_def split: if_splits option.splits)

lemma keeps_vsync_output [keeps_intros]: "keeps st (set_vsync_output_message env args st)"
  unfolding set_vsync_output_message_def
  by (intro keeps_answer_success) (auto simp: keeps_def shape_vsync_output split: option.split bind_split)

lemma keeps_rate_limit [keeps_intros]: "keeps st (set_vsync_rate_limit_message args st)"
  unfolding set_vsync_rate_limit_message_def fwr_set_vsync_rate_limit_def
  by (intro keeps_answer_success) (auto intro!: keeps_intros split: option.split)

lemma keeps_answer_flag: "keeps st (map_option (answer_flag env msg st) r)"
  by (cases r) (simp_all add: keeps_def answer_flag_def)

lemma keeps_output_commands [keeps_intros]:
  "keeps st (set_output_mode_message env args st)" "keeps st (set_output_position_message env args st)"
  "keeps st (set_output_scale_message env args st)"
  unfolding set_output_mode_message_def set_output_position_message_def set_output_scale_message_def
  by (rule keeps_answer_flag)+

lemma keeps_method: "(m, f) \<in> set (method_table env) \<Longrightarrow> keeps st (f args st)"
  by (auto simp: method_table_def keeps_def [of st "map_option _ _"] intro!: keeps_intros)

lemma keeps_wlroots_message: "keeps st (wlroots_message env msg st)"
proof -
  have "keeps st (case List.find P (method_table env) of Some (m, f) \<Rightarrow> f args st | None \<Rightarrow> Some (st, [respond_failure]))"
    for P args
  proof (cases "List.find P (method_table env)")
    case None
    then show ?thesis by (simp add: keeps_def)
  next
    case (Some mf)
    obtain m f where mf: "mf = (m, f)" by (cases mf)
    have "mf \<in> set (method_table env)" using Some by (auto simp: find_Some_iff)
    with keeps_method show ?thesis unfolding Some mf by simp
  qed
  then show ?thesis
    unfolding wlroots_message_def by (auto intro!: keeps_intros split: read.split dart_value.split)
qed

section \<open>Events of the client that allocate and free nothing\<close>

lemma create_scene_handle: "view_create_scene env v = Some (v', es) \<Longrightarrow> v_handle v' = v_handle v"
  by (auto simp: view_create_scene_def Let_def split: if_splits option.splits)

lemma keeps_toplevel_map: "keeps st (xdg_toplevel_map env p st)"
  unfolding xdg_toplevel_map_def Let_def
proof (intro keeps_intros, goal_cases)
  case (1 v0 x)
  show ?case
  proof (cases x)
    case (Pair v1 es1)
    with 1 have s: "shape (set_view p v3 st) = shape st" if "v_handle v3 = v_handle v1" for v3
      using that by (intro shape_set_view) (simp_all add: create_scene_handle)
    show ?thesis
      unfolding Pair by (auto simp: s dest!: keepsD [OF keeps_focus] intro!: keeps_intros)
  qed
qed

lemma keeps_toplevel_commit: "keeps st (xdg_toplevel_commit env p st)"
  by (auto simp: xdg_toplevel_commit_def Let_def intro!: keeps_intros shape_set_view)

lemma keeps_request_grab: "keeps st (xdg_toplevel_request_move env p st)" "keeps st (xdg_toplevel_request_resize env edges p st)"
  unfolding xdg_toplevel_request_move_def xdg_toplevel_request_resize_def Let_def
  by (intro keeps_intros; rule keeps_from [OF _ keeps_focus_and_raise], simp)+

lemma keeps_toplevel_unmap: "keeps st (xdg_toplevel_unmap p st)"
  by (simp add: xdg_toplevel_unmap_def keeps_intros)

lemma keeps_with_subsurface:
  "(\<And>s parent. subsurface_store st q = Some s \<Longrightarrow> view_store st (s_parent_view s) = Some parent \<Longrightarrow> keeps st (f s parent))
     \<Longrightarrow> keeps st (with_subsurface q st f)"
  by (auto simp: with_subsurface_def intro!: keeps_intros)

lemma keeps_subsurface_map: "keeps st (subsurface_handle_map env pos q st)"
  unfolding subsurface_handle_map_def Let_def
  by (rule keeps_with_subsurface) (auto intro!: keeps_intros shape_set_subsurface)

lemma keeps_subsurface_unmap: "keeps st (subsurface_handle_unmap q st)"
  unfolding subsurface_handle_unmap_def by (rule keeps_with_subsurface) (simp add: keeps_intros)

lemma keeps_subsurface_commit: "keeps st (subsurface_handle_commit env pos q st)"
  unfolding subsurface_handle_commit_def Let_def
  by (rule keeps_with_subsurface) (auto intro!: keeps_intros shape_set_subsurface)

lemma keeps_send_popup_map: "keeps st (send_popup_map env pv q st)"
  unfolding send_popup_map_def Let_def
  by (intro keeps_intros) (auto intro!: keeps_intros shape_set_popup split: if_splits)

lemma shape_register_popup: "popup_store st q = Some pp \<Longrightarrow> shape (fst (register_popup_texture env q pp st)) = shape st"
  by (auto simp: register_popup_texture_def Let_def intro!: shape_set_popup)

lemma keeps_register_then_map:
  assumes "popup_store st q = Some pp"
  shows "keeps st (let (st1, es1) = register_popup_texture env q pp st
    in map_option (\<lambda>(s, es). (s, es1 @ es)) (send_popup_map env pv q st1))"
proof (cases "register_popup_texture env q pp st")
  case (Pair st1 es1)
  with shape_register_popup [OF assms, of env] have "shape st1 = shape st" by simp
  then have "keeps st (map_option (\<lambda>(s, es). (s, es1 @ es)) (send_popup_map env pv q st1))"
    by (intro keeps_map keeps_from [OF _ keeps_send_popup_map]) auto
  with Pair show ?thesis by simp
qed

lemma keeps_popup_map: "keeps st (popup_handle_map env pv q st)"
proof -
  have "keeps st (map_option (\<lambda>(s, es). (s, es1 @ es)) (send_popup_map env pv q st))" for es1
    by (intro keeps_map keeps_send_popup_map) auto
  with keeps_register_then_map show ?thesis
    unfolding popup_handle_map_def
    by (intro keeps_bind) (auto simp: Let_def option.map_id keeps_send_popup_map split: if_splits)
qed

lemma keeps_popup_unmap: "keeps st (popup_handle_unmap q st)"
  by (auto simp: popup_handle_unmap_def intro!: keeps_intros shape_set_popup)

lemma keeps_popup_unconstrain: "popup_store st q = Some pp \<Longrightarrow> keeps st (popup_unconstrain env q pp st)"
  unfolding popup_unconstrain_def Let_def
proof (intro keeps_intros, goal_cases)
  case (1 parent out scale x y)
  let ?parent1 = "if v_current_output parent = None \<and> out \<noteq> None \<and>
      fwr_output_for_box env st (v_x parent) (v_y parent) (v_width parent) (v_height parent) \<noteq> Some None
    then parent\<lparr>v_current_output := out, v_output_scale := scale\<rparr> else parent"
  let ?st1 = "set_view (p_parent_view pp) ?parent1 st"
  have "popup_store ?st1 q = Some pp" using 1(1) by (simp add: set_view_def)
  then have "shape (set_popup q ((if out \<noteq> None then pp\<lparr>p_current_output := out, p_output_scale := scale\<rparr> else pp)\<lparr>unconstrained := True\<rparr>) ?st1)
      = shape ?st1" by (rule shape_set_popup) simp
  also have "\<dots> = shape st" using 1(2) by (rule shape_set_view) simp
  finally show ?case .
qed

lemma keeps_popup_refresh: "keeps st (popup_refresh env pv q st)"
  unfolding popup_refresh_def
proof (intro keeps_bind, goal_cases)
  case (1 pp surf)
  let ?reg = "if p_texture_registered pp then Some (st, [])
     else let (st1, es1) = register_popup_texture env q pp st
          in if e_register_ok env then map_option (\<lambda>(s, es). (s, es1 @ es)) (send_popup_map env pv q st1) else Some (st1, es1)"
  have r: "keeps st ?reg"
  proof (cases "register_popup_texture env q pp st")
    case (Pair st1 es1)
    with keeps_register_then_map [OF 1(1), of env pv] shape_register_popup [OF 1(1), of env] show ?thesis
      by (auto simp: keeps_intros)
  qed
  have "keeps st (Option.bind ?reg (\<lambda>(st2, es2).
         Option.bind (popup_store st2 q) (\<lambda>pp2.
           if \<not> p_texture_registered pp2 then Some (st2, es2)
           else
             let c = content_surface env pv surf; w = e_surface_width env c; h = e_surface_height env c in
             Option.bind
               (if w > 0 \<and> h > 0 \<and> (w \<noteq> p_width pp2 \<or> h \<noteq> p_height pp2)
                then send_popup_map env pv q st2 else Some (st2, []))
               (\<lambda>(st3, es3). Some (st3, es2 @ es3 @ [Engine (MarkFrameAvailable (p_texture_id pp2))])))))"
  proof (rule keeps_then [OF r], goal_cases)
    case (1 st2 es2)
    have "keeps st2 (if c then send_popup_map env pv q st2 else Some (st2, []))" for c
      using keeps_send_popup_map by (auto simp: keeps_intros)
    from keepsD [OF this] show ?case
      by (fastforce simp: Let_def keeps_def split: bind_splits if_splits)
  qed
  then show ?case by (auto simp: keeps_intros simp del: bind_eq_Some_conv)
qed

lemma keeps_popup_commit: "keeps st (popup_handle_commit env pv q st)"
  unfolding popup_handle_commit_def
proof (rule keeps_bind, goal_cases)
  case (1 pp)
  have "keeps st (if \<not> unconstrained pp then popup_unconstrain env q pp st else Some (st, []))"
    using 1 by (auto simp: keeps_intros keeps_popup_unconstrain)
  then show ?case
    by (rule keeps_then) (auto intro!: keeps_map keeps_popup_refresh)
qed

lemma keeps_popup_reposition: "keeps st (popup_handle_reposition env pv q st)"
  unfolding popup_handle_reposition_def Let_def
  by (intro keeps_bind) (auto simp: shape_set_popup intro!: keeps_intros keeps_from [OF _ keeps_send_popup_map])

section \<open>Events that allocate and free\<close>

definition fresh :: "wlr_env \<Rightarrow> fwr_instance \<Rightarrow> bool" where
  "fresh env st \<longleftrightarrow> view_store st (e_calloc env) = None \<and> popup_store st (e_calloc env) = None
     \<and> subsurface_store st (e_calloc env) = None"

definition rooms :: "fwr_instance \<Rightarrow> bool" where
  "rooms st \<longleftrightarrow> handle_room (views st) \<and> handle_room (popups st) \<and> handle_room (subsurfaces st)"

lemma ok_new_toplevel:
  assumes "surfaces_ok st" and "fresh env st" and "rooms st" and "fwr_new_xdg_toplevel env w x st = Some (st', es)"
  shows "surfaces_ok st'"
proof -
  have n: "view_store st (e_calloc env) = None" and r: "handle_room (views st)"
    using assms(2,3) by (simp_all add: fresh_def rooms_def)
  have "e_calloc env \<notin> set (views_list st)" using assms(1) n by (auto simp: surfaces_ok_def)
  moreover have "tracks (snd (handle_map_add (views st) (e_calloc env))) ((view_store st)(e_calloc env \<mapsto> v)) v_handle"
    if "v_handle v = fst (handle_map_add (views st) (e_calloc env))" for v
    using assms(1) that by (intro tracks_add [where store = "view_store st", OF _ r n]) (simp_all add: surfaces_ok_def)
  ultimately show ?thesis using assms(1,4)
    by (auto simp: fwr_new_xdg_toplevel_def surfaces_ok_def Let_def split_beta)
qed

lemma ok_destroy_toplevel:
  assumes "surfaces_ok st" and "xdg_toplevel_destroy p st = Some (st', es)"
  shows "surfaces_ok st'"
proof -
  obtain v where v: "view_store st p = Some v" using assms(2) by (auto simp: xdg_toplevel_destroy_def split: bind_splits)
  from tracks_remove [where m = "views st" and store = "view_store st" and hnd = v_handle, OF _ v] assms v show ?thesis
    by (auto simp: xdg_toplevel_destroy_def surfaces_ok_def Let_def view_destroy_scene_def split: if_splits)
qed

lemma ok_set_view:
  "surfaces_ok st \<Longrightarrow> view_store st p = Some v \<Longrightarrow> v_handle v' = v_handle v \<Longrightarrow> surfaces_ok (set_view p v' st)"
  using shape_ok [OF shape_set_view] by blast

lemma ok_new_subsurface:
  assumes "surfaces_ok st" and "fresh env st" and "rooms st" and "handle_new_subsurface env ws s p st = Some (st', es)"
  shows "surfaces_ok st'"
proof -
  let ?q = "e_calloc env"
  have n: "subsurface_store st ?q = None" and r: "handle_room (subsurfaces st)"
    using assms(2,3) by (simp_all add: fresh_def rooms_def)
  obtain v where v: "view_store st p = Some v" using assms(4) by (auto simp: handle_new_subsurface_def split: bind_splits)
  let ?sub = "\<lparr>s_handle = fst (handle_map_add (subsurfaces st) ?q), s_parent_view = p, s_wlr_subsurface = ws, s_surface = s,
    s_x = 0, s_y = 0, s_width = 0, s_height = 0, s_current_output = None, s_output_scale = 0, s_texture_id = 0,
    s_texture_registered = False\<rparr>"
  let ?st1 = "set_subsurface ?q ?sub (st\<lparr>subsurfaces := snd (handle_map_add (subsurfaces st) ?q)\<rparr>)"
  have "tracks (snd (handle_map_add (subsurfaces st) ?q)) ((subsurface_store st)(?q \<mapsto> ?sub)) s_handle"
    using assms(1) by (intro tracks_add [where store = "subsurface_store st", OF _ r n]) (simp_all add: surfaces_ok_def)
  then have ok1: "surfaces_ok ?st1" using assms(1) by (simp add: surfaces_ok_def set_subsurface_def)
  have "view_store ?st1 p = Some v" using v by (simp add: set_subsurface_def)
  from ok_set_view [OF ok1 this]
  have "surfaces_ok (set_view p (v\<lparr>v_subsurfaces := ?q # v_subsurfaces v\<rparr>) ?st1)" by simp
  then show ?thesis using assms(4) v by (simp add: handle_new_subsurface_def Let_def split_beta)
qed

lemma ok_destroy_subsurface:
  assumes "surfaces_ok st" and "subsurface_handle_destroy q st = Some (st', es)"
  shows "surfaces_ok st'"
proof -
  obtain s v where s: "subsurface_store st q = Some s" "view_store st (s_parent_view s) = Some v"
    using assms(2) by (auto simp: subsurface_handle_destroy_def with_subsurface_def split: bind_splits)
  let ?st1 = "st\<lparr>subsurfaces := snd (handle_map_remove (subsurfaces st) (s_handle s)), subsurface_store := (subsurface_store st)(q := None)\<rparr>"
  from tracks_remove [where m = "subsurfaces st" and store = "subsurface_store st" and hnd = s_handle, OF _ s(1)] assms(1) have ok1: "surfaces_ok ?st1"
    by (simp add: surfaces_ok_def)
  have "view_store ?st1 (s_parent_view s) = Some v" using s(2) by simp
  from ok_set_view [OF ok1 this]
  have "surfaces_ok (set_view (s_parent_view s) (v\<lparr>v_subsurfaces := remove1 q (v_subsurfaces v)\<rparr>) ?st1)" by simp
  then show ?thesis using assms(2) s by (simp add: subsurface_handle_destroy_def with_subsurface_def)
qed

lemma ok_new_popup:
  assumes "surfaces_ok st" and "fresh env st" and "rooms st" and "fwr_new_xdg_popup env pv xp base ps st = Some (st', es)"
  shows "surfaces_ok st'"
proof -
  let ?q = "e_calloc env"
  have n: "popup_store st ?q = None" and r: "handle_room (popups st)"
    using assms(2,3) by (simp_all add: fresh_def rooms_def)
  have t: "surfaces_ok (set_popup ?q pp (st\<lparr>popups := snd (handle_map_add (popups st) ?q), xdg_data := d\<rparr>))"
    if "p_handle pp = fst (handle_map_add (popups st) ?q)" for pp d
    using tracks_add [where store = "popup_store st" and hnd = p_handle, OF _ r n that] assms(1) by (simp add: surfaces_ok_def set_popup_def)
  have m: "surfaces_ok st2" if "popup_handle_map env pv q st1 = Some (st2, es2)" "surfaces_ok st1" for q st1 st2 es2
    using keepsD [OF keeps_popup_map that(1)] that(2) shape_ok by blast
  show ?thesis
    using assms(1,4) unfolding fwr_new_xdg_popup_def
    by (auto simp: Let_def split_beta t split: option.splits if_splits bind_splits intro: m)
qed

lemma ok_destroy_popup:
  assumes "surfaces_ok st" and "popup_handle_destroy q st = Some (st', es)"
  shows "surfaces_ok st'"
proof -
  obtain pp where pp: "popup_store st q = Some pp" using assms(2) by (auto simp: popup_handle_destroy_def split: bind_splits)
  from tracks_remove [where m = "popups st" and store = "popup_store st" and hnd = p_handle, OF _ pp] assms pp show ?thesis
    by (auto simp: popup_handle_destroy_def surfaces_ok_def)
qed

section \<open>Runs\<close>

datatype surface_event =
    NewToplevel wref wref
  | MapToplevel ptr
  | UnmapToplevel ptr
  | CommitToplevel ptr
  | DestroyToplevel ptr
  | MoveRequest ptr
  | ResizeRequest u32 ptr
  | NewSubsurface wref wref ptr
  | MapSubsurface "int \<times> int" ptr
  | UnmapSubsurface ptr
  | CommitSubsurface "int \<times> int" ptr
  | DestroySubsurface ptr

datatype popup_event =
    NewPopup popup_view wref wref wref
  | MapPopup popup_view ptr
  | UnmapPopup ptr
  | CommitPopup popup_view ptr
  | RepositionPopup popup_view ptr
  | DestroyPopup ptr

datatype input_event =
    CursorMotion u64 u64 u32
  | CursorButton u32 u32 bool
  | CursorAxis bool fwr_scroll_cache
  | Key wref modifiers shortcut_key u32 u32 bool

datatype event = SurfaceEvent surface_event | PopupEvent popup_event | InputEvent input_event | DartMessage "byte list"

fun surface_step :: "wlr_env \<Rightarrow> surface_event \<Rightarrow> fwr_instance \<Rightarrow> outcome" where
  "surface_step env (NewToplevel w x) st = fwr_new_xdg_toplevel env w x st"
| "surface_step env (MapToplevel p) st = xdg_toplevel_map env p st"
| "surface_step env (UnmapToplevel p) st = xdg_toplevel_unmap p st"
| "surface_step env (CommitToplevel p) st = xdg_toplevel_commit env p st"
| "surface_step env (DestroyToplevel p) st = xdg_toplevel_destroy p st"
| "surface_step env (MoveRequest p) st = xdg_toplevel_request_move env p st"
| "surface_step env (ResizeRequest edges p) st = xdg_toplevel_request_resize env edges p st"
| "surface_step env (NewSubsurface ws s p) st = handle_new_subsurface env ws s p st"
| "surface_step env (MapSubsurface pos q) st = subsurface_handle_map env pos q st"
| "surface_step env (UnmapSubsurface q) st = subsurface_handle_unmap q st"
| "surface_step env (CommitSubsurface pos q) st = subsurface_handle_commit env pos q st"
| "surface_step env (DestroySubsurface q) st = subsurface_handle_destroy q st"

fun popup_step :: "wlr_env \<Rightarrow> popup_event \<Rightarrow> fwr_instance \<Rightarrow> outcome" where
  "popup_step env (NewPopup pv xp base ps) st = fwr_new_xdg_popup env pv xp base ps st"
| "popup_step env (MapPopup pv q) st = popup_handle_map env pv q st"
| "popup_step env (UnmapPopup q) st = popup_handle_unmap q st"
| "popup_step env (CommitPopup pv q) st = popup_handle_commit env pv q st"
| "popup_step env (RepositionPopup pv q) st = popup_handle_reposition env pv q st"
| "popup_step env (DestroyPopup q) st = popup_handle_destroy q st"

fun input_step :: "wlr_env \<Rightarrow> input_event \<Rightarrow> fwr_instance \<Rightarrow> outcome" where
  "input_step env (CursorMotion x y time) st = process_cursor_motion env time (st\<lparr>cursor_x := x, cursor_y := y\<rparr>)"
| "input_step env (CursorButton time b pressed) st = on_server_cursor_button env time b pressed st"
| "input_step env (CursorAxis horizontal ev) st = on_server_cursor_axis horizontal ev st"
| "input_step env (Key kb mods ksym time code pressed) st = keyboard_handle_key env kb mods ksym time code pressed st"

fun event_step :: "wlr_env \<Rightarrow> event \<Rightarrow> fwr_instance \<Rightarrow> outcome" where
  "event_step env (SurfaceEvent e) st = surface_step env e st"
| "event_step env (PopupEvent e) st = popup_step env e st"
| "event_step env (InputEvent e) st = input_step env e st"
| "event_step env (DartMessage msg) st = wlroots_message env msg st"

lemma ok_keeps: "surfaces_ok st \<Longrightarrow> keeps st r \<Longrightarrow> r = Some (st', es) \<Longrightarrow> surfaces_ok st'"
  using keepsD shape_ok by blast

lemma ok_surface_step:
  assumes "surfaces_ok st" and "fresh env st" and "rooms st" and "surface_step env e st = Some (st', es)"
  shows "surfaces_ok st'"
  using assms(4)
  by (cases e) (auto intro: ok_new_toplevel [OF assms(1-3)] ok_destroy_toplevel [OF assms(1)]
      ok_new_subsurface [OF assms(1-3)] ok_destroy_subsurface [OF assms(1)]
      ok_keeps [OF assms(1) keeps_toplevel_map] ok_keeps [OF assms(1) keeps_toplevel_unmap]
      ok_keeps [OF assms(1) keeps_toplevel_commit] ok_keeps [OF assms(1) keeps_request_grab(1)]
      ok_keeps [OF assms(1) keeps_request_grab(2)] ok_keeps [OF assms(1) keeps_subsurface_map]
      ok_keeps [OF assms(1) keeps_subsurface_unmap] ok_keeps [OF assms(1) keeps_subsurface_commit])

lemma ok_popup_step:
  assumes "surfaces_ok st" and "fresh env st" and "rooms st" and "popup_step env e st = Some (st', es)"
  shows "surfaces_ok st'"
  using assms(4)
  by (cases e) (auto intro: ok_new_popup [OF assms(1-3)] ok_destroy_popup [OF assms(1)]
      ok_keeps [OF assms(1) keeps_popup_map] ok_keeps [OF assms(1) keeps_popup_unmap]
      ok_keeps [OF assms(1) keeps_popup_commit] ok_keeps [OF assms(1) keeps_popup_reposition])

lemma keeps_input_step: "keeps st (input_step env e st)"
  by (cases e) (auto simp: keeps_cursor_button keeps_cursor_axis keeps_key
      intro: keeps_from [OF _ keeps_cursor_motion])

lemma ok_event_step:
  assumes "surfaces_ok st" and "fresh env st" and "rooms st" and "event_step env e st = Some (st', es)"
  shows "surfaces_ok st'"
  using assms(4)
  by (cases e) (auto intro: ok_surface_step [OF assms(1-3)] ok_popup_step [OF assms(1-3)]
      ok_keeps [OF assms(1) keeps_input_step] ok_keeps [OF assms(1) keeps_wlroots_message])

text \<open>
  A run from \<open>st0\<close>: the events, each with what wlroots and the engine say at that moment. An event
  needs memory that is not in use, and less than \<open>2 ^ 32\<close> objects ever made.
\<close>

inductive reaches :: "fwr_instance \<Rightarrow> event list \<Rightarrow> fwr_instance \<Rightarrow> bool" for st0 where
  start: "reaches st0 [] st0"
| step: "reaches st0 evs st \<Longrightarrow> fresh env st \<Longrightarrow> rooms st \<Longrightarrow> event_step env e st = Some (st', es) \<Longrightarrow>
    reaches st0 (evs @ [e]) st'"

lemma tracks_new: "tracks handle_map_new Map.empty hnd"
  by (simp add: tracks_def handle_inv_new) (simp add: handle_map_new_def handle_map_get_def)

lemma ok_initial: "surfaces_ok (initial_instance eng)"
  by (simp add: surfaces_ok_def initial_instance_def tracks_new)

lemma reaches_ok: "reaches st0 evs st \<Longrightarrow> surfaces_ok st0 \<Longrightarrow> surfaces_ok st"
  by (induction rule: reaches.induct) (auto intro: ok_event_step)

lemma tracks_lookup:
  "tracks m store hnd \<Longrightarrow> handle_map_get m h = Some p \<longleftrightarrow> (\<exists>ob. store p = Some ob \<and> hnd ob = h)"
  by (simp add: tracks_def)

lemma ok_lookup:
  assumes "surfaces_ok st"
  shows "get_view st h \<noteq> Dangling" "get_popup st h \<noteq> Dangling" "get_subsurface st h \<noteq> Dangling"
    "get_view st h = Found p v \<longleftrightarrow> view_store st p = Some v \<and> v_handle v = h"
proof -
  have T: "tracks (views st) (view_store st) v_handle" "tracks (popups st) (popup_store st) p_handle"
    "tracks (subsurfaces st) (subsurface_store st) s_handle"
    using assms by (simp_all add: surfaces_ok_def)
  show "get_view st h \<noteq> Dangling" "get_popup st h \<noteq> Dangling" "get_subsurface st h \<noteq> Dangling"
    using tracks_get [OF T(1), of h] tracks_get [OF T(2), of h] tracks_get [OF T(3), of h]
    by (auto simp: get_view_def get_popup_def get_subsurface_def split: option.split)
  show "get_view st h = Found p v \<longleftrightarrow> view_store st p = Some v \<and> v_handle v = h"
  proof
    assume "get_view st h = Found p v"
    then have "handle_map_get (views st) h = Some p" "view_store st p = Some v"
      by (auto simp: get_view_def split: option.splits)
    with tracks_get [OF T(1)] show "view_store st p = Some v \<and> v_handle v = h" by fastforce
  next
    assume "view_store st p = Some v \<and> v_handle v = h"
    with tracks_lookup [OF T(1), of h p] show "get_view st h = Found p v" by (simp add: get_view_def)
  qed
qed

text \<open>
  C5: however toplevels, subsurfaces and popups come and go between events of the client, of the
  input devices and messages of Dart, looking up a handle never yields a freed object: a lookup
  that succeeds gives the live object that carries the handle, which for a toplevel is in the list
  of views, and a handle whose object was destroyed is not found.
\<close>
theorem handle_lookups_never_dangle:
  assumes "reaches (initial_instance eng) evs st"
  shows "get_view st h \<noteq> Dangling \<and> get_popup st h \<noteq> Dangling \<and> get_subsurface st h \<noteq> Dangling
    \<and> get_focused_view st \<noteq> Dangling
    \<and> (get_view st h = Found p v \<longleftrightarrow> view_store st p = Some v \<and> v_handle v = h)
    \<and> (view_store st p \<noteq> None \<longleftrightarrow> p \<in> set (views_list st))"
proof -
  note ok = reaches_ok [OF assms ok_initial]
  have "view_store st p \<noteq> None \<longleftrightarrow> p \<in> set (views_list st)" using ok by (auto simp: surfaces_ok_def)
  with ok_lookup [OF ok] show ?thesis by (simp add: get_focused_view_def)
qed

text \<open>A window opens and its client starts to move it.\<close>

definition one_window :: fwr_instance where
  "one_window = fst (the (fwr_new_xdg_toplevel test_env 4 5 (initial_instance True)))"

lemma new_window: "fwr_new_xdg_toplevel test_env 4 5 (initial_instance True) = Some (one_window, [Toplevel 4 (SetSize 0 0)])"
  by (simp add: one_window_def fwr_new_xdg_toplevel_def Let_def split_beta)

lemma one_window_reached: "reaches (initial_instance True) [SurfaceEvent (NewToplevel 4 5)] one_window"
proof -
  have f: "fresh test_env (initial_instance True)" "rooms (initial_instance True)"
    by (simp_all add: fresh_def rooms_def initial_instance_def handle_map_new_def)
  have "event_step test_env (SurfaceEvent (NewToplevel 4 5)) (initial_instance True)
      = Some (one_window, [Toplevel 4 (SetSize 0 0)])"
    by (simp add: new_window)
  from reaches.step [OF reaches.start f this] show ?thesis by simp
qed

lemma one_window_views: "handle_map_get (views one_window) 1 = Some 7" "map_option v_handle (view_store one_window 7) = Some 1"
  "views_list one_window = [7]"
  by (simp_all add: one_window_def fwr_new_xdg_toplevel_def Let_def split_beta handle_map_add_def handle_map_get_def
      initial_instance_def handle_map_new_def test_env_def)

theorem handle_lookups_never_dangle_witness:
  "(\<exists>v. get_view one_window 1 = Found 7 v) \<and> get_view one_window 2 \<noteq> Dangling"
proof -
  obtain v where v: "view_store one_window 7 = Some v" "v_handle v = 1" using one_window_views(2) by auto
  from handle_lookups_never_dangle [OF one_window_reached, of 1 7 v]
    handle_lookups_never_dangle [OF one_window_reached, of 2 7 v] v
  show ?thesis by blast
qed

section \<open>Requests that cannot fail\<close>

text \<open>The methods whose handlers touch nothing but the object their handle names.\<close>

definition safe_methods :: "string list" where
  "safe_methods = [''surface_toplevel_set_size'', ''surface_toplevel_set_maximized'', ''surface_toplevel_close'',
     ''surface_request_resize'', ''surface_end_resize'', ''surface_clear_focus'', ''is_compositor'', ''set_primary_output'']"

lemma with_view_defined:
  "get_view st h \<noteq> Dangling \<Longrightarrow> (\<And>p v. act p v \<noteq> None) \<Longrightarrow> with_view h st act \<noteq> None"
  by (cases "get_view st h") (auto simp: with_view_def)

lemma decode_defined:
  "d \<noteq> OutOfBounds \<Longrightarrow> (\<And>m. f m \<noteq> None) \<Longrightarrow> decode_or_fail d st f \<noteq> None"
  by (cases d) (auto simp: decode_or_fail_def)

lemma int_arg_defined: "i < n \<Longrightarrow> holds_its_length (DvList n vs) \<Longrightarrow> \<exists>w. int_arg vs i = Some w"
  by (simp add: int_arg_def)

lemma safe_decoders:
  assumes "holds_its_length v"
  shows "decode_surface_toplevel_set_size_message v \<noteq> OutOfBounds"
    "decode_surface_toplevel_set_maximized_message v \<noteq> OutOfBounds"
    "decode_surface_toplevel_close_message v \<noteq> OutOfBounds"
  unfolding decoder_defs
  by (intro conjI bind_d_in_bounds list_of_length_in_bounds decode_element_in_bounds;
      (simp; fail)?; use list_of_length_Decoded [OF _ assms] in force)+

lemma safe_handlers:
  assumes "surfaces_ok st" and "holds_its_length args"
  shows "fwr_handle_surface_toplevel_set_size env args st \<noteq> None"
    "fwr_handle_surface_toplevel_set_maximized env args st \<noteq> None"
    "fwr_handle_surface_toplevel_close env args st \<noteq> None"
    "fwr_handle_surface_request_resize env args st \<noteq> None"
    "fwr_handle_surface_end_resize env args st \<noteq> None"
proof -
  note lk = ok_lookup(1) [OF assms(1)]
  show "fwr_handle_surface_toplevel_set_size env args st \<noteq> None"
    "fwr_handle_surface_toplevel_set_maximized env args st \<noteq> None"
    "fwr_handle_surface_toplevel_close env args st \<noteq> None"
    unfolding fwr_handle_surface_toplevel_set_size_def fwr_handle_surface_toplevel_set_maximized_def
      fwr_handle_surface_toplevel_close_def
    by (rule decode_defined [OF safe_decoders(1) [OF assms(2)]] decode_defined [OF safe_decoders(2) [OF assms(2)]]
        decode_defined [OF safe_decoders(3) [OF assms(2)]]; rule with_view_defined [OF lk]; simp)+
  have I: "\<exists>w. int_arg vs i = Some w" if "args = DvList n vs" "i < n" for n vs i
    using int_arg_defined [OF that(2)] assms(2) that(1) by simp
  show "fwr_handle_surface_request_resize env args st \<noteq> None"
  proof (cases args)
    case (DvList n vs)
    show ?thesis
    proof (cases "n < 4")
      case False
      then obtain a b c d where "int_arg vs 0 = Some a" "int_arg vs 1 = Some b" "int_arg vs 2 = Some c" "int_arg vs 3 = Some d"
        using I [OF DvList, of 0] I [OF DvList, of 1] I [OF DvList, of 2] I [OF DvList, of 3] by auto
      with False show ?thesis
        unfolding fwr_handle_surface_request_resize_def DvList
        by (simp only: dart_value.case if_False Option.bind.simps) (rule with_view_defined [OF lk], simp)
    qed (simp add: fwr_handle_surface_request_resize_def DvList)
  qed (simp_all add: fwr_handle_surface_request_resize_def)
  show "fwr_handle_surface_end_resize env args st \<noteq> None"
  proof (cases args)
    case (DvList n vs)
    show ?thesis
    proof (cases "n < 1")
      case False
      then obtain a where "int_arg vs 0 = Some a" using I [OF DvList, of 0] by auto
      with False show ?thesis
        unfolding fwr_handle_surface_end_resize_def DvList
        by (simp only: dart_value.case if_False Option.bind.simps) (rule with_view_defined [OF lk], simp)
    qed (simp add: fwr_handle_surface_end_resize_def DvList)
  qed (simp_all add: fwr_handle_surface_end_resize_def)
qed

lemma unat_of_char: "unat (of_char c :: byte) = of_char c"
  using unat_of_nat [of "of_char c", where 'a = 8] by (simp add: of_nat_of_char)

lemma ascii_inject: "ascii s = ascii t \<longleftrightarrow> s = t"
proof -
  have "inj (of_char :: char \<Rightarrow> byte)"
    by (rule injI) (metis unat_of_char of_char_eq_iff)
  then show ?thesis unfolding ascii_def by (simp add: inj_map_eq_map)
qed

text \<open>The method that a name selects.\<close>

lemma find_method:
  "List.find (\<lambda>(m', f). ascii m = ascii m') tab = map_option (\<lambda>f. (m, f)) (map_of tab m)"
  by (induction tab) (auto simp: ascii_inject)

lemma safe_lookups:
  "map_of (method_table env) ''surface_toplevel_set_size'' = Some (fwr_handle_surface_toplevel_set_size env)"
  "map_of (method_table env) ''surface_toplevel_set_maximized'' = Some (fwr_handle_surface_toplevel_set_maximized env)"
  "map_of (method_table env) ''surface_toplevel_close'' = Some (fwr_handle_surface_toplevel_close env)"
  "map_of (method_table env) ''surface_request_resize'' = Some (fwr_handle_surface_request_resize env)"
  "map_of (method_table env) ''surface_end_resize'' = Some (fwr_handle_surface_end_resize env)"
  "map_of (method_table env) ''surface_clear_focus'' =
     Some (\<lambda>args st. Some (st, [Seat PointerClearFocus, Seat KeyboardClearFocus, respond_success]))"
  "map_of (method_table env) ''is_compositor'' = Some (\<lambda>args st. Some (st, [respond_success]))"
  "map_of (method_table env) ''set_primary_output'' = Some (\<lambda>args st. Some (st, [respond_success]))"
  by (simp_all add: method_table_def)

lemma safe_method_defined:
  assumes "surfaces_ok st" and "holds_its_length args" and "m \<in> set safe_methods"
  shows "\<exists>f. map_of (method_table env) m = Some f \<and> f args st \<noteq> None"
proof -
  note h = safe_handlers [OF assms(1,2), of env]
  have s: "Some x \<noteq> None" for x :: "fwr_instance \<times> effect list" by simp
  consider "m = ''surface_toplevel_set_size''" | "m = ''surface_toplevel_set_maximized''" | "m = ''surface_toplevel_close''"
    | "m = ''surface_request_resize''" | "m = ''surface_end_resize''" | "m = ''surface_clear_focus''"
    | "m = ''is_compositor''" | "m = ''set_primary_output''"
    using assms(3) unfolding safe_methods_def list.set insert_iff empty_iff by satx
  then show ?thesis
  proof cases
    case 1 then show ?thesis using safe_lookups(1) h(1) by blast
  next
    case 2 then show ?thesis using safe_lookups(2) h(2) by blast
  next
    case 3 then show ?thesis using safe_lookups(3) h(3) by blast
  next
    case 4 then show ?thesis using safe_lookups(4) h(4) by blast
  next
    case 5 then show ?thesis using safe_lookups(5) h(5) by blast
  next
    case 6 then show ?thesis using safe_lookups(6) s by blast
  next
    case 7 then show ?thesis using safe_lookups(7) s by blast
  next
    case 8 then show ?thesis using safe_lookups(8) s by blast
  qed
qed

text \<open>
  C13: in every reachable state, a message on the channel \<open>wlroots\<close> whose method is one of those in
  \<open>safe_methods\<close> is handled to the end and answered once, whatever the bytes of its arguments: no
  argument list, no handle and no order of events leads the handler to undefined behaviour. (The calls
  to wlroots are taken to return; wlroots itself stops the process when asked for a negative size.)
\<close>
theorem window_requests_always_answered:
  assumes "reaches (initial_instance eng) evs st" and "platch_ready env" and "wf_std (StdString (wl_socket st))"
    and "message_read msg 0 = ReadOk (DvString s) off" and "cstr s = ascii m" and "m \<in> set safe_methods"
  shows "\<exists>st' es. wlroots_message env msg st = Some (st', es) \<and> responses es = 1"
proof -
  have ok: "surfaces_ok st" using reaches_ok [OF assms(1) ok_initial] .
  have off: "off \<le> length msg"
    using read_bounds [of _ msg 0 "DvString s" off] assms(4) by (auto simp: message_read_def)
  have "wlroots_message env msg st \<noteq> None"
  proof (cases "message_read msg off")
    case (ReadOk args off')
    from safe_method_defined [OF ok message_read_holds_its_length [OF ReadOk off] assms(6), of env]
    obtain f where f: "map_of (method_table env) m = Some f" "f args st \<noteq> None" by blast
    show ?thesis
      unfolding wlroots_message_def by (simp add: assms(4,5) ReadOk find_method f)
  next
    case NoFuel
    then show ?thesis using read_enough [of msg off] off by (simp add: message_read_def)
  qed (simp add: wlroots_message_def assms(4))
  then show ?thesis
    using wlroots_message_answers [OF assms(2,3), of msg] by (auto simp: answers_def)
qed

lemma close_message:
  "message_read ([7, 22] @ ascii ''surface_toplevel_close'' @ [12, 1, 3, 1, 0, 0, 0]) 0
     = ReadOk (DvString (ascii ''surface_toplevel_close'')) 24"
  by code_simp

theorem window_requests_always_answered_witness:
  "\<exists>st' es. wlroots_message test_env ([7, 22] @ ascii ''surface_toplevel_close'' @ [12, 1, 3, 1, 0, 0, 0]) one_window
     = Some (st', es) \<and> responses es = 1"
proof (rule window_requests_always_answered [OF one_window_reached _ _ close_message])
  show "platch_ready test_env" by (simp add: platch_ready_def test_env_def)
  show "wf_std (StdString (wl_socket one_window))"
    by (simp add: one_window_def fwr_new_xdg_toplevel_def Let_def split_beta initial_instance_def)
  show "cstr (ascii ''surface_toplevel_close'') = ascii ''surface_toplevel_close''" by (simp add: ascii_def cstr_def)
  show "''surface_toplevel_close'' \<in> set safe_methods" by (simp add: safe_methods_def)
qed

section \<open>Pointers that do dangle\<close>

text \<open>
  Subsurfaces and popups keep a pointer to their toplevel, and nothing clears it when the toplevel
  goes first: every later event of the subsurface reads freed memory.
\<close>

lemma subsurface_needs_parent:
  assumes "subsurface_store st q = Some s" and "view_store st (s_parent_view s) = None"
  shows "subsurface_handle_destroy q st = None" "subsurface_handle_commit env pos q st = None"
    "subsurface_handle_map env pos q st = None"
  using assms by (simp_all add: subsurface_handle_destroy_def subsurface_handle_commit_def subsurface_handle_map_def
      with_subsurface_def)

lemma popup_needs_parent:
  assumes "popup_store st q = Some pp" and "\<not> unconstrained pp" and "view_store st (p_parent_view pp) = None"
  shows "popup_handle_commit env pv q st = None"
  using assms by (simp add: popup_handle_commit_def popup_unconstrain_def)

text \<open>
  The same holds for a monitor: views and popups remember the one they are on, and unplugging it does
  not reset that. The next popup of such a window reads the freed output.
\<close>

lemma popup_needs_output:
  assumes "popup_store st q = Some pp" and "\<not> unconstrained pp" and "view_store st (p_parent_view pp) = Some v"
    and "v_current_output v = Some o'" and "output_store st o' = None"
  shows "popup_handle_commit env pv q st = None"
  using assms by (simp add: popup_handle_commit_def popup_unconstrain_def constraint_output_def output_scale_of_def)

text \<open>A popup whose parent is a popup is refused: only toplevels are searched.\<close>

lemma nested_popup_dropped:
  assumes "e_xdg_surface_of env parent_surface = Some xs"
    and "\<forall>p \<in> set (views_list st). \<exists>v. view_store st p = Some v \<and> v_xdg_surface v \<noteq> xs"
  shows "fwr_new_xdg_popup env pv xp base parent_surface st = Some (st, [])"
proof -
  have "find_view_by_xdg (view_store st) xs ps = Some None"
    if "\<forall>p \<in> set ps. \<exists>v. view_store st p = Some v \<and> v_xdg_surface v \<noteq> xs" for ps
    using that by (induction ps) auto
  with assms show ?thesis by (simp add: fwr_new_xdg_popup_def)
qed

definition window_and_subsurface :: fwr_instance where
  "window_and_subsurface = fst (the (handle_new_subsurface (test_env\<lparr>e_calloc := 9\<rparr>) 6 8 7 one_window))"

lemma window_and_subsurface_reached:
  shows "reaches (initial_instance True) [SurfaceEvent (NewToplevel 4 5), SurfaceEvent (NewSubsurface 6 8 7)] window_and_subsurface"
    and "\<exists>v. view_store window_and_subsurface = [7 \<mapsto> v] \<and> v_handle v = 1"
    and "\<exists>s. subsurface_store window_and_subsurface = [9 \<mapsto> s] \<and> s_parent_view s = 7 \<and> s_handle s = 1 \<and> s_surface s = 8"
    and "fresh (test_env\<lparr>e_calloc := 11\<rparr>) window_and_subsurface" "rooms window_and_subsurface"
proof -
  let ?e = "test_env\<lparr>e_calloc := 9\<rparr>"
  obtain v where v: "view_store one_window = [7 \<mapsto> v]" "v_handle v = 1"
    by (auto simp: one_window_def fwr_new_xdg_toplevel_def Let_def split_beta initial_instance_def handle_map_new_def
        handle_map_add_def test_env_def set_view_def)
  obtain es1 where s1: "handle_new_subsurface ?e 6 8 7 one_window = Some (window_and_subsurface, es1)"
    using v by (auto simp: window_and_subsurface_def handle_new_subsurface_def Let_def split_beta)
  have n: "subsurface_store one_window = Map.empty" "popup_store one_window = Map.empty" "popups one_window = handle_map_new"
    "subsurfaces one_window = handle_map_new" "next_key (views one_window) = 2"
    by (simp_all add: one_window_def fwr_new_xdg_toplevel_def Let_def split_beta initial_instance_def handle_map_new_def
        handle_map_add_def test_env_def)
  have w: "view_store window_and_subsurface = [7 \<mapsto> v\<lparr>v_subsurfaces := 9 # v_subsurfaces v\<rparr>]"
    "\<exists>s. subsurface_store window_and_subsurface = [9 \<mapsto> s] \<and> s_parent_view s = 7 \<and> s_handle s = 1 \<and> s_surface s = 8"
    "popup_store window_and_subsurface = Map.empty" "popups window_and_subsurface = handle_map_new"
    "next_key (subsurfaces window_and_subsurface) = 2" "views window_and_subsurface = views one_window"
    using v n by (auto simp: window_and_subsurface_def handle_new_subsurface_def Let_def split_beta set_view_def
        set_subsurface_def handle_map_add_def handle_map_new_def)
  show "\<exists>s. subsurface_store window_and_subsurface = [9 \<mapsto> s] \<and> s_parent_view s = 7 \<and> s_handle s = 1 \<and> s_surface s = 8"
    by (rule w(2))
  show "\<exists>v. view_store window_and_subsurface = [7 \<mapsto> v] \<and> v_handle v = 1"
    by (rule exI [of _ "v\<lparr>v_subsurfaces := 9 # v_subsurfaces v\<rparr>"]) (simp add: w(1) v(2))
  have f2: "fresh ?e one_window" "rooms one_window" using n v by (simp_all add: fresh_def rooms_def handle_map_new_def)
  have "reaches (initial_instance True) ([SurfaceEvent (NewToplevel 4 5)] @ [SurfaceEvent (NewSubsurface 6 8 7)]) window_and_subsurface"
    by (rule reaches.step [OF one_window_reached f2]) (simp add: s1)
  then show "reaches (initial_instance True) [SurfaceEvent (NewToplevel 4 5), SurfaceEvent (NewSubsurface 6 8 7)] window_and_subsurface"
    by simp
  show "fresh (test_env\<lparr>e_calloc := 11\<rparr>) window_and_subsurface" "rooms window_and_subsurface"
    using w n by (auto simp: fresh_def rooms_def handle_map_new_def)
qed

definition window_gone :: fwr_instance where
  "window_gone = fst (the (xdg_toplevel_destroy 7 window_and_subsurface))"

text \<open>
  a client that destroys its toplevel before the surfaces below it makes the program use freed
  memory: after opening a window, adding a subsurface and destroying the window, the subsurface is
  still registered and its destruction, or its next commit, is undefined.
\<close>
theorem subsurface_outlives_window:
  "reaches (initial_instance True) [SurfaceEvent (NewToplevel 4 5), SurfaceEvent (NewSubsurface 6 8 7),
      SurfaceEvent (DestroyToplevel 7)] window_gone
    \<and> subsurface_store window_gone 9 \<noteq> None
    \<and> surface_step env (DestroySubsurface 9) window_gone = None
    \<and> surface_step env (CommitSubsurface pos 9) window_gone = None"
proof -
  obtain v where v: "view_store window_and_subsurface = [7 \<mapsto> v]" using window_and_subsurface_reached(2) by blast
  obtain s where s: "subsurface_store window_and_subsurface = [9 \<mapsto> s]" "s_parent_view s = 7"
    using window_and_subsurface_reached(3) by blast
  obtain es where d: "xdg_toplevel_destroy 7 window_and_subsurface = Some (window_gone, es)"
    using v by (auto simp: window_gone_def xdg_toplevel_destroy_def Let_def split_beta)
  have "reaches (initial_instance True) ([SurfaceEvent (NewToplevel 4 5), SurfaceEvent (NewSubsurface 6 8 7)]
      @ [SurfaceEvent (DestroyToplevel 7)]) window_gone"
    by (rule reaches.step [OF window_and_subsurface_reached(1,4,5)]) (simp add: d)
  moreover have "subsurface_store window_gone 9 = Some s" "view_store window_gone (s_parent_view s) = None"
    using v s by (auto simp: window_gone_def xdg_toplevel_destroy_def Let_def split_beta)
  ultimately show ?thesis using subsurface_needs_parent [of window_gone 9 s] by simp
qed

end
