(* ===== verification/Answers.thy ===== *)
theory Answers
  imports Surfaces
begin

text \<open>
  The answers to the platform messages of \<open>src/flutter_wlroots.c\<close>: which messages are handled to
  their end, whatever their bytes, and that each of them is answered once. The conditions are those
  under which C says what a handler does; they are stated on the decoded message and the state.
\<close>

section \<open>Messages that are handled to the end\<close>

text \<open>The window whose surface has the keyboard, if the seat has one, was not freed.\<close>

definition focus_alive :: "wlr_env \<Rightarrow> fwr_instance \<Rightarrow> bool" where
  "focus_alive env st =
     (case e_focused_surface env of
        None \<Rightarrow> True
      | Some s \<Rightarrow>
          (case e_xdg_surface_of env s of
             None \<Rightarrow> True
           | Some xs \<Rightarrow> \<not> e_is_toplevel env xs \<or> (case xdg_data st xs of None \<Rightarrow> True | Some q \<Rightarrow> view_store st q \<noteq> None)))"

text \<open>The methods whose handlers move the keyboard focus.\<close>

definition focus_methods :: "string list" where
  "focus_methods = [''surface_focus'', ''surface_begin_move'', ''surface_begin_resize'', ''surface_keyboard_key'',
     ''surface_pointer_event'']"

definition method_answerable :: "wlr_env \<Rightarrow> byte list \<Rightarrow> fwr_instance \<Rightarrow> bool" where
  "method_answerable env m st \<longleftrightarrow>
     m \<noteq> ascii ''surface_set_position''
     \<and> (m = ascii ''surface_pointer_event'' \<longrightarrow> grab_type (grab (input st)) = FWR_GRAB_NONE)
     \<and> (m \<in> ascii ` set focus_methods \<longrightarrow> focus_alive env st)"

definition wlroots_answerable :: "wlr_env \<Rightarrow> byte list \<Rightarrow> fwr_instance \<Rightarrow> bool" where
  "wlroots_answerable env msg st =
     (case message_read msg 0 of ReadOk (DvString s) off \<Rightarrow> method_answerable env (cstr s) st | _ \<Rightarrow> True)"

text \<open>
  The text input channel: the decoder stays in its blocks, method and argument were in the message,
  and the client of a \<open>TextInput.setClient\<close> is a number that fits. \<open>TextInput.setEditingState\<close> is left out.
\<close>

definition text_answerable :: "platch_env \<Rightarrow> byte list \<Rightarrow> bool" where
  "text_answerable env msg =
     (case platch_decode env (if msg \<noteq> [] then Some (msg @ [0]) else None) (length msg) kJSONMethodCall of
        Inl e \<Rightarrow> error_returned e
      | Inr (JsonMethodCall (Some m) (Some arg)) \<Rightarrow>
          cstr m \<noteq> ascii ''TextInput.setEditingState''
          \<and> (cstr m = ascii ''TextInput.setClient'' \<longrightarrow>
               (case arg of
                  JsonArray (JsonNumber x # _ # _) \<Rightarrow> f64_to_i64 x \<noteq> None
                | JsonArray (_ # _ # _) \<Rightarrow> False
                | _ \<Rightarrow> True))
      | _ \<Rightarrow> False)"

definition cursor_answerable :: "platch_env \<Rightarrow> byte list \<Rightarrow> bool" where
  "cursor_answerable env msg =
     (case platch_decode env (Some msg) (length msg) kStandardMethodCall of Inl e \<Rightarrow> error_returned e | Inr _ \<Rightarrow> True)"

definition handler_answerable :: "platch_env \<Rightarrow> handler_fn \<Rightarrow> byte list \<Rightarrow> bool" where
  "handler_answerable env h msg =
     (case h of text_input_handler \<Rightarrow> text_answerable env msg | cursor_handler \<Rightarrow> msg = [] \<or> cursor_answerable env msg)"

definition answerable :: "wlr_env \<Rightarrow> platform_message \<Rightarrow> fwr_instance \<Rightarrow> bool" where
  "answerable env pm st =
     (if \<not> pm_size_ok pm then True
      else if cstr (pm_channel pm) = ascii ''wlroots'' then wlroots_answerable env (pm_message pm) st
      else (case List.find (\<lambda>h. cstr (pm_channel pm) = handler_name h) (registry_handlers (plugin_registry st)) of
              None \<Rightarrow> True
            | Some h \<Rightarrow> handler_answerable (e_platch env) (handle_message h) (pm_message pm)))"

section \<open>The handlers\<close>

lemma deactivate_defined:
  assumes "focus_alive env st"
  shows "\<exists>st' es. deactivate_previous env (e_focused_surface env) st = Some (st', es) \<and> dom (view_store st') = dom (view_store st)"
  using assms by (auto simp: focus_alive_def deactivate_previous_def Let_def set_view_def split: option.splits if_splits)

lemma focus_defined:
  assumes "focus_alive env st" and "view_store st p \<noteq> None"
  shows "focus_and_raise env p st \<noteq> None" "fwr_focus_view env p st \<noteq> None"
proof -
  from deactivate_defined [OF assms(1)] obtain st1 es where
    d: "deactivate_previous env (e_focused_surface env) st = Some (st1, es)" "dom (view_store st1) = dom (view_store st)" by blast
  from assms(2) d(2) obtain v v1 where v: "view_store st p = Some v" "view_store st1 p = Some v1" by blast
  then show f: "fwr_focus_view env p st \<noteq> None" by (simp add: fwr_focus_view_def d(1) Let_def split_beta)
  then show "focus_and_raise env p st \<noteq> None"
    using v d(1) by (auto simp: focus_and_raise_def fwr_focus_view_def Let_def set_view_def split: if_splits)
qed

lemma found_view:
  assumes "surfaces_ok st" and "\<And>p v. view_store st p = Some v \<Longrightarrow> act p v \<noteq> None"
  shows "with_view h st act \<noteq> None"
proof (cases "get_view st h")
  case (Found p v)
  then have "view_store st p = Some v" using ok_lookup(4) [OF assms(1)] by blast
  from assms(2) [OF this] show ?thesis unfolding with_view_def Found by simp
qed (use ok_lookup(1) [OF assms(1)] in \<open>simp_all add: with_view_def\<close>)

lemma found_popup: "surfaces_ok st \<Longrightarrow> (\<And>p v. act p v \<noteq> None) \<Longrightarrow> with_popup h st act \<noteq> None"
  using ok_lookup(2) [of st h] by (cases "get_popup st h") (auto simp: with_popup_def)

lemma focus_decoders:
  assumes "holds_its_length v"
  shows "decode_surface_begin_move_message v \<noteq> OutOfBounds" "decode_surface_begin_resize_message v \<noteq> OutOfBounds"
    "decode_surface_keyboard_key_message v \<noteq> OutOfBounds" "decode_surface_pointer_event_message v \<noteq> OutOfBounds"
  unfolding decoder_defs
  by (intro conjI bind_d_in_bounds list_of_length_in_bounds decode_element_in_bounds;
      (simp; fail)?; use list_of_length_Decoded [OF _ assms] in force)+

lemma focus_handlers:
  assumes "surfaces_ok st" and "holds_its_length args" and "focus_alive env st"
  shows "fwr_handle_surface_focus env args st \<noteq> None" "fwr_handle_surface_begin_move env args st \<noteq> None"
    "fwr_handle_surface_begin_resize env args st \<noteq> None" "fwr_handle_surface_keyboard_key_message env args st \<noteq> None"
proof -
  note d = safe_decoders(3) [OF assms(2)] focus_decoders [OF assms(2)]
  have grab: "focus_alive env (st\<lparr>input := i\<rparr>) = focus_alive env st" for i
    by (simp add: focus_alive_def cong: option.case_cong)
  show "fwr_handle_surface_focus env args st \<noteq> None"
    unfolding fwr_handle_surface_focus_def
    by (rule decode_defined [OF d(1)], rule found_view [OF assms(1)]) (simp add: focus_defined(1) [OF assms(3)])
  show "fwr_handle_surface_begin_move env args st \<noteq> None" "fwr_handle_surface_begin_resize env args st \<noteq> None"
    unfolding fwr_handle_surface_begin_move_def fwr_handle_surface_begin_resize_def Let_def
    by (rule decode_defined [OF d(2)] decode_defined [OF d(3)]; rule found_view [OF assms(1)], rule focus_defined(1);
        simp add: grab assms(3))+
  show "fwr_handle_surface_keyboard_key_message env args st \<noteq> None"
    unfolding fwr_handle_surface_keyboard_key_message_def
    by (rule decode_defined [OF d(4)], rule found_view [OF assms(1)]) (simp add: focus_defined(2) [OF assms(3)] split_beta)
qed

lemma pointer_handlers:
  assumes "surfaces_ok st" and "holds_its_length args"
  shows "focus_alive env st \<Longrightarrow> grab_type (grab (input st)) = FWR_GRAB_NONE \<Longrightarrow>
      fwr_handle_surface_pointer_event_message env args st \<noteq> None"
    and "fwr_handle_popup_pointer_event_message env args st \<noteq> None"
proof -
  note d = focus_decoders(4) [OF assms(2)]
  show "fwr_handle_popup_pointer_event_message env args st \<noteq> None"
    unfolding fwr_handle_popup_pointer_event_message_def
    by (rule decode_defined [OF d], rule found_popup [OF assms(1)]) (simp add: split_beta split: option.split)
  assume f: "focus_alive env st" and g: "grab_type (grab (input st)) = FWR_GRAB_NONE"
  have "pointer_on_surface env m p surface pos (st\<lparr>input := i\<rparr>) \<noteq> None" if "view_store st p = Some v" for m p surface pos i v
  proof -
    have "focus_alive env (st\<lparr>input := i\<rparr>)" using f by (simp add: focus_alive_def cong: option.case_cong)
    from focus_defined(1) [OF this, of p] that show ?thesis by (auto simp: pointer_on_surface_def Let_def split_beta)
  qed
  then show "fwr_handle_surface_pointer_event_message env args st \<noteq> None"
    unfolding fwr_handle_surface_pointer_event_message_def
    by (intro decode_defined [OF d] found_view [OF assms(1)]) (auto simp: g Let_def split_beta split: option.split)
qed

lemma arguments_defined:
  assumes "holds_its_length args" and "args_list n args = Some vs" and "i < n"
  shows "int_arg vs i \<noteq> None" "bool_arg vs i \<noteq> None" "scale_arg vs i \<noteq> None"
  using assms by (auto simp: args_list_def int_arg_def bool_arg_def scale_arg_def split: dart_value.splits if_splits)

lemma outputs_defined:
  assumes "outputs_ok st"
  shows "fwr_set_vsync_output env i st \<noteq> None" "fwr_set_output_mode env i w h r st \<noteq> None"
    "fwr_set_output_position i x y st \<noteq> None" "fwr_set_output_scale env i sc st \<noteq> None" "fwr_send_all_outputs env st \<noteq> None"
proof -
  have a: "\<forall>p \<in> set (outputs st). output_store st p \<noteq> None" using assms by (simp add: outputs_ok_def)
  from find_output_by_id_spec [OF a, of i] obtain o' where o: "find_output_by_id (output_store st) i (outputs st) = Some o'" by blast
  from select_highest_spec [OF a, of env] o show "fwr_set_vsync_output env i st \<noteq> None"
    by (auto simp: fwr_set_vsync_output_def split: option.split)
  from o show "fwr_set_output_mode env i w h r st \<noteq> None" "fwr_set_output_position i x y st \<noteq> None"
    "fwr_set_output_scale env i sc st \<noteq> None"
    by (auto simp: fwr_set_output_mode_def fwr_set_output_position_def fwr_set_output_scale_def split: option.split)
  have "\<forall>p \<in> set ps. output_store st p \<noteq> None \<Longrightarrow> send_outputs_loop env st ps \<noteq> None" for ps by (induction ps) auto
  with a show "fwr_send_all_outputs env st \<noteq> None" by (simp add: fwr_send_all_outputs_def)
qed

lemma output_handlers:
  assumes "outputs_ok st" and "holds_its_length args"
  shows "set_direct_input_mode args st \<noteq> None" "set_vsync_output_message env args st \<noteq> None"
    "set_vsync_rate_limit_message args st \<noteq> None" "set_output_mode_message env args st \<noteq> None"
    "set_output_position_message env args st \<noteq> None" "set_output_scale_message env args st \<noteq> None"
proof -
  note i = arguments_defined(1) [OF assms(2)] and o = outputs_defined [OF assms(1)]
  have I: "\<exists>w. int_arg vs k = Some w" if "args_list n args = Some vs" "k < n" for n vs k using i [OF that] by blast
  show "set_direct_input_mode args st \<noteq> None"
  proof (cases "args_list 2 args")
    case (Some vs)
    then obtain b h where "bool_arg vs 0 = Some b" "int_arg vs 1 = Some h"
      using I [of 2 vs 1] arguments_defined(2) [OF assms(2), of 2 vs 0] by auto
    with Some show ?thesis by (simp add: set_direct_input_mode_def)
  qed (simp add: set_direct_input_mode_def)
  have "set_vsync_output_message env args st \<noteq> None \<and> set_vsync_rate_limit_message args st \<noteq> None"
  proof (cases "args_list 1 args")
    case (Some vs)
    then obtain k where "int_arg vs 0 = Some k" using I [of 1 vs 0] by auto
    with Some o(1) show ?thesis by (simp add: set_vsync_output_message_def set_vsync_rate_limit_message_def)
  qed (simp add: set_vsync_output_message_def set_vsync_rate_limit_message_def)
  then show "set_vsync_output_message env args st \<noteq> None" "set_vsync_rate_limit_message args st \<noteq> None" by simp_all
  show "set_output_mode_message env args st \<noteq> None"
  proof (cases "args_list 4 args")
    case (Some vs)
    then obtain k w h r where "int_arg vs 0 = Some k" "int_arg vs 1 = Some w" "int_arg vs 2 = Some h" "int_arg vs 3 = Some r"
      using I [of 4 vs 0] I [of 4 vs 1] I [of 4 vs 2] I [of 4 vs 3] by auto
    with Some o(2) show ?thesis by (simp add: set_output_mode_message_def)
  qed (simp add: set_output_mode_message_def)
  show "set_output_position_message env args st \<noteq> None"
  proof (cases "args_list 3 args")
    case (Some vs)
    then obtain k x y where "int_arg vs 0 = Some k" "int_arg vs 1 = Some x" "int_arg vs 2 = Some y"
      using I [of 3 vs 0] I [of 3 vs 1] I [of 3 vs 2] by auto
    with Some o(3) show ?thesis by (simp add: set_output_position_message_def)
  qed (simp add: set_output_position_message_def)
  show "set_output_scale_message env args st \<noteq> None"
  proof (cases "args_list 2 args")
    case (Some vs)
    then obtain k sc where "int_arg vs 0 = Some k" "scale_arg vs 1 = Some sc"
      using I [of 2 vs 0] arguments_defined(3) [OF assms(2), of 2 vs 1] by auto
    with Some o(4) show ?thesis by (simp add: set_output_scale_message_def)
  qed (simp add: set_output_scale_message_def)
qed

section \<open>The routing\<close>

lemma table_defined:
  assumes "surfaces_ok st" and "outputs_ok st" and "holds_its_length args"
  shows "list_all (\<lambda>mf. method_answerable env (ascii (fst mf)) st \<longrightarrow> snd mf args st \<noteq> None) (method_table env)"
proof -
  have alive: "focus_alive env st" if "method_answerable env (ascii m) st" "m \<in> set focus_methods" for m
    using that by (auto simp: method_answerable_def)
  note focus = focus_handlers [OF assms(1,3) alive]
  have pointer: "fwr_handle_surface_pointer_event_message env args st \<noteq> None"
    if "method_answerable env (ascii ''surface_pointer_event'') st"
    using pointer_handlers(1) [OF assms(1,3)] alive [OF that] that by (simp add: method_answerable_def focus_methods_def)
  have position: "f args st \<noteq> None" if "method_answerable env (ascii ''surface_set_position'') st" for f :: "dart_value \<Rightarrow> fwr_instance \<Rightarrow> outcome"
    using that by (simp add: method_answerable_def)
  have in_focus: "''surface_focus'' \<in> set focus_methods" "''surface_begin_move'' \<in> set focus_methods"
    "''surface_begin_resize'' \<in> set focus_methods" "''surface_keyboard_key'' \<in> set focus_methods"
    by (simp_all add: focus_methods_def)
  have ready: "map_option (\<lambda>es. (st, es @ [respond_success])) (fwr_send_all_outputs env st) \<noteq> None"
    using outputs_defined(5) [OF assms(2)] by simp
  have some: "Some x \<noteq> None" for x :: "fwr_instance \<times> effect list" by simp
  note plain = safe_handlers [OF assms(1,3), of env] output_handlers [OF assms(2,3)] pointer_handlers(2) [OF assms(1,3)] ready some
  show ?thesis
    unfolding method_table_def list.pred_inject fst_conv snd_conv
    by (intro conjI impI)
      ((rule plain TrueI list.pred_inject(1) | erule focus [OF _ in_focus(1)] focus [OF _ in_focus(2)] focus [OF _ in_focus(3)] focus [OF _ in_focus(4)]
        pointer position)+)
qed

lemma wlroots_message_defined:
  assumes "surfaces_ok st" and "outputs_ok st" and "wlroots_answerable env msg st"
  shows "wlroots_message env msg st \<noteq> None"
proof (cases "message_read msg 0")
  case NoFuel
  then show ?thesis using read_enough [of msg 0] by (simp add: message_read_def)
next
  case ReadFalse
  then show ?thesis by (simp add: wlroots_message_def)
next
  case (ReadOk name off)
  have off: "off \<le> length msg" using read_bounds [of _ msg 0 name off] ReadOk by (auto simp: message_read_def)
  show ?thesis
  proof (cases "message_read msg off")
    case NoFuel
    then show ?thesis using read_enough [of msg off] off by (simp add: message_read_def)
  next
    case ReadFalse
    then show ?thesis by (simp add: wlroots_message_def ReadOk)
  next
    case args: (ReadOk args off')
    show ?thesis
    proof (cases name)
      case (DvString s)
      show ?thesis
      proof (cases "List.find (\<lambda>(m, f). cstr s = ascii m) (method_table env)")
        case None
        then show ?thesis by (simp add: wlroots_message_def ReadOk args DvString)
      next
        case (Some mf)
        then have mf: "mf \<in> set (method_table env)" "cstr s = ascii (fst mf)"
          by (auto simp: find_Some_iff split_beta simp del: split_paired_All split_paired_Ex)
        have "method_answerable env (cstr s) st" using assms(3) by (simp add: wlroots_answerable_def ReadOk DvString)
        with mf table_defined [OF assms(1,2) message_read_holds_its_length [OF args off], of env]
        have "snd mf args st \<noteq> None" by (auto simp: list_all_iff)
        with Some show ?thesis by (simp add: wlroots_message_def ReadOk args DvString split_beta)
      qed
    qed (simp_all add: wlroots_message_def ReadOk args)
  qed
qed

text \<open>The two channel handlers.\<close>

lemma text_defined:
  assumes "text_answerable env msg"
  shows "text_input_handle_message env True msg ti \<noteq> None"
proof -
  let ?d = "platch_decode env (if msg \<noteq> [] then Some (msg @ [0]) else None) (length msg) kJSONMethodCall"
  have h: "handle_text_call m (Some arg) ti \<noteq> None"
    if "m \<noteq> ascii ''TextInput.setEditingState''" "m = ascii ''TextInput.setClient'' \<Longrightarrow> set_client arg ti \<noteq> None" for m arg
    using that by auto
  have c: "set_client arg ti \<noteq> None"
    if "case arg of JsonArray (JsonNumber x # _ # _) \<Rightarrow> f64_to_i64 x \<noteq> None | JsonArray (_ # _ # _) \<Rightarrow> False | _ \<Rightarrow> True" for arg
    using that by (cases "(arg, ti)" rule: set_client.cases) (auto simp: Let_def split: option.splits)
  show ?thesis
  proof (cases ?d)
    case (Inl e)
    with assms show ?thesis by (simp add: text_input_handle_message_def text_answerable_def Let_def)
  next
    case (Inr ob)
    with assms obtain m arg where ob: "ob = JsonMethodCall (Some m) (Some arg)"
      by (auto simp: text_answerable_def split: platch_obj.splits option.splits)
    from assms Inr have "handle_text_call (cstr m) (Some arg) ti \<noteq> None"
      by (intro h c) (simp_all add: text_answerable_def ob)
    with Inr show ?thesis by (auto simp: text_input_handle_message_def ob Let_def simp del: handle_text_call.simps)
  qed
qed

lemma standard_call_decoded: "platch_decode env (Some msg) n kStandardMethodCall = Inr ob \<Longrightarrow> \<exists>m arg. ob = StdMethodCall m arg"
proof -
  assume d: "platch_decode env (Some msg) n kStandardMethodCall = Inr ob"
  then obtain m1 o1 where "(case m1 of StdString name \<Rightarrow> bind_r (env_decode_std env (take n msg) o1) (\<lambda>(v, _). Inr (StdMethodCall name v))
      | _ \<Rightarrow> Inl (PlatchErrno EBADMSG)) = Inr ob"
    unfolding platch_decode_def option.case platch_codec.case by (auto simp: bind_r_Inr_iff simp del: split_paired_Ex)
  then show ?thesis by (cases m1) (auto simp: bind_r_Inr_iff)
qed

lemma stdmap_get_str_found: "stdmap_get_str kvs key \<noteq> None"
  unfolding stdmap_get_str_def by (induction kvs) (auto simp: equals_string split: bool.split)

lemma cursor_defined:
  assumes "msg = [] \<or> cursor_answerable env msg"
  shows "cursor_handle_message env msg st \<noteq> None"
proof (cases "platch_decode env (Some msg) (length msg) kStandardMethodCall")
  case (Inl e)
  with assms show ?thesis by (auto simp: cursor_handle_message_def cursor_answerable_def)
next
  case (Inr ob)
  from standard_call_decoded [OF this] obtain m arg where ob: "ob = StdMethodCall m arg" by blast
  have "activate_cursor arg st \<noteq> None"
    by (auto simp: activate_cursor_def stdmap_get_str_found Let_def split: std_value.split option.split)
  with Inr show ?thesis by (auto simp: cursor_handle_message_def ob)
qed

lemma plugin_message_defined:
  assumes "answerable env pm (fst c)" and "pm_size_ok pm" and "cstr (pm_channel pm) \<noteq> ascii ''wlroots''"
  shows "plugin_message env pm c \<noteq> None"
proof (cases "List.find (\<lambda>h. cstr (pm_channel pm) = handler_name h) (registry_handlers (plugin_registry (fst c)))")
  case (Some h)
  with assms have "handler_answerable (e_platch env) (handle_message h) (pm_message pm)" by (simp add: answerable_def)
  then have "run_handler env (handle_message h) (pm_message pm) c \<noteq> None"
    using text_defined [of "e_platch env" "pm_message pm" "snd c"] cursor_defined [of "pm_message pm" "e_platch env" "fst c"]
    by (cases "handle_message h") (simp_all add: handler_answerable_def run_handler_def)
  with Some show ?thesis by (auto simp: plugin_message_def)
qed (simp add: plugin_message_def)

lemma message_defined:
  assumes "surfaces_ok (fst c)" and "outputs_ok (fst c)" and "answerable env pm (fst c)"
  shows "engine_cb_platform_message env pm c \<noteq> None"
  using plugin_message_defined [OF assms(3)] wlroots_message_defined [OF assms(1,2), of env "pm_message pm"] assms(3)
  by (auto simp: engine_cb_platform_message_def answerable_def)

section \<open>One answer\<close>

text \<open>
  C3: With memory for the encoded responses, a platform message of the size the embedder was built for is
  answered exactly once, on every path on which its handler returns: an unknown channel, an unknown
  method, arguments that do not decode and every early return of a handler included. (A message of
  another size is dropped without an answer.)

  And the handler returns: in a state that keeps the invariants of windows and monitors, for any bytes and
  any channel except those that \<open>answerable\<close> leaves out, where C does not say what happens or this is not
  shown. These are \<open>surface_set_position\<close>, whose subsurfaces may be gone; a pointer event during a
  grab, whose arithmetic may overflow; the methods that move the focus from a window that was freed;
  \<open>TextInput.setEditingState\<close>; a \<open>TextInput\<close> call without method or argument, or with a client that is
  no number; and bytes on which the decoders of \<open>platform_channel.c\<close> leave their blocks.
\<close>
theorem platform_message_answered_once:
  assumes "platch_ready env" and "wf_std (StdString (wl_socket (fst c)))"
  shows "(surfaces_ok (fst c) \<and> outputs_ok (fst c) \<and> answerable env pm (fst c) \<longrightarrow>
        (\<exists>c' es. engine_cb_platform_message env pm c = Some (c', es)))
    \<and> (\<forall>c' es. engine_cb_platform_message env pm c = Some (c', es) \<longrightarrow> responses es = (if pm_size_ok pm then 1 else 0))"
proof
  show "surfaces_ok (fst c) \<and> outputs_ok (fst c) \<and> answerable env pm (fst c) \<longrightarrow>
      (\<exists>c' es. engine_cb_platform_message env pm c = Some (c', es))"
    using message_defined [of c env pm] by auto
  show "\<forall>c' es. engine_cb_platform_message env pm c = Some (c', es) \<longrightarrow> responses es = (if pm_size_ok pm then 1 else 0)"
    using plugin_message_answers [OF assms(1)] wlroots_message_answers [OF assms]
    by (auto simp: engine_cb_platform_message_def answers_def split: if_splits)
qed

lemma is_compositor_message:
  "message_read ([7, 13] @ ascii ''is_compositor'' @ [0]) 0 = ReadOk (DvString (ascii ''is_compositor'')) 15"
  by code_simp

lemma is_compositor_answerable: "wlroots_answerable env ([7, 13] @ ascii ''is_compositor'' @ [0]) st"
  unfolding wlroots_answerable_def by (simp only: is_compositor_message read.case dart_value.case)
    (simp add: method_answerable_def focus_methods_def ascii_def cstr_def)

theorem platform_message_answered_once_witness:
  "\<exists>c' es. engine_cb_platform_message test_env
       \<lparr>pm_size_ok = True, pm_channel = ascii ''wlroots'', pm_message = [7, 13] @ ascii ''is_compositor'' @ [0]\<rparr>
       (initial_instance True, fwr_text_input_init) = Some (c', es) \<and> responses es = 1"
proof -
  let ?pm = "\<lparr>pm_size_ok = True, pm_channel = ascii ''wlroots'', pm_message = [7, 13] @ ascii ''is_compositor'' @ [0]\<rparr>"
  let ?c = "(initial_instance True, fwr_text_input_init)"
  have ready: "platch_ready test_env" "wf_std (StdString (wl_socket (fst ?c)))"
    by (simp_all add: platch_ready_def test_env_def initial_instance_def)
  have ok: "surfaces_ok (fst ?c)" "outputs_ok (fst ?c)" using ok_initial by (simp_all add: outputs_ok_def initial_instance_def)
  have "cstr (ascii ''wlroots'') = ascii ''wlroots''" by (simp add: ascii_def cstr_def)
  then have "answerable test_env ?pm (fst ?c)"
    unfolding answerable_def by (simp only: platform_message.simps is_compositor_answerable simp_thms if_True if_False)
  with platform_message_answered_once [OF ready, of ?pm] ok obtain c' es where
    "engine_cb_platform_message test_env ?pm ?c = Some (c', es)" "responses es = 1" by fastforce
  then show ?thesis by blast
qed

end
