(* ===== verification/Rounding.thy ===== *)
theory Rounding
  imports Doubles
begin

text \<open>
  What the arithmetic of \<open>Doubles\<close> computes: the value of a rounded result, that a rational with 53
  significant bits is not changed, so that integers up to \<open>2 ^ 53\<close> are exact, and that rounding
  does not cross a power of two. Then the operations that only drawing uses: \<open>float\<close>, \<open>floor\<close>,
  \<open>ceil\<close>, \<open>lround\<close>, \<open>fmin\<close>, \<open>fmax\<close>, \<open>fabs\<close> and \<open>sqrt\<close>.
\<close>

section \<open>Powers of two\<close>

lemma pow2_nonneg: "0 \<le> e \<Longrightarrow> pow2 e = 2 ^ nat e"
  by (simp add: pow2_def)

lemma pow2_pos [simp]: "0 < pow2 e" "pow2 e \<noteq> 0"
  by (simp_all add: pow2_def)

lemma pow2_0 [simp]: "pow2 0 = 1"
  by (simp add: pow2_def)

lemma pow2_Suc: "pow2 (e + 1) = 2 * pow2 e"
proof -
  consider "0 \<le> e" | "e = - 1" | "e < - 1" by linarith
  then show ?thesis
  proof cases
    case 1 then show ?thesis by (simp add: pow2_def nat_add_distrib)
  next
    case 2 then show ?thesis by (simp add: pow2_def)
  next
    case 3
    then have "nat (- e) = Suc (nat (- (e + 1)))" by linarith
    with 3 show ?thesis by (simp add: pow2_def)
  qed
qed

lemma pow2_add_nat: "pow2 (e + int n) = pow2 e * 2 ^ n"
proof (induction n)
  case (Suc n)
  have "pow2 (e + int (Suc n)) = pow2 ((e + int n) + 1)" by (simp add: ac_simps)
  then show ?case unfolding pow2_Suc Suc by simp
qed simp

lemma pow2_add: "pow2 (a + b) = pow2 a * pow2 b"
proof (cases "0 \<le> b")
  case True
  then show ?thesis using pow2_add_nat [of a "nat b"] by (simp add: pow2_nonneg)
next
  case False
  then have "pow2 a = pow2 (a + b) * 2 ^ nat (- b)" using pow2_add_nat [of "a + b" "nat (- b)"] by simp
  with False show ?thesis by (simp add: pow2_def [of b] field_simps)
qed

lemma pow2_diff: "pow2 (a - b) = pow2 a / pow2 b"
  using pow2_add [of "a - b" b] by (simp add: field_simps)

lemma pow2_mono: "a \<le> b \<Longrightarrow> pow2 a \<le> pow2 b"
proof -
  assume "a \<le> b"
  then have "pow2 b = pow2 a * 2 ^ nat (b - a)" using pow2_add_nat [of a "nat (b - a)"] by simp
  then show ?thesis by simp
qed

lemma pow2_less: "a < b \<Longrightarrow> pow2 a < pow2 b"
  using pow2_mono [of "a + 1" b] pow2_Suc [of a] pow2_pos [of a] by linarith

lemma pow2_less_iff: "pow2 a < pow2 b \<longleftrightarrow> a < b" and pow2_le_iff: "pow2 a \<le> pow2 b \<longleftrightarrow> a \<le> b"
  using pow2_less pow2_mono by (meson not_less)+

section \<open>The exponent of a rational\<close>

lemma bitlen_range: "0 < n \<Longrightarrow> pow2 (bitlen n - 1) \<le> of_int n \<and> of_int n < pow2 (bitlen n)"
proof -
  assume n: "0 < n"
  have b: "1 \<le> bitlen n"
  proof (rule ccontr)
    assume "\<not> 1 \<le> bitlen n"
    then have "nat (bitlen n) = 0" by simp
    with bitlen_bounds [OF n] n show False by simp
  qed
  have "2 ^ nat (bitlen n - 1) \<le> n" "n < 2 ^ nat (bitlen n)" using bitlen_bounds [OF n] by simp_all
  then have "(of_int (2 ^ nat (bitlen n - 1)) :: rat) \<le> of_int n" "(of_int n :: rat) < of_int (2 ^ nat (bitlen n))"
    by (simp_all only: of_int_le_iff of_int_less_iff)
  with b show ?thesis by (simp add: pow2_nonneg)
qed

lemma rat_expo_range:
  assumes "0 < x"
  shows "pow2 (rat_expo x) \<le> x \<and> x < pow2 (rat_expo x + 1)"
proof -
  obtain n d where q: "quotient_of x = (n, d)" by fastforce
  have d: "0 < d" using quotient_of_denom_pos [OF q] .
  have x: "x = of_int n / of_int d" using quotient_of_div [OF q] .
  then have n: "0 < n" using assms d by (simp add: zero_less_divide_iff)
  let ?k = "bitlen n - bitlen d"
  note N = bitlen_range [OF n] and D = bitlen_range [OF d]
  have d': "(0 :: rat) < of_int d" using d by simp
  have "x < pow2 (bitlen n) / pow2 (bitlen d - 1)"
    unfolding x using N D d' by (intro frac_less) (use n in auto)
  then have hi: "x < pow2 (?k + 1)" by (simp add: pow2_diff [symmetric] algebra_simps)
  have "pow2 (bitlen n - 1) / pow2 (bitlen d) \<le> x"
    unfolding x using N D d' n by (intro frac_le) auto
  then have lo: "pow2 (?k - 1) \<le> x" by (simp add: pow2_diff [symmetric] algebra_simps)
  show ?thesis using hi lo unfolding rat_expo_def q Let_def prod.case by auto
qed

lemma rat_expo_unique:
  assumes "pow2 e \<le> x" and "x < pow2 (e + 1)"
  shows "rat_expo x = e"
proof -
  have "0 < x" using assms(1) pow2_pos [of e] by linarith
  from rat_expo_range [OF this] assms have "pow2 (rat_expo x) < pow2 (e + 1)" "pow2 e < pow2 (rat_expo x + 1)" by linarith+
  then show ?thesis by (simp add: pow2_less_iff)
qed

lemma rat_expo_less: "0 < x \<Longrightarrow> x < pow2 k \<Longrightarrow> rat_expo x < k"
  using rat_expo_range [of x] pow2_less_iff [of "rat_expo x" k] by fastforce

section \<open>Rounding to an integer\<close>

lemma round_half_even_of_int [simp]: "round_half_even (of_int i) = i"
  by (simp add: round_half_even_def)

lemma round_half_even_bounds: "of_int i \<le> x \<Longrightarrow> x \<le> of_int j \<Longrightarrow> i \<le> round_half_even x \<and> round_half_even x \<le> j"
proof -
  assume i: "of_int i \<le> x" and j: "x \<le> of_int j"
  have 1: "i \<le> \<lfloor>x\<rfloor>" using i by (simp add: le_floor_iff)
  have 2: "\<lfloor>x\<rfloor> \<le> j" using j by (meson floor_le_iff floor_mono of_int_floor_le order_trans of_int_le_iff)
  have 3: "\<lfloor>x\<rfloor> = j \<Longrightarrow> x = of_int j" using j of_int_floor_le [of x] by linarith
  show ?thesis
  proof (cases "\<lfloor>x\<rfloor> = j")
    case True
    with 1 3 show ?thesis by simp
  next
    case False
    with 1 2 show ?thesis by (auto simp: round_half_even_def Let_def)
  qed
qed

section \<open>The value of a rounded rational\<close>

text \<open>The magnitude in units of \<open>2 ^ (e - 52)\<close> and the exponent of a rational.\<close>

definition f64_e :: "rat \<Rightarrow> int" where "f64_e x = max (rat_expo \<bar>x\<bar>) (- 1022)"
definition f64_m :: "rat \<Rightarrow> int" where "f64_m x = round_half_even (\<bar>x\<bar> / pow2 (f64_e x - 52))"

lemma f64_m_range:
  assumes "x \<noteq> 0"
  shows "0 \<le> f64_m x \<and> f64_m x \<le> 2 ^ 53 \<and> (f64_e x > - 1022 \<longrightarrow> 2 ^ 52 \<le> f64_m x)"
proof -
  let ?e = "f64_e x" and ?y = "\<bar>x\<bar> / pow2 (f64_e x - 52)"
  have a: "0 < \<bar>x\<bar>" using assms by simp
  note R = rat_expo_range [OF a]
  have "\<bar>x\<bar> < pow2 (?e + 1)" using R pow2_mono [of "rat_expo \<bar>x\<bar> + 1" "?e + 1"] by (simp add: f64_e_def)
  moreover have "pow2 (?e + 1) = of_int (2 ^ 53) * pow2 (?e - 52)" using pow2_add_nat [of "?e - 52" 53] by (simp add: ac_simps)
  ultimately have hi: "?y \<le> of_int (2 ^ 53)" by (simp add: divide_le_eq)
  have "0 < pow2 (?e - 52)" by simp
  then have lo: "of_int 0 \<le> ?y" by (metis abs_ge_zero divide_nonneg_pos of_int_0)
  have "of_int (2 ^ 52) \<le> ?y" if "?e > - 1022"
  proof -
    have "?e = rat_expo \<bar>x\<bar>" using that by (auto simp: f64_e_def max_def split: if_splits)
    then have "pow2 ?e \<le> \<bar>x\<bar>" using R by simp
    moreover have "pow2 ?e = of_int (2 ^ 52) * pow2 (?e - 52)" using pow2_add_nat [of "?e - 52" 52] by (simp add: ac_simps)
    ultimately show ?thesis by (simp add: le_divide_eq)
  qed
  then show ?thesis using round_half_even_bounds [OF lo hi] round_half_even_bounds [OF _ hi, of "2 ^ 52"]
    unfolding f64_m_def by blast
qed

text \<open>The parts of a pattern given by sign, exponent and magnitude.\<close>

lemma f64_parts:
  assumes "0 \<le> b" and "b < 2 ^ 63" and "w = word_of_int (b + (if neg then 2 ^ 63 else 0))"
  shows "f64_sign w = neg" "f64_exp w = b div 2 ^ 52" "f64_frac w = b mod 2 ^ 52"
proof -
  have "uint w = (b + (if neg then 2 ^ 63 else 0)) mod 2 ^ 64" unfolding assms(3) by (simp only: uint_word_of_int len_of_numeral_defs) simp
  then have u: "uint w = b + (if neg then 2 ^ 63 else 0)" using assms(1,2) by (cases neg) simp_all
  have d: "b div 2 ^ 63 = 0" using assms(1,2) by simp
  show "f64_sign w = neg" using d unfolding f64_sign_def u by (cases neg) (simp_all add: div_add_self2)
  have "(b + 2 ^ 63) div 2 ^ 52 = b div 2 ^ 52 + 2 ^ 11" using div_mult_self1 [of "2 ^ 52" b "2 ^ 11"] by simp
  moreover have "0 \<le> b div 2 ^ 52" "b div 2 ^ 52 < 2 ^ 11" using assms(1,2) by simp_all
  ultimately show "f64_exp w = b div 2 ^ 52" unfolding f64_exp_def u by (cases neg) simp_all
  have "(b + 2 ^ 63) mod 2 ^ 52 = b mod 2 ^ 52" using mod_mult_self1 [of b "2 ^ 11" "2 ^ 52"] by simp
  then show "f64_frac w = b mod 2 ^ 52" unfolding f64_frac_def u by (cases neg) simp_all
qed

lemma f64_val_pow2:
  "f64_val w = (if f64_sign w then - 1 else 1) *
     (if f64_exp w = 0 then of_int (f64_frac w) * pow2 (- 1074)
      else of_int (f64_frac w + 2 ^ 52) * pow2 (f64_exp w - 1075))"
proof -
  define k where "k = max (f64_exp w) 1"
  have "0 \<le> f64_exp w" by (simp add: f64_exp_def)
  then have "k - 1075 = (if f64_exp w = 0 then - 1074 else f64_exp w - 1075)" by (auto simp: k_def)
  moreover have "(if k \<ge> 1075 then of_int (m * 2 ^ nat (k - 1075)) else of_int m / of_int (2 ^ nat (1075 - k)))
      = of_int m * pow2 (k - 1075)" for m
    by (auto simp: pow2_def)
  ultimately show ?thesis unfolding f64_val_def Let_def k_def [symmetric] by (cases "f64_exp w = 0") auto
qed

lemma f64_round_val:
  assumes "x \<noteq> 0" and fits: "(f64_e x + 1022) * 2 ^ 52 + f64_m x < 2047 * 2 ^ 52"
  shows "f64_isfinite (f64_round z x) \<and>
     f64_val (f64_round z x) = (if x < 0 then - 1 else 1) * (of_int (f64_m x) * pow2 (f64_e x - 52))"
proof -
  let ?e = "f64_e x" and ?m = "f64_m x" and ?w = "f64_round z x"
  define b where "b = (?e + 1022) * 2 ^ 52 + ?m"
  have e: "- 1022 \<le> ?e" by (simp add: f64_e_def)
  note M = f64_m_range [OF assms(1)]
  have b0: "0 \<le> b" using e M by (simp add: b_def)
  have b1: "b < 2047 * 2 ^ 52" using fits by (simp add: b_def)
  have w: "?w = word_of_int (b + (if x < 0 then 2 ^ 63 else 0))"
    using assms(1) b1 unfolding f64_round_def Let_def f64_e_def [symmetric] f64_m_def [symmetric] b_def [symmetric] by simp
  have b2: "b < 2 ^ 63" using b1 by simp
  note P = f64_parts [OF b0 b2 w]
  have fin: "f64_isfinite ?w" using b1 by (simp add: f64_isfinite_def P(2)) 
  consider (sub) "?m < 2 ^ 52" "?e = - 1022" | (norm) "2 ^ 52 \<le> ?m" "?m < 2 ^ 53" | (carry) "?m = 2 ^ 53"
    using M e by fastforce
  then have "f64_val ?w = (if x < 0 then - 1 else 1) * (of_int ?m * pow2 (?e - 52))"
  proof cases
    case sub
    then have "b div 2 ^ 52 = 0" "b mod 2 ^ 52 = ?m" using M by (simp_all add: b_def)
    with sub show ?thesis by (simp add: f64_val_pow2 P)
  next
    case norm
    define f where "f = ?m - 2 ^ 52"
    have f: "0 \<le> f" "f < 2 ^ 52" using norm by (simp_all add: f_def)
    have bf: "b = f + (?e + 1023) * 2 ^ 52" by (simp add: b_def f_def algebra_simps)
    have d: "b div 2 ^ 52 = ?e + 1023" "b mod 2 ^ 52 = f"
      using div_mult_self1 [of "2 ^ 52" f "?e + 1023"] mod_mult_self1 [of f "?e + 1023" "2 ^ 52"] f by (simp_all add: bf)
    with e f_def d show ?thesis by (simp add: f64_val_pow2 P)
  next
    case carry
    have bf: "b = (?e + 1024) * 2 ^ 52" by (simp add: b_def carry algebra_simps)
    have d: "b div 2 ^ 52 = ?e + 1024" "b mod 2 ^ 52 = 0" unfolding bf by simp_all
    have "pow2 (?e - 51) = 2 * pow2 (?e - 52)" using pow2_Suc [of "?e - 52"] by simp
    with e d carry show ?thesis by (simp add: f64_val_pow2 P)
  qed
  with fin show ?thesis by simp
qed

text \<open>A pattern of a finite double with a given value.\<close>

definition f64_is :: "u64 \<Rightarrow> rat \<Rightarrow> bool" where
  "f64_is w x \<longleftrightarrow> f64_isfinite w \<and> f64_val w = x"

lemma f64_is_zero: "f64_is (zero_of_sign s) 0"
  by (simp add: f64_is_def zero_of_sign_def f64_isfinite_def f64_exp_def f64_val_def f64_frac_def)

lemma f64_fits: "f64_e x \<le> 1022 \<Longrightarrow> x \<noteq> 0 \<Longrightarrow> (f64_e x + 1022) * 2 ^ 52 + f64_m x < 2047 * 2 ^ 52"
  using f64_m_range [of x] by simp

text \<open>A rational with 53 significant bits in the range of the exponents is not changed.\<close>

lemma f64_round_exact:
  assumes x: "\<bar>x\<bar> = of_int k * pow2 j" and k: "0 \<le> k" "k < 2 ^ 53" and j: "- 1074 \<le> j" "j \<le> 971"
  shows "f64_is (f64_round z x) x"
proof (cases "x = 0")
  case True
  then show ?thesis by (simp add: f64_round_def f64_is_zero)
next
  case False
  then have a: "0 < \<bar>x\<bar>" by simp
  have p53: "pow2 (j + 53) = of_int (2 ^ 53) * pow2 j" using pow2_add_nat [of j 53] by (simp add: ac_simps)
  have "(of_int k :: rat) < of_int (2 ^ 53)" using k(2) by (simp only: of_int_less_iff)
  then have lt: "\<bar>x\<bar> < pow2 (j + 53)" unfolding x p53 by simp
  then have "rat_expo \<bar>x\<bar> < j + 53" using rat_expo_less [OF a] by simp
  then have e: "f64_e x \<le> j + 52" using j by (simp add: f64_e_def)
  define n where "n = nat (j - (f64_e x - 52))"
  have "pow2 j = pow2 (f64_e x - 52) * 2 ^ n" using pow2_add_nat [of "f64_e x - 52" n] e by (simp add: n_def)
  then have xn: "\<bar>x\<bar> = of_int (k * 2 ^ n) * pow2 (f64_e x - 52)" unfolding x by simp
  then have m: "f64_m x = k * 2 ^ n" unfolding f64_m_def by (metis nonzero_mult_div_cancel_right pow2_pos(2) round_half_even_of_int)
  have fits: "(f64_e x + 1022) * 2 ^ 52 + f64_m x < 2047 * 2 ^ 52"
  proof (cases "f64_e x \<le> 1022")
    case True then show ?thesis using f64_fits False by blast
  next
    case big: False
    with e j have e1: "f64_e x = 1023" by linarith
    have "of_int (k * 2 ^ n) * pow2 971 < pow2 (j + 53)" using lt unfolding xn e1 by simp
    also have "\<dots> \<le> pow2 (971 + 53)" using j by (intro pow2_mono) simp
    also have "\<dots> = of_int (2 ^ 53) * pow2 971" using pow2_add_nat [of 971 53] by (simp add: ac_simps)
    finally have "(of_int (k * 2 ^ n) :: rat) < of_int (2 ^ 53)" by simp
    then have "k * 2 ^ n < 2 ^ 53" by (simp only: of_int_less_iff)
    then show ?thesis unfolding e1 m by simp
  qed
  have "x = (if x < 0 then - 1 else 1) * \<bar>x\<bar>" by simp
  with f64_round_val [OF False fits, of z] xn m show ?thesis by (simp add: f64_is_def)
qed

text \<open>Rounding does not cross a power of two, and it keeps the sign.\<close>

lemma f64_round_bound:
  assumes "\<bar>x\<bar> \<le> pow2 k" and "0 \<le> k" "k \<le> 1022"
  shows "\<exists>y. f64_is (f64_round z x) y \<and> \<bar>y\<bar> \<le> pow2 k \<and> (0 \<le> x \<longrightarrow> 0 \<le> y) \<and> (x \<le> 0 \<longrightarrow> y \<le> 0)"
proof -
  consider "x = 0" | "\<bar>x\<bar> = pow2 k" | "x \<noteq> 0" "\<bar>x\<bar> < pow2 k" using assms(1) by fastforce
  then show ?thesis
  proof cases
    case 1
    then show ?thesis using f64_is_zero [of z] by (auto simp: f64_round_def less_imp_le intro!: exI [of _ 0])
  next
    case 2
    then have "\<bar>x\<bar> = of_int (2 ^ 52) * pow2 (k - 52)" using pow2_add_nat [of "k - 52" 52] by (simp add: ac_simps)
    from f64_round_exact [OF this, of z] assms(2,3) have "f64_is (f64_round z x) x" by simp
    with 2 show ?thesis by (intro exI [of _ x]) simp
  next
    case 3
    then have "rat_expo \<bar>x\<bar> < k" using rat_expo_less by simp
    then have e: "f64_e x < k" using assms(2) by (auto simp: f64_e_def)
    have e1: "f64_e x \<le> 1022" using e assms(3) by linarith
    note v = f64_round_val [OF 3(1) f64_fits [OF e1 3(1)], of z]
    have m: "0 \<le> f64_m x" "f64_m x \<le> 2 ^ 53" using f64_m_range [OF 3(1)] by simp_all
    then have "(of_int (f64_m x) :: rat) \<le> of_int (2 ^ 53)" by (simp only: of_int_le_iff)
    then have "of_int (f64_m x) * pow2 (f64_e x - 52) \<le> of_int (2 ^ 53) * pow2 (f64_e x - 52)" by simp
    also have "\<dots> = pow2 (f64_e x + 1)" using pow2_add_nat [of "f64_e x - 52" 53] by (simp add: ac_simps)
    also have "\<dots> \<le> pow2 k" using e by (intro pow2_mono) simp
    finally have "of_int (f64_m x) * pow2 (f64_e x - 52) \<le> pow2 k" .
    moreover have "0 \<le> of_int (f64_m x) * pow2 (f64_e x - 52)" using m by (simp add: less_imp_le)
    ultimately show ?thesis using v 3(1)
      by (intro exI [of _ "(if x < 0 then - 1 else 1) * (of_int (f64_m x) * pow2 (f64_e x - 52))"]) (simp add: f64_is_def)
  qed
qed

lemma f64_round_ge1:
  assumes "1 \<le> x" and "f64_is (f64_round z x) y"
  shows "1 \<le> y"
proof (cases "(f64_e x + 1022) * 2 ^ 52 + f64_m x < 2047 * 2 ^ 52")
  case True
  have x: "x \<noteq> 0" "\<not> x < 0" "\<bar>x\<bar> = x" using assms(1) by auto
  have "pow2 0 < pow2 (rat_expo x + 1)" using rat_expo_range [of x] assms(1) by simp
  then have e: "0 \<le> f64_e x" by (simp add: pow2_less_iff f64_e_def x(3) del: pow2_0)
  then have "2 ^ 52 \<le> f64_m x" using f64_m_range [OF x(1)] by simp
  then have "(of_int (2 ^ 52) :: rat) \<le> of_int (f64_m x)" by (simp only: of_int_le_iff)
  then have "of_int (2 ^ 52) * pow2 (f64_e x - 52) \<le> of_int (f64_m x) * pow2 (f64_e x - 52)" by simp
  moreover have "of_int (2 ^ 52) * pow2 (f64_e x - 52) = pow2 (f64_e x)"
    using pow2_add_nat [of "f64_e x - 52" 52] by (simp add: ac_simps)
  moreover have "1 \<le> pow2 (f64_e x)" using pow2_mono [OF e] by simp
  ultimately have "1 \<le> of_int (f64_m x) * pow2 (f64_e x - 52)" by linarith
  then show ?thesis using f64_round_val [OF x(1) True, of z] x(2) assms(2) by (simp add: f64_is_def)
next
  case False
  then have "f64_round z x = f64_inf False"
    using assms(1) unfolding f64_round_def Let_def f64_e_def [symmetric] f64_m_def [symmetric] by auto
  with assms(2) show ?thesis by (simp add: f64_is_def f64_isfinite_def f64_exp_def f64_inf_def)
qed

section \<open>Exact arithmetic on integers\<close>

lemma f64_round_int: "\<bar>i\<bar> < 2 ^ 53 \<Longrightarrow> f64_is (f64_round z (of_int i)) (of_int i)"
  by (rule f64_round_exact [where k = "\<bar>i\<bar>" and j = 0]) simp_all

lemma f64_is_of_int: "\<bar>i\<bar> < 2 ^ 53 \<Longrightarrow> f64_is (f64_of_int i) (of_int i)"
  by (simp add: f64_of_int_def f64_round_int)

lemma f64_is_finite:
  assumes "f64_is w x"
  shows "f64_isfinite w" "\<not> f64_isnan w" "\<not> f64_isinf w" "f64_val w = x"
  using assms by (simp_all add: f64_is_def f64_isfinite_def f64_isnan_def f64_isinf_def)

lemma f64_is_add: "f64_is a x \<Longrightarrow> f64_is b y \<Longrightarrow> f64_is (f64_round (f64_sign a \<and> f64_sign b) (x + y)) z \<Longrightarrow> f64_is (f64_add a b) z"
  by (simp add: f64_add_def f64_is_finite)

lemma f64_is_mul: "f64_is a x \<Longrightarrow> f64_is b y \<Longrightarrow> f64_is (f64_round (f64_sign a \<noteq> f64_sign b) (x * y)) z \<Longrightarrow> f64_is (f64_mul a b) z"
  by (simp add: f64_mul_def f64_is_finite Let_def)

lemma f64_is_div:
  "f64_is a x \<Longrightarrow> f64_is b y \<Longrightarrow> y \<noteq> 0 \<Longrightarrow> f64_is (f64_round (f64_sign a \<noteq> f64_sign b) (x / y)) z \<Longrightarrow> f64_is (f64_div a b) z"
  by (simp add: f64_div_def f64_is_finite Let_def)

lemma f64_is_add_int: "f64_is a (of_int i) \<Longrightarrow> f64_is b (of_int j) \<Longrightarrow> \<bar>i + j\<bar> < 2 ^ 53 \<Longrightarrow> f64_is (f64_add a b) (of_int (i + j))"
  using f64_is_add [of a "of_int i" b "of_int j"] f64_round_int [of "i + j"] by simp

lemma f64_is_mul_int: "f64_is a (of_int i) \<Longrightarrow> f64_is b (of_int j) \<Longrightarrow> \<bar>i * j\<bar> < 2 ^ 53 \<Longrightarrow> f64_is (f64_mul a b) (of_int (i * j))"
  using f64_is_mul [of a "of_int i" b "of_int j"] f64_round_int [of "i * j"] by simp

lemma f64_neg_parts:
  "f64_exp (f64_neg w) = f64_exp w" "f64_frac (f64_neg w) = f64_frac w" "f64_sign (f64_neg w) = (\<not> f64_sign w)"
proof -
  have u: "uint (f64_neg w) = xor (uint w) (2 ^ 63)" by (simp add: f64_neg_def uint_xor)
  have f: "f64_frac v = take_bit 52 (uint v)" "f64_exp v = take_bit 11 (drop_bit 52 (uint v))"
    "f64_sign v = (drop_bit 63 (uint v) = 1)" for v
    by (simp_all add: f64_frac_def f64_exp_def f64_sign_def take_bit_eq_mod drop_bit_eq_div)
  have b: "drop_bit 63 (uint w) = 0 \<or> drop_bit 63 (uint w) = 1"
  proof -
    have "uint w < 2 ^ 64" using uint_lt2p [of w] by simp
    then have "uint w div 2 ^ 63 < 2" by simp
    moreover have "0 \<le> uint w div 2 ^ 63" by (rule pos_imp_zdiv_nonneg_iff [THEN iffD2]) simp_all
    ultimately show ?thesis by (auto simp: drop_bit_eq_div)
  qed
  have c: "drop_bit 52 (2 ^ 63 :: int) = 2 ^ 11" "take_bit 11 (2 ^ 11 :: int) = 0" "take_bit 52 (2 ^ 63 :: int) = 0"
    "drop_bit 63 (2 ^ 63 :: int) = 1"
    by (simp_all add: drop_bit_eq_div take_bit_eq_mod)
  show "f64_exp (f64_neg w) = f64_exp w" unfolding f u drop_bit_xor take_bit_xor c by simp
  show "f64_frac (f64_neg w) = f64_frac w" unfolding f u take_bit_xor c by simp
  show "f64_sign (f64_neg w) = (\<not> f64_sign w)" using b unfolding f u drop_bit_xor c by auto
qed

lemma f64_is_neg: "f64_is w x \<Longrightarrow> f64_is (f64_neg w) (- x)"
proof -
  have "f64_val (f64_neg w) = - f64_val w" unfolding f64_val_pow2 [of w] f64_val_pow2 [of "f64_neg w"] f64_neg_parts by simp
  then show "f64_is w x \<Longrightarrow> f64_is (f64_neg w) (- x)" by (simp add: f64_is_def f64_isfinite_def f64_neg_parts)
qed

lemma f64_is_sub: "f64_is a x \<Longrightarrow> f64_is b y \<Longrightarrow> f64_is (f64_round (f64_sign a \<and> \<not> f64_sign b) (x - y)) z \<Longrightarrow> f64_is (f64_sub a b) z"
  unfolding f64_sub_def by (rule f64_is_add [OF _ f64_is_neg]) (simp_all add: f64_neg_parts)

text \<open>What is known of a result without computing it.\<close>

definition near :: "int \<Rightarrow> rat \<Rightarrow> rat \<Rightarrow> bool" where
  "near k x z \<longleftrightarrow> \<bar>z\<bar> \<le> pow2 k \<and> (0 \<le> x \<longrightarrow> 0 \<le> z) \<and> (x \<le> 0 \<longrightarrow> z \<le> 0) \<and> (1 \<le> x \<longrightarrow> 1 \<le> z)"

lemma f64_round_near:
  assumes "\<bar>x\<bar> \<le> pow2 k" and "0 \<le> k" "k \<le> 1022"
  obtains y where "f64_is (f64_round z x) y" "near k x y"
  using f64_round_bound [OF assms, of z] f64_round_ge1 [of x z] unfolding near_def by blast

lemma f64_mul_near:
  assumes "f64_is a x" "f64_is b y" and "\<bar>x * y\<bar> \<le> pow2 k" "0 \<le> k" "k \<le> 1022"
  obtains z where "f64_is (f64_mul a b) z" "near k (x * y) z"
  using f64_round_near [OF assms(3-5)] f64_is_mul [OF assms(1,2)] by metis

lemma f64_div_near:
  assumes "f64_is a x" "f64_is b y" "y \<noteq> 0" and "\<bar>x / y\<bar> \<le> pow2 k" "0 \<le> k" "k \<le> 1022"
  obtains z where "f64_is (f64_div a b) z" "near k (x / y) z"
  using f64_round_near [OF assms(4-6)] f64_is_div [OF assms(1-3)] by metis

lemma f64_add_near:
  assumes "f64_is a x" "f64_is b y" and "\<bar>x + y\<bar> \<le> pow2 k" "0 \<le> k" "k \<le> 1022"
  obtains z where "f64_is (f64_add a b) z" "near k (x + y) z"
  using f64_round_near [OF assms(3-5)] f64_is_add [OF assms(1,2)] by metis

lemma f64_sub_near:
  assumes "f64_is a x" "f64_is b y" and "\<bar>x - y\<bar> \<le> pow2 k" "0 \<le> k" "k \<le> 1022"
  obtains z where "f64_is (f64_sub a b) z" "near k (x - y) z"
  using f64_round_near [OF assms(3-5)] f64_is_sub [OF assms(1,2)] by metis

section \<open>Comparisons and integral values\<close>

definition f64_lt :: "u64 \<Rightarrow> u64 \<Rightarrow> bool" where
  "f64_lt a b =
     (\<not> f64_isnan a \<and> \<not> f64_isnan b \<and>
      (if f64_isinf a then f64_sign a \<and> \<not> (f64_isinf b \<and> f64_sign b)
       else if f64_isinf b then \<not> f64_sign b else f64_val a < f64_val b))"

definition f64_equal :: "u64 \<Rightarrow> u64 \<Rightarrow> bool" where
  "f64_equal a b =
     (\<not> f64_isnan a \<and> \<not> f64_isnan b \<and>
      (if f64_isinf a \<or> f64_isinf b then a = b else f64_val a = f64_val b))"

definition f64_le :: "u64 \<Rightarrow> u64 \<Rightarrow> bool" where "f64_le a b = (f64_lt a b \<or> f64_equal a b)"

definition f64_fabs :: "u64 \<Rightarrow> u64" where "f64_fabs w = (if f64_sign w then f64_neg w else w)"

text \<open>Of two zeros, \<open>fmin\<close> and \<open>fmax\<close> give the second.\<close>

definition f64_fmin :: "u64 \<Rightarrow> u64 \<Rightarrow> u64" where
  "f64_fmin a b = (if f64_isnan b then a else if f64_lt a b then a else b)"

definition f64_fmax :: "u64 \<Rightarrow> u64 \<Rightarrow> u64" where
  "f64_fmax a b = (if f64_isnan b then a else if f64_lt b a then a else b)"

definition f64_floor :: "u64 \<Rightarrow> u64" where
  "f64_floor w = (if f64_isfinite w then f64_round (f64_sign w) (of_int \<lfloor>f64_val w\<rfloor>) else w)"

definition f64_ceil :: "u64 \<Rightarrow> u64" where
  "f64_ceil w = (if f64_isfinite w then f64_round (f64_sign w) (of_int \<lceil>f64_val w\<rceil>) else w)"

text \<open>\<open>lround\<close>: halfway cases away from zero, \<open>None\<close> when the result is not a \<open>long\<close>.\<close>

definition f64_lround :: "u64 \<Rightarrow> int option" where
  "f64_lround w =
     (if \<not> f64_isfinite w then None
      else let v = f64_val w; i = (if 0 \<le> v then \<lfloor>v + 1 / 2\<rfloor> else \<lceil>v - 1 / 2\<rceil>)
           in if - (2 ^ 63) \<le> i \<and> i < 2 ^ 63 then Some i else None)"

text \<open>The conversion of a \<open>long\<close> to an \<open>int\<close>, which wraps.\<close>

definition int_of_long :: "int \<Rightarrow> int" where "int_of_long i = sint (word_of_int i :: u32)"

lemma f64_val_sign: "(f64_sign w \<longrightarrow> f64_val w \<le> 0) \<and> (\<not> f64_sign w \<longrightarrow> 0 \<le> f64_val w)"
proof -
  have "0 \<le> f64_frac w" by (simp add: f64_frac_def)
  then have "(0 :: rat) \<le> of_int (f64_frac w)" "(0 :: rat) \<le> of_int (f64_frac w + 2 ^ 52)" by simp_all
  then have "0 \<le> of_int (f64_frac w) * pow2 (- 1074)" "0 \<le> of_int (f64_frac w + 2 ^ 52) * pow2 (f64_exp w - 1075)"
    by (auto intro: mult_nonneg_nonneg less_imp_le [OF pow2_pos(1)])
  then show ?thesis unfolding f64_val_pow2 by (cases "f64_exp w = 0") auto
qed

lemma f64_sign_val: "f64_is w x \<Longrightarrow> 0 < x \<Longrightarrow> \<not> f64_sign w"
  using f64_val_sign [of w] by (auto simp: f64_is_def)

lemma f64_is_fabs: "f64_is w x \<Longrightarrow> f64_is (f64_fabs w) \<bar>x\<bar>"
  using f64_val_sign [of w] f64_is_neg [of w x] by (auto simp: f64_fabs_def f64_is_def)

lemma f64_is_lt: "f64_is a x \<Longrightarrow> f64_is b y \<Longrightarrow> f64_lt a b \<longleftrightarrow> x < y"
  by (simp add: f64_lt_def f64_is_finite)

lemma f64_is_equal: "f64_is a x \<Longrightarrow> f64_is b y \<Longrightarrow> f64_equal a b \<longleftrightarrow> x = y"
  by (simp add: f64_equal_def f64_is_finite)

lemma f64_is_le: "f64_is a x \<Longrightarrow> f64_is b y \<Longrightarrow> f64_le a b \<longleftrightarrow> x \<le> y"
  by (auto simp: f64_le_def f64_is_lt f64_is_equal)

lemma f64_is_fmin: "f64_is a x \<Longrightarrow> f64_is b y \<Longrightarrow> f64_is (f64_fmin a b) (min x y)"
  by (auto simp: f64_fmin_def f64_is_lt f64_is_finite min_def)

lemma f64_is_fmax: "f64_is a x \<Longrightarrow> f64_is b y \<Longrightarrow> f64_is (f64_fmax a b) (max x y)"
  using f64_is_lt [of b y a x] by (auto simp: f64_fmax_def f64_is_finite max_def)

lemma f64_is_floor: "f64_is w x \<Longrightarrow> \<bar>x\<bar> \<le> 2 ^ 52 \<Longrightarrow> f64_is (f64_floor w) (of_int \<lfloor>x\<rfloor>)"
proof -
  assume w: "f64_is w x" and "\<bar>x\<bar> \<le> 2 ^ 52"
  then have "- 4503599627370496 \<le> x" "x \<le> 4503599627370496" by simp_all
  then have "- 4503599627370496 \<le> \<lfloor>x\<rfloor> \<and> \<lfloor>x\<rfloor> \<le> 4503599627370496" by linarith
  then have "\<bar>\<lfloor>x\<rfloor>\<bar> < 9007199254740992" by linarith
  then have "\<bar>\<lfloor>x\<rfloor>\<bar> < 2 ^ 53" by simp
  from f64_round_int [OF this] w show ?thesis by (simp add: f64_floor_def f64_is_finite)
qed

lemma f64_is_ceil: "f64_is w x \<Longrightarrow> \<bar>x\<bar> \<le> 2 ^ 52 \<Longrightarrow> f64_is (f64_ceil w) (of_int \<lceil>x\<rceil>)"
proof -
  assume w: "f64_is w x" and "\<bar>x\<bar> \<le> 2 ^ 52"
  then have "- 4503599627370496 \<le> x" "x \<le> 4503599627370496" by simp_all
  then have "- 4503599627370496 \<le> \<lceil>x\<rceil> \<and> \<lceil>x\<rceil> \<le> 4503599627370496" by linarith
  then have "\<bar>\<lceil>x\<rceil>\<bar> < 9007199254740992" by linarith
  then have "\<bar>\<lceil>x\<rceil>\<bar> < 2 ^ 53" by simp
  from f64_round_int [OF this] w show ?thesis by (simp add: f64_ceil_def f64_is_finite)
qed

lemma f64_trunc_int:
  assumes "f64_is w (of_int i)"
  shows "f64_trunc w = Some i"
proof -
  let ?e = "f64_exp w" and ?m = "f64_frac w + 2 ^ 52"
  have fr: "0 \<le> f64_frac w" "f64_frac w < 2 ^ 52" by (simp_all add: f64_frac_def)
  have fin: "?e \<noteq> 2047" using assms by (simp add: f64_is_def f64_isfinite_def)
  have ep: "0 \<le> ?e" by (simp add: f64_exp_def)
  have v: "of_int i = (if f64_sign w then - 1 else 1) *
     (if ?e = 0 then of_int (f64_frac w) * pow2 (- 1074) else of_int ?m * pow2 (?e - 1075))"
    using assms by (simp add: f64_is_def f64_val_pow2)
  consider (small) "?e < 1023" | (mid) "1023 \<le> ?e" "?e < 1075" | (big) "1075 \<le> ?e" by linarith
  then show ?thesis
  proof cases
    case small
    have "(of_int ?m :: rat) < of_int (2 ^ 53)" "(of_int (f64_frac w) :: rat) < of_int (2 ^ 53)" using fr by (simp_all only: of_int_less_iff) simp_all
    then have "of_int ?m * pow2 (?e - 1075) < pow2 (?e - 1022)" "of_int (f64_frac w) * pow2 (- 1074) < pow2 (- 1021)"
      using pow2_add_nat [of "?e - 1075" 53] pow2_add_nat [of "- 1074" 53] by (simp_all add: ac_simps)
    moreover have "pow2 (?e - 1022) \<le> 1" "pow2 (- 1021) \<le> 1"
      using pow2_mono [of "?e - 1022" 0] pow2_mono [of "- 1021" 0] small by simp_all
    moreover have "0 \<le> of_int ?m * pow2 (?e - 1075)" "0 \<le> of_int (f64_frac w) * pow2 (- 1074)"
      using fr by (simp_all add: less_imp_le)
    ultimately have "\<bar>of_int i :: rat\<bar> < 1" unfolding v by (auto simp: abs_mult)
    then have "\<bar>i\<bar> < 1" by (simp only: of_int_abs [symmetric] of_int_less_1_iff)
    then have "i = 0" by simp
    with small fin show ?thesis by (simp add: f64_trunc_def)
  next
    case mid
    define n where "n = nat (1075 - ?e)"
    have p: "pow2 (?e - 1075) = 1 / 2 ^ n" using mid by (simp add: pow2_def n_def)
    have "(of_int i * 2 ^ n :: rat) = (if f64_sign w then - 1 else 1) * of_int ?m" unfolding v p using mid by auto
    then have "(of_int (i * 2 ^ n) :: rat) = of_int ((if f64_sign w then - 1 else 1) * ?m)" by simp
    then have eq: "i * 2 ^ n = (if f64_sign w then - 1 else 1) * ?m" by (simp only: of_int_eq_iff)
    then have "?m = (if f64_sign w then - i else i) * 2 ^ n" by (cases "f64_sign w") simp_all
    then have "?m div 2 ^ n = (if f64_sign w then - i else i)" by simp
    with mid show ?thesis by (simp add: f64_trunc_def Let_def n_def [symmetric])
  next
    case big
    then have p: "pow2 (?e - 1075) = of_int (2 ^ nat (?e - 1075))" by (simp add: pow2_nonneg)
    have "(of_int i :: rat) = of_int ((if f64_sign w then - 1 else 1) * (?m * 2 ^ nat (?e - 1075)))"
      unfolding v p using big by simp
    then have "i = (if f64_sign w then - 1 else 1) * (?m * 2 ^ nat (?e - 1075))" by (simp only: of_int_eq_iff)
    with big fin show ?thesis by (simp add: f64_trunc_def Let_def)
  qed
qed

lemma f64_to_i32_int: "f64_is w (of_int i) \<Longrightarrow> - (2 ^ 31) \<le> i \<Longrightarrow> i < 2 ^ 31 \<Longrightarrow> f64_to_i32 w = Some i"
  by (simp add: f64_to_i32_def f64_trunc_int)

section \<open>Square roots\<close>

function isqrt :: "int \<Rightarrow> int" where
  "isqrt n = (if n \<le> 0 then 0 else let s = 2 * isqrt (n div 4) in if (s + 1) * (s + 1) \<le> n then s + 1 else s)"
  by auto
termination by (relation "measure nat") (auto simp: nat_mono_iff)

declare isqrt.simps [simp del]

lemma isqrt_spec: "0 \<le> n \<Longrightarrow> 0 \<le> isqrt n \<and> isqrt n * isqrt n \<le> n \<and> n < (isqrt n + 1) * (isqrt n + 1)"
proof (induction n rule: isqrt.induct)
  case (1 n)
  show ?case
  proof (cases "n = 0")
    case True then show ?thesis by (simp add: isqrt.simps)
  next
    case False
    define s where "s = isqrt (n div 4)"
    have IH: "0 \<le> s" "s * s \<le> n div 4" "n div 4 < (s + 1) * (s + 1)" using 1 False by (simp_all add: s_def)
    have lo: "2 * s * (2 * s) \<le> n" using IH(2) by simp
    have "n div 4 + 1 \<le> (s + 1) * (s + 1)" using IH(3) by simp
    then have hi: "n < (2 * s + 2) * (2 * s + 2)" by (simp add: algebra_simps)
    have r: "isqrt n = (if (2 * s + 1) * (2 * s + 1) \<le> n then 2 * s + 1 else 2 * s)"
      using False 1(2) by (subst isqrt.simps) (simp add: s_def Let_def)
    show ?thesis
    proof (cases "(2 * s + 1) * (2 * s + 1) \<le> n")
      case True
      then show ?thesis using hi IH(1) by (simp add: r algebra_simps)
    next
      case False
      then show ?thesis using lo IH(1) by (simp add: r algebra_simps)
    qed
  qed
qed

text \<open>
  The root of a positive rational cut to at least 56 bits, with one more bit that tells whether
  anything was cut: rounding it gives the correctly rounded root.
\<close>

definition sqrt_digits :: "rat \<Rightarrow> rat" where
  "sqrt_digits x =
     (let k = 56 - rat_expo x div 2; y = x * pow2 (2 * k); m = isqrt \<lfloor>y\<rfloor>
      in of_int (2 * m + (if of_int (m * m) = y then 0 else 1)) * pow2 (- k - 1))"

definition f64_sqrt :: "u64 \<Rightarrow> u64" where
  "f64_sqrt w =
     (if f64_isnan w then quiet_nan
      else if f64_isfinite w \<and> f64_val w = 0 then w
      else if f64_sign w then quiet_nan
      else if f64_isinf w then w
      else f64_round False (sqrt_digits (f64_val w)))"

lemma sqrt_digits_le1:
  assumes "0 < x" and "x \<le> 1"
  shows "0 \<le> sqrt_digits x \<and> sqrt_digits x \<le> 1"
proof -
  define k where "k = 56 - rat_expo x div 2"
  define y where "y = x * pow2 (2 * k)"
  define m where "m = isqrt \<lfloor>y\<rfloor>"
  have "rat_expo x \<le> 0" using rat_expo_range [OF assms(1)] assms(2) pow2_less_iff [of 0 "rat_expo x"] by fastforce
  then have k: "56 \<le> k" by (simp add: k_def)
  have p: "pow2 (2 * k) = of_int (2 ^ nat k * 2 ^ nat k)" using k pow2_add [of k k] by (simp add: pow2_nonneg)
  have y: "0 \<le> y" "y \<le> of_int (2 ^ nat k * 2 ^ nat k)"
    using assms mult_right_mono [of x 1 "pow2 (2 * k)"] by (simp_all add: y_def p)
  have "m * m \<le> \<lfloor>y\<rfloor>"
    using isqrt_spec [of "\<lfloor>y\<rfloor>"] y(1) by (simp add: m_def)
  then have my: "of_int (m * m) \<le> y" by (simp add: le_floor_iff)
  then have "(of_int (m * m) :: rat) \<le> of_int (2 ^ nat k * 2 ^ nat k)" using y(2) by linarith
  then have mm: "m * m \<le> 2 ^ nat k * 2 ^ nat k" by (simp only: of_int_le_iff)
  have m0: "0 \<le> m" using isqrt_spec [of "\<lfloor>y\<rfloor>"] y(1) by (simp add: m_def)
  have mk: "m \<le> 2 ^ nat k"
  proof (rule ccontr)
    assume "\<not> m \<le> 2 ^ nat k"
    then have "2 ^ nat k < m" by simp
    moreover from this have "0 < m" by (smt (verit) zero_less_power)
    ultimately have "2 ^ nat k * 2 ^ nat k < m * m" by (intro mult_strict_mono) auto
    with mm show False by simp
  qed
  have "2 * m + (if of_int (m * m) = y then 0 else 1) \<le> 2 ^ nat (k + 1)"
  proof (cases "m = 2 ^ nat k")
    case True
    then have "of_int (m * m) = y" using my y(2) by simp
    with True k show ?thesis by (simp add: nat_add_distrib)
  next
    case False
    with mk k show ?thesis by (auto simp: nat_add_distrib)
  qed
  then have "(of_int (2 * m + (if of_int (m * m) = y then 0 else 1)) :: rat) \<le> of_int (2 ^ nat (k + 1))" by (simp only: of_int_le_iff)
  then have le: "of_int (2 * m + (if of_int (m * m) = y then 0 else 1)) * pow2 (- k - 1) \<le> of_int (2 ^ nat (k + 1)) * pow2 (- k - 1)"
    by (intro mult_right_mono) (simp_all add: less_imp_le)
  have "of_int (2 ^ nat (k + 1)) * pow2 (- k - 1) = 1" using k pow2_add [of "k + 1" "- k - 1"] by (simp add: pow2_nonneg)
  moreover have "0 \<le> of_int (2 * m + (if of_int (m * m) = y then 0 else 1)) * pow2 (- k - 1)"
    using m0 by (intro mult_nonneg_nonneg) (simp_all add: less_imp_le)
  moreover have "sqrt_digits x = of_int (2 * m + (if of_int (m * m) = y then 0 else 1)) * pow2 (- k - 1)"
    unfolding sqrt_digits_def Let_def k_def [symmetric] y_def [symmetric] m_def [symmetric] ..
  ultimately show ?thesis using le by simp
qed

section \<open>Single precision\<close>

text \<open>
  A \<open>float\<close> is held as the double of the same value. The conversion rounds to 24 bits; an operation
  on floats is the operation on doubles followed by the conversion, which gives the correctly
  rounded \<open>float\<close> (unless the result is subnormal) because a double has more than twice the bits.
\<close>

definition to_float :: "u64 \<Rightarrow> u64" where
  "to_float w =
     (if f64_isnan w then quiet_nan
      else if f64_isinf w \<or> f64_val w = 0 then w
      else let x = f64_val w; e = max (rat_expo \<bar>x\<bar>) (- 126); m = round_half_even (\<bar>x\<bar> / pow2 (e - 23));
               y = of_int m * pow2 (e - 23)
           in if y \<ge> pow2 128 then f64_inf (x < 0) else f64_round (x < 0) (if x < 0 then - y else y))"

definition float_of_int :: "int \<Rightarrow> u64" where "float_of_int i = to_float (f64_of_int i)"
definition float_add :: "u64 \<Rightarrow> u64 \<Rightarrow> u64" where "float_add a b = to_float (f64_add a b)"
definition float_sub :: "u64 \<Rightarrow> u64 \<Rightarrow> u64" where "float_sub a b = to_float (f64_sub a b)"
definition float_mul :: "u64 \<Rightarrow> u64 \<Rightarrow> u64" where "float_mul a b = to_float (f64_mul a b)"
definition float_div :: "u64 \<Rightarrow> u64 \<Rightarrow> u64" where "float_div a b = to_float (f64_div a b)"

end
