(* ===== verification/Geometry.thy ===== *)
theory Geometry
  imports Instance Rounding
begin

text \<open>
  \<open>src/renderer.c\<close>, the geometry of composited layers: affine transformations of Flutter, boxes, and
  the clip region of a rectangle with rounded corners. A \<open>pixman\<close> region is kept as the calls that
  build it; \<open>covers\<close> says which pixels those calls are documented to leave in it. Sums of products
  are evaluated from left to right, each operation rounded to a double. \<open>None\<close> is an overflow of
  \<open>int\<close> or a conversion that C leaves undefined.
\<close>

section \<open>Transformations\<close>

record flutter_transformation =
  scaleX :: u64
  skewX :: u64
  transX :: u64
  skewY :: u64
  scaleY :: u64
  transY :: u64
  pers0 :: u64
  pers1 :: u64
  pers2 :: u64

definition sum3 :: "u64 \<Rightarrow> u64 \<Rightarrow> u64 \<Rightarrow> u64 \<Rightarrow> u64 \<Rightarrow> u64 \<Rightarrow> u64" where
  "sum3 a x b y c z = f64_add (f64_add (f64_mul a x) (f64_mul b y)) (f64_mul c z)"

definition flutter_transform_multiply ::
    "flutter_transformation \<Rightarrow> flutter_transformation \<Rightarrow> flutter_transformation" where
  "flutter_transform_multiply a b =
     \<lparr>scaleX = sum3 (scaleX a) (scaleX b) (skewX a) (skewY b) (transX a) (pers0 b),
      skewX = sum3 (scaleX a) (skewX b) (skewX a) (scaleY b) (transX a) (pers1 b),
      transX = sum3 (scaleX a) (transX b) (skewX a) (transY b) (transX a) (pers2 b),
      skewY = sum3 (skewY a) (scaleX b) (scaleY a) (skewY b) (transY a) (pers0 b),
      scaleY = sum3 (skewY a) (skewX b) (scaleY a) (scaleY b) (transY a) (pers1 b),
      transY = sum3 (skewY a) (transX b) (scaleY a) (transY b) (transY a) (pers2 b),
      pers0 = sum3 (pers0 a) (scaleX b) (pers1 a) (skewY b) (pers2 a) (pers0 b),
      pers1 = sum3 (pers0 a) (skewX b) (pers1 a) (scaleY b) (pers2 a) (pers1 b),
      pers2 = sum3 (pers0 a) (transX b) (pers1 a) (transY b) (pers2 a) (pers2 b)\<rparr>"

definition flutter_transform_is_affine :: "flutter_transformation \<Rightarrow> bool" where
  "flutter_transform_is_affine t \<longleftrightarrow>
     f64_equal (pers0 t) (f64_of_int 0) \<and> f64_equal (pers1 t) (f64_of_int 0) \<and> f64_equal (pers2 t) (f64_of_int 1)"

definition flutter_transform_point :: "flutter_transformation \<Rightarrow> u64 \<Rightarrow> u64 \<Rightarrow> u64 \<times> u64" where
  "flutter_transform_point t x y =
     (f64_add (f64_add (f64_mul x (scaleX t)) (f64_mul y (skewX t))) (transX t),
      f64_add (f64_add (f64_mul x (skewY t)) (f64_mul y (scaleY t))) (transY t))"

definition flutter_transform_rect :: "flutter_transformation \<Rightarrow> u64 \<Rightarrow> u64 \<Rightarrow> u64 \<Rightarrow> u64 \<Rightarrow> wlr_box option" where
  "flutter_transform_rect t left upper right lower =
     (let (tx0, ty0) = flutter_transform_point t left upper;
          (tx1, ty1) = flutter_transform_point t right upper;
          (tx2, ty2) = flutter_transform_point t left lower;
          (tx3, ty3) = flutter_transform_point t right lower;
          min_x = f64_fmin (f64_fmin tx0 tx1) (f64_fmin tx2 tx3);
          max_x = f64_fmax (f64_fmax tx0 tx1) (f64_fmax tx2 tx3);
          min_y = f64_fmin (f64_fmin ty0 ty1) (f64_fmin ty2 ty3);
          max_y = f64_fmax (f64_fmax ty0 ty1) (f64_fmax ty2 ty3);
          ix0 = f64_floor min_x; iy0 = f64_floor min_y; ix1 = f64_ceil max_x; iy1 = f64_ceil max_y
      in Option.bind (f64_to_i32 ix0) (\<lambda>x. Option.bind (f64_to_i32 iy0) (\<lambda>y.
         Option.bind (f64_to_i32 (f64_sub ix1 ix0)) (\<lambda>w. Option.bind (f64_to_i32 (f64_sub iy1 iy0)) (\<lambda>h.
           Some \<lparr>box_x = x, box_y = y, box_width = w, box_height = h\<rparr>)))))"

text \<open>\<open>(int)lround(a * b)\<close>\<close>

definition lround_mul :: "u64 \<Rightarrow> u64 \<Rightarrow> int option" where
  "lround_mul a b = map_option int_of_long (f64_lround (f64_mul a b))"

definition scaled :: "int \<Rightarrow> u64 \<Rightarrow> int option" where
  "scaled i scale = lround_mul (f64_of_int i) scale"

definition scale_box :: "wlr_box \<Rightarrow> u64 \<Rightarrow> wlr_box option" where
  "scale_box b scale =
     (if f64_equal scale (f64_of_int 1) then Some b
      else
        Option.bind (scaled (box_x b) scale) (\<lambda>x. Option.bind (scaled (box_y b) scale) (\<lambda>y.
        Option.bind (scaled (box_width b) scale) (\<lambda>w. Option.bind (scaled (box_height b) scale) (\<lambda>h.
          Some \<lparr>box_x = x, box_y = y, box_width = w, box_height = h\<rparr>)))))"

section \<open>Rounded rectangles\<close>

definition clamp_int :: "int \<Rightarrow> int \<Rightarrow> int \<Rightarrow> int" where
  "clamp_int v lo hi = (if v < lo then lo else if v > hi then hi else v)"

definition ellipse_inset :: "u64 \<Rightarrow> int \<Rightarrow> int \<Rightarrow> int option" where
  "ellipse_inset dy rx ry =
     (if rx \<le> 0 \<or> ry \<le> 0 then Some 0
      else
        let ady = f64_fabs dy; dry = f64_of_int ry; drx = f64_of_int rx in
        if f64_le dry ady then Some rx
        else
          let t = f64_sub (f64_of_int 1) (f64_div (f64_mul ady ady) (f64_mul dry dry)) in
          if f64_le t (f64_of_int 0) then Some rx
          else
            let x_boundary = f64_sub drx (f64_mul drx (f64_sqrt t)) in
            Option.bind (f64_to_i32 (f64_ceil x_boundary)) (\<lambda>inset.
              let inset1 = (if inset < 0 then 0 else inset) in Some (if inset1 > rx then rx else inset1)))"

datatype region =
    Region_init
  | Region_rect int int int int
  | Union_rect region int int int int
  | Intersect region region

text \<open>\<open>(double)row + 0.5\<close>\<close>

definition y_center :: "int \<Rightarrow> u64" where "y_center row = f64_add (f64_of_int row) 0x3FE0000000000000"

text \<open>A corner: its inset in a row, given how its condition and its distance are computed.\<close>

definition corner_inset :: "bool \<Rightarrow> int \<Rightarrow> int \<Rightarrow> int \<Rightarrow> int \<Rightarrow> int option" where
  "corner_inset in_corner row base rx ry =
     (if ry > 0 \<and> in_corner then ellipse_inset (f64_sub (y_center row) (f64_of_int base)) rx ry else Some 0)"

definition add_row :: "int \<Rightarrow> int \<Rightarrow> int \<Rightarrow> int \<Rightarrow> int \<Rightarrow> int \<Rightarrow> region \<Rightarrow> region option" where
  "add_row x y width row inset_left inset_right dst =
     Option.bind (i32 (width - inset_left)) (\<lambda>w0. Option.bind (i32 (w0 - inset_right)) (\<lambda>w.
       if w > 0
       then Option.bind (i32 (x + inset_left)) (\<lambda>x'. Option.bind (i32 (y + row)) (\<lambda>y'. Some (Union_rect dst x' y' w 1)))
       else Some dst))"

record corner_radii =
  r_tl_x :: int
  r_tl_y :: int
  r_tr_x :: int
  r_tr_y :: int
  r_br_x :: int
  r_br_y :: int
  r_bl_x :: int
  r_bl_y :: int

definition clamp_radii :: "int \<Rightarrow> int \<Rightarrow> corner_radii \<Rightarrow> corner_radii" where
  "clamp_radii half_w half_h r =
     \<lparr>r_tl_x = clamp_int (r_tl_x r) 0 half_w, r_tl_y = clamp_int (r_tl_y r) 0 half_h,
      r_tr_x = clamp_int (r_tr_x r) 0 half_w, r_tr_y = clamp_int (r_tr_y r) 0 half_h,
      r_br_x = clamp_int (r_br_x r) 0 half_w, r_br_y = clamp_int (r_br_y r) 0 half_h,
      r_bl_x = clamp_int (r_bl_x r) 0 half_w, r_bl_y = clamp_int (r_bl_y r) 0 half_h\<rparr>"

text \<open>The bodies of the two loops over rows.\<close>

definition top_row :: "int \<Rightarrow> int \<Rightarrow> int \<Rightarrow> corner_radii \<Rightarrow> int \<Rightarrow> region \<Rightarrow> region option" where
  "top_row x y width r row dst =
     Option.bind (corner_inset (row < r_tl_y r) row (r_tl_y r) (r_tl_x r) (r_tl_y r)) (\<lambda>inset_left.
     Option.bind (corner_inset (row < r_tr_y r) row (r_tr_y r) (r_tr_x r) (r_tr_y r)) (\<lambda>inset_right.
       add_row x y width row inset_left inset_right dst))"

definition bottom_row :: "int \<Rightarrow> int \<Rightarrow> int \<Rightarrow> int \<Rightarrow> corner_radii \<Rightarrow> int \<Rightarrow> region \<Rightarrow> region option" where
  "bottom_row x y width height r row dst =
     (if row < 0 then Some dst
      else
        Option.bind (corner_inset (row \<ge> height - r_bl_y r) row (height - r_bl_y r) (r_bl_x r) (r_bl_y r)) (\<lambda>inset_left.
        Option.bind (corner_inset (row \<ge> height - r_br_y r) row (height - r_br_y r) (r_br_x r) (r_br_y r)) (\<lambda>inset_right.
          add_row x y width row inset_left inset_right dst)))"

text \<open>\<open>for (int row = lo; row < hi; row++)\<close>\<close>

fun for_rows :: "(int \<Rightarrow> region \<Rightarrow> region option) \<Rightarrow> int list \<Rightarrow> region \<Rightarrow> region option" where
  "for_rows body [] dst = Some dst"
| "for_rows body (row # rows) dst = Option.bind (body row dst) (for_rows body rows)"

definition pixman_region32_init_rounded_rect :: "int \<Rightarrow> int \<Rightarrow> int \<Rightarrow> int \<Rightarrow> corner_radii \<Rightarrow> region option" where
  "pixman_region32_init_rounded_rect x y width height radii =
     (if width \<le> 0 \<or> height \<le> 0 then Some Region_init
      else
        let r = clamp_radii (width div 2) (height div 2) radii;
            top_band = (if r_tl_y r > r_tr_y r then r_tl_y r else r_tr_y r);
            bottom_band = (if r_bl_y r > r_br_y r then r_bl_y r else r_br_y r);
            middle_h = height - top_band - bottom_band
        in Option.bind
             (if middle_h > 0
              then Option.bind (i32 (y + top_band)) (\<lambda>y'. Some (Union_rect Region_init x y' width middle_h))
              else Some Region_init) (\<lambda>d0.
           Option.bind (for_rows (top_row x y width r) [0..top_band - 1] d0) (\<lambda>d1.
             for_rows (bottom_row x y width height r) [height - bottom_band..height - 1] d1)))"

section \<open>Mutations of a platform view\<close>

text \<open>The payloads of \<open>FlutterPlatformViewMutation\<close>; \<open>Other_mutation\<close> is any further type.\<close>

record rounded_rect =
  rr_left :: u64
  rr_top :: u64
  rr_right :: u64
  rr_bottom :: u64
  rr_upper_left :: "u64 \<times> u64"
  rr_upper_right :: "u64 \<times> u64"
  rr_lower_right :: "u64 \<times> u64"
  rr_lower_left :: "u64 \<times> u64"

datatype flutter_mutation =
    Opacity u64
  | ClipRect u64 u64 u64 u64
  | ClipRoundedRect rounded_rect
  | Transformation flutter_transformation
  | Other_mutation

section \<open>The pixels of a region\<close>

definition in_box :: "int \<Rightarrow> int \<Rightarrow> int \<Rightarrow> int \<Rightarrow> int \<Rightarrow> int \<Rightarrow> bool" where
  "in_box x y w h px py \<longleftrightarrow> x \<le> px \<and> px < x + w \<and> y \<le> py \<and> py < y + h"

fun covers :: "region \<Rightarrow> int \<Rightarrow> int \<Rightarrow> bool" where
  "covers Region_init px py = False"
| "covers (Region_rect x y w h) px py = in_box x y w h px py"
| "covers (Union_rect r x y w h) px py = (covers r px py \<or> in_box x y w h px py)"
| "covers (Intersect r s) px py = (covers r px py \<and> covers s px py)"

section \<open>Insets stay inside their corner\<close>

lemma pow2_61: "pow2 0 = 1" "pow2 30 = 1073741824" "pow2 60 = 1152921504606846976"
  by (simp_all add: pow2_def)

lemma ellipse_inset_defined:
  assumes dy: "f64_is dy d" and r: "rx \<le> 2 ^ 30" "ry \<le> 2 ^ 30"
  shows "\<exists>i. ellipse_inset dy rx ry = Some i \<and> 0 \<le> i \<and> i \<le> max rx 0"
proof (cases "rx \<le> 0 \<or> ry \<le> 0")
  case True
  then show ?thesis by (simp add: ellipse_inset_def)
next
  case pos: False
  define ady where "ady = f64_fabs dy"
  have ady: "f64_is ady \<bar>d\<bar>" unfolding ady_def by (rule f64_is_fabs [OF dy])
  have rx: "f64_is (f64_of_int rx) (of_int rx)" and ry: "f64_is (f64_of_int ry) (of_int ry)"
    using r pos by (simp_all add: f64_is_of_int)
  have one: "f64_is (f64_of_int 1) 1" and zero: "f64_is (f64_of_int 0) 0"
    using f64_is_of_int [of 1] f64_is_of_int [of 0] by simp_all
  show ?thesis
  proof (cases "\<bar>d\<bar> \<ge> of_int ry")
    case True
    then show ?thesis using pos by (simp add: ellipse_inset_def Let_def ady_def [symmetric] f64_is_le [OF ry ady])
  next
    case False
    have R: "(of_int ry :: rat) \<le> 2 ^ 30" "(1 :: rat) \<le> of_int ry" "(0 :: rat) \<le> of_int rx" "(of_int rx :: rat) \<le> 2 ^ 30"
      using r pos by (simp_all add: of_int_le_numeral_power_cancel_iff)
    have "\<bar>d\<bar> * \<bar>d\<bar> \<le> 2 ^ 30 * 2 ^ 30" using False R by (intro mult_mono) auto
    then have "\<bar>\<bar>d\<bar> * \<bar>d\<bar>\<bar> \<le> pow2 60" by (simp add: pow2_61)
    from f64_mul_near [OF ady ady this] obtain y1 where y1: "f64_is (f64_mul ady ady) y1" "near 60 (\<bar>d\<bar> * \<bar>d\<bar>) y1" by auto
    have "of_int ry * of_int ry \<le> (2 ^ 30 * 2 ^ 30 :: rat)" using R by (intro mult_mono) auto
    then have "\<bar>of_int ry * of_int ry :: rat\<bar> \<le> pow2 60" using R by (simp add: pow2_61)
    from f64_mul_near [OF ry ry this] obtain y2 where
      y2: "f64_is (f64_mul (f64_of_int ry) (f64_of_int ry)) y2" "near 60 (of_int ry * of_int ry) y2" by auto
    have "(1 :: rat) \<le> of_int ry * of_int ry" using R mult_mono [of 1 "of_int ry :: rat" 1 "of_int ry"] by simp
    then have y2': "1 \<le> y2" using y2(2) by (simp add: near_def)
    have y1': "0 \<le> y1" "y1 \<le> pow2 60" using y1(2) unfolding near_def abs_le_iff by auto
    define q where "q = f64_div (f64_mul ady ady) (f64_mul (f64_of_int ry) (f64_of_int ry))"
    have "y1 / y2 \<le> y1" using y1' y2' by (simp add: divide_le_eq mult_le_cancel_left1)
    then have "\<bar>y1 / y2\<bar> \<le> pow2 60" "0 \<le> y1 / y2" using y1' y2' by simp_all
    moreover have "y2 \<noteq> 0" using y2' by auto
    ultimately obtain y3 where y3: "f64_is q y3" "0 \<le> y3" "y3 \<le> pow2 60"
      using f64_div_near [OF y1(1) y2(1), of 60] unfolding q_def near_def abs_le_iff by auto
    define t where "t = f64_sub (f64_of_int 1) q"
    have "\<bar>1 - y3\<bar> \<le> pow2 60" using y3 by (simp add: pow2_61)
    from f64_sub_near [OF one y3(1) this] obtain y4 where y4: "f64_is t y4" "1 - y3 \<le> 0 \<longrightarrow> y4 \<le> 0"
      unfolding t_def near_def by auto
    show ?thesis
    proof (cases "y4 \<le> 0")
      case True
      then show ?thesis using pos False
        by (simp add: ellipse_inset_def Let_def ady_def [symmetric] f64_is_le [OF ry ady] q_def [symmetric] t_def [symmetric]
            f64_is_le [OF y4(1) zero])
    next
      case tp: False
      then have "0 < 1 - y3" using y4(2) by linarith
      then have "\<bar>1 - y3\<bar> \<le> pow2 0" using y3 by (simp add: pow2_61)
      from f64_sub_near [OF one y3(1) this] obtain y where "f64_is t y" "\<bar>y\<bar> \<le> pow2 0" unfolding t_def near_def by auto
      then have y41: "y4 \<le> 1" using y4(1) by (auto simp: f64_is_def)
      have sd: "0 \<le> sqrt_digits y4" "sqrt_digits y4 \<le> 1" using sqrt_digits_le1 [of y4] tp y41 by simp_all
      have sq: "f64_sqrt t = f64_round False (sqrt_digits y4)"
        using tp f64_sign_val [OF y4(1)] f64_is_finite [OF y4(1)] by (simp add: f64_sqrt_def)
      have "\<bar>sqrt_digits y4\<bar> \<le> pow2 0" using sd by simp
      from f64_round_near [OF this, of False] obtain y5 where y5: "f64_is (f64_sqrt t) y5" "0 \<le> y5" "y5 \<le> 1"
        using sd unfolding sq near_def abs_le_iff by auto
      define p where "p = f64_mul (f64_of_int rx) (f64_sqrt t)"
      have "of_int rx * y5 \<le> 2 ^ 30 * 1" using R y5 by (intro mult_mono) auto
      then have "\<bar>of_int rx * y5\<bar> \<le> pow2 30" "0 \<le> of_int rx * y5" using R y5 by (simp_all add: pow2_61)
      with f64_mul_near [OF rx y5(1), of 30] obtain y6 where y6: "f64_is p y6" "0 \<le> y6" "y6 \<le> pow2 30"
        unfolding p_def near_def abs_le_iff by auto
      define b where "b = f64_sub (f64_of_int rx) p"
      have "\<bar>of_int rx - y6\<bar> \<le> pow2 30" using R y6 by (simp add: pow2_61 abs_le_iff)
      from f64_sub_near [OF rx y6(1) this] obtain y7 where y7: "f64_is b y7" "\<bar>y7\<bar> \<le> pow2 30"
        unfolding b_def near_def by auto
      have "\<bar>y7\<bar> \<le> 2 ^ 52" using y7(2) by (simp add: pow2_61)
      note c = f64_is_ceil [OF y7(1) this]
      have "- 1073741824 \<le> y7 \<and> y7 \<le> 1073741824" using y7(2) unfolding pow2_61 by linarith
      then have "- 1073741824 \<le> \<lceil>y7\<rceil> \<and> \<lceil>y7\<rceil> \<le> 1073741824" by linarith
      then have c': "f64_to_i32 (f64_ceil b) = Some \<lceil>y7\<rceil>" by (intro f64_to_i32_int [OF c]) simp_all
      have "ellipse_inset dy rx ry = Some (let i = (if \<lceil>y7\<rceil> < 0 then 0 else \<lceil>y7\<rceil>) in if i > rx then rx else i)"
        using pos False tp c' by (simp add: ellipse_inset_def Let_def ady_def [symmetric] f64_is_le [OF ry ady] q_def [symmetric]
            t_def [symmetric] f64_is_le [OF y4(1) zero] p_def [symmetric] b_def [symmetric])
      with pos show ?thesis by (simp add: Let_def)
    qed
  qed
qed

section \<open>The region lies between the box and the box without its corners\<close>

lemma half_double: "f64_is 0x3FE0000000000000 (1 / 2)"
  by (simp add: f64_is_def f64_isfinite_def f64_val_def f64_exp_def f64_frac_def f64_sign_def)

lemma y_center_finite:
  assumes "\<bar>row\<bar> \<le> 2 ^ 31" and "\<bar>base\<bar> \<le> 2 ^ 31"
  shows "\<exists>d. f64_is (f64_sub (y_center row) (f64_of_int base)) d"
proof -
  have p: "pow2 32 = 4294967296" "pow2 33 = 8589934592" by (simp_all add: pow2_def)
  have i: "f64_is (f64_of_int row) (of_int row)" "f64_is (f64_of_int base) (of_int base)"
    using assms by (simp_all add: f64_is_of_int)
  have b: "- 2147483648 \<le> (of_int row :: rat)" "(of_int row :: rat) \<le> 2147483648"
    "- 2147483648 \<le> (of_int base :: rat)" "(of_int base :: rat) \<le> 2147483648"
    using assms by (simp_all add: abs_le_iff)
  then have "\<bar>of_int row + 1 / 2 :: rat\<bar> \<le> pow2 32" unfolding p by (simp add: abs_le_iff)
  from f64_add_near [OF i(1) half_double this] obtain c where c: "f64_is (y_center row) c" "\<bar>c\<bar> \<le> pow2 32"
    unfolding y_center_def near_def by auto
  have "\<bar>c - of_int base\<bar> \<le> pow2 33" using c(2) b unfolding p by (simp add: abs_le_iff)
  from f64_sub_near [OF c(1) i(2) this] show ?thesis by auto
qed

lemma corner_inset_defined:
  assumes "rx \<le> 2 ^ 30" "ry \<le> 2 ^ 30" "\<bar>row\<bar> \<le> 2 ^ 31" "\<bar>base\<bar> \<le> 2 ^ 31" and "0 \<le> rx"
  shows "\<exists>i. corner_inset c row base rx ry = Some i \<and> 0 \<le> i \<and> i \<le> (if ry > 0 \<and> c then rx else 0)"
proof (cases "ry > 0 \<and> c")
  case True
  obtain d where "f64_is (f64_sub (y_center row) (f64_of_int base)) d" using y_center_finite [OF assms(3,4)] by blast
  from ellipse_inset_defined [OF this assms(1,2)] True assms(5) show ?thesis by (simp add: corner_inset_def)
next
  case False
  then show ?thesis by (auto simp: corner_inset_def)
qed

text \<open>A row of the box from which \<open>l\<close> and \<open>r\<close> pixels are cut.\<close>

definition row_pixels :: "int \<Rightarrow> int \<Rightarrow> int \<Rightarrow> int \<Rightarrow> int \<Rightarrow> int \<Rightarrow> int \<Rightarrow> int \<Rightarrow> bool" where
  "row_pixels x y width row l r px py \<longleftrightarrow> py = y + row \<and> x + l \<le> px \<and> px < x + width - r"

definition adds_row :: "int \<Rightarrow> int \<Rightarrow> int \<Rightarrow> int \<Rightarrow> int \<Rightarrow> int \<Rightarrow> (region \<Rightarrow> region option) \<Rightarrow> bool" where
  "adds_row x y width row l r f \<longleftrightarrow>
     (\<forall>dst. \<exists>dst'. f dst = Some dst' \<and> (\<forall>px py. covers dst' px py \<longleftrightarrow> covers dst px py \<or> row_pixels x y width row l r px py))"

lemma add_row_adds:
  assumes "\<bar>x\<bar> \<le> 2 ^ 30" "\<bar>y\<bar> \<le> 2 ^ 30" "0 \<le> width" "width \<le> 2 ^ 30" "0 \<le> row" "row < 2 ^ 30"
    and "0 \<le> l" "l \<le> 2 ^ 29" "0 \<le> r" "r \<le> 2 ^ 29"
  shows "adds_row x y width row l r (add_row x y width row l r)"
proof -
  have i: "i32 (width - l) = Some (width - l)" "i32 (width - l - r) = Some (width - l - r)"
    "i32 (x + l) = Some (x + l)" "i32 (y + row) = Some (y + row)"
    using assms by (simp_all add: i32_def in_i32_def abs_le_iff)
  show ?thesis unfolding adds_row_def
    by (auto simp: add_row_def i in_box_def row_pixels_def)
qed

lemma for_rows_adds:
  assumes "\<forall>row \<in> set rows. \<exists>l r. P row l r \<and> adds_row x y width row l r (body row)"
  shows "\<exists>dst'. for_rows body rows dst = Some dst'
    \<and> (\<forall>px py. covers dst px py \<longrightarrow> covers dst' px py)
    \<and> (\<forall>px py. covers dst' px py \<longrightarrow> covers dst px py \<or> (\<exists>row \<in> set rows. \<exists>l r. P row l r \<and> row_pixels x y width row l r px py))
    \<and> (\<forall>row \<in> set rows. \<exists>l r. P row l r \<and> (\<forall>px py. row_pixels x y width row l r px py \<longrightarrow> covers dst' px py))"
  using assms
proof (induction rows arbitrary: dst)
  case (Cons row rows)
  from Cons.prems obtain l r where p: "P row l r" "adds_row x y width row l r (body row)" by auto
  then obtain d1 where d1: "body row dst = Some d1"
    "\<And>px py. covers d1 px py \<longleftrightarrow> covers dst px py \<or> row_pixels x y width row l r px py"
    unfolding adds_row_def by blast
  from Cons.IH [of d1] Cons.prems obtain d2 where d2: "for_rows body rows d1 = Some d2"
    "\<And>px py. covers d1 px py \<Longrightarrow> covers d2 px py"
    "\<And>px py. covers d2 px py \<Longrightarrow> covers d1 px py \<or> (\<exists>row \<in> set rows. \<exists>l r. P row l r \<and> row_pixels x y width row l r px py)"
    "\<And>row. row \<in> set rows \<Longrightarrow> \<exists>l r. P row l r \<and> (\<forall>px py. row_pixels x y width row l r px py \<longrightarrow> covers d2 px py)"
    by auto
  have "for_rows body (row # rows) dst = Some d2" using d1(1) d2(1) by simp
  moreover have "\<forall>px py. covers dst px py \<longrightarrow> covers d2 px py" using d1(2) d2(2) by blast
  moreover have "\<forall>px py. covers d2 px py \<longrightarrow> covers dst px py \<or> (\<exists>row' \<in> set (row # rows). \<exists>l r. P row' l r \<and> row_pixels x y width row' l r px py)"
  proof (intro allI impI)
    fix px py assume "covers d2 px py"
    then consider "covers dst px py" | "row_pixels x y width row l r px py"
      | row' l' r' where "row' \<in> set rows" "P row' l' r'" "row_pixels x y width row' l' r' px py"
      using d2(3) [of px py] d1(2) [of px py] by blast
    then show "covers dst px py \<or> (\<exists>row' \<in> set (row # rows). \<exists>l r. P row' l r \<and> row_pixels x y width row' l r px py)"
    proof cases
      case 1 then show ?thesis ..
    next
      case 2 with p(1) have "\<exists>l r. P row l r \<and> row_pixels x y width row l r px py" by blast
      then show ?thesis by simp
    next
      case 3 then show ?thesis by auto
    qed
  qed
  moreover have "\<exists>l r. P row' l r \<and> (\<forall>px py. row_pixels x y width row' l r px py \<longrightarrow> covers d2 px py)"
    if "row' \<in> set (row # rows)" for row'
  proof (cases "row' \<in> set rows")
    case True then show ?thesis by (rule d2(4))
  next
    case False
    with that have "row' = row" by simp
    have "\<forall>px py. row_pixels x y width row l r px py \<longrightarrow> covers d2 px py" using d1(2) d2(2) by simp
    with p(1) show ?thesis unfolding \<open>row' = row\<close> by (intro exI conjI)
  qed
  ultimately show ?case by (intro exI [of _ d2] conjI ballI)
qed simp

text \<open>How far the rows may be cut.\<close>

definition cut_ok :: "corner_radii \<Rightarrow> int \<Rightarrow> int \<Rightarrow> int \<Rightarrow> int \<Rightarrow> bool" where
  "cut_ok r height row l rr \<longleftrightarrow> 0 \<le> l \<and> 0 \<le> rr
     \<and> l \<le> (if row < r_tl_y r then r_tl_x r else if row \<ge> height - r_bl_y r then r_bl_x r else 0)
     \<and> rr \<le> (if row < r_tr_y r then r_tr_x r else if row \<ge> height - r_br_y r then r_br_x r else 0)"

definition radii_ok :: "corner_radii \<Rightarrow> int \<Rightarrow> int \<Rightarrow> bool" where
  "radii_ok r width height \<longleftrightarrow>
     (\<forall>v \<in> {r_tl_x r, r_tr_x r, r_br_x r, r_bl_x r}. 0 \<le> v \<and> 2 * v \<le> width)
     \<and> (\<forall>v \<in> {r_tl_y r, r_tr_y r, r_br_y r, r_bl_y r}. 0 \<le> v \<and> 2 * v \<le> height)"

lemma clamp_int_range: "0 \<le> hi \<Longrightarrow> 0 \<le> clamp_int v 0 hi" "0 \<le> hi \<Longrightarrow> clamp_int v 0 hi \<le> hi"
  by (simp_all add: clamp_int_def)

lemma clamp_radii_ok: "0 < width \<Longrightarrow> 0 < height \<Longrightarrow> radii_ok (clamp_radii (width div 2) (height div 2) radii) width height"
proof -
  assume "0 < width" "0 < height"
  then have "0 \<le> clamp_int v 0 (width div 2) \<and> 2 * clamp_int v 0 (width div 2) \<le> width"
    "0 \<le> clamp_int v 0 (height div 2) \<and> 2 * clamp_int v 0 (height div 2) \<le> height" for v
    using clamp_int_range [of "width div 2" v] clamp_int_range [of "height div 2" v] by linarith+
  then show ?thesis by (simp add: radii_ok_def clamp_radii_def)
qed

text \<open>The boxes for which nothing overflows.\<close>

definition rounded_box :: "int \<Rightarrow> int \<Rightarrow> int \<Rightarrow> int \<Rightarrow> bool" where
  "rounded_box x y width height \<longleftrightarrow>
     \<bar>x\<bar> \<le> 2 ^ 30 \<and> \<bar>y\<bar> \<le> 2 ^ 30 \<and> 0 < width \<and> width \<le> 2 ^ 30 \<and> 0 < height \<and> height \<le> 2 ^ 30"

lemma radii_range:
  assumes "radii_ok r width height"
  shows "0 \<le> r_tl_x r" "0 \<le> r_tr_x r" "0 \<le> r_br_x r" "0 \<le> r_bl_x r" "0 \<le> r_tl_y r" "0 \<le> r_tr_y r" "0 \<le> r_br_y r" "0 \<le> r_bl_y r"
  "2 * r_tl_x r \<le> width" "2 * r_tr_x r \<le> width" "2 * r_br_x r \<le> width" "2 * r_bl_x r \<le> width"
  "2 * r_tl_y r \<le> height" "2 * r_tr_y r \<le> height" "2 * r_br_y r \<le> height" "2 * r_bl_y r \<le> height"
  using assms by (simp_all add: radii_ok_def)

lemma top_row_adds:
  assumes "rounded_box x y width height" and "radii_ok r width height" and "0 \<le> row" and "2 * row < height" and "row < max (r_tl_y r) (r_tr_y r)"
  shows "\<exists>l rr. cut_ok r height row l rr \<and> adds_row x y width row l rr (top_row x y width r row)"
proof -
  note R = radii_range [OF assms(2)] assms(1) [unfolded rounded_box_def]
  obtain l where l: "corner_inset (row < r_tl_y r) row (r_tl_y r) (r_tl_x r) (r_tl_y r) = Some l"
    "0 \<le> l" "l \<le> (if r_tl_y r > 0 \<and> row < r_tl_y r then r_tl_x r else 0)"
    using corner_inset_defined [of "r_tl_x r" "r_tl_y r" row "r_tl_y r" "row < r_tl_y r"] R assms by (simp add: abs_le_iff) blast
  obtain rr where rr: "corner_inset (row < r_tr_y r) row (r_tr_y r) (r_tr_x r) (r_tr_y r) = Some rr"
    "0 \<le> rr" "rr \<le> (if r_tr_y r > 0 \<and> row < r_tr_y r then r_tr_x r else 0)"
    using corner_inset_defined [of "r_tr_x r" "r_tr_y r" row "r_tr_y r" "row < r_tr_y r"] R assms by (simp add: abs_le_iff) blast
  have "l \<le> 2 ^ 29" "rr \<le> 2 ^ 29" using l(3) rr(3) R by (simp_all split: if_splits)
  moreover have "row < 2 ^ 30" using assms R by simp
  ultimately have "adds_row x y width row l rr (add_row x y width row l rr)"
    using l(2) rr(2) R assms(3) by (intro add_row_adds) simp_all
  moreover have "top_row x y width r row = add_row x y width row l rr" by (simp add: top_row_def l rr fun_eq_iff)
  moreover have "cut_ok r height row l rr" using l rr R by (auto simp: cut_ok_def split: if_splits)
  ultimately show ?thesis by auto
qed

lemma bottom_row_adds:
  assumes "rounded_box x y width height" and "radii_ok r width height" and "height \<le> 2 * row" and "row < height"
  shows "\<exists>l rr. cut_ok r height row l rr \<and> adds_row x y width row l rr (bottom_row x y width height r row)"
proof -
  note R = radii_range [OF assms(2)] assms(1) [unfolded rounded_box_def]
  obtain l where l: "corner_inset (row \<ge> height - r_bl_y r) row (height - r_bl_y r) (r_bl_x r) (r_bl_y r) = Some l"
    "0 \<le> l" "l \<le> (if r_bl_y r > 0 \<and> row \<ge> height - r_bl_y r then r_bl_x r else 0)"
    using corner_inset_defined [of "r_bl_x r" "r_bl_y r" row "height - r_bl_y r" "row \<ge> height - r_bl_y r"] R assms
    by (simp add: abs_le_iff) blast
  obtain rr where rr: "corner_inset (row \<ge> height - r_br_y r) row (height - r_br_y r) (r_br_x r) (r_br_y r) = Some rr"
    "0 \<le> rr" "rr \<le> (if r_br_y r > 0 \<and> row \<ge> height - r_br_y r then r_br_x r else 0)"
    using corner_inset_defined [of "r_br_x r" "r_br_y r" row "height - r_br_y r" "row \<ge> height - r_br_y r"] R assms
    by (simp add: abs_le_iff) blast
  have "l \<le> 2 ^ 29" "rr \<le> 2 ^ 29" using l(3) rr(3) R by (simp_all split: if_splits)
  moreover have row: "0 \<le> row" "row < 2 ^ 30" using assms R by simp_all
  ultimately have "adds_row x y width row l rr (add_row x y width row l rr)"
    using l(2) rr(2) R by (intro add_row_adds) simp_all
  moreover have "bottom_row x y width height r row = add_row x y width row l rr"
    using row by (simp add: bottom_row_def l rr fun_eq_iff)
  moreover have "\<not> row < r_tl_y r" "\<not> row < r_tr_y r" using assms R by linarith+
  then have "cut_ok r height row l rr" using l rr R by (auto simp: cut_ok_def split: if_splits)
  ultimately show ?thesis by auto
qed

definition in_corner :: "int \<Rightarrow> int \<Rightarrow> int \<Rightarrow> int \<Rightarrow> corner_radii \<Rightarrow> int \<Rightarrow> int \<Rightarrow> bool" where
  "in_corner x y width height r px py \<longleftrightarrow>
     (py - y < r_tl_y r \<and> px < x + r_tl_x r) \<or> (py - y < r_tr_y r \<and> px \<ge> x + width - r_tr_x r)
     \<or> (py - y \<ge> height - r_bl_y r \<and> px < x + r_bl_x r) \<or> (py - y \<ge> height - r_br_y r \<and> px \<ge> x + width - r_br_x r)"

lemma cut_outside_corners:
  assumes "cut_ok r height row l rr" and "py = y + row" and "x \<le> px" "px < x + width" and "\<not> in_corner x y width height r px py"
  shows "row_pixels x y width row l rr px py"
  using assms by (auto simp: cut_ok_def in_corner_def row_pixels_def split: if_splits)

lemma cut_inside_box:
  "cut_ok r height row l rr \<Longrightarrow> row_pixels x y width row l rr px py \<Longrightarrow> 0 \<le> row \<Longrightarrow> row < height \<Longrightarrow> in_box x y width height px py"
  by (auto simp: cut_ok_def in_box_def row_pixels_def)

lemma rounded_rect_region:
  assumes box: "rounded_box x y width height" and r: "r = clamp_radii (width div 2) (height div 2) radii"
  shows "\<exists>d. pixman_region32_init_rounded_rect x y width height radii = Some d
    \<and> {(px, py). in_box x y width height px py \<and> \<not> in_corner x y width height r px py} \<subseteq> {(px, py). covers d px py}
    \<and> {(px, py). covers d px py} \<subseteq> {(px, py). in_box x y width height px py}"
proof -
  note B = box [unfolded rounded_box_def]
  have ok: "radii_ok r width height" unfolding r using B by (intro clamp_radii_ok) simp_all
  note R = radii_range [OF ok]
  define tb where "tb = (if r_tl_y r > r_tr_y r then r_tl_y r else r_tr_y r)"
  define bb where "bb = (if r_bl_y r > r_br_y r then r_bl_y r else r_br_y r)"
  have t: "0 \<le> tb" "2 * tb \<le> height" "tb = max (r_tl_y r) (r_tr_y r)" using R by (auto simp: tb_def)
  have b: "0 \<le> bb" "2 * bb \<le> height" using R by (auto simp: bb_def)
  let ?m = "height - tb - bb"
  define d0 where "d0 = (if ?m > 0 then Union_rect Region_init x (y + tb) width ?m else Region_init)"
  have d0: "covers d0 px py \<longleftrightarrow> in_box x (y + tb) width ?m px py" for px py by (auto simp: d0_def in_box_def)
  have top: "\<forall>row \<in> set [0..tb - 1]. \<exists>l rr. cut_ok r height row l rr \<and> adds_row x y width row l rr (top_row x y width r row)"
    using t by (intro ballI top_row_adds [OF box ok]) auto
  have bot: "\<forall>row \<in> set [height - bb..height - 1]. \<exists>l rr. cut_ok r height row l rr \<and> adds_row x y width row l rr (bottom_row x y width height r row)"
    using b by (intro ballI bottom_row_adds [OF box ok]) auto
  from for_rows_adds [OF top, of d0] obtain d1 where d1: "for_rows (top_row x y width r) [0..tb - 1] d0 = Some d1"
    "\<forall>px py. covers d0 px py \<longrightarrow> covers d1 px py"
    "\<forall>px py. covers d1 px py \<longrightarrow> covers d0 px py \<or> (\<exists>row \<in> set [0..tb - 1]. \<exists>l rr. cut_ok r height row l rr \<and> row_pixels x y width row l rr px py)"
    "\<forall>row \<in> set [0..tb - 1]. \<exists>l rr. cut_ok r height row l rr \<and> (\<forall>px py. row_pixels x y width row l rr px py \<longrightarrow> covers d1 px py)"
    by blast
  from for_rows_adds [OF bot, of d1] obtain d2 where d2: "for_rows (bottom_row x y width height r) [height - bb..height - 1] d1 = Some d2"
    "\<forall>px py. covers d1 px py \<longrightarrow> covers d2 px py"
    "\<forall>px py. covers d2 px py \<longrightarrow> covers d1 px py \<or> (\<exists>row \<in> set [height - bb..height - 1]. \<exists>l rr. cut_ok r height row l rr \<and> row_pixels x y width row l rr px py)"
    "\<forall>row \<in> set [height - bb..height - 1]. \<exists>l rr. cut_ok r height row l rr \<and> (\<forall>px py. row_pixels x y width row l rr px py \<longrightarrow> covers d2 px py)"
    by blast
  have "i32 (y + tb) = Some (y + tb)" using B t by (simp add: i32_def in_i32_def abs_le_iff)
  then have "pixman_region32_init_rounded_rect x y width height radii = Some d2"
    using B d1(1) d2(1) unfolding d0_def
    by (cases "bb < height - tb")
      (simp_all add: pixman_region32_init_rounded_rect_def Let_def r [symmetric] tb_def [symmetric] bb_def [symmetric])
  moreover have "in_box x y width height px py" if c: "covers d2 px py" for px py
  proof -
    have rows: "in_box x y width height px py"
      if "row \<in> set [lo..hi]" "0 \<le> lo" "hi < height" "cut_ok r height row l rr" "row_pixels x y width row l rr px py" for row lo hi l rr
      using cut_inside_box [OF that(4,5)] that(1-3) by simp
    consider "covers d1 px py"
      | row l rr where "row \<in> set [height - bb..height - 1]" "cut_ok r height row l rr" "row_pixels x y width row l rr px py"
      using d2(3) c by blast
    then show ?thesis
    proof cases
      case 1
      then consider "covers d0 px py"
        | row l rr where "row \<in> set [0..tb - 1]" "cut_ok r height row l rr" "row_pixels x y width row l rr px py"
        using d1(3) by blast
      then show ?thesis
      proof cases
        case 1 then show ?thesis using d0 t b by (auto simp: in_box_def)
      next
        case 2 with rows [OF 2(1) _ _ 2(2,3)] t B show ?thesis by simp
      qed
    next
      case 2 with rows [OF 2(1) _ _ 2(2,3)] b B show ?thesis by simp
    qed
  qed
  moreover have "covers d2 px py" if i: "in_box x y width height px py" "\<not> in_corner x y width height r px py" for px py
  proof -
    have p: "x \<le> px" "px < x + width" "0 \<le> py - y" "py - y < height" "py = y + (py - y)" using i(1) by (auto simp: in_box_def)
    consider "py - y < tb" | "tb \<le> py - y" "py - y < height - bb" | "height - bb \<le> py - y" by linarith
    then show ?thesis
    proof cases
      case 1
      then have "py - y \<in> set [0..tb - 1]" using p by simp
      with d1(4) obtain l rr where "cut_ok r height (py - y) l rr" "\<forall>px' py'. row_pixels x y width (py - y) l rr px' py' \<longrightarrow> covers d1 px' py'"
        by blast
      with cut_outside_corners [OF this(1) p(5,1,2) i(2)] d2(2) show ?thesis by blast
    next
      case 2
      then have "covers d0 px py" using p d0 by (auto simp: in_box_def)
      with d1(2) d2(2) show ?thesis by blast
    next
      case 3
      then have "py - y \<in> set [height - bb..height - 1]" using p by simp
      with d2(4) obtain l rr where "cut_ok r height (py - y) l rr" "\<forall>px' py'. row_pixels x y width (py - y) l rr px' py' \<longrightarrow> covers d2 px' py'"
        by blast
      with cut_outside_corners [OF this(1) p(5,1,2) i(2)] show ?thesis by blast
    qed
  qed
  ultimately show ?thesis by (intro exI [of _ d2]) blast
qed

text \<open>
  C33: The clip of a rounded rectangle is what it is meant to be: for every box of sane size and any
  radii, the region is built without overflow; it stays inside the box and covers all of it but
  (part of) the four corners, whose size is the radius limited to half of the box.
\<close>
theorem rounded_clip_between:
  assumes "rounded_box x y width height"
  shows "\<exists>d. pixman_region32_init_rounded_rect x y width height radii = Some d
    \<and> {(px, py). in_box x y width height px py
         \<and> \<not> in_corner x y width height (clamp_radii (width div 2) (height div 2) radii) px py} \<subseteq> {(px, py). covers d px py}
    \<and> {(px, py). covers d px py} \<subseteq> {(px, py). in_box x y width height px py}"
  by (rule rounded_rect_region [OF assms refl])

definition sample_radii :: corner_radii where
  "sample_radii = \<lparr>r_tl_x = 3, r_tl_y = 3, r_tr_x = 3, r_tr_y = 3, r_br_x = 0, r_br_y = 0, r_bl_x = 0, r_bl_y = 0\<rparr>"

text \<open>A box of 10 by 8 pixels with two round corners: its first row and its last.\<close>

theorem rounded_clip_between_witness:
  "\<exists>d. pixman_region32_init_rounded_rect 0 0 10 8 sample_radii = Some d \<and> covers d 5 0 \<and> covers d 0 7 \<and> \<not> covers d 10 0"
proof -
  have "rounded_box 0 0 10 8" by (simp add: rounded_box_def)
  from rounded_clip_between [OF this, of sample_radii] obtain d where
    d: "pixman_region32_init_rounded_rect 0 0 10 8 sample_radii = Some d"
    "{(px, py). in_box 0 0 10 8 px py \<and> \<not> in_corner 0 0 10 8 (clamp_radii (10 div 2) (8 div 2) sample_radii) px py}
       \<subseteq> {(px, py). covers d px py}"
    "{(px, py). covers d px py} \<subseteq> {(px, py). in_box 0 0 10 8 px py}" by blast
  have "(5, 0) \<in> {(px, py). covers d px py}" "(0, 7) \<in> {(px, py). covers d px py}"
    by (rule subsetD [OF d(2)], simp add: in_box_def in_corner_def clamp_radii_def clamp_int_def sample_radii_def)+
  moreover have "(10, 0) \<notin> {(px, py). covers d px py}" using d(3) by (auto simp: in_box_def)
  ultimately show ?thesis using d(1) by auto
qed

end
