(* ===== verification/Pages.thy ===== *)
theory Pages
  imports Geometry
begin

text \<open>
  \<open>src/renderer.c\<close>, the textures Flutter draws its layers into: two pages of textures that take
  turns, the backing stores handed to the engine and the scene it presents. An OpenGL name is what
  the driver returns for the allocation; drawing itself is not followed.
\<close>

section \<open>Data\<close>

record fwr_renderer_page_texture =
  pt_texture :: u32
  pt_fbo :: u32
  pt_width :: nat
  pt_height :: nat

record fwr_renderer_page =
  unused_textures :: "ptr list"
  textures :: "ptr list"

datatype scene_layer_content =
    sceneLayerTexture ptr
  | sceneLayerPlatform int "flutter_mutation list"

record fwr_renderer_scene_layer =
  layer_offset :: "u64 \<times> u64"
  layer_size :: "u64 \<times> u64"
  layer_content :: scene_layer_content

text \<open>
  The part of \<open>struct fwr_renderer\<close> and of its \<open>current_scene\<close> that pages and scenes use. \<open>texture_store\<close> holds the page
  textures that were allocated and not freed; \<open>scene_sync\<close> is 0 for none.
\<close>

record fwr_renderer =
  texture_store :: "ptr \<Rightarrow> fwr_renderer_page_texture option"
  pages :: "fwr_renderer_page \<times> fwr_renderer_page"
  current_page :: bool
  layers :: "fwr_renderer_scene_layer list"
  needs_update :: bool
  scene_sync :: nat

text \<open>\<open>current_page\<close> is 0 or 1; \<open>True\<close> stands for 1.\<close>

definition page_at :: "bool \<Rightarrow> fwr_renderer \<Rightarrow> fwr_renderer_page" where
  "page_at i r = (if i then snd (pages r) else fst (pages r))"

definition set_page :: "bool \<Rightarrow> fwr_renderer_page \<Rightarrow> fwr_renderer \<Rightarrow> fwr_renderer" where
  "set_page i pg r = r\<lparr>pages := (if i then (fst (pages r), pg) else (pg, snd (pages r)))\<rparr>"

text \<open>Calls on the driver, and what it and \<open>calloc\<close> return.\<close>

datatype page_call =
    GenFramebuffer u32
  | GenTexture u32
  | DeleteTexture u32
  | DestroySync nat
  | CreateSync nat

record page_env =
  pg_calloc :: ptr
  pg_texture :: u32
  pg_fbo :: u32
  pg_sync :: nat

section \<open>Backing stores\<close>

definition page_get_texture ::
    "page_env \<Rightarrow> nat \<Rightarrow> nat \<Rightarrow> bool \<Rightarrow> fwr_renderer \<Rightarrow> (ptr \<times> fwr_renderer \<times> page_call list) option" where
  "page_get_texture env width height make_fbo r =
     (let pg = page_at (current_page r) r in
      if \<exists>p \<in> set (unused_textures pg). texture_store r p = None then None
      else
        (case List.find (\<lambda>p. case texture_store r p of None \<Rightarrow> False
             | Some t \<Rightarrow> pt_width t = width \<and> pt_height t = height) (unused_textures pg) of
           Some p \<Rightarrow>
             Some (p, set_page (current_page r) (pg\<lparr>unused_textures := remove1 p (unused_textures pg),
                        textures := p # textures pg\<rparr>) r, [])
         | None \<Rightarrow>
             let p = pg_calloc env; fbo = (if make_fbo then pg_fbo env else 0);
                 t = \<lparr>pt_texture = pg_texture env, pt_fbo = fbo, pt_width = width, pt_height = height\<rparr>
             in Some (p, set_page (current_page r) (pg\<lparr>textures := p # textures pg\<rparr>)
                          (r\<lparr>texture_store := (texture_store r)(p \<mapsto> t)\<rparr>),
                      (if make_fbo then [GenFramebuffer (pg_fbo env)] else []) @ [GenTexture (pg_texture env)])))"

text \<open>The fields of \<open>FlutterBackingStore\<close> that depend on the texture.\<close>

record backing_store =
  bs_user_data :: ptr
  bs_name :: u32
  bs_width :: nat
  bs_height :: nat

definition create_backing_store ::
    "page_env \<Rightarrow> nat \<Rightarrow> nat \<Rightarrow> fwr_renderer \<Rightarrow> (backing_store \<times> fwr_renderer \<times> page_call list) option" where
  "create_backing_store env width height r =
     Option.bind (page_get_texture env width height False r) (\<lambda>(p, r1, es).
     Option.bind (texture_store r1 p) (\<lambda>t.
       Some (\<lparr>bs_user_data = p, bs_name = pt_texture t, bs_width = pt_width t, bs_height = pt_height t\<rparr>, r1, es)))"

section \<open>Presenting\<close>

text \<open>
  A layer of the engine: a backing store, known by its \<open>user_data\<close>, or a platform view with its
  mutations, which are copied.
\<close>

datatype layer_kind = BackingStoreLayer ptr | PlatformViewLayer int "flutter_mutation list"

record flutter_layer =
  fl_offset :: "u64 \<times> u64"
  fl_size :: "u64 \<times> u64"
  fl_kind :: layer_kind

definition scene_layer :: "flutter_layer \<Rightarrow> fwr_renderer_scene_layer" where
  "scene_layer l = \<lparr>layer_offset = fl_offset l, layer_size = fl_size l,
     layer_content = (case fl_kind l of BackingStoreLayer p \<Rightarrow> sceneLayerTexture p
                      | PlatformViewLayer i ms \<Rightarrow> sceneLayerPlatform i ms)\<rparr>"

text \<open>Deleting the unused textures of a page, from the first to the last.\<close>

fun delete_unused :: "ptr list \<Rightarrow> (ptr \<Rightarrow> fwr_renderer_page_texture option) \<Rightarrow>
    ((ptr \<Rightarrow> fwr_renderer_page_texture option) \<times> page_call list) option" where
  "delete_unused [] store = Some (store, [])"
| "delete_unused (p # ps) store =
     (case store p of
        None \<Rightarrow> None
      | Some t \<Rightarrow> map_option (\<lambda>(s, es). (s, DeleteTexture (pt_texture t) # es)) (delete_unused ps (store(p := None))))"

text \<open>The textures of the last page become unused, each put in front of the list.\<close>

definition retire :: "fwr_renderer_page \<Rightarrow> fwr_renderer_page" where
  "retire pg = pg\<lparr>unused_textures := rev (textures pg) @ unused_textures pg, textures := []\<rparr>"

definition present_layers ::
    "page_env \<Rightarrow> flutter_layer list \<Rightarrow> fwr_renderer \<Rightarrow> (fwr_renderer \<times> page_call list) option" where
  "present_layers env f_layers r =
     (let cur = current_page r; pg = page_at cur r in
      Option.bind (delete_unused (unused_textures pg) (texture_store r)) (\<lambda>(store, es).
        let r1 = set_page cur (pg\<lparr>unused_textures := []\<rparr>)
                   (r\<lparr>texture_store := store, layers := map scene_layer f_layers, needs_update := True,
                      scene_sync := pg_sync env\<rparr>)
        in Some ((set_page (\<not> cur) (retire (page_at (\<not> cur) r1)) r1)\<lparr>current_page := \<not> cur\<rparr>,
             es @ (if scene_sync r \<noteq> 0 then [DestroySync (scene_sync r)] else []) @ [CreateSync (pg_sync env)])))"

section \<open>The scene and the textures that are drawn into\<close>

text \<open>
  A history of the rendering thread: the engine asks for a backing store, which the model remembers
  as handed out, or presents layers. With \<open>avoid_backing_store_cache\<close> set, as \<open>fwr_renderer_init\<close>
  sets it, the engine presents only backing stores it asked for since the last frame.
\<close>

definition layer_textures :: "fwr_renderer \<Rightarrow> ptr set" where
  "layer_textures r = {p. \<exists>l \<in> set (layers r). layer_content l = sceneLayerTexture p}"

definition stores_of :: "flutter_layer list \<Rightarrow> ptr set" where
  "stores_of ls = {p. \<exists>l \<in> set ls. fl_kind l = BackingStoreLayer p}"

inductive frames :: "fwr_renderer \<Rightarrow> fwr_renderer \<Rightarrow> ptr set \<Rightarrow> bool" for r0 where
  start: "frames r0 r0 {}"
| create: "frames r0 r out \<Longrightarrow> texture_store r (pg_calloc env) = None \<Longrightarrow>
    create_backing_store env width height r = Some (bs, r', es) \<Longrightarrow> frames r0 r' (insert (bs_user_data bs) out)"
| present: "frames r0 r out \<Longrightarrow> stores_of ls \<subseteq> out \<Longrightarrow> present_layers env ls r = Some (r', es) \<Longrightarrow> frames r0 r' {}"

definition pages_ok :: "fwr_renderer \<Rightarrow> ptr set \<Rightarrow> bool" where
  "pages_ok r out \<longleftrightarrow>
     (let pg = page_at (current_page r) r; other = page_at (\<not> current_page r) r in
      distinct (unused_textures pg @ textures pg @ textures other) \<and> unused_textures other = []
      \<and> (\<forall>p \<in> set (unused_textures pg @ textures pg @ textures other). texture_store r p \<noteq> None)
      \<and> out = set (textures pg) \<and> layer_textures r \<subseteq> set (textures other))"

lemma page_at_set_page [simp]:
  "page_at i (set_page j pg r) = (if i = j then pg else page_at i r)"
  by (auto simp: page_at_def set_page_def)

lemma set_page_fields [simp]:
  "texture_store (set_page i pg r) = texture_store r" "current_page (set_page i pg r) = current_page r"
  "layers (set_page i pg r) = layers r" "page_at i (r\<lparr>texture_store := s\<rparr>) = page_at i r"
  "page_at i (r\<lparr>current_page := b\<rparr>) = page_at i r" "page_at i (r\<lparr>layers := ls, needs_update := u, scene_sync := n\<rparr>) = page_at i r"
  "page_at i (r\<lparr>texture_store := s, layers := ls, needs_update := u, scene_sync := n\<rparr>) = page_at i r"
  by (simp_all add: set_page_def page_at_def)

lemma layer_textures_simps [simp]:
  "layer_textures (set_page i pg r) = layer_textures r" "layer_textures (r\<lparr>texture_store := s\<rparr>) = layer_textures r"
  "layer_textures (r\<lparr>current_page := b\<rparr>) = layer_textures r"
  by (simp_all add: layer_textures_def set_page_def)

lemma get_texture_spec:
  assumes ok: "pages_ok r out" and f: "texture_store r (pg_calloc env) = None"
    and g: "page_get_texture env width height mk r = Some (p, r', es)"
  shows "pages_ok r' (insert p out) \<and> p \<notin> out \<and> p \<notin> layer_textures r \<and> layer_textures r' = layer_textures r
    \<and> (\<exists>t. texture_store r' p = Some t \<and> pt_width t = width \<and> pt_height t = height)"
proof -
  let ?c = "current_page r"
  let ?pg = "page_at ?c r" and ?other = "page_at (\<not> ?c) r"
  let ?P = "\<lambda>p. case texture_store r p of None \<Rightarrow> False | Some t \<Rightarrow> pt_width t = width \<and> pt_height t = height"
  have d: "distinct (unused_textures ?pg @ textures ?pg @ textures ?other)" "unused_textures ?other = []"
    "\<forall>p \<in> set (unused_textures ?pg @ textures ?pg @ textures ?other). texture_store r p \<noteq> None"
    "out = set (textures ?pg)" "layer_textures r \<subseteq> set (textures ?other)"
    using ok by (simp_all add: pages_ok_def Let_def)
  show ?thesis
  proof (cases "List.find ?P (unused_textures ?pg)")
    case (Some q)
    then have q: "q \<in> set (unused_textures ?pg)" "?P q" by (auto simp: find_Some_iff)
    have r': "p = q" "r' = set_page ?c (?pg\<lparr>unused_textures := remove1 q (unused_textures ?pg), textures := q # textures ?pg\<rparr>) r"
      using g Some d(3) by (auto simp: page_get_texture_def Let_def split: if_splits)
    obtain t where "texture_store r q = Some t" "pt_width t = width" "pt_height t = height"
      using q(2) by (auto split: option.splits)
    then show ?thesis using d q(1) unfolding r' pages_ok_def Let_def by (auto simp: set_remove1_eq)
  next
    case None
    let ?t = "\<lparr>pt_texture = pg_texture env, pt_fbo = if mk then pg_fbo env else 0, pt_width = width, pt_height = height\<rparr>"
    have r': "p = pg_calloc env" "r' = set_page ?c (?pg\<lparr>textures := p # textures ?pg\<rparr>)
        (r\<lparr>texture_store := (texture_store r)(p \<mapsto> ?t)\<rparr>)"
      using g None d(3) by (auto simp: page_get_texture_def Let_def split: if_splits)
    have "p \<notin> set (unused_textures ?pg @ textures ?pg @ textures ?other)"
    proof
      assume "p \<in> set (unused_textures ?pg @ textures ?pg @ textures ?other)"
      with d(3) have "texture_store r p \<noteq> None" by blast
      with f r'(1) show False by simp
    qed
    then show ?thesis using d unfolding pages_ok_def Let_def by (auto simp: r'(2))
  qed
qed

lemma delete_unused_spec:
  assumes "distinct ps" and "\<forall>p \<in> set ps. store p \<noteq> None"
  shows "\<exists>es. delete_unused ps store = Some (\<lambda>p. if p \<in> set ps then None else store p, es)"
  using assms
proof (induction ps arbitrary: store)
  case (Cons p ps)
  then obtain t where t: "store p = Some t" by auto
  from Cons have "\<exists>es. delete_unused ps (store(p := None)) = Some (\<lambda>q. if q \<in> set ps then None else (store(p := None)) q, es)"
    by (intro Cons.IH) auto
  then show ?case using t by (auto simp: fun_eq_iff)
qed simp

lemma scene_layer_texture: "layer_content (scene_layer l) = sceneLayerTexture p \<longleftrightarrow> fl_kind l = BackingStoreLayer p"
  by (cases "fl_kind l") (simp_all add: scene_layer_def)

lemma present_spec:
  assumes ok: "pages_ok r out" and s: "stores_of ls \<subseteq> out"
  shows "\<exists>r' es. present_layers env ls r = Some (r', es) \<and> pages_ok r' {} \<and> layer_textures r' = stores_of ls"
proof -
  let ?c = "current_page r"
  let ?pg = "page_at ?c r" and ?other = "page_at (\<not> ?c) r"
  have d: "distinct (unused_textures ?pg @ textures ?pg @ textures ?other)" "unused_textures ?other = []"
    "\<forall>p \<in> set (unused_textures ?pg @ textures ?pg @ textures ?other). texture_store r p \<noteq> None"
    "out = set (textures ?pg)"
    using ok by (simp_all add: pages_ok_def Let_def)
  obtain es where es: "delete_unused (unused_textures ?pg) (texture_store r)
      = Some (\<lambda>p. if p \<in> set (unused_textures ?pg) then None else texture_store r p, es)"
    using delete_unused_spec [of "unused_textures ?pg" "texture_store r"] d(1,3) by auto
  have l: "layer_textures (r\<lparr>texture_store := st, layers := map scene_layer ls, needs_update := True, scene_sync := n\<rparr>) = stores_of ls"
    for st n
    by (auto simp: layer_textures_def stores_of_def scene_layer_texture)
  show ?thesis
    using d s es by (auto simp: present_layers_def Let_def pages_ok_def retire_def l)
qed

lemma frames_ok: "frames r0 r out \<Longrightarrow> pages_ok r0 {} \<Longrightarrow> pages_ok r out"
proof (induction rule: frames.induct)
  case (create r out env width height bs r' es)
  then obtain p es' where "page_get_texture env width height False r = Some (p, r', es')" "bs_user_data bs = p"
    by (auto simp: create_backing_store_def split: bind_splits)
  with get_texture_spec create show ?case by blast
next
  case (present r out ls env r' es)
  with present_spec [of r out ls env] show ?case by auto
qed

definition fresh_renderer :: fwr_renderer where
  "fresh_renderer = \<lparr>texture_store = Map.empty, pages = (\<lparr>unused_textures = [], textures = []\<rparr>, \<lparr>unused_textures = [], textures = []\<rparr>),
     current_page = False, layers = [], needs_update = False, scene_sync = 0\<rparr>"

lemma fresh_renderer_ok: "pages_ok fresh_renderer {}"
  by (simp add: pages_ok_def fresh_renderer_def page_at_def layer_textures_def)

text \<open>
  C8: Flutter never draws into a texture that is on the screen: in whatever order backing stores of
  whatever sizes are asked for and frames are presented, a new backing store is one the engine does
  not hold already, not a texture of the scene being shown, and of the size asked for; every
  texture of the scene is still allocated, and presenting never deletes one of the new scene.
\<close>
theorem scene_textures_not_redrawn:
  assumes "frames fresh_renderer r out"
  shows "(\<forall>p \<in> layer_textures r. texture_store r p \<noteq> None)
    \<and> (texture_store r (pg_calloc env) = None \<longrightarrow> create_backing_store env width height r = Some (bs, r', es) \<longrightarrow>
        bs_user_data bs \<notin> out \<and> bs_user_data bs \<notin> layer_textures r \<and> bs_width bs = width \<and> bs_height bs = height)
    \<and> (stores_of ls \<subseteq> out \<longrightarrow> (\<exists>r' es. present_layers env ls r = Some (r', es) \<and> layer_textures r' = stores_of ls))"
proof (intro conjI impI)
  have ok: "pages_ok r out" using frames_ok [OF assms fresh_renderer_ok] .
  then show "\<forall>p \<in> layer_textures r. texture_store r p \<noteq> None" by (auto simp: pages_ok_def Let_def)
  assume f: "texture_store r (pg_calloc env) = None" and c: "create_backing_store env width height r = Some (bs, r', es)"
  from c obtain p es' t where g: "page_get_texture env width height False r = Some (p, r', es')"
    "texture_store r' p = Some t" "bs = \<lparr>bs_user_data = p, bs_name = pt_texture t, bs_width = pt_width t, bs_height = pt_height t\<rparr>"
    by (auto simp: create_backing_store_def split: bind_splits)
  with get_texture_spec [OF ok f g(1)]
  show "bs_user_data bs \<notin> out" "bs_user_data bs \<notin> layer_textures r" "bs_width bs = width" "bs_height bs = height"
    by auto
next
  assume "stores_of ls \<subseteq> out"
  then show "\<exists>r' es. present_layers env ls r = Some (r', es) \<and> layer_textures r' = stores_of ls"
    using present_spec [OF frames_ok [OF assms fresh_renderer_ok]] by blast
qed

text \<open>Two frames: the second one draws into a texture of its own.\<close>

definition sample_page_env :: "nat \<Rightarrow> page_env" where
  "sample_page_env n = \<lparr>pg_calloc = n, pg_texture = of_nat n, pg_fbo = 0, pg_sync = 1\<rparr>"

definition first_store :: fwr_renderer where
  "first_store = fst (snd (the (create_backing_store (sample_page_env 1) 8 6 fresh_renderer)))"

definition first_frame :: fwr_renderer where
  "first_frame = fst (the (present_layers (sample_page_env 2)
     [\<lparr>fl_offset = (0, 0), fl_size = (0, 0), fl_kind = BackingStoreLayer 1\<rparr>] first_store))"

lemma first_frame_run: "frames fresh_renderer first_frame {}" and first_frame_layers: "layer_textures first_frame = {1}"
proof -
  let ?ls = "[\<lparr>fl_offset = (0, 0), fl_size = (0, 0), fl_kind = BackingStoreLayer 1\<rparr>]"
  obtain es where c: "create_backing_store (sample_page_env 1) 8 6 fresh_renderer
      = Some (\<lparr>bs_user_data = 1, bs_name = 1, bs_width = 8, bs_height = 6\<rparr>, first_store, es)"
    by (auto simp: first_store_def create_backing_store_def page_get_texture_def fresh_renderer_def sample_page_env_def
        page_at_def set_page_def Let_def)
  have "texture_store fresh_renderer (pg_calloc (sample_page_env 1)) = None" by (simp add: fresh_renderer_def)
  from frames.create [OF frames.start this c] have 1: "frames fresh_renderer first_store {1}" by simp
  have s: "stores_of ?ls \<subseteq> {1}" by (auto simp: stores_of_def)
  obtain r es' where p: "present_layers (sample_page_env 2) ?ls first_store = Some (r, es')" "layer_textures r = stores_of ?ls"
    using present_spec [OF frames_ok [OF 1 fresh_renderer_ok] s] by blast
  from frames.present [OF 1 s p(1)] p(1) show "frames fresh_renderer first_frame {}" by (simp add: first_frame_def)
  show "layer_textures first_frame = {1}" using p by (auto simp: first_frame_def stores_of_def)
qed

theorem scene_textures_not_redrawn_witness:
  "layer_textures first_frame = {1} \<and> texture_store first_frame 1 \<noteq> None
     \<and> (\<exists>r' es. present_layers (sample_page_env 3) [] first_frame = Some (r', es))"
proof -
  have "stores_of [] \<subseteq> {}" by (simp add: stores_of_def)
  with scene_textures_not_redrawn [OF first_frame_run, where ls = "[]" and env = "sample_page_env 3"] first_frame_layers
  show ?thesis by blast
qed

end
