(* ===== verification/TextureCache.thy ===== *)
theory TextureCache
  imports Surfaces "HOL-Library.Multiset"
begin

text \<open>
  The textures in which Flutter sees the surfaces of the clients: the cache of
  \<open>include/instance.h\<close>, the import of DMA-BUF buffers, the copy of other buffers and the release of
  a cache in \<open>src/renderer.c\<close>, and the choice between them in \<open>src/flutter_wlroots.c\<close>. What the
  drivers return is the record \<open>tex_env\<close>; the texture mutex makes each function one step. Saving and
  restoring OpenGL state and the drawing of the copy are not followed.
\<close>

section \<open>Data\<close>

datatype fwr_buffer_type = FWR_BUFFER_UNKNOWN | FWR_BUFFER_DMABUF | FWR_BUFFER_SHM

text \<open>Images and OpenGL names are numbers, 0 being NULL or no object.\<close>

record fwr_eglimage_cache_entry =
  eg_buffer :: "wref option"
  eg_image :: nat
  eg_width :: int
  eg_height :: int

record fwr_cached_texture =
  ct_tex :: u32
  ct_fbo :: u32
  ct_width :: int
  ct_height :: int
  last_seq :: u32
  is_external :: bool
  tex_params_set :: bool
  destroyed :: bool
  buffer_type :: fwr_buffer_type
  egl_cache :: "fwr_eglimage_cache_entry list"
  egl_cache_next :: nat
  current_egl_image :: nat

abbreviation "FWR_EGLIMAGE_CACHE_SIZE \<equiv> 4 :: nat"

record dmabuf_attributes =
  d_width :: int
  d_height :: int
  d_format :: u32
  d_modifier :: u64
  d_n_planes :: int
  d_fd :: "int list"
  d_offset :: "u32 list"
  d_stride :: "u32 list"

text \<open>
  What the calls of one operation return: the buffer of the surface (\<open>te_buffer\<close>, NULL when the
  client buffer or its source is), its attributes, the next names and images, the texture wlroots
  has for the surface with its target, and whether the allocations of the copy succeed.
\<close>

record tex_env =
  has_dmabuf_import :: bool
  has_destroy_image :: bool
  te_buffer :: "wref \<Rightarrow> wref option"
  te_dmabuf :: "wref \<Rightarrow> dmabuf_attributes option"
  te_seq :: "wref \<Rightarrow> u32"
  te_create_image :: nat
  te_gen_texture :: u32
  te_gen_framebuffer :: u32
  te_buffer_size :: "wref \<Rightarrow> nat \<times> nat"
  te_surface_size :: "wref \<Rightarrow> nat \<times> nat"
  te_texture :: "wref \<Rightarrow> (u32 \<times> bool) option"
  te_context :: bool
  te_alloc_ok :: bool
  te_fbo_complete :: bool

datatype egl_name = EGL_WIDTH | EGL_HEIGHT | EGL_LINUX_DRM_FOURCC_EXT | EGL_NONE
  | PLANE_FD nat | PLANE_OFFSET nat | PLANE_PITCH nat | PLANE_MODIFIER_LO nat | PLANE_MODIFIER_HI nat

datatype egl_attr = Name egl_name | Val int

datatype tex_call =
    CreateImage "egl_attr list" nat
  | DestroyImage nat
  | GenTexture u32
  | DeleteTexture u32
  | GenFramebuffer u32
  | DeleteFramebuffer u32
  | BindImage u32 nat
  | SetParameters u32
  | AllocTexture u32 int int
  | DrawCopy u32 u32

section \<open>The images of the buffers\<close>

definition DRM_FORMAT_MOD_INVALID :: u64 where "DRM_FORMAT_MOD_INVALID = 0x00ffffffffffffff"

text \<open>\<open>(EGLint)\<close> of an unsigned value.\<close>

definition eglint :: "u32 \<Rightarrow> int" where "eglint w = sint w"

definition plane_attribs :: "dmabuf_attributes \<Rightarrow> nat \<Rightarrow> egl_attr list" where
  "plane_attribs d i =
     [Name (PLANE_FD i), Val (d_fd d ! i), Name (PLANE_OFFSET i), Val (eglint (d_offset d ! i)),
      Name (PLANE_PITCH i), Val (eglint (d_stride d ! i))]
     @ (if d_modifier d \<noteq> DRM_FORMAT_MOD_INVALID
        then [Name (PLANE_MODIFIER_LO i), Val (eglint (ucast (d_modifier d))),
              Name (PLANE_MODIFIER_HI i), Val (eglint (ucast (drop_bit 32 (d_modifier d))))]
        else [])"

definition egl_attribs :: "dmabuf_attributes \<Rightarrow> egl_attr list" where
  "egl_attribs d =
     [Name EGL_WIDTH, Val (d_width d), Name EGL_HEIGHT, Val (d_height d),
      Name EGL_LINUX_DRM_FOURCC_EXT, Val (eglint (d_format d))]
     @ concat (map (plane_attribs d) [0..<nat (d_n_planes d)]) @ [Name EGL_NONE]"

definition empty_entry :: fwr_eglimage_cache_entry where
  "empty_entry = \<lparr>eg_buffer = None, eg_image = 0, eg_width = 0, eg_height = 0\<rparr>"

text \<open>
  The search: an image of the buffer with the right size ends it, one with another size is
  destroyed on the way.
\<close>

fun lookup_image :: "wref \<Rightarrow> int \<Rightarrow> int \<Rightarrow> fwr_eglimage_cache_entry list \<Rightarrow>
    nat option \<times> fwr_eglimage_cache_entry list \<times> tex_call list" where
  "lookup_image b w h [] = (None, [], [])"
| "lookup_image b w h (e # es) =
     (if eg_buffer e = Some b \<and> eg_image e \<noteq> 0 then
        (if eg_width e = w \<and> eg_height e = h then (Some (eg_image e), e # es, [])
         else let (r, es', cs) = lookup_image b w h es in (r, empty_entry # es', DestroyImage (eg_image e) # cs))
      else let (r, es', cs) = lookup_image b w h es in (r, e # es', cs))"

text \<open>The loop that empties the cache, with what it leaves of an entry.\<close>

fun clear_images :: "(fwr_eglimage_cache_entry \<Rightarrow> fwr_eglimage_cache_entry) \<Rightarrow> fwr_eglimage_cache_entry list \<Rightarrow>
    fwr_eglimage_cache_entry list \<times> tex_call list" where
  "clear_images f [] = ([], [])"
| "clear_images f (e # es) =
     (let (es', cs) = clear_images f es in
      if eg_image e \<noteq> 0 then (f e # es', DestroyImage (eg_image e) # cs) else (e # es', cs))"

text \<open>A changed size empties the whole cache.\<close>

definition drop_resized :: "dmabuf_attributes \<Rightarrow> fwr_cached_texture \<Rightarrow> fwr_cached_texture \<times> tex_call list" where
  "drop_resized d c =
     (if ct_width c \<noteq> 0 \<and> (ct_width c \<noteq> d_width d \<or> ct_height c \<noteq> d_height d)
      then let (es, cs) = clear_images (\<lambda>e. empty_entry) (egl_cache c)
           in (c\<lparr>egl_cache := es, current_egl_image := 0, tex_params_set := False\<rparr>, cs)
      else (c, []))"

text \<open>
  The new image takes the next slot, whose old image is destroyed. \<open>Some (cache, image, calls)\<close>, and
  \<open>None\<close> for an access outside an array.
\<close>

definition create_egl_image ::
    "tex_env \<Rightarrow> wref \<Rightarrow> dmabuf_attributes \<Rightarrow> fwr_cached_texture \<Rightarrow> (fwr_cached_texture \<times> nat \<times> tex_call list) option" where
  "create_egl_image env b d c =
     (let slot = egl_cache_next c in
      if length (egl_cache c) \<le> slot \<or> 50 < length (egl_attribs d) then None
      else
        let old = egl_cache c ! slot;
            cs = (if eg_image old \<noteq> 0 then [DestroyImage (eg_image old)] else []) @ [CreateImage (egl_attribs d) (te_create_image env)];
            e = (if te_create_image env \<noteq> 0
                 then \<lparr>eg_buffer = Some b, eg_image = te_create_image env, eg_width = d_width d, eg_height = d_height d\<rparr>
                 else if eg_image old \<noteq> 0 then old\<lparr>eg_image := 0, eg_buffer := None\<rparr> else old)
        in Some (c\<lparr>egl_cache_next := (slot + 1) mod FWR_EGLIMAGE_CACHE_SIZE, egl_cache := (egl_cache c)[slot := e]\<rparr>,
             te_create_image env, cs))"

text \<open>\<open>None\<close> is here also a call of a missing \<open>eglDestroyImageKHR\<close>.\<close>

definition get_or_create_egl_image ::
    "tex_env \<Rightarrow> wref \<Rightarrow> dmabuf_attributes \<Rightarrow> fwr_cached_texture \<Rightarrow> (fwr_cached_texture \<times> nat \<times> tex_call list) option" where
  "get_or_create_egl_image env b d c =
     (if d_n_planes d \<le> 0 \<or> 4 < d_n_planes d then Some (c, 0, [])
      else if \<not> has_destroy_image env then None
      else
        let (r, es, cs) = lookup_image b (d_width d) (d_height d) (egl_cache c); c1 = c\<lparr>egl_cache := es\<rparr> in
        case r of
          Some img \<Rightarrow> Some (c1, img, cs)
        | None \<Rightarrow>
            let (c2, cs2) = drop_resized d c1
            in map_option (\<lambda>(c3, img, cs3). (c3, img, cs @ cs2 @ cs3)) (create_egl_image env b d c2))"

section \<open>Import, copy, release\<close>

definition fwr_renderer_import_surface_dmabuf ::
    "tex_env \<Rightarrow> wref \<Rightarrow> fwr_cached_texture \<Rightarrow> (fwr_cached_texture \<times> bool \<times> tex_call list) option" where
  "fwr_renderer_import_surface_dmabuf env s c =
     (if \<not> has_dmabuf_import env \<or> destroyed c then Some (c, False, [])
      else case te_buffer env s of
        None \<Rightarrow> Some (c, False, [])
      | Some b \<Rightarrow>
          (case te_dmabuf env b of
             None \<Rightarrow> Some (c, False, [])
           | Some d \<Rightarrow>
               if ct_tex c \<noteq> 0 \<and> last_seq c = te_seq env s \<and> ct_width c = d_width d \<and> ct_height c = d_height d
               then Some (c, True, [])
               else
                 Option.bind (get_or_create_egl_image env b d c) (\<lambda>(c1, img, cs1).
                   if img = 0 then Some (c1, False, cs1)
                   else
                     let (c2, cs2) = (if ct_tex c1 = 0
                           then (c1\<lparr>ct_tex := te_gen_texture env\<rparr>, [GenTexture (te_gen_texture env)]) else (c1, []))
                     in if ct_tex c2 = 0 then Some (c2, False, cs1 @ cs2)
                        else
                          let c3 = c2\<lparr>is_external := True\<rparr>;
                              (c4, cs3) = (if current_egl_image c3 \<noteq> img
                                then (c3\<lparr>tex_params_set := True, current_egl_image := img\<rparr>,
                                      BindImage (ct_tex c3) img # (if tex_params_set c3 then [] else [SetParameters (ct_tex c3)]))
                                else (c3, []))
                          in Some (c4\<lparr>ct_width := d_width d, ct_height := d_height d, last_seq := te_seq env s\<rparr>, True,
                               cs1 @ cs2 @ cs3))))"

text \<open>\<open>fwr_renderer_copy_texture\<close> up to the draw; the result is the texture or 0.\<close>

definition fwr_renderer_copy_texture ::
    "tex_env \<Rightarrow> u32 \<Rightarrow> int \<Rightarrow> int \<Rightarrow> fwr_cached_texture \<Rightarrow> fwr_cached_texture \<times> u32 \<times> tex_call list" where
  "fwr_renderer_copy_texture env texture width height c =
     (if \<not> te_context env \<or> destroyed c then (c, 0, [])
      else
        let need_alloc = (ct_tex c = 0 \<or> ct_width c \<noteq> width \<or> ct_height c \<noteq> height);
            (c1, cs1) = (if ct_tex c = 0
              then (c\<lparr>ct_tex := te_gen_texture env\<rparr>,
                    GenTexture (te_gen_texture env) # (if te_gen_texture env = 0 then [] else [SetParameters (te_gen_texture env)]))
              else (c, []))
        in if ct_tex c1 = 0 then (c1, 0, cs1)
           else
             let cs2 = (if need_alloc then [AllocTexture (ct_tex c1) width height] else [])
             in if need_alloc \<and> \<not> te_alloc_ok env
                then (c1\<lparr>ct_tex := 0, ct_width := 0, ct_height := 0\<rparr>, 0, cs1 @ cs2 @ [DeleteTexture (ct_tex c1)])
                else
                  let c2 = (if need_alloc then c1\<lparr>ct_width := width, ct_height := height\<rparr> else c1);
                      (c3, cs3) = (if ct_fbo c2 = 0
                        then (c2\<lparr>ct_fbo := te_gen_framebuffer env\<rparr>, [GenFramebuffer (te_gen_framebuffer env)]) else (c2, []))
                  in if ct_fbo c3 = 0 then (c3, 0, cs1 @ cs2 @ cs3)
                     else if \<not> te_fbo_complete env
                     then (c3\<lparr>ct_fbo := 0, ct_tex := 0, ct_width := 0, ct_height := 0\<rparr>, 0,
                           cs1 @ cs2 @ cs3 @ [DeleteFramebuffer (ct_fbo c3), DeleteTexture (ct_tex c3)])
                     else (c3, ct_tex c3, cs1 @ cs2 @ cs3 @ [DrawCopy texture (ct_tex c3)]))"

text \<open>\<open>context_bound\<close> is the result of \<open>eglMakeCurrent\<close>.\<close>

definition fwr_cached_texture_destroy ::
    "tex_env \<Rightarrow> bool \<Rightarrow> fwr_cached_texture \<Rightarrow> fwr_cached_texture \<times> tex_call list" where
  "fwr_cached_texture_destroy env context_bound c0 =
     (let c = c0\<lparr>destroyed := True\<rparr>;
          has_egl_images = (\<exists>e \<in> set (egl_cache c). eg_image e \<noteq> 0)
      in if ct_tex c = 0 \<and> ct_fbo c = 0 \<and> \<not> has_egl_images then (c, [])
         else
           let (es, cs) = (if context_bound \<and> has_destroy_image env then clear_images (\<lambda>e. empty_entry) (egl_cache c)
                           else (egl_cache c, []))
           in (c\<lparr>ct_tex := 0, ct_fbo := 0, ct_width := 0, ct_height := 0, last_seq := 0, is_external := False,
                 tex_params_set := False, egl_cache := es, egl_cache_next := 0, current_egl_image := 0\<rparr>,
               (if context_bound then (if ct_tex c \<noteq> 0 then [DeleteTexture (ct_tex c)] else [])
                  @ (if ct_fbo c \<noteq> 0 then [DeleteFramebuffer (ct_fbo c)] else []) else []) @ cs))"

section \<open>A frame of a surface\<close>

text \<open>The fields of \<open>FlutterOpenGLTexture\<close> that vary; \<open>external\<close> is the target \<open>GL_TEXTURE_EXTERNAL_OES\<close>.\<close>

record gl_texture =
  external :: bool
  gt_name :: u32
  gt_width :: nat
  gt_height :: nat

text \<open>What is shown when there is nothing new: the texture of the cache, as \<open>GL_TEXTURE_2D\<close>.\<close>

definition cached_fallback :: "fwr_cached_texture \<Rightarrow> gl_texture option" where
  "cached_fallback c =
     (if ct_tex c \<noteq> 0 \<and> ct_width c > 0 \<and> ct_height c > 0
      then Some \<lparr>external = False, gt_name = ct_tex c, gt_width = nat (ct_width c), gt_height = nat (ct_height c)\<rparr>
      else None)"

text \<open>\<open>actual_width\<close> and \<open>actual_height\<close>.\<close>

definition actual_size :: "tex_env \<Rightarrow> wref \<Rightarrow> nat \<times> nat" where
  "actual_size env s =
     (let (bw, bh) = te_buffer_size env s; (sw, sh) = te_surface_size env s
      in (if bw = 0 then sw else bw, if bh = 0 then sh else bh))"

text \<open>A failed import tells a surface without DMA-BUF from one that has no buffer yet.\<close>

definition detect_shm :: "tex_env \<Rightarrow> wref \<Rightarrow> fwr_cached_texture \<Rightarrow> fwr_cached_texture" where
  "detect_shm env s c =
     (case te_buffer env s of
        None \<Rightarrow> c
      | Some b \<Rightarrow> if te_dmabuf env b = None \<and> buffer_type c = FWR_BUFFER_UNKNOWN
                  then c\<lparr>buffer_type := FWR_BUFFER_SHM\<rparr> else c)"

definition drop_stale_images :: "tex_env \<Rightarrow> fwr_cached_texture \<Rightarrow> fwr_cached_texture \<times> tex_call list" where
  "drop_stale_images env c =
     (if current_egl_image c = 0 then (c, [])
      else
        let (es, cs) = (if has_destroy_image env
               then clear_images (\<lambda>e. e\<lparr>eg_image := 0, eg_buffer := None\<rparr>) (egl_cache c) else (egl_cache c, []))
        in (c\<lparr>egl_cache := es, current_egl_image := 0, ct_tex := 0\<rparr>,
            cs @ (if ct_tex c \<noteq> 0 then [DeleteTexture (ct_tex c)] else [])))"

definition provide_copy ::
    "tex_env \<Rightarrow> wref \<Rightarrow> fwr_cached_texture \<Rightarrow> fwr_cached_texture \<times> gl_texture option \<times> tex_call list" where
  "provide_copy env s c0 =
     (let (aw, ah) = actual_size env s; (c, cs) = drop_stale_images env c0 in
      case te_texture env s of
        None \<Rightarrow> (c, cached_fallback c, cs)
      | Some (tex, ext) \<Rightarrow>
          if tex = 0 then (c, cached_fallback c, cs)
          else
            let (c1, copied, cs1) = fwr_renderer_copy_texture env tex (int aw) (int ah) c in
            if copied = 0 then (c1, cached_fallback c1, cs @ cs1)
            else (c1, Some \<lparr>external = False, gt_name = copied, gt_width = aw, gt_height = ah\<rparr>, cs @ cs1))"

definition provide_surface_texture ::
    "tex_env \<Rightarrow> wref \<Rightarrow> fwr_cached_texture \<Rightarrow> (fwr_cached_texture \<times> gl_texture option \<times> tex_call list) option" where
  "provide_surface_texture env s c =
     (let (aw, ah) = actual_size env s in
      if destroyed c then Some (c, None, [])
      else if aw = 0 \<or> ah = 0 then Some (c, cached_fallback c, [])
      else if buffer_type c = FWR_BUFFER_SHM then Some (provide_copy env s c)
      else
        Option.bind (fwr_renderer_import_surface_dmabuf env s c) (\<lambda>(c1, ok, cs1).
          if ok
          then Some (c1\<lparr>buffer_type := FWR_BUFFER_DMABUF\<rparr>,
                 Some \<lparr>external = is_external c1, gt_name = ct_tex c1, gt_width = aw, gt_height = ah\<rparr>, cs1)
          else let (c2, out, cs2) = provide_copy env s (detect_shm env s c1) in Some (c2, out, cs1 @ cs2)))"

section \<open>Which surface a texture identifier names\<close>

text \<open>
  The identifier is looked up as the handle of a view first, then, by its range, as that of a
  subsurface or a popup. A popup shows its first subsurface when it has one. The caches are the
  \<open>cache\<close> fields of the objects, by the address of the object. The last component tells whether
  the texture of a popup is marked again.
\<close>

definition first_subsurface :: "popup_view \<Rightarrow> wref \<Rightarrow> wref" where
  "first_subsurface pv surf =
     (case pop_below pv @ pop_above pv of Some w # _ \<Rightarrow> w | _ \<Rightarrow> surf)"

datatype texture_owner = NoTexture | Broken | OfView ptr wref | OfSubsurface ptr wref | OfPopup ptr fwr_popup wref

definition texture_owner_of :: "wlr_env \<Rightarrow> int \<Rightarrow> fwr_instance \<Rightarrow> texture_owner" where
  "texture_owner_of env texture_id st =
     (let of_popup = (if texture_id \<ge> 200000
            then (case get_popup st (word_of_int (texture_id - 200000)) of
                    NotFound \<Rightarrow> NoTexture
                  | Dangling \<Rightarrow> Broken
                  | Found q pp \<Rightarrow> (case e_surface env (p_xdg_surface pp) of None \<Rightarrow> NoTexture | Some w \<Rightarrow> OfPopup q pp w))
            else NoTexture)
      in case get_view st (word_of_int texture_id) of
           Dangling \<Rightarrow> Broken
         | Found p v \<Rightarrow> (case e_surface env (v_xdg_surface v) of None \<Rightarrow> NoTexture | Some w \<Rightarrow> OfView p w)
         | NotFound \<Rightarrow>
             if texture_id \<ge> 100000 \<and> texture_id < 200000
             then (case get_subsurface st (word_of_int (texture_id - 100000)) of
                     NotFound \<Rightarrow> of_popup
                   | Dangling \<Rightarrow> Broken
                   | Found q s \<Rightarrow> OfSubsurface q (s_surface s))
             else of_popup)"

definition engine_cb_external_texture ::
    "wlr_env \<Rightarrow> tex_env \<Rightarrow> popup_view \<Rightarrow> int \<Rightarrow> fwr_instance \<Rightarrow> (ptr \<Rightarrow> fwr_cached_texture) \<Rightarrow>
       ((ptr \<Rightarrow> fwr_cached_texture) \<times> gl_texture option \<times> tex_call list \<times> effect list) option" where
  "engine_cb_external_texture env tenv pv texture_id st caches =
     (let provide = (\<lambda>p w. map_option (\<lambda>(c, out, cs). (caches(p := c), out, cs, [])) (provide_surface_texture tenv w (caches p)))
      in case texture_owner_of env texture_id st of
           NoTexture \<Rightarrow> Some (caches, None, [], [])
         | Broken \<Rightarrow> None
         | OfView p w \<Rightarrow> provide p w
         | OfSubsurface p w \<Rightarrow> provide p w
         | OfPopup p pp w \<Rightarrow>
             let content = first_subsurface pv w in
             if te_texture tenv content = None then Some (caches, None, [], [])
             else map_option (\<lambda>(cs', out, cs, es). (cs', out, cs,
                    if out \<noteq> None \<and> p_texture_registered pp then [Engine (MarkFrameAvailable (p_texture_id pp))] else []))
                    (provide p content))"

section \<open>Images, textures and framebuffers are released as often as they are made\<close>

datatype gl_object = Image nat | Texture u32 | Framebuffer u32

fun acquires :: "tex_call \<Rightarrow> gl_object multiset" where
  "acquires (CreateImage attrs i) = (if i = 0 then {#} else {#Image i#})"
| "acquires (GenTexture t) = (if t = 0 then {#} else {#Texture t#})"
| "acquires (GenFramebuffer f) = (if f = 0 then {#} else {#Framebuffer f#})"
| "acquires _ = {#}"

fun releases :: "tex_call \<Rightarrow> gl_object multiset" where
  "releases (DestroyImage i) = {#Image i#}"
| "releases (DeleteTexture t) = {#Texture t#}"
| "releases (DeleteFramebuffer f) = {#Framebuffer f#}"
| "releases _ = {#}"

definition acquired :: "tex_call list \<Rightarrow> gl_object multiset" where "acquired cs = sum_list (map acquires cs)"
definition released :: "tex_call list \<Rightarrow> gl_object multiset" where "released cs = sum_list (map releases cs)"

definition entry_object :: "fwr_eglimage_cache_entry \<Rightarrow> gl_object multiset" where
  "entry_object e = (if eg_image e = 0 then {#} else {#Image (eg_image e)#})"

definition entry_objects :: "fwr_eglimage_cache_entry list \<Rightarrow> gl_object multiset" where
  "entry_objects es = sum_list (map entry_object es)"

definition owned :: "fwr_cached_texture \<Rightarrow> gl_object multiset" where
  "owned c = entry_objects (egl_cache c) + (if ct_tex c = 0 then {#} else {#Texture (ct_tex c)#})
     + (if ct_fbo c = 0 then {#} else {#Framebuffer (ct_fbo c)#})"

definition balanced :: "fwr_cached_texture \<Rightarrow> tex_call list \<Rightarrow> fwr_cached_texture \<Rightarrow> bool" where
  "balanced c cs c' \<longleftrightarrow> owned c + acquired cs = owned c' + released cs"

definition cache_ok :: "fwr_cached_texture \<Rightarrow> bool" where
  "cache_ok c \<longleftrightarrow> length (egl_cache c) = FWR_EGLIMAGE_CACHE_SIZE \<and> egl_cache_next c < FWR_EGLIMAGE_CACHE_SIZE"

lemma call_sums [simp]:
  "acquired [] = {#}" "acquired (x # xs) = acquires x + acquired xs" "acquired (xs @ ys) = acquired xs + acquired ys"
  "released [] = {#}" "released (x # xs) = releases x + released xs" "released (xs @ ys) = released xs + released ys"
  by (simp_all add: acquired_def released_def)

lemma entry_sums [simp]:
  "entry_objects [] = {#}" "entry_objects (e # es) = entry_object e + entry_objects es"
  "entry_object empty_entry = {#}" "eg_image e = 0 \<Longrightarrow> entry_object e = {#}"
  "eg_image e \<noteq> 0 \<Longrightarrow> entry_object e = {#Image (eg_image e)#}"
  by (simp_all add: entry_objects_def entry_object_def empty_entry_def)

lemma lookup_image_spec:
  "lookup_image b w h es = (r, es', cs) \<Longrightarrow>
     length es' = length es \<and> acquired cs = {#} \<and> entry_objects es = entry_objects es' + released cs
     \<and> (\<forall>i. r = Some i \<longrightarrow> (\<exists>e \<in> set es'. eg_image e = i \<and> eg_buffer e = Some b \<and> eg_width e = w \<and> eg_height e = h) \<and> i \<noteq> 0)"
  by (induction es arbitrary: r es' cs) (fastforce split: if_splits prod.splits)+

lemma clear_images_spec:
  assumes "\<And>e. eg_image (f e) = 0"
  shows "clear_images f es = (es', cs) \<Longrightarrow>
     length es' = length es \<and> acquired cs = {#} \<and> entry_objects es' = {#} \<and> released cs = entry_objects es"
  using assms by (induction es arbitrary: es' cs) (fastforce split: if_splits prod.splits)+

lemma entry_objects_update:
  "i < length es \<Longrightarrow> entry_objects (es[i := e]) + entry_object (es ! i) = entry_objects es + entry_object e"
  by (induction es arbitrary: i) (auto split: nat.splits simp: ac_simps)

lemma entry_objects_release:
  assumes "i < length es" and "entry_object e = {#}"
  shows "entry_objects es = entry_objects (es[i := e]) + released (if eg_image (es ! i) \<noteq> 0 then [DestroyImage (eg_image (es ! i))] else [])"
  using entry_objects_update [OF assms(1), of e] assms(2) by (cases "eg_image (es ! i) = 0") simp_all

lemma plane_attribs_length: "length (plane_attribs d i) \<le> 10"
  by (simp add: plane_attribs_def)

lemma sum_list_upto: "(\<And>x. x \<in> set xs \<Longrightarrow> f x \<le> (k::nat)) \<Longrightarrow> sum_list (map f xs) \<le> k * length xs"
  by (induction xs) (fastforce simp: algebra_simps)+

lemma egl_attribs_length: "d_n_planes d \<le> 4 \<Longrightarrow> length (egl_attribs d) \<le> 47"
proof -
  assume "d_n_planes d \<le> 4"
  then have "nat (d_n_planes d) \<le> 4" by simp
  moreover have "sum_list (map (length \<circ> plane_attribs d) [0..<nat (d_n_planes d)]) \<le> 10 * nat (d_n_planes d)"
    using sum_list_upto [of "[0..<nat (d_n_planes d)]" "length \<circ> plane_attribs d" 10] plane_attribs_length by simp
  ultimately have "sum_list (map (length \<circ> plane_attribs d) [0..<nat (d_n_planes d)]) \<le> 40" by linarith
  then show ?thesis by (simp add: egl_attribs_def length_concat)
qed

text \<open>What every operation promises.\<close>

definition keeps_balance :: "fwr_cached_texture \<Rightarrow> tex_call list \<Rightarrow> fwr_cached_texture \<Rightarrow> bool" where
  "keeps_balance c cs c' \<longleftrightarrow> cache_ok c' \<and> balanced c cs c' \<and> destroyed c' = destroyed c"

lemma keeps_balance_refl: "cache_ok c \<Longrightarrow> keeps_balance c [] c"
  by (simp add: keeps_balance_def balanced_def)

lemma keeps_balance_trans: "keeps_balance c cs c1 \<Longrightarrow> keeps_balance c1 cs1 c2 \<Longrightarrow> keeps_balance c (cs @ cs1) c2"
proof -
  assume 1: "keeps_balance c cs c1" and 2: "keeps_balance c1 cs1 c2"
  have "owned c + acquired cs + acquired cs1 = (owned c1 + acquired cs1) + released cs"
    using 1 by (simp add: keeps_balance_def balanced_def ac_simps)
  also have "\<dots> = owned c2 + released cs1 + released cs"
    using 2 by (simp add: keeps_balance_def balanced_def)
  finally have "owned c + acquired cs + acquired cs1 = owned c2 + released cs1 + released cs" .
  then show ?thesis using 1 2 by (simp add: keeps_balance_def balanced_def ac_simps)
qed

lemma keeps_balance_images:
  assumes "cache_ok c'" and f: "ct_tex c' = ct_tex c" "ct_fbo c' = ct_fbo c" "destroyed c' = destroyed c"
    and e: "entry_objects (egl_cache c) + acquired cs = entry_objects (egl_cache c') + released cs"
  shows "keeps_balance c cs c'"
proof -
  let ?r = "(if ct_tex c = 0 then {#} else {#Texture (ct_tex c)#}) + (if ct_fbo c = 0 then {#} else {#Framebuffer (ct_fbo c)#})"
  have "owned c + acquired cs = (entry_objects (egl_cache c) + acquired cs) + ?r" by (simp only: owned_def ac_simps)
  also have "\<dots> = owned c' + released cs" unfolding e owned_def f by (simp only: ac_simps)
  finally show ?thesis using assms(1,4) by (simp add: keeps_balance_def balanced_def)
qed

lemma drop_resized_spec: "cache_ok c \<Longrightarrow> drop_resized d c = (c', cs) \<Longrightarrow> keeps_balance c cs c'"
proof (cases "ct_width c \<noteq> 0 \<and> (ct_width c \<noteq> d_width d \<or> ct_height c \<noteq> d_height d)")
  case True
  assume ok: "cache_ok c" and d: "drop_resized d c = (c', cs)"
  obtain es cs' where cl: "clear_images (\<lambda>e. empty_entry) (egl_cache c) = (es, cs')" by fastforce
  have C: "length es = length (egl_cache c)" "acquired cs' = {#}" "entry_objects es = {#}" "released cs' = entry_objects (egl_cache c)"
    using clear_images_spec [OF _ cl] by (auto simp: empty_entry_def)
  have eq: "c' = c\<lparr>egl_cache := es, current_egl_image := 0, tex_params_set := False\<rparr>" "cs = cs'"
    using True d cl by (simp_all add: drop_resized_def)
  show ?thesis unfolding eq by (rule keeps_balance_images) (use ok C in \<open>simp_all add: cache_ok_def\<close>)
next
  case False
  assume "cache_ok c" and "drop_resized d c = (c', cs)"
  with False show ?thesis by (simp add: drop_resized_def keeps_balance_refl split: if_splits)
qed

lemma create_egl_image_spec:
  assumes "cache_ok c" and "d_n_planes d \<le> 4"
  shows "\<exists>c' cs. create_egl_image env b d c = Some (c', te_create_image env, cs) \<and> keeps_balance c cs c'"
proof -
  have ok: "length (egl_cache c) = 4" "egl_cache_next c < 4" using assms(1) by (simp_all add: cache_ok_def)
  define old where "old = egl_cache c ! egl_cache_next c"
  define cs0 where "cs0 = (if eg_image old \<noteq> 0 then [DestroyImage (eg_image old)] else [])"
  define e where "e = (if te_create_image env \<noteq> 0
      then \<lparr>eg_buffer = Some b, eg_image = te_create_image env, eg_width = d_width d, eg_height = d_height d\<rparr>
      else if eg_image old \<noteq> 0 then old\<lparr>eg_image := 0, eg_buffer := None\<rparr> else old)"
  let ?c = "c\<lparr>egl_cache_next := (egl_cache_next c + 1) mod 4, egl_cache := (egl_cache c)[egl_cache_next c := e]\<rparr>"
  let ?cs = "cs0 @ [CreateImage (egl_attribs d) (te_create_image env)]"
  have g: "create_egl_image env b d c = Some (?c, te_create_image env, ?cs)"
    using ok egl_attribs_length [OF assms(2)]
    by (simp add: create_egl_image_def Let_def old_def cs0_def e_def)
  have u: "entry_objects (egl_cache c) + entry_object e = entry_objects ((egl_cache c)[egl_cache_next c := e]) + entry_object old"
    using entry_objects_update [of "egl_cache_next c" "egl_cache c" e] ok by (simp add: old_def)
  have ev: "entry_object e = acquired ?cs" "entry_object old = released ?cs"
    by (simp_all add: e_def cs0_def)
  have "keeps_balance c ?cs ?c"
    by (rule keeps_balance_images) (use ok u in \<open>simp_all add: cache_ok_def ev\<close>)
  with g show ?thesis by blast
qed

lemma get_or_create_spec:
  assumes "cache_ok c" and "has_destroy_image env"
  shows "\<exists>c' img cs. get_or_create_egl_image env b d c = Some (c', img, cs) \<and> keeps_balance c cs c'"
proof (cases "d_n_planes d \<le> 0 \<or> 4 < d_n_planes d")
  case True
  then show ?thesis using assms(1) by (auto simp: get_or_create_egl_image_def keeps_balance_refl)
next
  case n: False
  obtain r es1 cs1 where l: "lookup_image b (d_width d) (d_height d) (egl_cache c) = (r, es1, cs1)" by (metis prod_cases3)
  let ?c1 = "c\<lparr>egl_cache := es1\<rparr>"
  have L: "length es1 = length (egl_cache c)" "acquired cs1 = {#}" "entry_objects (egl_cache c) = entry_objects es1 + released cs1"
    using lookup_image_spec [OF l] by blast+
  have 1: "keeps_balance c cs1 ?c1"
    by (rule keeps_balance_images) (use assms(1) L in \<open>simp_all add: cache_ok_def\<close>)
  show ?thesis
  proof (cases r)
    case (Some img)
    have "get_or_create_egl_image env b d c = Some (?c1, img, cs1)"
      using n assms(2) Some by (simp add: get_or_create_egl_image_def l)
    with 1 show ?thesis by blast
  next
    case None
    obtain c2 cs2 where d: "drop_resized d ?c1 = (c2, cs2)" by fastforce
    have ok1: "cache_ok ?c1" using 1 by (simp add: keeps_balance_def)
    note 2 = drop_resized_spec [OF ok1 d]
    then have ok2: "cache_ok c2" by (simp add: keeps_balance_def)
    obtain c3 cs3 where c: "create_egl_image env b d c2 = Some (c3, te_create_image env, cs3)" and 3: "keeps_balance c2 cs3 c3"
      using create_egl_image_spec [OF ok2, of d env b] n by auto
    have "get_or_create_egl_image env b d c = Some (c3, te_create_image env, cs1 @ cs2 @ cs3)"
      using n assms(2) None by (simp add: get_or_create_egl_image_def l d c)
    with keeps_balance_trans [OF 1 keeps_balance_trans [OF 2 3]] show ?thesis by blast
  qed
qed

text \<open>The operations that leave the images alone.\<close>

definition names :: "u32 \<Rightarrow> u32 \<Rightarrow> gl_object multiset" where
  "names t f = (if t = 0 then {#} else {#Texture t#}) + (if f = 0 then {#} else {#Framebuffer f#})"

lemma owned_names: "owned c = entry_objects (egl_cache c) + names (ct_tex c) (ct_fbo c)"
  by (simp add: owned_def names_def ac_simps)

lemma keeps_balance_names:
  assumes "cache_ok c" and "egl_cache c' = egl_cache c" "egl_cache_next c' = egl_cache_next c" "destroyed c' = destroyed c"
    and "names (ct_tex c) (ct_fbo c) + acquired cs = names (ct_tex c') (ct_fbo c') + released cs"
  shows "keeps_balance c cs c'"
  using assms by (simp add: keeps_balance_def cache_ok_def balanced_def owned_names union_assoc)

lemma keeps_balance_upd:
  "keeps_balance c cs c' \<Longrightarrow> ct_tex c'' = ct_tex c' \<Longrightarrow> ct_fbo c'' = ct_fbo c' \<Longrightarrow> egl_cache c'' = egl_cache c' \<Longrightarrow>
     egl_cache_next c'' = egl_cache_next c' \<Longrightarrow> destroyed c'' = destroyed c' \<Longrightarrow> keeps_balance c cs c''"
  by (simp add: keeps_balance_def cache_ok_def balanced_def owned_names)

lemma import_spec:
  assumes ok: "cache_ok c" and d: "has_dmabuf_import env \<longrightarrow> has_destroy_image env"
  shows "\<exists>c' r cs. fwr_renderer_import_surface_dmabuf env s c = Some (c', r, cs) \<and> keeps_balance c cs c'"
proof -
  let ?I = "fwr_renderer_import_surface_dmabuf env s c"
  consider (stop) r where "?I = Some (c, r, [])"
    | (go) b d where "has_dmabuf_import env" "?I = Option.bind (get_or_create_egl_image env b d c) (\<lambda>(c1, img, cs1).
           if img = 0 then Some (c1, False, cs1)
           else
             let (c2, cs2) = (if ct_tex c1 = 0
                   then (c1\<lparr>ct_tex := te_gen_texture env\<rparr>, [GenTexture (te_gen_texture env)]) else (c1, []))
             in if ct_tex c2 = 0 then Some (c2, False, cs1 @ cs2)
                else
                  let c3 = c2\<lparr>is_external := True\<rparr>;
                      (c4, cs3) = (if current_egl_image c3 \<noteq> img
                        then (c3\<lparr>tex_params_set := True, current_egl_image := img\<rparr>,
                              BindImage (ct_tex c3) img # (if tex_params_set c3 then [] else [SetParameters (ct_tex c3)]))
                        else (c3, []))
                  in Some (c4\<lparr>ct_width := d_width d, ct_height := d_height d, last_seq := te_seq env s\<rparr>, True,
                       cs1 @ cs2 @ cs3))"
    unfolding fwr_renderer_import_surface_dmabuf_def by (fastforce split: option.splits if_splits)
  then show ?thesis
  proof cases
    case stop
    with keeps_balance_refl [OF ok] show ?thesis by blast
  next
    case (go b d)
    obtain c1 img cs1 where g: "get_or_create_egl_image env b d c = Some (c1, img, cs1)" and 1: "keeps_balance c cs1 c1"
      using get_or_create_spec [OF ok, of env b d] go(1) assms(2) by auto
    have ok1: "cache_ok c1" using 1 by (simp add: keeps_balance_def)
    obtain c2 cs2 where e2: "(if ct_tex c1 = 0 then (c1\<lparr>ct_tex := te_gen_texture env\<rparr>, [GenTexture (te_gen_texture env)])
        else (c1, [])) = (c2, cs2)" by fastforce
    have "keeps_balance c1 cs2 c2"
      by (rule keeps_balance_names [OF ok1]) (use e2 in \<open>auto simp: names_def split: if_splits\<close>)
    note 2 = keeps_balance_trans [OF 1 this]
    then have ok2: "cache_ok c2" by (simp add: keeps_balance_def)
    let ?c3 = "c2\<lparr>is_external := True\<rparr>"
    obtain c4 cs3 where e3: "(if current_egl_image ?c3 \<noteq> img
        then (?c3\<lparr>tex_params_set := True, current_egl_image := img\<rparr>,
              BindImage (ct_tex ?c3) img # (if tex_params_set ?c3 then [] else [SetParameters (ct_tex ?c3)]))
        else (?c3, [])) = (c4, cs3)" by (meson surj_pair)
    have "keeps_balance c2 cs3 (c4\<lparr>ct_width := d_width d, ct_height := d_height d, last_seq := te_seq env s\<rparr>)"
      by (rule keeps_balance_names [OF ok2]) (use e3 in \<open>auto split: if_splits\<close>)
    note 3 = keeps_balance_trans [OF 2 this]
    have r: "?I = (if img = 0 then Some (c1, False, cs1) else if ct_tex c2 = 0 then Some (c2, False, cs1 @ cs2)
        else Some (c4\<lparr>ct_width := d_width d, ct_height := d_height d, last_seq := te_seq env s\<rparr>, True, cs1 @ cs2 @ cs3))"
      unfolding go(2) g by (simp only: bind.bind_lunit prod.case e2 Let_def e3)
    show ?thesis using 1 2 3 unfolding r by auto
  qed
qed

lemma copy_spec:
  assumes ok: "cache_ok c" and r: "fwr_renderer_copy_texture env t w h c = (c', out, cs)"
  shows "keeps_balance c cs c'"
  by (rule keeps_balance_names [OF ok])
    (use r in \<open>auto simp: fwr_renderer_copy_texture_def Let_def names_def split: if_splits\<close>)

lemma drop_stale_spec:
  assumes ok: "cache_ok c" and r: "drop_stale_images env c = (c', cs)"
  shows "keeps_balance c cs c'"
proof (cases "current_egl_image c = 0")
  case True
  with r ok show ?thesis by (simp add: drop_stale_images_def keeps_balance_refl)
next
  case False
  let ?f = "\<lambda>e. e\<lparr>eg_image := 0, eg_buffer := None\<rparr>"
  obtain es cs1 where e: "(if has_destroy_image env then clear_images ?f (egl_cache c) else (egl_cache c, [])) = (es, cs1)"
    by fastforce
  have E: "length es = length (egl_cache c)" "entry_objects (egl_cache c) + acquired cs1 = entry_objects es + released cs1"
    using clear_images_spec [of ?f "egl_cache c" es cs1] e by (auto split: if_splits)
  let ?c1 = "c\<lparr>egl_cache := es\<rparr>"
  let ?cs2 = "if ct_tex c \<noteq> 0 then [DeleteTexture (ct_tex c)] else []"
  have 1: "keeps_balance c cs1 ?c1" by (rule keeps_balance_images) (use ok E in \<open>simp_all add: cache_ok_def\<close>)
  have "keeps_balance ?c1 ?cs2 (?c1\<lparr>current_egl_image := 0, ct_tex := 0\<rparr>)"
    by (rule keeps_balance_names) (use 1 in \<open>simp_all add: names_def keeps_balance_def\<close>)
  note keeps_balance_trans [OF 1 this]
  moreover have "c' = ?c1\<lparr>current_egl_image := 0, ct_tex := 0\<rparr>" "cs = cs1 @ ?cs2"
    using r False e by (simp_all add: drop_stale_images_def)
  ultimately show ?thesis by simp
qed

lemma fallback_name: "cached_fallback c = Some g \<Longrightarrow> gt_name g = ct_tex c \<and> gt_name g \<noteq> 0"
  by (auto simp: cached_fallback_def split: if_splits)

lemma copy_name: "fwr_renderer_copy_texture env t w h c = (c', out, cs) \<Longrightarrow> out \<noteq> 0 \<Longrightarrow> out = ct_tex c'"
  by (auto simp: fwr_renderer_copy_texture_def Let_def split: if_splits)

lemma import_name: "fwr_renderer_import_surface_dmabuf env s c = Some (c', True, cs) \<Longrightarrow> ct_tex c' \<noteq> 0"
  by (auto simp: fwr_renderer_import_surface_dmabuf_def Let_def split: if_splits option.splits bind_splits)

lemma provide_copy_spec:
  assumes ok: "cache_ok c" and r: "provide_copy env s c = (c', out, cs)"
  shows "keeps_balance c cs c' \<and> (\<forall>g. out = Some g \<longrightarrow> gt_name g = ct_tex c' \<and> gt_name g \<noteq> 0)"
proof -
  obtain c1 cs1 where d: "drop_stale_images env c = (c1, cs1)" by fastforce
  note 1 = drop_stale_spec [OF ok d]
  then have ok1: "cache_ok c1" by (simp add: keeps_balance_def)
  obtain aw ah where a: "actual_size env s = (aw, ah)" by fastforce
  consider (none) "te_texture env s = None" | (zero) ext where "te_texture env s = Some (0, ext)"
    | (copy) tex ext where "te_texture env s = Some (tex, ext)" "tex \<noteq> 0"
    by fastforce
  then show ?thesis
  proof cases
    case none with r d a 1 show ?thesis by (auto simp: provide_copy_def dest: fallback_name)
  next
    case zero with r d a 1 show ?thesis by (auto simp: provide_copy_def dest: fallback_name)
  next
    case (copy tex ext)
    obtain c2 copied cs2 where c: "fwr_renderer_copy_texture env tex (int aw) (int ah) c1 = (c2, copied, cs2)"
      by (metis prod_cases3)
    note keeps_balance_trans [OF 1 copy_spec [OF ok1 c]]
    with r d a copy c copy_name [OF c] show ?thesis by (auto simp: provide_copy_def dest: fallback_name split: if_splits)
  qed
qed

lemma provide_spec:
  assumes ok: "cache_ok c" and d: "has_dmabuf_import env \<longrightarrow> has_destroy_image env"
  shows "\<exists>c' out cs. provide_surface_texture env s c = Some (c', out, cs) \<and> keeps_balance c cs c'
    \<and> (\<forall>g. out = Some g \<longrightarrow> gt_name g = ct_tex c' \<and> gt_name g \<noteq> 0)"
proof -
  let ?P = "provide_surface_texture env s c"
  obtain aw ah where a: "actual_size env s = (aw, ah)" by fastforce
  obtain c1 r cs1 where i: "fwr_renderer_import_surface_dmabuf env s c = Some (c1, r, cs1)" and 1: "keeps_balance c cs1 c1"
    using import_spec [OF ok d] by blast
  consider (gone) "destroyed c" | (zero) "\<not> destroyed c" "aw = 0 \<or> ah = 0"
    | (shm) "\<not> destroyed c" "\<not> (aw = 0 \<or> ah = 0)" "buffer_type c = FWR_BUFFER_SHM"
    | (imp) "\<not> destroyed c" "\<not> (aw = 0 \<or> ah = 0)" "buffer_type c \<noteq> FWR_BUFFER_SHM" by blast
  then show ?thesis
  proof cases
    case gone
    with a keeps_balance_refl [OF ok] show ?thesis by (simp add: provide_surface_texture_def)
  next
    case zero
    with a keeps_balance_refl [OF ok] show ?thesis by (auto simp: provide_surface_texture_def dest: fallback_name)
  next
    case shm
    obtain c' out cs where p: "provide_copy env s c = (c', out, cs)" by (metis prod_cases3)
    with shm a have "?P = Some (c', out, cs)" by (simp add: provide_surface_texture_def)
    with provide_copy_spec [OF ok p] show ?thesis by blast
  next
    case imp
    show ?thesis
    proof (cases r)
      case True
      have "keeps_balance c cs1 (c1\<lparr>buffer_type := FWR_BUFFER_DMABUF\<rparr>)" by (rule keeps_balance_upd [OF 1]) simp_all
      moreover from imp a i True have "?P = Some (c1\<lparr>buffer_type := FWR_BUFFER_DMABUF\<rparr>,
          Some \<lparr>external = is_external c1, gt_name = ct_tex c1, gt_width = aw, gt_height = ah\<rparr>, cs1)"
        by (simp add: provide_surface_texture_def)
      moreover have "ct_tex c1 \<noteq> 0" using i True by (auto dest: import_name)
      ultimately show ?thesis by simp
    next
      case False
      have 2: "keeps_balance c cs1 (detect_shm env s c1)"
        by (rule keeps_balance_upd [OF 1]) (simp_all add: detect_shm_def split: option.splits)
      then have ok2: "cache_ok (detect_shm env s c1)" by (simp add: keeps_balance_def)
      obtain c' out cs where p: "provide_copy env s (detect_shm env s c1) = (c', out, cs)" by (metis prod_cases3)
      with imp a i False have "?P = Some (c', out, cs1 @ cs)" by (simp add: provide_surface_texture_def)
      with provide_copy_spec [OF ok2 p] keeps_balance_trans [OF 2] show ?thesis by blast
    qed
  qed
qed

lemma destroy_spec:
  assumes ok: "cache_ok c" and r: "fwr_cached_texture_destroy env True c = (c', cs)" and h: "has_destroy_image env"
  shows "owned c + acquired cs = released cs \<and> destroyed c'"
proof (cases "ct_tex c = 0 \<and> ct_fbo c = 0 \<and> \<not> (\<exists>e \<in> set (egl_cache c). eg_image e \<noteq> 0)")
  case True
  have "entry_objects es = {#}" if "\<not> (\<exists>e \<in> set es. eg_image e \<noteq> 0)" for es
    using that by (induction es) auto
  with True have "owned c = {#}" by (simp add: owned_def)
  with True r show ?thesis by (auto simp: fwr_cached_texture_destroy_def)
next
  case False
  obtain es cs' where cl: "clear_images (\<lambda>e. empty_entry) (egl_cache c) = (es, cs')" by fastforce
  have C: "acquired cs' = {#}" "released cs' = entry_objects (egl_cache c)"
    using clear_images_spec [OF _ cl] by (auto simp: empty_entry_def)
  have "destroyed c'" using r False cl h by (auto simp: fwr_cached_texture_destroy_def Let_def split: if_splits)
  moreover have "cs = (if ct_tex c \<noteq> 0 then [DeleteTexture (ct_tex c)] else [])
      @ (if ct_fbo c \<noteq> 0 then [DeleteFramebuffer (ct_fbo c)] else []) @ cs'"
    using r False cl h by (auto simp: fwr_cached_texture_destroy_def Let_def split: if_splits)
  ultimately show ?thesis by (simp add: owned_names names_def C)
qed

section \<open>The life of a cache\<close>

definition empty_cache :: fwr_cached_texture where
  "empty_cache = \<lparr>ct_tex = 0, ct_fbo = 0, ct_width = 0, ct_height = 0, last_seq = 0, is_external = False,
     tex_params_set = False, destroyed = False, buffer_type = FWR_BUFFER_UNKNOWN,
     egl_cache = replicate FWR_EGLIMAGE_CACHE_SIZE empty_entry, egl_cache_next = 0, current_egl_image = 0\<rparr>"

fun show_frames :: "(tex_env \<times> wref) list \<Rightarrow> fwr_cached_texture \<Rightarrow> (fwr_cached_texture \<times> gl_texture option list \<times> tex_call list) option" where
  "show_frames [] c = Some (c, [], [])"
| "show_frames ((env, s) # fs) c =
     Option.bind (provide_surface_texture env s c) (\<lambda>(c1, out, cs).
       map_option (\<lambda>(c2, outs, cs2). (c2, out # outs, cs @ cs2)) (show_frames fs c1))"

lemma empty_cache_ok: "cache_ok empty_cache" "owned empty_cache = {#}"
  by (simp_all add: cache_ok_def empty_cache_def owned_def numeral_eq_Suc)

lemma show_frames_spec:
  "cache_ok c \<Longrightarrow> \<forall>(env, s) \<in> set fs. has_dmabuf_import env \<longrightarrow> has_destroy_image env \<Longrightarrow>
     \<exists>c' outs cs. show_frames fs c = Some (c', outs, cs) \<and> keeps_balance c cs c'"
proof (induction fs arbitrary: c)
  case Nil
  then show ?case by (simp add: keeps_balance_refl)
next
  case (Cons f fs)
  obtain env s where f: "f = (env, s)" by fastforce
  obtain c1 out cs where 1: "provide_surface_texture env s c = Some (c1, out, cs)" "keeps_balance c cs c1"
    using provide_spec [OF Cons.prems(1), of env s] Cons.prems(2) f by auto
  then have "cache_ok c1" by (simp add: keeps_balance_def)
  with Cons obtain c2 outs cs2 where 2: "show_frames fs c1 = Some (c2, outs, cs2)" "keeps_balance c1 cs2 c2"
    by (metis list.set_intros(2))
  from 1 2 keeps_balance_trans [OF 1(2) 2(2)] show ?case by (simp add: f)
qed

text \<open>
  C11: The texture cache of a surface neither leaks nor frees twice. Start with an empty cache and
  ask for any number of frames, with buffers, sizes, formats and failures of the driver in any
  order: every call stays inside its arrays, every texture given to Flutter is the live texture of
  the cache, and when the surface goes away with the EGL context bound, the images, textures and
  framebuffers that were made are exactly those that were released, each as often.
\<close>
theorem texture_cache_balanced:
  assumes "\<forall>(env, s) \<in> set fs. has_dmabuf_import env \<longrightarrow> has_destroy_image env"
    and "has_destroy_image denv"
  shows "\<exists>c outs cs c' ds. show_frames fs empty_cache = Some (c, outs, cs)
    \<and> (\<forall>env s c1 g cs1. provide_surface_texture env s c = Some (c1, Some g, cs1) \<longrightarrow>
         (has_dmabuf_import env \<longrightarrow> has_destroy_image env) \<longrightarrow> gt_name g = ct_tex c1 \<and> gt_name g \<noteq> 0)
    \<and> fwr_cached_texture_destroy denv True c = (c', ds) \<and> destroyed c'
    \<and> acquired (cs @ ds) = released (cs @ ds)"
proof -
  obtain c outs cs where s: "show_frames fs empty_cache = Some (c, outs, cs)" and k: "keeps_balance empty_cache cs c"
    using show_frames_spec [OF empty_cache_ok(1) assms(1)] by blast
  then have ok: "cache_ok c" by (simp add: keeps_balance_def)
  obtain c' ds where d: "fwr_cached_texture_destroy denv True c = (c', ds)" by fastforce
  note D = destroy_spec [OF ok d assms(2)]
  have "acquired (cs @ ds) = owned c + released cs + acquired ds"
    using k by (simp add: keeps_balance_def balanced_def empty_cache_ok)
  also have "\<dots> = (owned c + acquired ds) + released cs" by (simp only: ac_simps)
  also have "\<dots> = released (cs @ ds)" using D by (simp add: ac_simps)
  finally have "acquired (cs @ ds) = released (cs @ ds)" .
  moreover have "gt_name g = ct_tex c1 \<and> gt_name g \<noteq> 0"
    if "provide_surface_texture env t c = Some (c1, Some g, cs1)" "has_dmabuf_import env \<longrightarrow> has_destroy_image env" for env t c1 g cs1
    using provide_spec [OF ok that(2), of t] that(1) by auto
  ultimately show ?thesis using s d D by blast
qed

text \<open>A DMA-BUF frame and a copied one, then the surface goes away.\<close>

definition sample_dmabuf :: dmabuf_attributes where
  "sample_dmabuf = \<lparr>d_width = 4, d_height = 2, d_format = 0x34325258, d_modifier = 0, d_n_planes = 1,
     d_fd = [7], d_offset = [0], d_stride = [16]\<rparr>"

text \<open>The buffer \<open>b\<close> is committed as commit number \<open>n\<close>; the driver returns the image \<open>i\<close>.\<close>

definition sample_tex_env :: "wref \<Rightarrow> u32 \<Rightarrow> nat \<Rightarrow> tex_env" where
  "sample_tex_env b n i =
     \<lparr>has_dmabuf_import = True, has_destroy_image = True, te_buffer = (\<lambda>_. Some b), te_dmabuf = (\<lambda>_. Some sample_dmabuf),
      te_seq = (\<lambda>_. n), te_create_image = i, te_gen_texture = 5, te_gen_framebuffer = 6, te_buffer_size = (\<lambda>_. (4, 2)),
      te_surface_size = (\<lambda>_. (4, 2)), te_texture = (\<lambda>_. Some (9, False)), te_context = True, te_alloc_ok = True,
      te_fbo_complete = True\<rparr>"

definition no_dmabuf_env :: tex_env where
  "no_dmabuf_env = (sample_tex_env 1 2 8)\<lparr>te_dmabuf := (\<lambda>_. None)\<rparr>"

theorem texture_cache_balanced_witness:
  "\<exists>c outs cs c' ds. show_frames [(sample_tex_env 1 1 8, 3), (no_dmabuf_env, 3)] empty_cache = Some (c, outs, cs)
    \<and> fwr_cached_texture_destroy (sample_tex_env 1 1 8) True c = (c', ds) \<and> acquired (cs @ ds) = released (cs @ ds)"
proof -
  have "\<forall>(env, s) \<in> set [(sample_tex_env 1 1 8, 3), (no_dmabuf_env, 3)]. has_dmabuf_import env \<longrightarrow> has_destroy_image env"
    by (simp add: sample_tex_env_def no_dmabuf_env_def)
  moreover have "has_destroy_image (sample_tex_env 1 1 8)" by (simp add: sample_tex_env_def)
  ultimately have "\<exists>c outs cs c' ds. show_frames [(sample_tex_env 1 1 8, 3), (no_dmabuf_env, 3)] empty_cache = Some (c, outs, cs)
      \<and> (\<forall>env s c1 g cs1. provide_surface_texture env s c = Some (c1, Some g, cs1) \<longrightarrow>
           (has_dmabuf_import env \<longrightarrow> has_destroy_image env) \<longrightarrow> gt_name g = ct_tex c1 \<and> gt_name g \<noteq> 0)
      \<and> fwr_cached_texture_destroy (sample_tex_env 1 1 8) True c = (c', ds) \<and> destroyed c'
      \<and> acquired (cs @ ds) = released (cs @ ds)"
    by (rule texture_cache_balanced)
  then show ?thesis by (elim exE conjE, intro exI conjI)
qed

section \<open>Two ways to show a wrong picture\<close>

text \<open>The binding of an image, the last of the calls that changes what a texture shows.\<close>

fun is_bind :: "tex_call \<Rightarrow> bool" where
  "is_bind (BindImage t i) = True"
| "is_bind _ = False"

lemmas provide_eval =
  provide_surface_texture_def fwr_renderer_import_surface_dmabuf_def get_or_create_egl_image_def create_egl_image_def
  drop_resized_def empty_entry_def actual_size_def egl_attribs_def plane_attribs_def cached_fallback_def

text \<open>
  A surface that swaps among five buffers. The first buffer is shown again, so its image is the one
  bound; the fifth buffer evicts that image and the driver reuses its address.
\<close>

definition five_buffers :: "(tex_env \<times> wref) list" where
  "five_buffers = [(sample_tex_env 1 1 11, 3), (sample_tex_env 2 2 12, 3), (sample_tex_env 3 3 13, 3),
     (sample_tex_env 4 4 14, 3), (sample_tex_env 1 5 99, 3)]"

text \<open>
  The binding of an image is skipped when the address of the image is the bound one, and
  eviction does not forget what is bound. After five frames over four buffers, a frame of a fifth
  buffer whose image gets the address of the evicted one creates that image and never binds it:
  the frame is reported as shown and the texture still has the picture of the first buffer.
\<close>
theorem reused_image_address_not_bound:
  "map_option (\<lambda>(c, outs, cs). (map_option gt_name (last outs), drop 11 cs)) (show_frames (five_buffers @ [(sample_tex_env 5 6 11, 3)]) empty_cache)
     = Some (Some 5, [DestroyImage 11, CreateImage (egl_attribs sample_dmabuf) 11])"
  by code_simp

text \<open>
  A texture made for \<open>GL_TEXTURE_EXTERNAL_OES\<close> is handed out as \<open>GL_TEXTURE_2D\<close>. A frame of a
  DMA-BUF surface is shown with the external target; when the client then has no buffer, the sizes
  are 0 and the same texture is given to Flutter again, with the other target.
\<close>
theorem external_texture_shown_as_2d:
  "map_option (\<lambda>(c, outs, cs). map (map_option (\<lambda>g. (gt_name g, external g))) outs)
     (show_frames [(sample_tex_env 1 1 11, 3),
        ((sample_tex_env 1 2 12)\<lparr>te_buffer_size := (\<lambda>_. (0, 0)), te_surface_size := (\<lambda>_. (0, 0))\<rparr>, 3)] empty_cache)
     = Some [Some (5, True), Some (5, False)]"
  by code_simp

text \<open>Without a context nothing is released, and the cache forgets its texture and framebuffer.\<close>

lemma destroy_without_context:
  "fwr_cached_texture_destroy env False c = (c', cs) \<Longrightarrow> cs = [] \<and> (owned c \<noteq> {#} \<longrightarrow> ct_tex c' = 0 \<and> ct_fbo c' = 0)"
  by (auto simp: fwr_cached_texture_destroy_def Let_def split: if_splits)

section \<open>Identifiers lead back to their surfaces\<close>

lemma tracked_get: "tracks m store hnd \<Longrightarrow> store p = Some ob \<Longrightarrow> handle_map_get m (hnd ob) = Some p"
  by (auto simp: tracks_def)

lemma get_popup_found: "surfaces_ok st \<Longrightarrow> popup_store st p = Some v \<Longrightarrow> get_popup st (p_handle v) = Found p v"
  by (simp add: surfaces_ok_def get_popup_def tracked_get [of "popups st" "popup_store st" p_handle])

lemma get_subsurface_found: "surfaces_ok st \<Longrightarrow> subsurface_store st p = Some v \<Longrightarrow> get_subsurface st (s_handle v) = Found p v"
  by (simp add: surfaces_ok_def get_subsurface_def tracked_get [of "subsurfaces st" "subsurface_store st" s_handle])

lemma get_view_unused:
  assumes "surfaces_ok st" and "\<forall>p v. view_store st p = Some v \<longrightarrow> uint (v_handle v) < 100000" and "100000 \<le> uint h"
  shows "get_view st h = NotFound"
proof (cases "handle_map_get (views st) h")
  case (Some p)
  have "tracks (views st) (view_store st) v_handle" using assms(1) by (simp add: surfaces_ok_def)
  from tracks_get [OF this Some] obtain v where "view_store st p = Some v" "v_handle v = h" by blast
  with assms(2,3) show ?thesis by fastforce
qed (simp add: get_view_def)

lemma texture_id_ranges:
  "uint h < 100000 \<Longrightarrow> subsurface_texture_id h = 100000 + uint h"
  "uint h < 2 ^ 32 - 200000 \<Longrightarrow> popup_texture_id h = 200000 + uint h"
  by (simp_all add: subsurface_texture_id_def popup_texture_id_def uint_plus_if')

text \<open>
  C26: Texture identifiers come back to the surface they were registered for. In every reachable
  state in which no window has a handle of 100000 or more, the identifier of a window, of a
  subsurface (with a handle below 100000) and of a popup leads to exactly that object, although all
  three kinds share the numbers.
\<close>
theorem texture_ids_find_their_surface:
  assumes "reaches (initial_instance eng) evs st"
    and "\<forall>p v. view_store st p = Some v \<longrightarrow> uint (v_handle v) < 100000"
  shows "(view_store st p = Some v \<and> e_surface env (v_xdg_surface v) = Some w \<longrightarrow>
        texture_owner_of env (uint (v_handle v)) st = OfView p w)
    \<and> (subsurface_store st q = Some s \<and> uint (s_handle s) < 100000 \<longrightarrow>
        texture_owner_of env (subsurface_texture_id (s_handle s)) st = OfSubsurface q (s_surface s))
    \<and> (popup_store st q' = Some pp \<and> uint (p_handle pp) < 2 ^ 32 - 200000 \<and> e_surface env (p_xdg_surface pp) = Some w' \<longrightarrow>
        texture_owner_of env (popup_texture_id (p_handle pp)) st = OfPopup q' pp w')"
proof (intro conjI impI; elim conjE)
  have ok: "surfaces_ok st" using reaches_ok [OF assms(1) ok_initial] .
  show "texture_owner_of env (uint (v_handle v)) st = OfView p w"
    if "view_store st p = Some v" "e_surface env (v_xdg_surface v) = Some w"
    using ok_lookup(4) [OF ok, of "v_handle v" p v] that by (simp add: texture_owner_of_def)
  show "texture_owner_of env (subsurface_texture_id (s_handle s)) st = OfSubsurface q (s_surface s)"
    if s: "subsurface_store st q = Some s" "uint (s_handle s) < 100000"
  proof -
    have i: "subsurface_texture_id (s_handle s) = 100000 + uint (s_handle s)" using s(2) by (rule texture_id_ranges)
    have "get_view st (word_of_int (100000 + uint (s_handle s))) = NotFound"
      by (rule get_view_unused [OF ok assms(2)]) (use s(2) in \<open>simp add: uint_plus_if'\<close>)
    then show ?thesis using get_subsurface_found [OF ok s(1)] s(2) by (simp add: texture_owner_of_def i)
  qed
  show "texture_owner_of env (popup_texture_id (p_handle pp)) st = OfPopup q' pp w'"
    if s: "popup_store st q' = Some pp" "uint (p_handle pp) < 2 ^ 32 - 200000" "e_surface env (p_xdg_surface pp) = Some w'"
  proof -
    have i: "popup_texture_id (p_handle pp) = 200000 + uint (p_handle pp)" using s(2) by (rule texture_id_ranges)
    have "get_view st (word_of_int (200000 + uint (p_handle pp))) = NotFound"
      by (rule get_view_unused [OF ok assms(2)]) (use s(2) in \<open>simp add: uint_plus_if'\<close>)
    then show ?thesis using get_popup_found [OF ok s(1)] s(3) by (simp add: texture_owner_of_def i)
  qed
qed

theorem texture_ids_find_their_surface_witness:
  "\<exists>s. subsurface_store window_and_subsurface 9 = Some s
     \<and> texture_owner_of test_env (subsurface_texture_id (s_handle s)) window_and_subsurface = OfSubsurface 9 8"
proof -
  obtain s where s: "subsurface_store window_and_subsurface = [9 \<mapsto> s]" "s_handle s = 1" "s_surface s = 8"
    using window_and_subsurface_reached(3) by blast
  have "\<forall>p v. view_store window_and_subsurface p = Some v \<longrightarrow> uint (v_handle v) < 100000"
    using window_and_subsurface_reached(2) by (auto split: if_splits)
  from texture_ids_find_their_surface [OF window_and_subsurface_reached(1) this, of 7 _ test_env _ 9 s] s
  show ?thesis by simp
qed

end
