(* ===== verification/Compositing.thy ===== *)
theory Compositing
  imports Pages Surfaces
begin

text \<open>
  \<open>src/renderer.c\<close>, the drawing of a presented scene on one monitor: a layer is a texture of Flutter or
  a platform view, the surfaces of a window under the mutations (opacity, transformations, clips) that
  Flutter gives it. The calls that change what is seen are collected in order; vertex arrays,
  shader locations and the state of OpenGL around a draw are not followed.
\<close>

section \<open>Data\<close>

record fwr_output_viewport =
  vp_x :: int
  vp_y :: int
  vp_width :: int
  vp_height :: int

text \<open>The fields of an active \<open>struct fwr_rounded_clip\<close>; all of them are floats.\<close>

record fwr_rounded_clip =
  rect_x :: u64
  rect_y :: u64
  rect_w :: u64
  rect_h :: u64
  radius_tl :: u64
  radius_tr :: u64
  radius_br :: u64
  radius_bl :: u64

text \<open>
  What the drawing reads besides \<open>wlr_env\<close>: whether a surface has a texture, and the surfaces that
  \<open>wlr_surface_for_each_surface\<close> visits with their positions.
\<close>

record render_env =
  re_wlr :: wlr_env
  re_has_texture :: "wref \<Rightarrow> bool"
  re_surfaces :: "wref \<Rightarrow> (wref \<times> int \<times> int) list"

text \<open>
  \<open>AddTexture\<close> is \<open>wlr_render_pass_add_texture\<close> with the texture and the source box of the surface, its
  destination box, alpha and clip; \<open>DrawRounded\<close> the quad of \<open>render_surface_rounded_iterator\<close> with its
  uniforms; \<open>DrawLayer\<close> the quad of a texture of Flutter. Corners are given as left, right, top and
  bottom of the quad.
\<close>

datatype draw_call =
    AddTexture wref wlr_box u64 "region option"
  | DrawRounded wref "u64 \<times> u64 \<times> u64 \<times> u64" u64 fwr_rounded_clip u64
  | DrawLayer u32 "u64 \<times> u64 \<times> u64 \<times> u64"
  | TexturedOnOutput wref wref
  | SendFrameDone wref
  | WaitSync nat
  | DestroySceneSync nat

section \<open>Surfaces of a platform view\<close>

abbreviation "d0 \<equiv> f64_of_int 0"
abbreviation "d1 \<equiv> f64_of_int 1"
abbreviation "d2 \<equiv> f64_of_int 2"

text \<open>\<open>1.01\<close>\<close>

definition scale_threshold :: u64 where "scale_threshold = 0x3FF028F5C28F5C29"

text \<open>The scaling of one axis that hides a client lagging behind a resize.\<close>

definition content_scale :: "u64 \<Rightarrow> int \<Rightarrow> u64" where
  "content_scale layer_extent surf_extent =
     (let s = f64_div layer_extent (f64_of_int surf_extent);
          c = (if f64_isfinite s \<and> f64_lt scale_threshold s then s else d1)
      in if \<not> f64_isfinite c \<or> f64_le c d0 then d1 else c)"

definition content_scales :: "u64 \<times> u64 \<Rightarrow> int \<Rightarrow> int \<Rightarrow> u64 \<times> u64" where
  "content_scales extent surf_w surf_h =
     (if surf_w > 0 \<and> surf_h > 0 \<and> f64_lt d0 (fst extent) \<and> f64_lt d0 (snd extent)
      then (content_scale (fst extent) surf_w, content_scale (snd extent) surf_h) else (d1, d1))"

text \<open>The parts of \<open>fwr_surface_render_data\<close> and \<open>fwr_rounded_render_data\<close> that are common.\<close>

record fwr_surface_render_data =
  rd_transform :: flutter_transformation
  rd_output_scale :: u64
  content_scale_x :: u64
  content_scale_y :: u64
  rd_viewport :: fwr_output_viewport

definition surface_dst_box :: "render_env \<Rightarrow> fwr_surface_render_data \<Rightarrow> wref \<Rightarrow> int \<Rightarrow> int \<Rightarrow> wlr_box option" where
  "surface_dst_box env rd surface sx sy =
     (let left = f64_mul (f64_of_int sx) (content_scale_x rd);
          upper = f64_mul (f64_of_int sy) (content_scale_y rd);
          right = f64_add left (f64_mul (f64_of_int (e_surface_width (re_wlr env) surface)) (content_scale_x rd));
          lower = f64_add upper (f64_mul (f64_of_int (e_surface_height (re_wlr env) surface)) (content_scale_y rd))
      in Option.bind (flutter_transform_rect (rd_transform rd) left upper right lower) (\<lambda>b0.
         Option.bind (scale_box b0 (rd_output_scale rd)) (\<lambda>b.
         Option.bind (i32 (box_x b - vp_x (rd_viewport rd))) (\<lambda>x.
         Option.bind (i32 (box_y b - vp_y (rd_viewport rd))) (\<lambda>y.
           Some (b\<lparr>box_x := x, box_y := y\<rparr>))))))"

definition render_surface_iterator ::
    "render_env \<Rightarrow> fwr_surface_render_data \<Rightarrow> u64 \<Rightarrow> region option \<Rightarrow> wref \<times> int \<times> int \<Rightarrow> draw_call list option" where
  "render_surface_iterator env rd alpha clip s =
     (case s of (surface, sx, sy) \<Rightarrow>
        if \<not> re_has_texture env surface then Some []
        else map_option (\<lambda>b. [AddTexture surface b alpha clip]) (surface_dst_box env rd surface sx sy))"

text \<open>\<open>((float)v / (float)extent) * 2.0f - 1.0f\<close> and \<open>1.0f - ((float)v / (float)extent) * 2.0f\<close>\<close>

definition ndc :: "int \<Rightarrow> int \<Rightarrow> u64" where
  "ndc v extent = float_sub (float_mul (float_div (float_of_int v) (float_of_int extent)) d2) d1"

definition ndc_flipped :: "int \<Rightarrow> int \<Rightarrow> u64" where
  "ndc_flipped v extent = float_sub d1 (float_mul (float_div (float_of_int v) (float_of_int extent)) d2)"

definition render_surface_rounded_iterator ::
    "render_env \<Rightarrow> fwr_surface_render_data \<Rightarrow> u64 \<Rightarrow> fwr_rounded_clip \<Rightarrow> wref \<times> int \<times> int \<Rightarrow> draw_call list option" where
  "render_surface_rounded_iterator env rd opacity rc s =
     (case s of (surface, sx, sy) \<Rightarrow>
        if \<not> re_has_texture env surface then Some []
        else
          let total = e_layout_box (re_wlr env) None;
              output_width = (if box_width total > 0 then box_width total else 1);
              output_height = (if box_height total > 0 then box_height total else 1);
              vp = rd_viewport rd;
              view_width = (if vp_width vp > 0 then vp_width vp else output_width);
              view_height = (if vp_height vp > 0 then vp_height vp else output_height)
          in Option.bind (surface_dst_box env rd surface sx sy) (\<lambda>b.
             Option.bind (i32 (box_x b + box_width b)) (\<lambda>right.
             Option.bind (i32 (box_y b + box_height b)) (\<lambda>lower.
               Some [DrawRounded surface
                 (ndc (box_x b) view_width, ndc right view_width, ndc_flipped (box_y b) view_height, ndc_flipped lower view_height)
                 opacity rc (float_of_int output_height)]))))"

section \<open>Mutations\<close>

record mutation_state =
  ms_opacity :: u64
  current_transform :: flutter_transformation
  transform_affine :: bool
  clip_region :: "region option"
  rounded_clip :: "fwr_rounded_clip option"

definition initial_mutation_state :: mutation_state where
  "initial_mutation_state =
     \<lparr>ms_opacity = d1,
      current_transform = \<lparr>scaleX = d1, skewX = d0, transX = d0, skewY = d0, scaleY = d1, transY = d0, pers0 = d0, pers1 = d0, pers2 = d1\<rparr>,
      transform_affine = True, clip_region = None, rounded_clip = None\<rparr>"

text \<open>A clip is the first one or intersects those before.\<close>

definition add_clip :: "region \<Rightarrow> mutation_state \<Rightarrow> mutation_state" where
  "add_clip tmp ms =
     ms\<lparr>clip_region := Some (case clip_region ms of None \<Rightarrow> tmp | Some c \<Rightarrow> Intersect c tmp)\<rparr>"

definition box_region :: "wlr_box \<Rightarrow> region" where
  "box_region b = Region_rect (box_x b) (box_y b) (box_width b) (box_height b)"

definition mutation_box :: "u64 \<Rightarrow> mutation_state \<Rightarrow> u64 \<Rightarrow> u64 \<Rightarrow> u64 \<Rightarrow> u64 \<Rightarrow> wlr_box option" where
  "mutation_box output_scale ms l t r b =
     Option.bind (flutter_transform_rect (current_transform ms) l t r b) (\<lambda>b0. scale_box b0 output_scale)"

text \<open>The corner radii in pixels, width and height of each.\<close>

definition pixel_radii :: "u64 \<Rightarrow> rounded_rect \<Rightarrow> corner_radii option" where
  "pixel_radii output_scale rr =
     Option.bind (lround_mul (fst (rr_upper_left rr)) output_scale) (\<lambda>tlx.
     Option.bind (lround_mul (snd (rr_upper_left rr)) output_scale) (\<lambda>tly.
     Option.bind (lround_mul (fst (rr_upper_right rr)) output_scale) (\<lambda>trx.
     Option.bind (lround_mul (snd (rr_upper_right rr)) output_scale) (\<lambda>try.
     Option.bind (lround_mul (fst (rr_lower_right rr)) output_scale) (\<lambda>brx.
     Option.bind (lround_mul (snd (rr_lower_right rr)) output_scale) (\<lambda>bry.
     Option.bind (lround_mul (fst (rr_lower_left rr)) output_scale) (\<lambda>blx.
     Option.bind (lround_mul (snd (rr_lower_left rr)) output_scale) (\<lambda>bly.
       Some \<lparr>r_tl_x = tlx, r_tl_y = tly, r_tr_x = trx, r_tr_y = try, r_br_x = brx, r_br_y = bry, r_bl_x = blx, r_bl_y = bly\<rparr>))))))))"

text \<open>\<open>r > 0.5f\<close> for the radius of a corner as a float.\<close>

definition float_radius :: "u64 \<Rightarrow> u64 \<times> u64 \<Rightarrow> u64" where
  "float_radius output_scale corner = to_float (f64_mul (fst corner) output_scale)"

definition is_round :: "u64 \<Rightarrow> bool" where "is_round r = f64_lt 0x3FE0000000000000 r"

definition has_any_radius :: "fwr_view \<Rightarrow> u64 \<Rightarrow> rounded_rect \<Rightarrow> bool" where
  "has_any_radius view output_scale rr \<longleftrightarrow> \<not> (v_maximized view \<or> v_fullscreen view) \<and>
     (is_round (float_radius output_scale (rr_upper_left rr)) \<or> is_round (float_radius output_scale (rr_upper_right rr))
      \<or> is_round (float_radius output_scale (rr_lower_right rr)) \<or> is_round (float_radius output_scale (rr_lower_left rr)))"

text \<open>Only the first rounded clip of a view is kept for the shader.\<close>

definition note_rounded_clip :: "fwr_view \<Rightarrow> u64 \<Rightarrow> rounded_rect \<Rightarrow> wlr_box \<Rightarrow> mutation_state \<Rightarrow> mutation_state" where
  "note_rounded_clip view output_scale rr b ms =
     (if has_any_radius view output_scale rr \<and> rounded_clip ms = None
      then ms\<lparr>rounded_clip := Some
        \<lparr>rect_x = float_of_int (box_x b), rect_y = float_of_int (box_y b), rect_w = float_of_int (box_width b),
         rect_h = float_of_int (box_height b), radius_tl = float_radius output_scale (rr_upper_left rr),
         radius_tr = float_radius output_scale (rr_upper_right rr), radius_br = float_radius output_scale (rr_lower_right rr),
         radius_bl = float_radius output_scale (rr_lower_left rr)\<rparr>\<rparr>
      else ms)"

definition rounded_region :: "fwr_view \<Rightarrow> u64 \<Rightarrow> rounded_rect \<Rightarrow> wlr_box \<Rightarrow> region option" where
  "rounded_region view output_scale rr b =
     (if v_maximized view \<or> v_fullscreen view \<or> \<not> has_any_radius view output_scale rr then Some (box_region b)
      else Option.bind (pixel_radii output_scale rr)
        (pixman_region32_init_rounded_rect (box_x b) (box_y b) (box_width b) (box_height b)))"

definition clip_rounded :: "fwr_view \<Rightarrow> u64 \<Rightarrow> rounded_rect \<Rightarrow> mutation_state \<Rightarrow> mutation_state option" where
  "clip_rounded view output_scale rr ms =
     Option.bind (mutation_box output_scale ms (rr_left rr) (rr_top rr) (rr_right rr) (rr_bottom rr)) (\<lambda>b.
       map_option (\<lambda>tmp. add_clip tmp (note_rounded_clip view output_scale rr b ms)) (rounded_region view output_scale rr b))"

definition mutate :: "fwr_view \<Rightarrow> u64 \<Rightarrow> flutter_mutation \<Rightarrow> mutation_state \<Rightarrow> mutation_state option" where
  "mutate view output_scale m ms =
     (case m of
        Opacity v \<Rightarrow> Some (ms\<lparr>ms_opacity := to_float (f64_mul (ms_opacity ms) v)\<rparr>)
      | Transformation t \<Rightarrow>
          Some (if \<not> flutter_transform_is_affine t then ms\<lparr>transform_affine := False\<rparr>
                else ms\<lparr>current_transform := flutter_transform_multiply t (current_transform ms)\<rparr>)
      | ClipRect l t r b \<Rightarrow> map_option (\<lambda>bx. add_clip (box_region bx) ms) (mutation_box output_scale ms l t r b)
      | ClipRoundedRect rr \<Rightarrow> clip_rounded view output_scale rr ms
      | Other_mutation \<Rightarrow> Some ms)"

fun mutate_all :: "fwr_view \<Rightarrow> u64 \<Rightarrow> flutter_mutation list \<Rightarrow> mutation_state \<Rightarrow> mutation_state option" where
  "mutate_all view output_scale [] ms = Some ms"
| "mutate_all view output_scale (m # rest') ms = Option.bind (mutate view output_scale m ms) (mutate_all view output_scale rest')"

section \<open>Layers\<close>

fun concat_option :: "'a list option list \<Rightarrow> 'a list option" where
  "concat_option [] = Some []"
| "concat_option (x # xs) = Option.bind x (\<lambda>a. map_option (\<lambda>b. a @ b) (concat_option xs))"

text \<open>The output of a view, or the first one; its scale, 1 without outputs.\<close>

definition view_output :: "fwr_view \<Rightarrow> fwr_instance \<Rightarrow> ptr option" where
  "view_output view st = (case v_current_output view of Some p \<Rightarrow> Some p | None \<Rightarrow> fwr_get_first_output st)"

definition render_view ::
    "render_env \<Rightarrow> u64 \<times> u64 \<Rightarrow> flutter_mutation list \<Rightarrow> fwr_output_viewport \<Rightarrow> fwr_view \<Rightarrow> fwr_instance \<Rightarrow> draw_call list option" where
  "render_view env layer_extent mutations viewport view st =
     Option.bind (output_scale_of (re_wlr env) st (view_output view st)) (\<lambda>output_scale.
     Option.bind (e_surface (re_wlr env) (v_xdg_surface view)) (\<lambda>surface.
     let (csx, csy) = content_scales layer_extent (e_surface_width (re_wlr env) surface) (e_surface_height (re_wlr env) surface)
     in Option.bind (mutate_all view output_scale mutations initial_mutation_state) (\<lambda>ms.
          let rd = \<lparr>rd_transform = current_transform ms, rd_output_scale = output_scale, content_scale_x = csx,
                    content_scale_y = csy, rd_viewport = viewport\<rparr>
          in Option.bind
               (concat_option (map (case rounded_clip ms of
                    Some rc \<Rightarrow> render_surface_rounded_iterator env rd (ms_opacity ms) rc
                  | None \<Rightarrow> render_surface_iterator env rd (ms_opacity ms) (clip_region ms)) (re_surfaces env surface)))
               (\<lambda>draws.
             Option.bind (case view_output view st of None \<Rightarrow> Some []
                | Some p \<Rightarrow> map_option (\<lambda>o'. [TexturedOnOutput surface (out_wlr o')]) (output_store st p)) (\<lambda>pres.
               Some (draws @ pres @ [SendFrameDone surface]))))))"

definition render_scene_layer_platform ::
    "render_env \<Rightarrow> int \<Rightarrow> u64 \<times> u64 \<Rightarrow> flutter_mutation list \<Rightarrow> fwr_output_viewport \<Rightarrow> fwr_instance \<Rightarrow> draw_call list option" where
  "render_scene_layer_platform env platform_view_id layer_extent mutations viewport st =
     (case get_view st (word_of_int platform_view_id) of
        NotFound \<Rightarrow> Some []
      | Dangling \<Rightarrow> None
      | Found p view \<Rightarrow> render_view env layer_extent mutations viewport view st)"

definition render_scene_layer_texture ::
    "u64 \<times> u64 \<Rightarrow> u64 \<times> u64 \<Rightarrow> fwr_renderer_page_texture \<Rightarrow> fwr_output_viewport \<Rightarrow> draw_call list" where
  "render_scene_layer_texture offset extent tex viewport =
     (let output_width = f64_of_int (if vp_width viewport > 0 then vp_width viewport else 1);
          output_height = f64_of_int (if vp_height viewport > 0 then vp_height viewport else 1);
          vx = f64_of_int (vp_x viewport); vy = f64_of_int (vp_y viewport);
          x0 = f64_sub (f64_floor (fst offset)) vx; y0 = f64_sub (f64_floor (snd offset)) vy;
          x1 = f64_sub (f64_ceil (f64_add (fst offset) (fst extent))) vx;
          y1 = f64_sub (f64_ceil (f64_add (snd offset) (snd extent))) vy;
          left = to_float (f64_sub (f64_mul (f64_div x0 output_width) d2) d1);
          right = to_float (f64_sub (f64_mul (f64_div x1 output_width) d2) d1);
          upper = to_float (f64_sub d1 (f64_mul (f64_div y0 output_height) d2));
          lower = to_float (f64_sub d1 (f64_mul (f64_div y1 output_height) d2))
      in [DrawLayer (pt_texture tex) (left, right, upper, lower)])"

definition render_layer ::
    "render_env \<Rightarrow> fwr_output_viewport \<Rightarrow> fwr_instance \<Rightarrow> fwr_renderer \<Rightarrow> fwr_renderer_scene_layer \<Rightarrow> draw_call list option" where
  "render_layer env viewport st r l =
     (case layer_content l of
        sceneLayerPlatform view_id mutations \<Rightarrow> render_scene_layer_platform env view_id (layer_size l) mutations viewport st
      | sceneLayerTexture p \<Rightarrow>
          map_option (\<lambda>t. render_scene_layer_texture (layer_offset l) (layer_size l) t viewport) (texture_store r p))"

definition fwr_renderer_render_scene ::
    "render_env \<Rightarrow> fwr_output_viewport \<Rightarrow> fwr_instance \<Rightarrow> fwr_renderer \<Rightarrow> (fwr_renderer \<times> draw_call list) option" where
  "fwr_renderer_render_scene env viewport st r =
     (let (r1, ds) = (if scene_sync r \<noteq> 0 then (r\<lparr>scene_sync := 0\<rparr>, [WaitSync (scene_sync r), DestroySceneSync (scene_sync r)])
                      else (r, []))
      in map_option (\<lambda>es. (r1, ds @ es)) (concat_option (map (render_layer env viewport st r1) (layers r1))))"

section \<open>Integral coordinates are exact\<close>

text \<open>A translation by whole pixels, and the mutation Flutter sends for it.\<close>

definition translation :: "int \<Rightarrow> int \<Rightarrow> flutter_transformation" where
  "translation x y =
     \<lparr>scaleX = d1, skewX = d0, transX = f64_of_int x, skewY = d0, scaleY = d1, transY = f64_of_int y,
      pers0 = d0, pers1 = d0, pers2 = d1\<rparr>"

definition is_translation :: "flutter_transformation \<Rightarrow> int \<Rightarrow> int \<Rightarrow> bool" where
  "is_translation t x y \<longleftrightarrow>
     f64_is (scaleX t) (of_int 1) \<and> f64_is (skewX t) (of_int 0) \<and> f64_is (transX t) (of_int x)
     \<and> f64_is (skewY t) (of_int 0) \<and> f64_is (scaleY t) (of_int 1) \<and> f64_is (transY t) (of_int y)
     \<and> f64_is (pers0 t) (of_int 0) \<and> f64_is (pers1 t) (of_int 0) \<and> f64_is (pers2 t) (of_int 1)"

lemma units: "f64_is d0 (of_int 0)" "f64_is d1 (of_int 1)"
  by (rule f64_is_of_int, simp)+

lemma is_translation: "\<bar>x\<bar> < 2 ^ 53 \<Longrightarrow> \<bar>y\<bar> < 2 ^ 53 \<Longrightarrow> is_translation (translation x y) x y"
  using units f64_is_of_int [of x] f64_is_of_int [of y] by (simp add: is_translation_def translation_def)

lemma sum3_int:
  assumes "f64_is a (of_int a')" "f64_is x (of_int x')" "f64_is b (of_int b')" "f64_is y (of_int y')"
    "f64_is c (of_int c')" "f64_is z (of_int z')" and "\<bar>a' * x'\<bar> < 2 ^ 51" "\<bar>b' * y'\<bar> < 2 ^ 51" "\<bar>c' * z'\<bar> < 2 ^ 51"
  shows "f64_is (sum3 a x b y c z) (of_int (a' * x' + b' * y' + c' * z'))"
  unfolding sum3_def using assms
  by (intro f64_is_add_int f64_is_mul_int) (simp_all add: abs_less_iff)

lemma multiply_translations:
  assumes "is_translation s a b" "is_translation t c d" and "\<bar>a\<bar> < 2 ^ 50" "\<bar>b\<bar> < 2 ^ 50" "\<bar>c\<bar> < 2 ^ 50" "\<bar>d\<bar> < 2 ^ 50"
  shows "is_translation (flutter_transform_multiply s t) (c + a) (d + b)"
proof -
  have S: "f64_is (scaleX s) (of_int 1)" "f64_is (skewX s) (of_int 0)" "f64_is (transX s) (of_int a)"
    "f64_is (skewY s) (of_int 0)" "f64_is (scaleY s) (of_int 1)" "f64_is (transY s) (of_int b)"
    "f64_is (pers0 s) (of_int 0)" "f64_is (pers1 s) (of_int 0)" "f64_is (pers2 s) (of_int 1)"
    using assms(1) unfolding is_translation_def by blast+
  have T: "f64_is (scaleX t) (of_int 1)" "f64_is (skewX t) (of_int 0)" "f64_is (transX t) (of_int c)"
    "f64_is (skewY t) (of_int 0)" "f64_is (scaleY t) (of_int 1)" "f64_is (transY t) (of_int d)"
    "f64_is (pers0 t) (of_int 0)" "f64_is (pers1 t) (of_int 0)" "f64_is (pers2 t) (of_int 1)"
    using assms(2) unfolding is_translation_def by blast+
  note s3 = sum3_int [OF S(1) _ S(2) _ S(3)] sum3_int [OF S(4) _ S(5) _ S(6)] sum3_int [OF S(7) _ S(8) _ S(9)]
  show ?thesis unfolding is_translation_def flutter_transform_multiply_def
    using s3(1) [OF T(1,4,7)] s3(1) [OF T(2,5,8)] s3(1) [OF T(3,6,9)]
      s3(2) [OF T(1,4,7)] s3(2) [OF T(2,5,8)] s3(2) [OF T(3,6,9)]
      s3(3) [OF T(1,4,7)] s3(3) [OF T(2,5,8)] s3(3) [OF T(3,6,9)] assms(3-6)
    by simp
qed

lemma translation_affine: "is_translation t x y \<Longrightarrow> flutter_transform_is_affine t"
proof -
  assume "is_translation t x y"
  then have "f64_is (pers0 t) (of_int 0)" "f64_is (pers1 t) (of_int 0)" "f64_is (pers2 t) (of_int 1)"
    unfolding is_translation_def by blast+
  then show ?thesis using f64_is_equal [OF _ units(1)] f64_is_equal [OF _ units(2)]
    unfolding flutter_transform_is_affine_def by simp
qed

fun sum_moves :: "(int \<times> int) list \<Rightarrow> int \<times> int" where
  "sum_moves [] = (0, 0)"
| "sum_moves ((x, y) # ps) = (x + fst (sum_moves ps), y + snd (sum_moves ps))"

text \<open>No position on the way leaves the range.\<close>

fun in_range :: "int \<Rightarrow> int \<Rightarrow> int \<Rightarrow> (int \<times> int) list \<Rightarrow> bool" where
  "in_range k a b [] = (\<bar>a\<bar> < k \<and> \<bar>b\<bar> < k)"
| "in_range k a b ((x, y) # ps) = (\<bar>a\<bar> < k \<and> \<bar>b\<bar> < k \<and> \<bar>x\<bar> < k \<and> \<bar>y\<bar> < k \<and> in_range k (a + x) (b + y) ps)"

definition move :: "int \<times> int \<Rightarrow> flutter_mutation" where
  "move p = Transformation (translation (fst p) (snd p))"

lemma mutate_moves:
  assumes "is_translation (current_transform ms) a b" and "in_range (2 ^ 50) a b ps"
  shows "\<exists>t. mutate_all view sc (map move ps) ms = Some (ms\<lparr>current_transform := t\<rparr>)
    \<and> is_translation t (a + fst (sum_moves ps)) (b + snd (sum_moves ps))"
  using assms
proof (induction ps arbitrary: ms a b)
  case Nil
  then show ?case by (intro exI [of _ "current_transform ms"]) simp
next
  case (Cons p ps)
  obtain x y where p: "p = (x, y)" by fastforce
  have r: "\<bar>a\<bar> < 2 ^ 50" "\<bar>b\<bar> < 2 ^ 50" "\<bar>x\<bar> < 2 ^ 50" "\<bar>y\<bar> < 2 ^ 50" "in_range (2 ^ 50) (a + x) (b + y) ps"
    using Cons.prems(2) by (simp_all add: p)
  have T: "is_translation (translation x y) x y" using r by (intro is_translation) simp_all
  let ?t = "flutter_transform_multiply (translation x y) (current_transform ms)"
  have "is_translation ?t (a + x) (b + y)" by (rule multiply_translations [OF T Cons.prems(1) r(3,4,1,2)])
  with Cons.IH [of "ms\<lparr>current_transform := ?t\<rparr>" "a + x" "b + y"] r(5) obtain t where
    "mutate_all view sc (map move ps) (ms\<lparr>current_transform := ?t\<rparr>) = Some (ms\<lparr>current_transform := t\<rparr>)"
    "is_translation t (a + x + fst (sum_moves ps)) (b + y + snd (sum_moves ps))" by auto
  moreover have "mutate view sc (move p) ms = Some (ms\<lparr>current_transform := ?t\<rparr>)"
    using translation_affine [OF T] by (simp add: mutate_def move_def p)
  ultimately have "mutate_all view sc (map move (p # ps)) ms = Some (ms\<lparr>current_transform := t\<rparr>)"
    "is_translation t (a + fst (sum_moves (p # ps))) (b + snd (sum_moves (p # ps)))" by (simp_all add: p ac_simps)
  then show ?case by blast
qed

lemma transform_point_int:
  assumes t: "is_translation t a b" and "f64_is x (of_int i)" "f64_is y (of_int j)"
    and "\<bar>i\<bar> < 2 ^ 50" "\<bar>j\<bar> < 2 ^ 50" "\<bar>a\<bar> < 2 ^ 50" "\<bar>b\<bar> < 2 ^ 50"
  shows "f64_is (fst (flutter_transform_point t x y)) (of_int (i + a))" "f64_is (snd (flutter_transform_point t x y)) (of_int (j + b))"
proof -
  have T: "f64_is (scaleX t) (of_int 1)" "f64_is (skewX t) (of_int 0)" "f64_is (transX t) (of_int a)"
    "f64_is (skewY t) (of_int 0)" "f64_is (scaleY t) (of_int 1)" "f64_is (transY t) (of_int b)"
    using t unfolding is_translation_def by blast+
  have "f64_is (f64_mul x (scaleX t)) (of_int (i * 1))" "f64_is (f64_mul y (skewX t)) (of_int (j * 0))"
    "f64_is (f64_mul x (skewY t)) (of_int (i * 0))" "f64_is (f64_mul y (scaleY t)) (of_int (j * 1))"
    by (rule f64_is_mul_int [OF assms(2) T(1)] f64_is_mul_int [OF assms(3) T(2)] f64_is_mul_int [OF assms(2) T(4)]
        f64_is_mul_int [OF assms(3) T(5)], use assms(4,5) in simp)+
  then have "f64_is (f64_add (f64_mul x (scaleX t)) (f64_mul y (skewX t))) (of_int (i * 1 + j * 0))"
    "f64_is (f64_add (f64_mul x (skewY t)) (f64_mul y (scaleY t))) (of_int (i * 0 + j * 1))"
    using assms(4,5) by (intro f64_is_add_int; simp)+
  from f64_is_add_int [OF this(1) T(3)] f64_is_add_int [OF this(2) T(6)] assms(4-7)
  show "f64_is (fst (flutter_transform_point t x y)) (of_int (i + a))" "f64_is (snd (flutter_transform_point t x y)) (of_int (j + b))"
    by (simp_all add: flutter_transform_point_def abs_less_iff)
qed

lemma min_max_of_int:
  "f64_is v (of_int i) \<Longrightarrow> f64_is w (of_int j) \<Longrightarrow> f64_is (f64_fmin v w) (of_int (min i j))"
  "f64_is v (of_int i) \<Longrightarrow> f64_is w (of_int j) \<Longrightarrow> f64_is (f64_fmax v w) (of_int (max i j))"
  using f64_is_fmin [of v "of_int i" w "of_int j"] f64_is_fmax [of v "of_int i" w "of_int j"]
  by (auto simp: min_def max_def split: if_splits)

lemma floor_ceil_of_int:
  assumes "f64_is v (of_int i)" and "\<bar>i\<bar> < 2 ^ 52"
  shows "f64_is (f64_floor v) (of_int i)" "f64_is (f64_ceil v) (of_int i)"
proof -
  have "\<bar>of_int i :: rat\<bar> \<le> 2 ^ 52" using assms(2) by (simp add: abs_le_iff abs_less_iff flip: of_int_minus)
  with f64_is_floor [OF assms(1)] f64_is_ceil [OF assms(1)]
  show "f64_is (f64_floor v) (of_int i)" "f64_is (f64_ceil v) (of_int i)" by simp_all
qed

lemma f64_is_sub_int: "f64_is a (of_int i) \<Longrightarrow> f64_is b (of_int j) \<Longrightarrow> \<bar>i - j\<bar> < 2 ^ 53 \<Longrightarrow> f64_is (f64_sub a b) (of_int (i - j))"
  using f64_is_sub [of a "of_int i" b "of_int j"] f64_round_int [of "i - j"] by simp

lemma transform_rect_int:
  assumes t: "is_translation t a b" and i: "f64_is left (of_int l)" "f64_is upper (of_int u)" "f64_is right (of_int (l + w))" "f64_is lower (of_int (u + h))"
    and r: "\<bar>l\<bar> < 2 ^ 29" "\<bar>u\<bar> < 2 ^ 29" "\<bar>a\<bar> < 2 ^ 29" "\<bar>b\<bar> < 2 ^ 29" "0 \<le> w" "w < 2 ^ 29" "0 \<le> h" "h < 2 ^ 29"
  shows "flutter_transform_rect t left upper right lower
    = Some \<lparr>box_x = l + a, box_y = u + b, box_width = w, box_height = h\<rparr>"
proof -
  let ?p = "flutter_transform_point t"
  have P: "f64_is (fst (?p left upper)) (of_int (l + a))" "f64_is (snd (?p left upper)) (of_int (u + b))"
    "f64_is (fst (?p right upper)) (of_int (l + w + a))" "f64_is (snd (?p right upper)) (of_int (u + b))"
    "f64_is (fst (?p left lower)) (of_int (l + a))" "f64_is (snd (?p left lower)) (of_int (u + h + b))"
    "f64_is (fst (?p right lower)) (of_int (l + w + a))" "f64_is (snd (?p right lower)) (of_int (u + h + b))"
    using transform_point_int [OF t i(1,2)] transform_point_int [OF t i(3,2)] transform_point_int [OF t i(1,4)]
        transform_point_int [OF t i(3,4)] r by (simp_all add: abs_less_iff)
  have x0: "f64_is (f64_fmin (f64_fmin (fst (?p left upper)) (fst (?p right upper))) (f64_fmin (fst (?p left lower)) (fst (?p right lower)))) (of_int (l + a))"
    using min_max_of_int(1) [OF min_max_of_int(1) [OF P(1,3)] min_max_of_int(1) [OF P(5,7)]] r(5) by (simp add: min_def)
  have x1: "f64_is (f64_fmax (f64_fmax (fst (?p left upper)) (fst (?p right upper))) (f64_fmax (fst (?p left lower)) (fst (?p right lower)))) (of_int (l + w + a))"
    using min_max_of_int(2) [OF min_max_of_int(2) [OF P(1,3)] min_max_of_int(2) [OF P(5,7)]] r(5) by (simp add: max_def)
  have y0: "f64_is (f64_fmin (f64_fmin (snd (?p left upper)) (snd (?p right upper))) (f64_fmin (snd (?p left lower)) (snd (?p right lower)))) (of_int (u + b))"
    using min_max_of_int(1) [OF min_max_of_int(1) [OF P(2,4)] min_max_of_int(1) [OF P(6,8)]] r(7) by (simp add: min_def)
  have y1: "f64_is (f64_fmax (f64_fmax (snd (?p left upper)) (snd (?p right upper))) (f64_fmax (snd (?p left lower)) (snd (?p right lower)))) (of_int (u + h + b))"
    using min_max_of_int(2) [OF min_max_of_int(2) [OF P(2,4)] min_max_of_int(2) [OF P(6,8)]] r(7) by (simp add: max_def)
  have R: "\<bar>l + a\<bar> < 2 ^ 52" "\<bar>u + b\<bar> < 2 ^ 52" "\<bar>l + w + a\<bar> < 2 ^ 52" "\<bar>u + h + b\<bar> < 2 ^ 52"
    using r by (simp_all add: abs_less_iff)
  note X0 = floor_ceil_of_int(1) [OF x0 R(1)] and Y0 = floor_ceil_of_int(1) [OF y0 R(2)]
    and X1 = floor_ceil_of_int(2) [OF x1 R(3)] and Y1 = floor_ceil_of_int(2) [OF y1 R(4)]
  have W: "f64_to_i32 (f64_floor (f64_fmin (f64_fmin (fst (?p left upper)) (fst (?p right upper))) (f64_fmin (fst (?p left lower)) (fst (?p right lower))))) = Some (l + a)"
    "f64_to_i32 (f64_floor (f64_fmin (f64_fmin (snd (?p left upper)) (snd (?p right upper))) (f64_fmin (snd (?p left lower)) (snd (?p right lower))))) = Some (u + b)"
    by (rule f64_to_i32_int [OF X0] f64_to_i32_int [OF Y0], use r in \<open>simp_all add: abs_less_iff\<close>)+
  have D: "f64_to_i32 (f64_sub (f64_ceil (f64_fmax (f64_fmax (fst (?p left upper)) (fst (?p right upper))) (f64_fmax (fst (?p left lower)) (fst (?p right lower)))))
      (f64_floor (f64_fmin (f64_fmin (fst (?p left upper)) (fst (?p right upper))) (f64_fmin (fst (?p left lower)) (fst (?p right lower)))))) = Some w"
    "f64_to_i32 (f64_sub (f64_ceil (f64_fmax (f64_fmax (snd (?p left upper)) (snd (?p right upper))) (f64_fmax (snd (?p left lower)) (snd (?p right lower)))))
      (f64_floor (f64_fmin (f64_fmin (snd (?p left upper)) (snd (?p right upper))) (f64_fmin (snd (?p left lower)) (snd (?p right lower)))))) = Some h"
    using f64_to_i32_int [OF f64_is_sub_int [OF X1 X0]] f64_to_i32_int [OF f64_is_sub_int [OF Y1 Y0]] r by simp_all
  show ?thesis unfolding flutter_transform_rect_def Let_def split_beta W D by simp
qed

section \<open>Where a window appears\<close>

lemma content_scale_same: "\<bar>w\<bar> < 2 ^ 53 \<Longrightarrow> content_scale (f64_of_int w) w = d1"
proof (cases "w = 0")
  case True
  have "f64_exp d0 = 0" "f64_frac d0 = 0" "f64_sign d0 = False"
    by (simp_all add: f64_of_int_def f64_round_def zero_of_sign_def f64_exp_def f64_frac_def f64_sign_def)
  then have "f64_div d0 d0 = quiet_nan" by (simp add: f64_div_def f64_isnan_def f64_isinf_def f64_val_pow2 Let_def)
  moreover have "\<not> f64_isfinite quiet_nan" by (simp add: quiet_nan_def f64_isfinite_def f64_exp_def)
  ultimately show ?thesis using True f64_is_finite(1) [OF units(2)] f64_is_le [OF units(2,1)] by (simp add: content_scale_def)
next
  case False
  assume w: "\<bar>w\<bar> < 2 ^ 53"
  have 1: "f64_is (f64_div (f64_of_int w) (f64_of_int w)) (of_int 1)"
    using f64_is_div [OF f64_is_of_int [OF w] f64_is_of_int [OF w]] f64_round_int [of 1] False by simp
  have "f64_is scale_threshold (f64_val scale_threshold)" "1 \<le> f64_val scale_threshold"
    by (simp_all add: f64_is_def f64_isfinite_def scale_threshold_def f64_val_def f64_exp_def f64_frac_def f64_sign_def)
  with f64_is_lt [OF this(1) 1] have "\<not> f64_lt scale_threshold (f64_div (f64_of_int w) (f64_of_int w))" by simp
  then show ?thesis using f64_is_finite(1) [OF units(2)] f64_is_le [OF units(2,1)] by (simp add: content_scale_def)
qed

lemma content_scales_same:
  "\<bar>w\<bar> < 2 ^ 53 \<Longrightarrow> \<bar>h\<bar> < 2 ^ 53 \<Longrightarrow> content_scales (f64_of_int w, f64_of_int h) w h = (d1, d1)"
  by (simp add: content_scales_def content_scale_same)

lemma surface_dst_box_int:
  assumes t: "is_translation (rd_transform rd) a b" and c: "content_scale_x rd = d1" "content_scale_y rd = d1" "rd_output_scale rd = d1"
    and w: "0 \<le> e_surface_width (re_wlr env) s" "e_surface_width (re_wlr env) s < 2 ^ 28"
      "0 \<le> e_surface_height (re_wlr env) s" "e_surface_height (re_wlr env) s < 2 ^ 28"
    and r: "\<bar>sx\<bar> < 2 ^ 28" "\<bar>sy\<bar> < 2 ^ 28" "\<bar>a\<bar> < 2 ^ 28" "\<bar>b\<bar> < 2 ^ 28" "\<bar>vp_x (rd_viewport rd)\<bar> < 2 ^ 28" "\<bar>vp_y (rd_viewport rd)\<bar> < 2 ^ 28"
  shows "surface_dst_box env rd s sx sy = Some \<lparr>box_x = sx + a - vp_x (rd_viewport rd), box_y = sy + b - vp_y (rd_viewport rd),
     box_width = e_surface_width (re_wlr env) s, box_height = e_surface_height (re_wlr env) s\<rparr>"
proof -
  let ?w = "e_surface_width (re_wlr env) s" and ?h = "e_surface_height (re_wlr env) s"
  have m: "f64_is (f64_mul (f64_of_int i) d1) (of_int i)" if "\<bar>i\<bar> < 2 ^ 28" for i
    using f64_is_mul_int [OF f64_is_of_int [of i] units(2)] that by simp
  have i: "f64_is (f64_mul (f64_of_int sx) d1) (of_int sx)" "f64_is (f64_mul (f64_of_int sy) d1) (of_int sy)"
    "f64_is (f64_mul (f64_of_int ?w) d1) (of_int ?w)" "f64_is (f64_mul (f64_of_int ?h) d1) (of_int ?h)"
    using m w r by simp_all
  have R: "f64_is (f64_add (f64_mul (f64_of_int sx) d1) (f64_mul (f64_of_int ?w) d1)) (of_int (sx + ?w))"
    "f64_is (f64_add (f64_mul (f64_of_int sy) d1) (f64_mul (f64_of_int ?h) d1)) (of_int (sy + ?h))"
    using f64_is_add_int [OF i(1,3)] f64_is_add_int [OF i(2,4)] w r by (simp_all add: abs_less_iff)
  have "flutter_transform_rect (rd_transform rd) (f64_mul (f64_of_int sx) d1) (f64_mul (f64_of_int sy) d1)
      (f64_add (f64_mul (f64_of_int sx) d1) (f64_mul (f64_of_int ?w) d1)) (f64_add (f64_mul (f64_of_int sy) d1) (f64_mul (f64_of_int ?h) d1))
    = Some \<lparr>box_x = sx + a, box_y = sy + b, box_width = ?w, box_height = ?h\<rparr>"
    by (rule transform_rect_int [OF t i(1,2) R]) (use w r in simp_all)
  moreover have "f64_equal d1 d1" using f64_is_equal [OF units(2) units(2)] by simp
  moreover have "i32 (sx + a - vp_x (rd_viewport rd)) = Some (sx + a - vp_x (rd_viewport rd))"
    "i32 (sy + b - vp_y (rd_viewport rd)) = Some (sy + b - vp_y (rd_viewport rd))"
    using r by (simp_all add: i32_def in_i32_def abs_less_iff)
  ultimately show ?thesis by (simp add: surface_dst_box_def Let_def c scale_box_def)
qed

lemma concat_option_map: "(\<And>x. x \<in> set xs \<Longrightarrow> f x = Some (g x)) \<Longrightarrow> concat_option (map f xs) = Some (concat (map g xs))"
  by (induction xs) auto

text \<open>Where the surface \<open>s\<close> of a window at \<open>(x, y)\<close> appears on a monitor.\<close>

definition shown_at :: "render_env \<Rightarrow> int \<Rightarrow> int \<Rightarrow> fwr_output_viewport \<Rightarrow> wref \<times> int \<times> int \<Rightarrow> draw_call list" where
  "shown_at env x y vp s =
     (if re_has_texture env (fst s)
      then [AddTexture (fst s)
        \<lparr>box_x = fst (snd s) + x - vp_x vp, box_y = snd (snd s) + y - vp_y vp,
         box_width = e_surface_width (re_wlr env) (fst s), box_height = e_surface_height (re_wlr env) (fst s)\<rparr> d1 None]
      else [])"

text \<open>Sizes and positions of which no sum leaves the range of an \<open>int\<close>.\<close>

definition sane_surfaces :: "render_env \<Rightarrow> wref \<Rightarrow> bool" where
  "sane_surfaces env surface \<longleftrightarrow>
     (\<forall>(s, sx, sy) \<in> insert (surface, 0, 0) (set (re_surfaces env surface)).
        \<bar>sx\<bar> < 2 ^ 28 \<and> \<bar>sy\<bar> < 2 ^ 28 \<and> 0 \<le> e_surface_width (re_wlr env) s \<and> e_surface_width (re_wlr env) s < 2 ^ 28
        \<and> 0 \<le> e_surface_height (re_wlr env) s \<and> e_surface_height (re_wlr env) s < 2 ^ 28)"

text \<open>What the compositor tells a client whose window is shown on a monitor.\<close>

definition presented :: "fwr_instance \<Rightarrow> fwr_view \<Rightarrow> wref \<Rightarrow> draw_call list" where
  "presented st view surface =
     (case view_output view st of None \<Rightarrow> [] | Some p \<Rightarrow> [TexturedOnOutput surface (out_wlr (the (output_store st p)))])"

lemma window_layer_drawn:
  assumes "get_view st (word_of_int view_id) = Found p view"
    and "output_scale_of (re_wlr env) st (view_output view st) = Some d1"
    and "e_surface (re_wlr env) (v_xdg_surface view) = Some surface" and "sane_surfaces env surface"
    and "in_range (2 ^ 28) 0 0 moves" and "\<bar>vp_x vp\<bar> < 2 ^ 28" and "\<bar>vp_y vp\<bar> < 2 ^ 28"
  shows "render_scene_layer_platform env view_id
      (f64_of_int (e_surface_width (re_wlr env) surface), f64_of_int (e_surface_height (re_wlr env) surface)) (map move moves) vp st
    = Some (concat (map (shown_at env (fst (sum_moves moves)) (snd (sum_moves moves)) vp) (re_surfaces env surface))
        @ presented st view surface @ [SendFrameDone surface])"
proof -
  let ?w = "e_surface_width (re_wlr env) surface" and ?h = "e_surface_height (re_wlr env) surface"
  let ?x = "fst (sum_moves moves)" and ?y = "snd (sum_moves moves)"
  have wide: "in_range k a b ps \<Longrightarrow> k \<le> k' \<Longrightarrow> in_range k' a b ps" for k k' a b ps
    by (induction k a b ps rule: in_range.induct) auto
  have last: "in_range k a b ps \<Longrightarrow> \<bar>a + fst (sum_moves ps)\<bar> < k \<and> \<bar>b + snd (sum_moves ps)\<bar> < k" for k a b ps
    by (induction k a b ps rule: in_range.induct) (simp_all add: add.assoc)
  have xy: "\<bar>?x\<bar> < 2 ^ 28" "\<bar>?y\<bar> < 2 ^ 28" using last [OF assms(5)] by simp_all
  have init: "is_translation (current_transform initial_mutation_state) 0 0"
    using units by (simp add: is_translation_def initial_mutation_state_def)
  have "in_range (2 ^ 50) 0 0 moves" using wide [OF assms(5)] by simp
  from mutate_moves [OF init this, of view d1] obtain t where
    t: "mutate_all view d1 (map move moves) initial_mutation_state = Some (initial_mutation_state\<lparr>current_transform := t\<rparr>)"
      "is_translation t ?x ?y" by auto
  have sane: "\<bar>?w\<bar> < 2 ^ 53" "\<bar>?h\<bar> < 2 ^ 53" using assms(4) by (auto simp: sane_surfaces_def)
  define rd where "rd = \<lparr>rd_transform = t, rd_output_scale = d1, content_scale_x = d1, content_scale_y = d1, rd_viewport = vp\<rparr>"
  have draw: "render_surface_iterator env rd d1 None s = Some (shown_at env ?x ?y vp s)" if "s \<in> set (re_surfaces env surface)" for s
  proof -
    obtain w sx sy where s: "s = (w, sx, sy)" by (metis prod_cases3)
    have b: "surface_dst_box env rd w sx sy = Some \<lparr>box_x = sx + ?x - vp_x vp, box_y = sy + ?y - vp_y vp,
        box_width = e_surface_width (re_wlr env) w, box_height = e_surface_height (re_wlr env) w\<rparr>"
      using surface_dst_box_int [of rd ?x ?y env w sx sy] t(2) xy assms(4,6,7) that s
      by (fastforce simp: rd_def sane_surfaces_def)
    show ?thesis by (simp add: render_surface_iterator_def shown_at_def s b)
  qed
  have pres: "(case view_output view st of None \<Rightarrow> Some []
      | Some p \<Rightarrow> map_option (\<lambda>o'. [TexturedOnOutput surface (out_wlr o')]) (output_store st p)) = Some (presented st view surface)"
    using assms(2) by (auto simp: output_scale_of_def presented_def split: option.splits)
  have "render_view env (f64_of_int ?w, f64_of_int ?h) (map move moves) vp view st
      = Some (concat (map (shown_at env ?x ?y vp) (re_surfaces env surface)) @ presented st view surface @ [SendFrameDone surface])"
    unfolding render_view_def assms(2,3) content_scales_same [OF sane] bind.bind_lunit prod.case Let_def t(1)
    using concat_option_map [of "re_surfaces env surface" "render_surface_iterator env rd d1 None", OF draw] pres
    by (simp add: initial_mutation_state_def rd_def)
  with assms(1) show ?thesis by (auto simp: render_scene_layer_platform_def)
qed

text \<open>
  C20: A window appears where it is. Let the monitor of a window have the scale 1, and let Flutter nest
  the window in any number of moves by whole pixels and give its widget the size of its surface. Then
  each of the surfaces of the window that has a texture is drawn once, in order, unscaled, unclipped
  and opaque, at the sum of the moves plus its own position, less the position of the monitor; the
  rounding of doubles changes nothing. The window has a surface, and positions, sizes and moves stay
  below \<open>2 ^ 28\<close> on the way. (On a monitor of another scale the compositor scales the window.)
\<close>
theorem window_drawn_in_place:
  assumes "get_view st (word_of_int view_id) = Found p view"
    and "output_scale_of (re_wlr env) st (view_output view st) = Some d1"
    and "e_surface (re_wlr env) (v_xdg_surface view) = Some surface" and "sane_surfaces env surface"
    and "in_range (2 ^ 28) 0 0 moves" and "\<bar>vp_x vp\<bar> < 2 ^ 28" and "\<bar>vp_y vp\<bar> < 2 ^ 28"
  shows "\<exists>pres. render_scene_layer_platform env view_id
      (f64_of_int (e_surface_width (re_wlr env) surface), f64_of_int (e_surface_height (re_wlr env) surface)) (map move moves) vp st
    = Some (concat (map (shown_at env (fst (sum_moves moves)) (snd (sum_moves moves)) vp) (re_surfaces env surface))
        @ pres @ [SendFrameDone surface]) \<and> (pres = [] \<or> (\<exists>out. pres = [TexturedOnOutput surface out]))"
  using window_layer_drawn [OF assms] by (auto simp: presented_def split: option.splits)

text \<open>A window with one subsurface, moved twice, on a monitor that starts at 20 pixels.\<close>

definition sample_render_env :: render_env where
  "sample_render_env = \<lparr>re_wlr = test_env, re_has_texture = (\<lambda>_. True), re_surfaces = (\<lambda>_. [(5, 0, 0), (6, 10, 20)])\<rparr>"

definition sample_viewport :: fwr_output_viewport where
  "sample_viewport = \<lparr>vp_x = 20, vp_y = 0, vp_width = 1920, vp_height = 1080\<rparr>"

theorem window_drawn_in_place_witness:
  "\<exists>rest'. render_scene_layer_platform sample_render_env 1 (f64_of_int 300, f64_of_int 200) (map move [(100, 50), (- 3, 7)])
       sample_viewport (grabbed FWR_GRAB_NONE)
     = Some (AddTexture 5 \<lparr>box_x = 77, box_y = 57, box_width = 300, box_height = 200\<rparr> d1 None
         # AddTexture 6 \<lparr>box_x = 87, box_y = 77, box_width = 300, box_height = 200\<rparr> d1 None # rest')"
proof -
  have 1: "get_view (grabbed FWR_GRAB_NONE) (word_of_int 1) = Found 7 sample_view"
    by (simp add: get_view_def grabbed_def initial_instance_def handle_map_get_def)
  have 2: "output_scale_of (re_wlr sample_render_env) (grabbed FWR_GRAB_NONE) (view_output sample_view (grabbed FWR_GRAB_NONE)) = Some d1"
    by (simp add: output_scale_of_def view_output_def sample_view_def fwr_get_first_output_def grabbed_def initial_instance_def)
  have 3: "e_surface (re_wlr sample_render_env) (v_xdg_surface sample_view) = Some 5"
    by (simp add: sample_render_env_def test_env_def sample_view_def)
  have 4: "sane_surfaces sample_render_env 5" by (simp add: sane_surfaces_def sample_render_env_def test_env_def)
  have 5: "in_range (2 ^ 28) 0 0 [(100, 50), (- 3, 7)]" by simp
  from window_drawn_in_place [OF 1 2 3 4 5, of sample_viewport] show ?thesis
    by (auto simp: sample_viewport_def sample_render_env_def test_env_def shown_at_def)
qed

section \<open>Rounded windows\<close>

lemma clip_region_frame:
  "mutation_box sc (s\<lparr>clip_region := c\<rparr>) = mutation_box sc s"
  "note_rounded_clip view sc rr b (s\<lparr>clip_region := c\<rparr>) = (note_rounded_clip view sc rr b s)\<lparr>clip_region := c\<rparr>"
  by (simp_all add: mutation_box_def note_rounded_clip_def fun_eq_iff)

lemma add_clip_frame: "\<exists>c'. add_clip r (u\<lparr>clip_region := c\<rparr>) = (add_clip r u)\<lparr>clip_region := c'\<rparr>"
  by (simp add: add_clip_def, rule exI, rule refl)

lemma mutate_clip_region:
  assumes "mutate view sc m s = Some s'"
  shows "\<exists>c'. mutate view sc m (s\<lparr>clip_region := c\<rparr>) = Some (s'\<lparr>clip_region := c'\<rparr>)"
proof (cases m)
  case (ClipRoundedRect rr)
  with assms obtain b tmp where "mutation_box sc s (rr_left rr) (rr_top rr) (rr_right rr) (rr_bottom rr) = Some b"
    "rounded_region view sc rr b = Some tmp" "s' = add_clip tmp (note_rounded_clip view sc rr b s)"
    by (auto simp: mutate_def clip_rounded_def split: bind_splits)
  with ClipRoundedRect add_clip_frame [where r = tmp and u = "note_rounded_clip view sc rr b s" and c = c] show ?thesis
    by (simp add: mutate_def clip_rounded_def clip_region_frame)
next
  case (ClipRect l t r b)
  with assms obtain bx where "mutation_box sc s l t r b = Some bx" "s' = add_clip (box_region bx) s"
    by (auto simp: mutate_def)
  with ClipRect add_clip_frame [where r = "box_region bx" and u = s and c = c] show ?thesis by (simp add: mutate_def clip_region_frame)
next
  case (Opacity v)
  with assms show ?thesis by (auto simp: mutate_def intro!: exI [of _ c])
next
  case (Transformation t)
  with assms show ?thesis by (auto simp: mutate_def intro!: exI [of _ c])
next
  case Other_mutation
  with assms show ?thesis by (auto simp: mutate_def intro!: exI [of _ c])
qed

lemma mutate_all_clip_region:
  "mutate_all view sc ms s = Some s' \<Longrightarrow> \<exists>c'. mutate_all view sc ms (s\<lparr>clip_region := c\<rparr>) = Some (s'\<lparr>clip_region := c'\<rparr>)"
proof (induction ms arbitrary: s c)
  case Nil
  then show ?case by (intro exI [of _ c]) simp
next
  case (Cons m ms)
  then obtain s1 where s1: "mutate view sc m s = Some s1" "mutate_all view sc ms s1 = Some s'" by (auto split: bind_splits)
  from mutate_clip_region [OF s1(1), of c] obtain c1 where "mutate view sc m (s\<lparr>clip_region := c\<rparr>) = Some (s1\<lparr>clip_region := c1\<rparr>)" ..
  with Cons.IH [OF s1(2), of c1] show ?case by simp
qed

text \<open>
  A rectangular clip around a rounded one has no effect. Whatever rectangle Flutter clips a
  window to, the draw calls of a window with a rounded clip are the same as without it: they carry
  only the rounded clip, and the clip region is built and thrown away.
\<close>
theorem clip_around_rounded_ignored:
  assumes "render_view env extent ms vp view st = Some ds"
    and "output_scale_of (re_wlr env) st (view_output view st) = Some sc"
    and "mutate_all view sc ms initial_mutation_state = Some s" and "rounded_clip s = Some rc"
    and "mutation_box sc initial_mutation_state l t r b = Some bx"
  shows "render_view env extent (ClipRect l t r b # ms) vp view st = Some ds"
proof -
  have "mutate view sc (ClipRect l t r b) initial_mutation_state = Some (initial_mutation_state\<lparr>clip_region := Some (box_region bx)\<rparr>)"
    using assms(5) by (simp add: mutate_def add_clip_def initial_mutation_state_def)
  moreover obtain c where "mutate_all view sc ms (initial_mutation_state\<lparr>clip_region := Some (box_region bx)\<rparr>) = Some (s\<lparr>clip_region := c\<rparr>)"
    using mutate_all_clip_region [OF assms(3)] by blast
  ultimately have "mutate_all view sc (ClipRect l t r b # ms) initial_mutation_state = Some (s\<lparr>clip_region := c\<rparr>)" by simp
  with assms(1-4) show ?thesis unfolding render_view_def assms(2) by (cases "e_surface (re_wlr env) (v_xdg_surface view)") (simp_all add: split_beta Let_def del: mutate_all.simps)
qed

text \<open>The clip given to the shader for a window of the size \<open>w\<close> by \<open>h\<close> at \<open>(x, y)\<close>, and a draw call under it.\<close>

definition rounded_clip_at :: "rounded_rect \<Rightarrow> int \<Rightarrow> int \<Rightarrow> int \<Rightarrow> int \<Rightarrow> fwr_rounded_clip" where
  "rounded_clip_at rr x y w h =
     \<lparr>rect_x = float_of_int x, rect_y = float_of_int y, rect_w = float_of_int w, rect_h = float_of_int h,
      radius_tl = float_radius d1 (rr_upper_left rr), radius_tr = float_radius d1 (rr_upper_right rr),
      radius_br = float_radius d1 (rr_lower_right rr), radius_bl = float_radius d1 (rr_lower_left rr)\<rparr>"

definition rounded_at :: "render_env \<Rightarrow> int \<Rightarrow> int \<Rightarrow> fwr_output_viewport \<Rightarrow> fwr_rounded_clip \<Rightarrow> wref \<times> int \<times> int \<Rightarrow> draw_call list" where
  "rounded_at env x y vp rc s =
     (let left = fst (snd s) + x - vp_x vp; upper = snd (snd s) + y - vp_y vp; total_h = box_height (e_layout_box (re_wlr env) None)
      in if re_has_texture env (fst s)
      then [DrawRounded (fst s)
        (ndc left (vp_width vp), ndc (left + e_surface_width (re_wlr env) (fst s)) (vp_width vp),
         ndc_flipped upper (vp_height vp), ndc_flipped (upper + e_surface_height (re_wlr env) (fst s)) (vp_height vp))
        d1 rc (float_of_int (if total_h > 0 then total_h else 1))]
      else [])"

lemma initial_units: "is_translation (current_transform initial_mutation_state) 0 0"
  using units by (simp add: is_translation_def initial_mutation_state_def)

lemma mutate_move_round:
  assumes "\<bar>x\<bar> < 2 ^ 28" "\<bar>y\<bar> < 2 ^ 28" and B: "0 < w" "w < 2 ^ 28" "0 < h" "h < 2 ^ 28"
    and rr: "rr_left rr = d0" "rr_top rr = d0" "rr_right rr = f64_of_int w" "rr_bottom rr = f64_of_int h"
    and round: "has_any_radius view d1 rr" "pixel_radii d1 rr = Some radii"
  shows "\<exists>t c. mutate_all view d1 [move (x, y), ClipRoundedRect rr] initial_mutation_state
      = Some (initial_mutation_state\<lparr>current_transform := t, clip_region := c, rounded_clip := Some (rounded_clip_at rr x y w h)\<rparr>)
    \<and> is_translation t x y"
proof -
  have w: "rounded_box x y w h" using assms(1,2) B by (simp add: rounded_box_def)
  have "in_range (2 ^ 50) 0 0 [(x, y)]" using assms(1,2) by simp
  from mutate_moves [OF initial_units this, of view d1] obtain t where
    t: "mutate_all view d1 [move (x, y)] initial_mutation_state = Some (initial_mutation_state\<lparr>current_transform := t\<rparr>)" "is_translation t x y"
    by auto
  have m: "mutate view d1 (move (x, y)) initial_mutation_state = Some (initial_mutation_state\<lparr>current_transform := t\<rparr>)"
    using t(1) by (cases "mutate view d1 (move (x, y)) initial_mutation_state") simp_all
  have i: "f64_is (f64_of_int w) (of_int (0 + w))" "f64_is (f64_of_int h) (of_int (0 + h))"
    using f64_is_of_int [of w] f64_is_of_int [of h] B by simp_all
  have "flutter_transform_rect t d0 d0 (f64_of_int w) (f64_of_int h) = Some \<lparr>box_x = 0 + x, box_y = 0 + y, box_width = w, box_height = h\<rparr>"
    by (rule transform_rect_int [OF t(2) units(1) units(1) i]) (use B assms(1,2) in simp_all)
  moreover have "f64_equal d1 d1" using f64_is_equal [OF units(2) units(2)] by simp
  ultimately have b: "mutation_box d1 (initial_mutation_state\<lparr>current_transform := t\<rparr>) (rr_left rr) (rr_top rr) (rr_right rr) (rr_bottom rr)
      = Some \<lparr>box_x = x, box_y = y, box_width = w, box_height = h\<rparr>"
    by (simp add: mutation_box_def rr scale_box_def)
  from rounded_rect_region [OF w refl, of radii] obtain d where d: "pixman_region32_init_rounded_rect x y w h radii = Some d" by blast
  have flags: "\<not> (v_maximized view \<or> v_fullscreen view)" using round(1) by (simp add: has_any_radius_def)
  have "mutate view d1 (ClipRoundedRect rr) (initial_mutation_state\<lparr>current_transform := t\<rparr>)
      = Some (initial_mutation_state\<lparr>current_transform := t, clip_region := Some d, rounded_clip := Some (rounded_clip_at rr x y w h)\<rparr>)"
    using flags round d by (simp add: mutate_def clip_rounded_def b [unfolded initial_mutation_state_def, simplified] rounded_region_def note_rounded_clip_def add_clip_def
        initial_mutation_state_def rounded_clip_at_def)
  with m t(2) show ?thesis by (intro exI conjI) simp_all
qed

lemma surfaces_sane:
  "sane_surfaces env surface \<Longrightarrow> (s, sx, sy) \<in> set (re_surfaces env surface) \<Longrightarrow>
     \<bar>sx\<bar> < 2 ^ 28 \<and> \<bar>sy\<bar> < 2 ^ 28 \<and> 0 \<le> e_surface_width (re_wlr env) s \<and> e_surface_width (re_wlr env) s < 2 ^ 28
     \<and> 0 \<le> e_surface_height (re_wlr env) s \<and> e_surface_height (re_wlr env) s < 2 ^ 28"
  unfolding sane_surfaces_def by fastforce

lemma rounded_iterator_at:
  assumes rd: "is_translation (rd_transform rd) x y" "content_scale_x rd = d1" "content_scale_y rd = d1" "rd_output_scale rd = d1"
    "rd_viewport rd = vp"
    and xy: "\<bar>x\<bar> < 2 ^ 28" "\<bar>y\<bar> < 2 ^ 28" and sane: "sane_surfaces env surface" "s \<in> set (re_surfaces env surface)"
    and vp: "\<bar>vp_x vp\<bar> < 2 ^ 28" "\<bar>vp_y vp\<bar> < 2 ^ 28" "0 < vp_width vp" "0 < vp_height vp"
  shows "render_surface_rounded_iterator env rd d1 rc s = Some (rounded_at env x y vp rc s)"
proof -
  obtain w sx sy where s: "s = (w, sx, sy)" by (metis prod_cases3)
  note S = surfaces_sane [OF sane(1), of w sx sy, OF sane(2) [unfolded s]]
  have b: "surface_dst_box env rd w sx sy = Some \<lparr>box_x = sx + x - vp_x vp, box_y = sy + y - vp_y vp,
      box_width = e_surface_width (re_wlr env) w, box_height = e_surface_height (re_wlr env) w\<rparr>"
    using surface_dst_box_int [OF rd(1-4), of env w sx sy] S xy vp by (simp add: rd(5))
  have i: "i32 (sx + x - vp_x vp + e_surface_width (re_wlr env) w) = Some (sx + x - vp_x vp + e_surface_width (re_wlr env) w)"
    "i32 (sy + y - vp_y vp + e_surface_height (re_wlr env) w) = Some (sy + y - vp_y vp + e_surface_height (re_wlr env) w)"
    using S xy vp by (simp_all add: i32_def in_i32_def abs_less_iff)
  show ?thesis using vp by (simp add: s render_surface_rounded_iterator_def rounded_at_def Let_def rd(5) b i)
qed

text \<open>
  The rounded clip is not moved onto the monitor. A window with rounded corners at \<open>(x, y)\<close> has the
  quads of its surfaces at their place less the position of the monitor, but every quad carries the
  same clip rectangle at \<open>(x, y)\<close> of the layout, and the height of the whole layout, which the shader
  compares with pixels of the one monitor. On a monitor that is not at the origin the two disagree,
  and right of its pixels nothing of the window is left.
\<close>
theorem rounded_clip_not_on_monitor:
  assumes "output_scale_of (re_wlr env) st (view_output view st) = Some d1"
    and "e_surface (re_wlr env) (v_xdg_surface view) = Some surface" and "sane_surfaces env surface"
    and "w = e_surface_width (re_wlr env) surface" "h = e_surface_height (re_wlr env) surface" "0 < w" "0 < h"
    and "\<bar>x\<bar> < 2 ^ 28" "\<bar>y\<bar> < 2 ^ 28"
    and "rr_left rr = d0" "rr_top rr = d0" "rr_right rr = f64_of_int w" "rr_bottom rr = f64_of_int h"
    and "has_any_radius view d1 rr" "pixel_radii d1 rr = Some radii"
    and "\<bar>vp_x vp\<bar> < 2 ^ 28" "\<bar>vp_y vp\<bar> < 2 ^ 28" "0 < vp_width vp" "0 < vp_height vp"
  shows "\<exists>after. render_view env (f64_of_int w, f64_of_int h) [move (x, y), ClipRoundedRect rr] vp view st
    = Some (concat (map (rounded_at env x y vp (rounded_clip_at rr x y w h)) (re_surfaces env surface)) @ after)"
proof -
  have B: "w < 2 ^ 28" "h < 2 ^ 28" "\<bar>w\<bar> < 2 ^ 53" "\<bar>h\<bar> < 2 ^ 53" using assms(3,6,7) by (auto simp: sane_surfaces_def assms(4,5))
  from mutate_move_round [OF assms(8,9,6) B(1) assms(7) B(2) assms(10-15)] obtain t c where
    t: "mutate_all view d1 [move (x, y), ClipRoundedRect rr] initial_mutation_state
      = Some (initial_mutation_state\<lparr>current_transform := t, clip_region := c, rounded_clip := Some (rounded_clip_at rr x y w h)\<rparr>)"
      "is_translation t x y" by blast
  define rd where "rd = \<lparr>rd_transform = t, rd_output_scale = d1, content_scale_x = d1, content_scale_y = d1, rd_viewport = vp\<rparr>"
  have draws: "concat_option (map (render_surface_rounded_iterator env rd d1 (rounded_clip_at rr x y w h)) (re_surfaces env surface))
      = Some (concat (map (rounded_at env x y vp (rounded_clip_at rr x y w h)) (re_surfaces env surface)))"
    by (rule concat_option_map, rule rounded_iterator_at [OF _ _ _ _ _ assms(8,9,3) _ assms(16-19)]) (simp_all add: rd_def t(2))
  obtain pres where "(case view_output view st of None \<Rightarrow> Some []
      | Some p \<Rightarrow> map_option (\<lambda>o'. [TexturedOnOutput surface (out_wlr o')]) (output_store st p)) = Some pres"
    using assms(1) by (auto simp: output_scale_of_def split: option.splits)
  then show ?thesis unfolding render_view_def assms(1,2) assms(4,5) [symmetric] content_scales_same [OF B(3,4)] bind.bind_lunit prod.case Let_def t(1)
    using draws by (simp add: initial_mutation_state_def rd_def)
qed

text \<open>A window of 300 by 200 with upper corners of radius 8, at 2000 on the second of two monitors.\<close>

definition round_window :: rounded_rect where
  "round_window = \<lparr>rr_left = d0, rr_top = d0, rr_right = f64_of_int 300, rr_bottom = f64_of_int 200,
     rr_upper_left = (f64_of_int 8, f64_of_int 8), rr_upper_right = (f64_of_int 8, f64_of_int 8),
     rr_lower_right = (d0, d0), rr_lower_left = (d0, d0)\<rparr>"

definition second_monitor :: fwr_output_viewport where
  "second_monitor = \<lparr>vp_x = 1920, vp_y = 0, vp_width = 1920, vp_height = 1080\<rparr>"

theorem rounded_clip_not_on_monitor_witness:
  "\<exists>after. render_view (sample_render_env\<lparr>re_surfaces := (\<lambda>_. [(5, 0, 0)])\<rparr>) (f64_of_int 300, f64_of_int 200)
      [move (2000, 100), ClipRoundedRect round_window] second_monitor sample_view (grabbed FWR_GRAB_NONE)
    = Some (DrawRounded 5 (ndc 80 1920, ndc 380 1920, ndc_flipped 100 1080, ndc_flipped 300 1080) d1
        (rounded_clip_at round_window 2000 100 300 200) (float_of_int 1080) # after)"
proof -
  let ?env = "sample_render_env\<lparr>re_surfaces := (\<lambda>_. [(5, 0, 0)])\<rparr>"
  have 1: "output_scale_of (re_wlr ?env) (grabbed FWR_GRAB_NONE) (view_output sample_view (grabbed FWR_GRAB_NONE)) = Some d1"
    by (simp add: output_scale_of_def view_output_def sample_view_def fwr_get_first_output_def grabbed_def initial_instance_def)
  have 2: "e_surface (re_wlr ?env) (v_xdg_surface sample_view) = Some 5"
    by (simp add: sample_render_env_def test_env_def sample_view_def)
  have 3: "sane_surfaces ?env 5" by (simp add: sane_surfaces_def sample_render_env_def test_env_def)
  have 4: "300 = e_surface_width (re_wlr ?env) 5" "200 = e_surface_height (re_wlr ?env) 5"
    by (simp_all add: sample_render_env_def test_env_def)
  have 5: "rr_left round_window = d0" "rr_top round_window = d0" "rr_right round_window = f64_of_int 300" "rr_bottom round_window = f64_of_int 200"
    by (simp_all add: round_window_def)
  have 6: "has_any_radius sample_view d1 round_window" by code_simp
  have r: "lround_mul (f64_of_int 8) d1 = Some 8" "lround_mul d0 d1 = Some 0" by code_simp+
  have 7: "pixel_radii d1 round_window = Some \<lparr>r_tl_x = 8, r_tl_y = 8, r_tr_x = 8, r_tr_y = 8, r_br_x = 0, r_br_y = 0, r_bl_x = 0, r_bl_y = 0\<rparr>"
    by (simp add: pixel_radii_def round_window_def r)
  obtain after where "render_view ?env (f64_of_int 300, f64_of_int 200) [move (2000, 100), ClipRoundedRect round_window] second_monitor sample_view (grabbed FWR_GRAB_NONE)
    = Some (concat (map (rounded_at ?env 2000 100 second_monitor (rounded_clip_at round_window 2000 100 300 200)) (re_surfaces ?env 5)) @ after)"
    using rounded_clip_not_on_monitor [OF 1 2 3 4 _ _ _ _ 5 6 7, of 2000 100 second_monitor] by (auto simp: second_monitor_def)
  then show ?thesis by (simp add: rounded_at_def Let_def second_monitor_def sample_render_env_def test_env_def)
qed

end
