(* ===== verification/Frames.thy ===== *)
theory Frames
  imports Compositing
begin

text \<open>
  \<open>src/output.c\<close>, a frame of a monitor: the baton, the scene, the software cursor with its cached
  texture, the commit and the frame callbacks of the clients. What the frame reads besides
  \<open>render_env\<close> is in \<open>frame_env\<close>; a frame gives its calls in order, or \<open>None\<close> where C leaves the
  behaviour open. \<open>fe_surface_live\<close> says which surfaces their clients have not destroyed;
  \<open>client_cursor_surface\<close> is a plain pointer that nothing clears when its surface goes.
\<close>

section \<open>What a frame reads and does\<close>

datatype backend = Nested_backend | Multi_backend | Other_backend

record xcursor_image =
  xi_width :: int
  xi_height :: int
  xi_hotspot_x :: int
  xi_hotspot_y :: int

record frame_env =
  fe_render :: render_env
  fe_backend :: "backend option"
  fe_display_variable :: bool
  fe_cursor :: bool
  fe_renderer :: bool
  fe_cursor_mgr :: bool
  fe_xcursor :: "byte list \<Rightarrow> xcursor_image list option"
  fe_new_texture :: "wref option"
  fe_surface_live :: "wref \<Rightarrow> bool"
  fe_surface_texture :: "wref \<Rightarrow> wref option"
  fe_texture_size :: "wref \<Rightarrow> int \<times> int"
  fe_begin_pass :: bool
  fe_submit :: bool

text \<open>\<open>xcursor_texture\<close> and \<open>xcursor_texture_name\<close> of the instance.\<close>

record xcursor_cache =
  xcursor_texture :: "wref option"
  xcursor_texture_name :: "byte list option"

datatype frame_call =
    Call effect
  | AddRect int int
  | Draw draw_call
  | TextureFromPixels "byte list" "wref option"
  | TextureDestroy wref
  | DrawCursor wref wlr_box
  | Submit
  | Commit wref
  | FrameDone wref
  | ScheduleFrame wref

section \<open>The software cursor\<close>

definition is_nested_backend :: "frame_env \<Rightarrow> bool" where
  "is_nested_backend env =
     (case fe_backend env of
        None \<Rightarrow> False
      | Some Nested_backend \<Rightarrow> True
      | Some Multi_backend \<Rightarrow> fe_display_variable env
      | Some Other_backend \<Rightarrow> False)"

text \<open>The texture of the cursor named \<open>name\<close>, made anew when the cached one has another name.\<close>

definition cached_xcursor :: "frame_env \<Rightarrow> byte list \<Rightarrow> xcursor_cache \<Rightarrow> xcursor_cache \<times> frame_call list" where
  "cached_xcursor env name c =
     (if xcursor_texture c = None \<or> xcursor_texture_name c = None \<or> xcursor_texture_name c \<noteq> Some name
      then (\<lparr>xcursor_texture = fe_new_texture env,
             xcursor_texture_name = (if fe_new_texture env \<noteq> None then Some name else None)\<rparr>,
            (case xcursor_texture c of Some t \<Rightarrow> [TextureDestroy t] | None \<Rightarrow> []) @ [TextureFromPixels name (fe_new_texture env)])
      else (c, []))"

text \<open>The texture to draw with its hotspot: the surface of the client while it is mapped, else the named cursor.\<close>

definition named_cursor_image ::
    "frame_env \<Rightarrow> fwr_instance \<Rightarrow> xcursor_cache \<Rightarrow> (wref option \<times> int \<times> int) \<times> xcursor_cache \<times> frame_call list" where
  "named_cursor_image env st c =
     (case current_xcursor_name st of
        Some name \<Rightarrow>
          if \<not> fe_cursor_mgr env then ((None, 0, 0), c, [])
          else (case fe_xcursor env name of
            Some (image' # _) \<Rightarrow>
              let (c', es) = cached_xcursor env name c
              in ((xcursor_texture c', xi_hotspot_x image', xi_hotspot_y image'), c', es)
          | _ \<Rightarrow> ((None, 0, 0), c, []))
      | None \<Rightarrow> ((None, 0, 0), c, []))"

definition cursor_image ::
    "frame_env \<Rightarrow> fwr_instance \<Rightarrow> xcursor_cache \<Rightarrow> ((wref option \<times> int \<times> int) \<times> xcursor_cache \<times> frame_call list) option" where
  "cursor_image env st c =
     (case client_cursor_surface st of
        Some s \<Rightarrow>
          if \<not> fe_surface_live env s then None
          else if e_mapped (re_wlr (fe_render env)) s
          then Some ((fe_surface_texture env s, client_cursor_hotspot_x st, client_cursor_hotspot_y st), c, [])
          else Some (named_cursor_image env st c)
      | None \<Rightarrow> Some (named_cursor_image env st c))"

text \<open>\<open>(int)position - hotspot - origin\<close>\<close>

definition cursor_pixel :: "u64 \<Rightarrow> int \<Rightarrow> int \<Rightarrow> int option" where
  "cursor_pixel position hotspot origin =
     Option.bind (f64_to_i32 position) (\<lambda>i. Option.bind (i32 (i - hotspot)) (\<lambda>j. i32 (j - origin)))"

definition render_cursor ::
    "frame_env \<Rightarrow> fwr_output_viewport \<Rightarrow> fwr_instance \<Rightarrow> xcursor_cache \<Rightarrow> (xcursor_cache \<times> frame_call list) option" where
  "render_cursor env viewport st c =
     (if \<not> fe_cursor env \<or> \<not> fe_renderer env \<or> is_nested_backend env then Some (c, [])
      else Option.bind (cursor_image env st c) (\<lambda>((texture, hx, hy), c', es).
        case texture of
          None \<Rightarrow> Some (c', es)
        | Some t \<Rightarrow>
            Option.bind (cursor_pixel (cursor_x st) hx (vp_x viewport)) (\<lambda>x.
            Option.bind (cursor_pixel (cursor_y st) hy (vp_y viewport)) (\<lambda>y.
              Some (c', es @ [DrawCursor t \<lparr>box_x = x, box_y = y, box_width = fst (fe_texture_size env t),
                box_height = snd (fe_texture_size env t)\<rparr>])))))"

section \<open>The frame\<close>

fun update_positions :: "(ptr \<Rightarrow> fwr_view option) \<Rightarrow> ptr list \<Rightarrow> effect list option" where
  "update_positions store [] = Some []"
| "update_positions store (p # ps) =
     Option.bind (store p) (\<lambda>view.
     Option.bind (case v_scene_tree view of
          None \<Rightarrow> Some []
        | Some t \<Rightarrow> map_option (\<lambda>y. [Scene (SetPosition t (v_x view) y)])
            (i32 (v_y view + (if uses_ssd view then FWR_SSD_TITLEBAR_HEIGHT else 0)))) (\<lambda>es.
       map_option (\<lambda>es'. es @ es') (update_positions store ps)))"

definition fwr_renderer_update_scene_positions :: "wlr_env \<Rightarrow> fwr_instance \<Rightarrow> effect list option" where
  "fwr_renderer_update_scene_positions env st =
     (if \<not> e_scene env then Some [] else update_positions (view_store st) (views_list st))"

text \<open>The two loops over the clients at the end of a frame.\<close>

fun views_done :: "wlr_env \<Rightarrow> (ptr \<Rightarrow> fwr_view option) \<Rightarrow> ptr list \<Rightarrow> frame_call list option" where
  "views_done env store [] = Some []"
| "views_done env store (p # ps) =
     Option.bind (store p) (\<lambda>view.
       map_option (\<lambda>es. (case e_surface env (v_xdg_surface view) of Some s \<Rightarrow> [FrameDone s] | None \<Rightarrow> []) @ es)
         (views_done env store ps))"

fun popups_done :: "wlr_env \<Rightarrow> (ptr \<Rightarrow> fwr_popup option) \<Rightarrow> (u32 \<times> ptr) list \<Rightarrow> frame_call list option" where
  "popups_done env store [] = Some []"
| "popups_done env store ((h, p) # hs) =
     Option.bind (store p) (\<lambda>popup.
       map_option (\<lambda>es. (case e_surface env (p_xdg_surface popup) of
            Some s \<Rightarrow> if e_mapped env s then [FrameDone s] else [] | None \<Rightarrow> []) @ es)
         (popups_done env store hs))"

definition output_viewport :: "wlr_env \<Rightarrow> wref \<Rightarrow> fwr_output_viewport" where
  "output_viewport env w =
     (let b = e_layout_box env (Some w)
      in \<lparr>vp_x = box_x b, vp_y = box_y b, vp_width = e_output_width env w, vp_height = e_output_height env w\<rparr>)"

text \<open>The render pass, from the background to the cursor.\<close>

definition draw_frame ::
    "frame_env \<Rightarrow> wref \<Rightarrow> fwr_instance \<Rightarrow> fwr_renderer \<Rightarrow> xcursor_cache \<Rightarrow> (fwr_renderer \<times> xcursor_cache \<times> frame_call list) option" where
  "draw_frame env w st r c =
     (let wlr = re_wlr (fe_render env); viewport = output_viewport wlr w in
      Option.bind (fwr_renderer_update_scene_positions wlr st) (\<lambda>positions.
      Option.bind (fwr_renderer_render_scene (fe_render env) viewport st r) (\<lambda>(r', draws).
      Option.bind (render_cursor env viewport st c) (\<lambda>(c', cursor_calls).
        Some (r', c', AddRect (e_output_width wlr w) (e_output_height wlr w) # map Call positions
          @ map Draw draws @ cursor_calls)))))"

definition output_frame ::
    "frame_env \<Rightarrow> ptr \<Rightarrow> fwr_instance \<times> fwr_renderer \<times> xcursor_cache
      \<Rightarrow> ((fwr_instance \<times> fwr_renderer \<times> xcursor_cache) \<times> frame_call list) option" where
  "output_frame env p s =
     (case s of (st, r, c) \<Rightarrow>
      Option.bind (output_store st p) (\<lambda>out.
      Option.bind (output_frame_vsync (re_wlr (fe_render env)) p st) (\<lambda>(st1, baton).
        let w = out_wlr out; wlr = re_wlr (fe_render env) in
        if \<not> fe_begin_pass env then Some ((st1, r, c), map Call baton @ [ScheduleFrame w])
        else Option.bind (draw_frame env w st1 r c) (\<lambda>(r', c', pass).
          if \<not> fe_submit env then Some ((st1, r', c'), map Call baton @ pass @ [Submit, ScheduleFrame w])
          else Option.bind (views_done wlr (view_store st1) (views_list st1)) (\<lambda>vs.
               Option.bind (popups_done wlr (popup_store st1) (entries (popups st1))) (\<lambda>ps.
                 Some ((st1, r', c'), map Call baton @ pass @ [Submit, Commit w] @ vs @ ps @ [ScheduleFrame w])))))))"

section \<open>The end of a frame\<close>

lemma output_frame_vsync_frame:
  assumes "output_frame_vsync env p st = Some (st1, baton)"
  shows "st1 = (if vsync_output st = Some p then st\<lparr>vsync_baton := 0\<rparr> else st)"
    "baton = (if vsync_output st = Some p \<and> vsync_baton st \<noteq> 0
       then [Engine (OnVsync (vsync_baton st) (e_time env)
          (e_time env + limit_interval (vsync_rate_limit st) (mode_interval env (out_wlr (the (output_store st p))))))] else [])"
  using assms by (auto simp: output_frame_vsync_def return_baton_def Let_def split: option.splits if_splits)

lemma draw_frame_schedules: "draw_frame env w st r c = Some (r', c', es) \<Longrightarrow> ScheduleFrame w' \<notin> set es"
  by (auto simp: draw_frame_def render_cursor_def cursor_image_def named_cursor_image_def cached_xcursor_def Let_def
      split: bind_splits option.splits if_splits list.splits prod.splits)

lemma views_done_spec:
  "views_done env store ps = Some es \<Longrightarrow>
     (ScheduleFrame w \<notin> set es \<and> Commit w \<notin> set es) \<and> (\<forall>p view s. p \<in> set ps \<longrightarrow> store p = Some view \<longrightarrow>
       e_surface env (v_xdg_surface view) = Some s \<longrightarrow> FrameDone s \<in> set es)"
  by (induction ps arbitrary: es) (fastforce split: bind_splits option.splits)+

lemma popups_done_spec:
  "popups_done env store hs = Some es \<Longrightarrow>
     (ScheduleFrame w \<notin> set es \<and> Commit w \<notin> set es) \<and> (\<forall>h p popup s. (h, p) \<in> set hs \<longrightarrow> store p = Some popup \<longrightarrow>
       e_surface env (p_xdg_surface popup) = Some s \<longrightarrow> e_mapped env s \<longrightarrow> FrameDone s \<in> set es)"
proof (induction hs arbitrary: es)
  case (Cons hp hs)
  obtain h p where hp: "hp = (h, p)" by fastforce
  from Cons.prems obtain popup es' where p: "store p = Some popup" "popups_done env store hs = Some es'"
    "es = (case e_surface env (p_xdg_surface popup) of Some s \<Rightarrow> if e_mapped env s then [FrameDone s] else [] | None \<Rightarrow> []) @ es'"
    by (auto simp: hp split: bind_splits)
  from Cons.IH [OF p(2)] p(1,3) show ?case by (auto simp: hp split: option.splits)
qed simp

text \<open>
  C31: The frame loop of a monitor never stops. Whatever fails, the render pass, its submission or
  nothing, a frame ends by scheduling the next one of the same monitor, and schedules no other; and
  the monitor that drives Flutter answers the engine's pending request before anything else.
\<close>
theorem frame_always_rescheduled:
  assumes "output_frame env p (st, r, c) = Some ((st', r', c'), es)"
  shows "\<exists>out es0. output_store st p = Some out \<and> es = es0 @ [ScheduleFrame (out_wlr out)] \<and> (\<forall>w. ScheduleFrame w \<notin> set es0)
    \<and> (vsync_output st = Some p \<longrightarrow> vsync_baton st' = 0
        \<and> (vsync_baton st \<noteq> 0 \<longrightarrow> (\<exists>t t' es1. es0 = Call (Engine (OnVsync (vsync_baton st) t t')) # es1)))"
proof -
  let ?env = "re_wlr (fe_render env)"
  from assms obtain out st1 baton where o: "output_store st p = Some out" "output_frame_vsync ?env p st = Some (st1, baton)"
    by (auto simp: output_frame_def split: bind_splits)
  note v = output_frame_vsync_frame [OF o(2)]
  have "\<exists>rest'. es = map Call baton @ rest' @ [ScheduleFrame (out_wlr out)] \<and> (\<forall>w. ScheduleFrame w \<notin> set rest') \<and> st' = st1"
  proof (cases "fe_begin_pass env")
    case False
    with assms o show ?thesis by (auto simp: output_frame_def)
  next
    case True
    with assms o obtain r1 c1 pass where d: "draw_frame env (out_wlr out) st1 r c = Some (r1, c1, pass)"
      by (auto simp: output_frame_def Let_def split: bind_splits)
    note s = draw_frame_schedules [OF d]
    show ?thesis
    proof (cases "fe_submit env")
      case False
      with assms o d True s show ?thesis by (auto simp: output_frame_def Let_def)
    next
      case ok: True
      with assms o d True obtain vs ps where f: "views_done ?env (view_store st1) (views_list st1) = Some vs"
        "popups_done ?env (popup_store st1) (entries (popups st1)) = Some ps"
        "es = map Call baton @ pass @ [Submit, Commit (out_wlr out)] @ vs @ ps @ [ScheduleFrame (out_wlr out)]" "st' = st1"
        by (auto simp: output_frame_def Let_def split: bind_splits)
      have "ScheduleFrame w \<notin> set (pass @ [Submit, Commit (out_wlr out)] @ vs @ ps)" for w
        using s views_done_spec [OF f(1)] popups_done_spec [OF f(2)] by auto
      with f show ?thesis by (intro exI [of _ "pass @ [Submit, Commit (out_wlr out)] @ vs @ ps"]) simp
    qed
  qed
  then obtain rest' where R: "es = map Call baton @ rest' @ [ScheduleFrame (out_wlr out)]" "\<forall>w. ScheduleFrame w \<notin> set rest'" "st' = st1"
    by blast
  have "ScheduleFrame w \<notin> set (map Call baton @ rest')" for w using R(2) by auto
  moreover have "vsync_output st = Some p \<longrightarrow> vsync_baton st' = 0
      \<and> (vsync_baton st \<noteq> 0 \<longrightarrow> (\<exists>t t' es1. map Call baton @ rest' = Call (Engine (OnVsync (vsync_baton st) t t')) # es1))"
    using v R(3) by simp
  ultimately show ?thesis using o(1) R(1) by (intro exI [of _ out] exI [of _ "map Call baton @ rest'"]) simp
qed

lemma entries_of_popup:
  assumes "surfaces_ok st" and "popup_store st q = Some popup"
  shows "(p_handle popup, q) \<in> set (entries (popups st))"
proof -
  have "handle_map_get (popups st) (p_handle popup) = Some q"
    using assms by (simp add: surfaces_ok_def tracks_def)
  then show ?thesis by (simp add: handle_map_get_def map_of_SomeD)
qed

text \<open>
  C34: Every client hears that its frame was shown. When a frame is submitted, it is committed, and after
  the commit every toplevel window and every mapped popup of the instance gets its frame callback:
  no client waits for a callback that a frame of another one swallowed.
\<close>
theorem frame_reaches_clients:
  assumes "surfaces_ok st" and "output_frame env p (st, r, c) = Some (s', es)" and "fe_begin_pass env" and "fe_submit env"
  shows "\<exists>out before after. output_store st p = Some out \<and> es = before @ Commit (out_wlr out) # after
    \<and> (\<forall>q view s. view_store st q = Some view \<longrightarrow> e_surface (re_wlr (fe_render env)) (v_xdg_surface view) = Some s \<longrightarrow> FrameDone s \<in> set after)
    \<and> (\<forall>q popup s. popup_store st q = Some popup \<longrightarrow> e_surface (re_wlr (fe_render env)) (p_xdg_surface popup) = Some s \<longrightarrow>
         e_mapped (re_wlr (fe_render env)) s \<longrightarrow> FrameDone s \<in> set after)"
proof -
  let ?env = "re_wlr (fe_render env)"
  from assms(2-4) obtain out st1 baton r1 c1 pass vs ps where
    o: "output_store st p = Some out" "output_frame_vsync ?env p st = Some (st1, baton)"
    and f: "views_done ?env (view_store st1) (views_list st1) = Some vs"
      "popups_done ?env (popup_store st1) (entries (popups st1)) = Some ps"
      "es = map Call baton @ pass @ [Submit, Commit (out_wlr out)] @ vs @ ps @ [ScheduleFrame (out_wlr out)]"
    by (auto simp: output_frame_def Let_def split: bind_splits)
  have same: "view_store st1 = view_store st" "views_list st1 = views_list st" "popup_store st1 = popup_store st" "popups st1 = popups st"
    using output_frame_vsync_frame(1) [OF o(2)] by simp_all
  have v: "FrameDone s \<in> set vs" if "view_store st q = Some view" "e_surface ?env (v_xdg_surface view) = Some s" for q view s
    using views_done_spec [OF f(1)] that assms(1) unfolding same surfaces_ok_def by blast
  have p: "FrameDone s \<in> set ps" if "popup_store st q = Some popup" "e_surface ?env (p_xdg_surface popup) = Some s" "e_mapped ?env s" for q popup s
    using popups_done_spec [OF f(2)] that entries_of_popup [OF assms(1) that(1)] unfolding same by blast
  show ?thesis using o(1) f(3) v p
    by (intro exI [of _ out] exI [of _ "map Call baton @ pass @ [Submit]"] exI [of _ "vs @ ps @ [ScheduleFrame (out_wlr out)]"]) auto
qed

section \<open>What a frame shows\<close>

lemma update_positions_defined:
  assumes "\<forall>p \<in> set ps. \<exists>view. store p = Some view \<and> \<bar>v_y view\<bar> < 2 ^ 30"
  shows "\<exists>es. update_positions store ps = Some es"
  using assms
proof (induction ps)
  case (Cons p ps)
  then obtain view es where v: "store p = Some view" "\<bar>v_y view\<bar> < 2 ^ 30" "update_positions store ps = Some es" by auto
  then have "i32 (v_y view + (if uses_ssd view then FWR_SSD_TITLEBAR_HEIGHT else 0)) = Some (v_y view + (if uses_ssd view then FWR_SSD_TITLEBAR_HEIGHT else 0))"
    by (auto simp: i32_def in_i32_def FWR_SSD_TITLEBAR_HEIGHT_def abs_less_iff)
  then show ?case using v by (auto split: option.splits)
qed simp

lemma views_done_defined: "\<forall>p \<in> set ps. store p \<noteq> None \<Longrightarrow> \<exists>es. views_done env store ps = Some es"
  by (induction ps) auto

lemma popups_done_defined: "\<forall>(h, p) \<in> set hs. store p \<noteq> None \<Longrightarrow> \<exists>es. popups_done env store hs = Some es"
  by (induction hs) auto

lemma surfaces_ok_popups: "surfaces_ok st \<Longrightarrow> \<forall>(h, p) \<in> set (entries (popups st)). popup_store st p \<noteq> None"
proof -
  assume "surfaces_ok st"
  then have t: "tracks (popups st) (popup_store st) p_handle" by (simp add: surfaces_ok_def)
  then have d: "sorted_keys (entries (popups st))" by (simp add: tracks_def handle_inv_def)
  then have d': "distinct (map fst (entries (popups st)))" using strict_sorted_iff by blast
  have "popup_store st p \<noteq> None" if "(h, p) \<in> set (entries (popups st))" for h p
  proof -
    have "handle_map_get (popups st) h = Some p" using that d' by (simp add: handle_map_get_def)
    from tracks_get [OF t this] show ?thesis by auto
  qed
  then show ?thesis by blast
qed

lemma done_draws:
  "views_done env store ps = Some es \<Longrightarrow> Draw d \<notin> set es"
  "popups_done env store' hs = Some es' \<Longrightarrow> Draw d \<notin> set es'"
proof -
  show "views_done env store ps = Some es \<Longrightarrow> Draw d \<notin> set es"
    by (induction ps arbitrary: es) (auto split: bind_splits option.splits)
  show "popups_done env store' hs = Some es' \<Longrightarrow> Draw d \<notin> set es'"
    by (induction hs arbitrary: es') (auto split: bind_splits option.splits if_splits)
qed

text \<open>
  What a layer of a scene shows: a texture of Flutter's own, a window moved by whole pixels whose
  widget has the size of its surface, on a monitor of the scale 1, or a window that is gone.
\<close>

datatype shown_layer = Own_texture ptr | Window fwr_view wref "(int \<times> int) list" | Gone_window

definition layer_shows :: "render_env \<Rightarrow> fwr_instance \<Rightarrow> fwr_renderer_scene_layer \<Rightarrow> shown_layer \<Rightarrow> bool" where
  "layer_shows env st l k =
     (case k of
        Own_texture p \<Rightarrow> layer_content l = sceneLayerTexture p
      | Gone_window \<Rightarrow> \<exists>id ms. layer_content l = sceneLayerPlatform id ms \<and> get_view st (word_of_int id) = NotFound
      | Window view surface moves \<Rightarrow>
          (\<exists>id p. layer_content l = sceneLayerPlatform id (map move moves) \<and> get_view st (word_of_int id) = Found p view)
          \<and> layer_size l = (f64_of_int (e_surface_width (re_wlr env) surface), f64_of_int (e_surface_height (re_wlr env) surface))
          \<and> output_scale_of (re_wlr env) st (view_output view st) = Some d1
          \<and> e_surface (re_wlr env) (v_xdg_surface view) = Some surface \<and> sane_surfaces env surface \<and> in_range (2 ^ 28) 0 0 moves)"

definition layer_draw ::
    "render_env \<Rightarrow> fwr_output_viewport \<Rightarrow> fwr_instance \<Rightarrow> fwr_renderer \<Rightarrow> fwr_renderer_scene_layer \<times> shown_layer \<Rightarrow> draw_call list" where
  "layer_draw env viewport st r lk =
     (case snd lk of
        Own_texture p \<Rightarrow>
          render_scene_layer_texture (layer_offset (fst lk)) (layer_size (fst lk)) (the (texture_store r p)) viewport
      | Window view surface moves \<Rightarrow>
          concat (map (shown_at env (fst (sum_moves moves)) (snd (sum_moves moves)) viewport) (re_surfaces env surface))
          @ presented st view surface @ [SendFrameDone surface]
      | Gone_window \<Rightarrow> [])"

lemma layer_drawn:
  assumes "layer_shows env st l k" and "\<forall>p. layer_content l = sceneLayerTexture p \<longrightarrow> texture_store r p \<noteq> None"
    and "\<bar>vp_x viewport\<bar> < 2 ^ 28" and "\<bar>vp_y viewport\<bar> < 2 ^ 28"
  shows "render_layer env viewport st (r\<lparr>scene_sync := n\<rparr>) l = Some (layer_draw env viewport st r (l, k))"
proof (cases k)
  case (Window view surface moves)
  with assms(1) obtain id p where "layer_content l = sceneLayerPlatform id (map move moves)" "get_view st (word_of_int id) = Found p view"
    "layer_size l = (f64_of_int (e_surface_width (re_wlr env) surface), f64_of_int (e_surface_height (re_wlr env) surface))"
    "output_scale_of (re_wlr env) st (view_output view st) = Some d1" "e_surface (re_wlr env) (v_xdg_surface view) = Some surface"
    "sane_surfaces env surface" "in_range (2 ^ 28) 0 0 moves" by (auto simp: layer_shows_def)
  with window_layer_drawn [of st id p view env surface moves viewport] assms(3,4) Window show ?thesis
    by (simp add: render_layer_def layer_draw_def)
next
  case (Own_texture p)
  with assms(1,2) show ?thesis by (auto simp: layer_shows_def render_layer_def layer_draw_def)
next
  case Gone_window
  with assms(1) show ?thesis by (auto simp: layer_shows_def render_layer_def layer_draw_def render_scene_layer_platform_def)
qed

lemma layers_drawn:
  assumes "list_all2 (layer_shows env st) ls ks" and "\<forall>l \<in> set ls. \<forall>p. layer_content l = sceneLayerTexture p \<longrightarrow> texture_store r p \<noteq> None"
    and "\<bar>vp_x viewport\<bar> < 2 ^ 28" and "\<bar>vp_y viewport\<bar> < 2 ^ 28"
  shows "concat_option (map (render_layer env viewport st (r\<lparr>scene_sync := n\<rparr>)) ls)
    = Some (concat (map (layer_draw env viewport st r) (zip ls ks)))"
  using assms(1,2) by (induction rule: list_all2_induct) (simp_all add: layer_drawn [OF _ _ assms(3,4)])

lemma scene_drawn:
  assumes "list_all2 (layer_shows env st) (layers r) ks" and "\<forall>p \<in> layer_textures r. texture_store r p \<noteq> None"
    and "\<bar>vp_x viewport\<bar> < 2 ^ 28" and "\<bar>vp_y viewport\<bar> < 2 ^ 28"
  shows "fwr_renderer_render_scene env viewport st r = Some (r\<lparr>scene_sync := 0\<rparr>,
    (if scene_sync r \<noteq> 0 then [WaitSync (scene_sync r), DestroySceneSync (scene_sync r)] else [])
    @ concat (map (layer_draw env viewport st r) (zip (layers r) ks)))"
proof -
  have same: "r = r\<lparr>scene_sync := 0\<rparr>" if "scene_sync r = 0" using that by simp
  have "\<forall>l \<in> set (layers r). \<forall>p. layer_content l = sceneLayerTexture p \<longrightarrow> texture_store r p \<noteq> None"
    using assms(2) by (auto simp: layer_textures_def)
  from layers_drawn [OF assms(1) this assms(3,4), of 0] same
  show ?thesis by (cases "scene_sync r = 0") (simp_all add: fwr_renderer_render_scene_def)
qed

lemma lookups_vsync:
  "get_view (st\<lparr>vsync_baton := b\<rparr>) i = get_view st i" "view_output v (st\<lparr>vsync_baton := b\<rparr>) = view_output v st"
  "output_scale_of env (st\<lparr>vsync_baton := b\<rparr>) o' = output_scale_of env st o'"
  by (simp_all add: get_view_def view_output_def output_scale_of_def fwr_get_first_output_def cong: option.case_cong)

lemma vsync_frame:
  "layer_shows env (st\<lparr>vsync_baton := b\<rparr>) = layer_shows env st" "layer_draw env viewport (st\<lparr>vsync_baton := b\<rparr>) = layer_draw env viewport st"
  by (simp_all add: fun_eq_iff layer_shows_def layer_draw_def presented_def lookups_vsync cong: shown_layer.case_cong option.case_cong)

text \<open>Positions and hotspots of the cursor of which no difference leaves the range of an \<open>int\<close>.\<close>

definition cursor_in_range :: "frame_env \<Rightarrow> fwr_instance \<Rightarrow> bool" where
  "cursor_in_range env st \<longleftrightarrow>
     (\<forall>v \<in> {cursor_x st, cursor_y st}. \<exists>i. f64_to_i32 v = Some i \<and> \<bar>i\<bar> < 2 ^ 29)
     \<and> (\<forall>s. client_cursor_surface st = Some s \<longrightarrow> fe_surface_live env s
          \<and> \<bar>client_cursor_hotspot_x st\<bar> < 2 ^ 29 \<and> \<bar>client_cursor_hotspot_y st\<bar> < 2 ^ 29)
     \<and> (\<forall>name i is. fe_xcursor env name = Some (i # is) \<longrightarrow> \<bar>xi_hotspot_x i\<bar> < 2 ^ 29 \<and> \<bar>xi_hotspot_y i\<bar> < 2 ^ 29)"

lemma cursor_pixel_defined:
  assumes "f64_to_i32 v = Some i" and "\<bar>i\<bar> < 2 ^ 29" and "\<bar>hotspot\<bar> < 2 ^ 29" and "\<bar>origin\<bar> < 2 ^ 29"
  shows "cursor_pixel v hotspot origin = Some (i - hotspot - origin)"
  using assms by (simp add: cursor_pixel_def i32_def in_i32_def abs_less_iff)

lemma cursor_image_range:
  assumes "cursor_in_range env st"
  shows "\<exists>t hx hy c' es. cursor_image env st c = Some ((t, hx, hy), c', es) \<and> \<bar>hx\<bar> < 2 ^ 29 \<and> \<bar>hy\<bar> < 2 ^ 29"
proof -
  have n: "\<exists>t hx hy c' es. named_cursor_image env st c = ((t, hx, hy), c', es) \<and> \<bar>hx\<bar> < 2 ^ 29 \<and> \<bar>hy\<bar> < 2 ^ 29"
    using assms by (auto simp: named_cursor_image_def cursor_in_range_def split_beta split: option.splits list.splits)
  then show ?thesis using assms by (auto simp: cursor_image_def cursor_in_range_def split: option.splits)
qed

lemma render_cursor_defined:
  assumes "cursor_in_range env st" and "\<bar>vp_x viewport\<bar> < 2 ^ 29" and "\<bar>vp_y viewport\<bar> < 2 ^ 29"
  shows "\<exists>c' es. render_cursor env viewport st c = Some (c', es)"
proof -
  from cursor_image_range [OF assms(1), of c] obtain t hx hy c' es where
    i: "cursor_image env st c = Some ((t, hx, hy), c', es)" "\<bar>hx\<bar> < 2 ^ 29" "\<bar>hy\<bar> < 2 ^ 29" by blast
  from assms(1) obtain x y where "f64_to_i32 (cursor_x st) = Some x" "\<bar>x\<bar> < 2 ^ 29" "f64_to_i32 (cursor_y st) = Some y" "\<bar>y\<bar> < 2 ^ 29"
    by (auto simp: cursor_in_range_def)
  with cursor_pixel_defined [OF _ _ i(2) assms(2)] cursor_pixel_defined [OF _ _ i(3) assms(3)] i(1) show ?thesis
    by (auto simp: render_cursor_def split: option.splits)
qed

lemma scene_frame:
  assumes "frames fresh_renderer r out_stores" and "list_all2 (layer_shows (fe_render env) st) (layers r) ks" and "surfaces_ok st" and "output_store st p = Some out"
    and "\<forall>q view. view_store st q = Some view \<longrightarrow> \<bar>v_y view\<bar> < 2 ^ 30" and "cursor_in_range env st"
    and "\<bar>vp_x (output_viewport (re_wlr (fe_render env)) (out_wlr out))\<bar> < 2 ^ 28"
    and "\<bar>vp_y (output_viewport (re_wlr (fe_render env)) (out_wlr out))\<bar> < 2 ^ 28"
    and "fe_begin_pass env" and "fe_submit env"
  shows "\<exists>st' c' es before positions after. output_frame env p (st, r, c) = Some ((st', r\<lparr>scene_sync := 0\<rparr>, c'), es)
    \<and> es = before @ AddRect (e_output_width (re_wlr (fe_render env)) (out_wlr out)) (e_output_height (re_wlr (fe_render env)) (out_wlr out))
        # map Call positions
        @ map Draw ((if scene_sync r \<noteq> 0 then [WaitSync (scene_sync r), DestroySceneSync (scene_sync r)] else [])
            @ concat (map (layer_draw (fe_render env) (output_viewport (re_wlr (fe_render env)) (out_wlr out)) st r) (zip (layers r) ks))) @ after
    \<and> Submit \<in> set after \<and> (\<forall>d. Draw d \<notin> set before \<and> Draw d \<notin> set after)"
proof -
  let ?env = "re_wlr (fe_render env)"
  let ?vp = "output_viewport ?env (out_wlr out)"
  obtain st1 baton where b: "output_frame_vsync ?env p st = Some (st1, baton)"
    using assms(4) by (cases "output_frame_vsync ?env p st") (auto simp: output_frame_vsync_def)
  have same: "view_store st1 = view_store st" "views_list st1 = views_list st" "popup_store st1 = popup_store st" "popups st1 = popups st"
    "cursor_in_range env st1 = cursor_in_range env st"
    using output_frame_vsync_frame(1) [OF b] by (simp_all add: cursor_in_range_def)
  have dom: "set (views_list st) = dom (view_store st)" using assms(3) by (simp add: surfaces_ok_def)
  have "\<exists>es. update_positions (view_store st1) (views_list st1) = Some es"
    unfolding same by (rule update_positions_defined) (use dom assms(5) in auto)
  then obtain pos where pos: "fwr_renderer_update_scene_positions ?env st1 = Some pos"
    by (cases "e_scene ?env") (auto simp: fwr_renderer_update_scene_positions_def)
  have alloc: "\<forall>q \<in> layer_textures r. texture_store r q \<noteq> None"
    using frames_ok [OF assms(1) fresh_renderer_ok] by (auto simp: pages_ok_def Let_def)
  have same_layers: "layer_shows (fe_render env) st1 = layer_shows (fe_render env) st" "layer_draw (fe_render env) ?vp st1 = layer_draw (fe_render env) ?vp st"
    using output_frame_vsync_frame(1) [OF b] by (simp_all add: vsync_frame)
  note scene = scene_drawn [OF assms(2) [folded same_layers(1)] alloc assms(7,8), unfolded same_layers(2)]
  obtain c' cs where cur: "render_cursor env ?vp st1 c = Some (c', cs)"
    using render_cursor_defined [of env st1 ?vp c] assms(6-8) same(5) by auto
  have cs: "Draw d \<notin> set cs" for d
    using cur by (auto simp: render_cursor_def cursor_image_def named_cursor_image_def cached_xcursor_def Let_def
        split: bind_splits option.splits if_splits list.splits prod.splits)
  obtain vs where vs: "views_done ?env (view_store st1) (views_list st1) = Some vs"
    using views_done_defined [of "views_list st1" "view_store st1" ?env] dom unfolding same by auto
  obtain ps where ps: "popups_done ?env (popup_store st1) (entries (popups st1)) = Some ps"
    using popups_done_defined [OF surfaces_ok_popups [OF assms(3)], of ?env] unfolding same by auto
  have dn: "Draw d \<notin> set vs \<and> Draw d \<notin> set ps" for d
    using done_draws(1) [OF vs] done_draws(2) [OF ps] by blast
  let ?tail = "cs @ [Submit, Commit (out_wlr out)] @ vs @ ps @ [ScheduleFrame (out_wlr out)]"
  have "\<exists>es. output_frame env p (st, r, c) = Some ((st1, r\<lparr>scene_sync := 0\<rparr>, c'), es)
      \<and> es = map Call baton @ AddRect (e_output_width ?env (out_wlr out)) (e_output_height ?env (out_wlr out)) # map Call pos
        @ map Draw ((if scene_sync r \<noteq> 0 then [WaitSync (scene_sync r), DestroySceneSync (scene_sync r)] else [])
            @ concat (map (layer_draw (fe_render env) ?vp st r) (zip (layers r) ks))) @ ?tail"
    using assms(4,9,10) b pos scene cur vs ps by (simp add: output_frame_def draw_frame_def Let_def)
  moreover have "Submit \<in> set ?tail \<and> (\<forall>d. Draw d \<notin> set (map Call baton) \<and> Draw d \<notin> set ?tail)"
    using cs dn by auto
  ultimately show ?thesis by blast
qed


section \<open>The texture of the cursor\<close>

fun texture_call :: "frame_call \<Rightarrow> bool" where
  "texture_call (TextureFromPixels _ _) = True"
| "texture_call (TextureDestroy _) = True"
| "texture_call _ = False"

text \<open>The textures made and destroyed, and the last one made, with its name, unless it was destroyed.\<close>

fun made :: "frame_call \<Rightarrow> wref multiset" where
  "made (TextureFromPixels n (Some t)) = {#t#}"
| "made _ = {#}"

fun gone :: "frame_call \<Rightarrow> wref multiset" where
  "gone (TextureDestroy t) = {#t#}"
| "gone _ = {#}"

fun last_made :: "frame_call list \<Rightarrow> (byte list \<times> wref) option \<Rightarrow> (byte list \<times> wref) option" where
  "last_made [] k = k"
| "last_made (TextureFromPixels n t # es) k = last_made es (map_option (Pair n) t)"
| "last_made (TextureDestroy t # es) k = last_made es None"
| "last_made (e # es) k = last_made es k"

definition cached :: "xcursor_cache \<Rightarrow> (byte list \<times> wref) option" where
  "cached c = (case (xcursor_texture_name c, xcursor_texture c) of (Some n, Some t) \<Rightarrow> Some (n, t) | _ \<Rightarrow> None)"

definition no_xcursor :: xcursor_cache where
  "no_xcursor = \<lparr>xcursor_texture = None, xcursor_texture_name = None\<rparr>"

text \<open>Frames of any monitors, with any change of the instance and the scene between them.\<close>

inductive frame_run :: "xcursor_cache \<Rightarrow> frame_call list \<Rightarrow> bool" where
  start: "frame_run no_xcursor []"
| frame: "frame_run c past \<Longrightarrow> output_frame env p (st, r, c) = Some ((st', r', c'), es) \<Longrightarrow> frame_run c' (past @ es)"

definition cursor_balanced :: "xcursor_cache \<Rightarrow> frame_call list \<Rightarrow> bool" where
  "cursor_balanced c past \<longleftrightarrow>
     sum_list (map made past) = sum_list (map gone past) + (case xcursor_texture c of Some t \<Rightarrow> {#t#} | None \<Rightarrow> {#})
     \<and> last_made past None = cached c \<and> (xcursor_texture c = None \<longleftrightarrow> xcursor_texture_name c = None)"

lemma last_made_append: "last_made (es @ es') k = last_made es' (last_made es k)"
  by (induction es k rule: last_made.induct) auto

lemma only_texture_calls:
  "sum_list (map made (List.filter texture_call es)) = sum_list (map made es)"
  "sum_list (map gone (List.filter texture_call es)) = sum_list (map gone es)"
  "last_made (List.filter texture_call es) k = last_made es k"
proof -
  have "\<not> texture_call e \<Longrightarrow> made e = {#} \<and> gone e = {#}" for e by (cases e) auto
  then show "sum_list (map made (List.filter texture_call es)) = sum_list (map made es)"
    "sum_list (map gone (List.filter texture_call es)) = sum_list (map gone es)"
    by (induction es) auto
  show "last_made (List.filter texture_call es) k = last_made es k"
    by (induction es k rule: last_made.induct) auto
qed

lemma cursor_balanced_texture_calls:
  "List.filter texture_call es = es' \<Longrightarrow> cursor_balanced c (past @ es) = cursor_balanced c (past @ es')"
  using only_texture_calls(1,2) [of es] only_texture_calls(3) [of es "last_made past None"]
  by (auto simp: cursor_balanced_def last_made_append)

text \<open>What a frame does to the cached texture, and which texture it draws.\<close>

definition cursor_step :: "frame_env \<Rightarrow> fwr_instance \<Rightarrow> xcursor_cache \<Rightarrow> xcursor_cache \<Rightarrow> frame_call list \<Rightarrow> bool" where
  "cursor_step env st c c' es \<longleftrightarrow>
     (c' = c \<and> List.filter texture_call es = []
       \<or> (\<exists>name. current_xcursor_name st = Some name \<and> cached_xcursor env name c = (c', List.filter texture_call es)))
     \<and> (\<forall>t b. client_cursor_surface st = None \<longrightarrow> DrawCursor t b \<in> set es \<longrightarrow>
          (\<exists>name. current_xcursor_name st = Some name \<and> cached_xcursor env name c = (c', List.filter texture_call es))
          \<and> xcursor_texture c' = Some t)"

lemma cached_xcursor_calls: "cached_xcursor env name c = (c', es) \<Longrightarrow> List.filter texture_call es = es \<and> DrawCursor t b \<notin> set es"
  by (auto simp: cached_xcursor_def split: if_splits option.splits)

lemma named_cursor_step:
  assumes "named_cursor_image env st c = ((t, hx, hy), c', es)"
  shows "cursor_step env st c c' es \<and> (case t of None \<Rightarrow> True | Some t' \<Rightarrow>
    (\<exists>name. current_xcursor_name st = Some name \<and> cached_xcursor env name c = (c', es)) \<and> xcursor_texture c' = Some t')
    \<and> List.filter texture_call es = es \<and> (\<forall>t b. DrawCursor t b \<notin> set es)"
proof (cases "\<exists>name i is. current_xcursor_name st = Some name \<and> fe_cursor_mgr env \<and> fe_xcursor env name = Some (i # is)")
  case True
  then obtain name i "is" where n: "current_xcursor_name st = Some name" "fe_cursor_mgr env" "fe_xcursor env name = Some (i # is)" by blast
  then have x: "cached_xcursor env name c = (c', es)" "t = xcursor_texture c'"
    using assms by (auto simp: named_cursor_image_def split: prod.splits)
  have f: "List.filter texture_call es = es" "\<And>t b. DrawCursor t b \<notin> set es" using cached_xcursor_calls [OF x(1)] by auto
  show ?thesis using n(1) x f by (auto simp: cursor_step_def split: option.splits)
next
  case False
  then have "t = None" "c' = c" "es = []"
    using assms by (auto simp: named_cursor_image_def split: option.splits list.splits if_splits prod.splits)
  then show ?thesis by (simp add: cursor_step_def)
qed

lemma render_cursor_step:
  assumes "render_cursor env vp st c = Some (c', es)"
  shows "cursor_step env st c c' es"
proof (cases "\<not> fe_cursor env \<or> \<not> fe_renderer env \<or> is_nested_backend env")
  case True
  with assms show ?thesis by (auto simp: render_cursor_def cursor_step_def)
next
  case False
  with assms obtain t hx hy es0 where i: "cursor_image env st c = Some ((t, hx, hy), c', es0)"
    and es: "es = es0 \<or> (\<exists>t' b. t = Some t' \<and> es = es0 @ [DrawCursor t' b])"
    by (auto simp: render_cursor_def split: bind_splits option.splits)
  show ?thesis
  proof (cases "\<exists>s. client_cursor_surface st = Some s \<and> e_mapped (re_wlr (fe_render env)) s")
    case True
    with i es show ?thesis by (auto simp: cursor_image_def cursor_step_def split: if_splits)
  next
    case False
    with i have "named_cursor_image env st c = ((t, hx, hy), c', es0)"
      by (auto simp: cursor_image_def split: option.splits if_splits)
    from named_cursor_step [OF this] es show ?thesis unfolding cursor_step_def by (auto split: option.splits)
  qed
qed

lemma views_done_step: "views_done env store ps = Some es \<Longrightarrow> List.filter texture_call es = [] \<and> (\<forall>t b. DrawCursor t b \<notin> set es)"
  by (induction ps arbitrary: es) (auto split: bind_splits option.splits)

lemma popups_done_step: "popups_done env store hs = Some es \<Longrightarrow> List.filter texture_call es = [] \<and> (\<forall>t b. DrawCursor t b \<notin> set es)"
  by (induction hs arbitrary: es) (auto split: bind_splits option.splits if_splits)

lemma no_texture_calls [simp]:
  "List.filter texture_call (map Call cs) = []" "List.filter texture_call (map Draw ds) = []"
  by (auto simp: filter_empty_conv)

lemma output_frame_step:
  assumes "output_frame env p (st, r, c) = Some ((st', r', c'), es)"
  shows "cursor_step env st c c' es"
proof -
  let ?env = "re_wlr (fe_render env)"
  from assms obtain out st1 baton where o: "output_store st p = Some out" "output_frame_vsync ?env p st = Some (st1, baton)"
    by (auto simp: output_frame_def split: bind_splits)
  have same: "client_cursor_surface st1 = client_cursor_surface st" "current_xcursor_name st1 = current_xcursor_name st"
    using output_frame_vsync_frame(1) [OF o(2)] by simp_all
  show ?thesis
  proof (cases "fe_begin_pass env")
    case False
    with assms o show ?thesis by (auto simp: output_frame_def cursor_step_def)
  next
    case True
    with assms o obtain r1 pass where d: "draw_frame env (out_wlr out) st1 r c = Some (r1, c', pass)"
      by (auto simp: output_frame_def Let_def split: bind_splits if_splits)
    from d obtain pos draws cs where r: "render_cursor env (output_viewport ?env (out_wlr out)) st1 c = Some (c', cs)"
      "pass = AddRect (e_output_width ?env (out_wlr out)) (e_output_height ?env (out_wlr out)) # map Call pos @ map Draw draws @ cs"
      by (auto simp: draw_frame_def Let_def split: bind_splits)
    from render_cursor_step [OF r(1)] have s: "cursor_step env st c c' cs" by (simp add: cursor_step_def same)
    have F: "List.filter texture_call es = List.filter texture_call cs \<and> (\<forall>t b. DrawCursor t b \<in> set es \<longrightarrow> DrawCursor t b \<in> set cs)"
    proof (cases "fe_submit env")
      case False
      with assms o d True have "es = map Call baton @ pass @ [Submit, ScheduleFrame (out_wlr out)]"
        by (auto simp: output_frame_def Let_def)
      then show ?thesis by (auto simp: r(2))
    next
      case ok: True
      with assms o d True obtain vs ps where f: "views_done ?env (view_store st1) (views_list st1) = Some vs"
        "popups_done ?env (popup_store st1) (entries (popups st1)) = Some ps"
        "es = map Call baton @ pass @ [Submit, Commit (out_wlr out)] @ vs @ ps @ [ScheduleFrame (out_wlr out)]"
        by (auto simp: output_frame_def Let_def split: bind_splits)
      show ?thesis using views_done_step [OF f(1)] popups_done_step [OF f(2)] by (auto simp: f(3) r(2))
    qed
    show ?thesis using s F unfolding cursor_step_def conjunct1 [OF F] by blast
  qed
qed

lemma cached_xcursor_balanced:
  assumes "cursor_balanced c past" and "cached_xcursor env name c = (c', es)"
  shows "cursor_balanced c' (past @ es)"
    and "xcursor_texture c' = Some t \<Longrightarrow> last_made (past @ es) None = Some (name, t)"
  using assms by (auto simp: cursor_balanced_def cached_xcursor_def cached_def last_made_append split: if_splits option.splits)

lemma cursor_step_balanced:
  assumes "cursor_balanced c past" and "cursor_step env st c c' es"
  shows "cursor_balanced c' (past @ es)"
proof -
  have "cursor_balanced c' (past @ List.filter texture_call es)"
    using assms cached_xcursor_balanced(1) [OF assms(1)] unfolding cursor_step_def by auto
  then show ?thesis using cursor_balanced_texture_calls [OF refl] by blast
qed

lemma frame_run_balanced: "frame_run c past \<Longrightarrow> cursor_balanced c past"
proof (induction rule: frame_run.induct)
  case start
  show ?case by (simp add: cursor_balanced_def no_xcursor_def cached_def)
next
  case (frame c past env p st r st' r' c' es)
  from cursor_step_balanced [OF frame.IH output_frame_step [OF frame.hyps(2)]] show ?case .
qed

text \<open>
  The software cursor is the named one, and its texture is the only one alive. Over any frames of
  any monitors, with cursors changing between them and textures failing to be made, what was
  made is what was destroyed and the one texture that is held; and a frame that draws the cursor
  for Flutter draws the texture that was last made, which was made for the current name.
\<close>
theorem cursor_texture_current:
  assumes "frame_run c past" and "output_frame env p (st, r, c) = Some ((st', r', c'), es)"
  shows "sum_list (map made (past @ es)) = sum_list (map gone (past @ es)) + (case xcursor_texture c' of Some t \<Rightarrow> {#t#} | None \<Rightarrow> {#})
    \<and> (client_cursor_surface st = None \<longrightarrow> DrawCursor t b \<in> set es \<longrightarrow>
        (\<exists>name. current_xcursor_name st = Some name \<and> last_made (past @ es) None = Some (name, t)))"
proof -
  note step = output_frame_step [OF assms(2)]
  have ok: "cursor_balanced c past" by (rule frame_run_balanced [OF assms(1)])
  have "\<exists>name. current_xcursor_name st = Some name \<and> last_made (past @ es) None = Some (name, t)"
    if d: "client_cursor_surface st = None" "DrawCursor t b \<in> set es"
  proof -
    from step d obtain name where n: "current_xcursor_name st = Some name"
      "cached_xcursor env name c = (c', List.filter texture_call es)" "xcursor_texture c' = Some t"
      unfolding cursor_step_def by blast
    from cached_xcursor_balanced(2) [OF ok n(2,3)] n(1) only_texture_calls(3) show ?thesis by (auto simp: last_made_append)
  qed
  then show ?thesis using cursor_step_balanced [OF ok step] unfolding cursor_balanced_def by blast
qed

text \<open>
  A cursor surface is used after it is gone. The surface a client sets as its cursor stays in the
  instance when the client is destroyed, its window with it; the next frame of any monitor that can
  draw a software cursor reads the freed surface.
\<close>
theorem stale_cursor_surface:
  assumes "on_seat_request_cursor True (Some s) hx hy st = Some (st1, es1)"
    and "xdg_toplevel_destroy p st1 = Some (st2, es2)" and "\<not> fe_surface_live env s"
    and "fe_cursor env" "fe_renderer env" "\<not> is_nested_backend env" "fe_begin_pass env"
  shows "output_frame env q (st2, r, c) = None"
proof -
  have cs: "client_cursor_surface st2 = Some s"
    using assms(1,2) by (auto simp: on_seat_request_cursor_def xdg_toplevel_destroy_def Let_def split_beta split: bind_splits)
  have "client_cursor_surface st3 = Some s" if "output_frame_vsync (re_wlr (fe_render env)) q st2 = Some (st3, baton)" for st3 baton
    using output_frame_vsync_frame(1) [OF that] cs by simp
  then have "render_cursor env vp st3 c = None" if "output_frame_vsync (re_wlr (fe_render env)) q st2 = Some (st3, baton)" for st3 baton vp
    using that assms(3-6) by (simp add: render_cursor_def cursor_image_def)
  then have "draw_frame env w st3 r c = None" if "output_frame_vsync (re_wlr (fe_render env)) q st2 = Some (st3, baton)" for st3 baton w
    using that by (simp add: draw_frame_def Let_def split_beta bind_eq_None_conv)
  then show ?thesis using assms(7)
    by (cases "output_store st2 q"; cases "output_frame_vsync (re_wlr (fe_render env)) q st2")
      (auto simp: output_frame_def Let_def)
qed

section \<open>A window on one monitor\<close>

definition one_monitor :: fwr_instance where
  "one_monitor = one_window\<lparr>output_store := [1 \<mapsto> \<lparr>out_id = 1, out_wlr = 9, scene_output = None, layout_output = None\<rparr>],
     outputs := [1], vsync_output := Some 1, vsync_baton := 55\<rparr>"

definition sample_frame_env :: frame_env where
  "sample_frame_env = \<lparr>fe_render = sample_render_env, fe_backend = Some Other_backend, fe_display_variable = False,
     fe_cursor = True, fe_renderer = True, fe_cursor_mgr = True,
     fe_xcursor = (\<lambda>_. Some [\<lparr>xi_width = 24, xi_height = 24, xi_hotspot_x = 3, xi_hotspot_y = 4\<rparr>]), fe_new_texture = Some 77,
     fe_surface_live = (\<lambda>s. s \<noteq> 66), fe_surface_texture = Some, fe_texture_size = (\<lambda>_. (24, 24)), fe_begin_pass = True, fe_submit = True\<rparr>"

lemma one_monitor_ok: "surfaces_ok one_monitor"
proof -
  have "surfaces_ok one_window" by (rule reaches_ok [OF one_window_reached ok_initial])
  then show ?thesis by (rule shape_ok [THEN iffD2, rotated]) (simp add: one_monitor_def shape_def)
qed

lemma one_monitor_parts:
  "output_store one_monitor 1 = Some \<lparr>out_id = 1, out_wlr = 9, scene_output = None, layout_output = None\<rparr>"
  "vsync_output one_monitor = Some 1" "vsync_baton one_monitor = 55" "client_cursor_surface one_monitor = None"
  "current_xcursor_name one_monitor = Some (ascii ''left_ptr'')" "cursor_x one_monitor = 0" "cursor_y one_monitor = 0"
  by (simp_all add: one_monitor_def one_window_def fwr_new_xdg_toplevel_def Let_def split_beta initial_instance_def test_env_def)

lemma one_monitor_view: "view_store one_monitor q = Some view \<Longrightarrow> q = 7 \<and> v_y view = 82 \<and> v_xdg_surface view = 5"
  by (auto simp: one_monitor_def one_window_def fwr_new_xdg_toplevel_def Let_def split_beta initial_instance_def test_env_def
      handle_map_add_def handle_map_new_def split: if_splits)

lemma one_monitor_cursor: "cursor_in_range sample_frame_env one_monitor"
proof -
  have "f64_to_i32 0 = Some 0" by code_simp
  then show ?thesis by (simp add: cursor_in_range_def one_monitor_parts sample_frame_env_def)
qed

lemma first_frame_scene:
  "layers first_frame = [\<lparr>layer_offset = (0, 0), layer_size = (0, 0), layer_content = sceneLayerTexture 1\<rparr>]" "scene_sync first_frame = 1"
  by (simp_all add: first_frame_def first_store_def present_layers_def create_backing_store_def page_get_texture_def
      fresh_renderer_def sample_page_env_def page_at_def set_page_def Let_def scene_layer_def)

lemma sample_frame:
  "\<exists>st' c' es. output_frame sample_frame_env 1 (one_monitor, first_frame, c) = Some ((st', first_frame\<lparr>scene_sync := 0\<rparr>, c'), es)"
proof -
  have t: "list_all2 (layer_shows (fe_render sample_frame_env) one_monitor) (layers first_frame) [Own_texture 1]"
    by (simp add: layer_shows_def first_frame_scene)
  have y: "\<forall>q view. view_store one_monitor q = Some view \<longrightarrow> \<bar>v_y view\<bar> < 2 ^ 30" using one_monitor_view by simp
  have v: "\<bar>vp_x (output_viewport (re_wlr (fe_render sample_frame_env)) (out_wlr \<lparr>out_id = 1, out_wlr = 9, scene_output = None, layout_output = None\<rparr>))\<bar> < 2 ^ 28"
    "\<bar>vp_y (output_viewport (re_wlr (fe_render sample_frame_env)) (out_wlr \<lparr>out_id = 1, out_wlr = 9, scene_output = None, layout_output = None\<rparr>))\<bar> < 2 ^ 28"
    by (simp_all add: output_viewport_def sample_frame_env_def sample_render_env_def test_env_def)
  show ?thesis
    using scene_frame [OF first_frame_run t one_monitor_ok one_monitor_parts(1) y one_monitor_cursor v, of c]
    by (simp add: sample_frame_env_def) blast
qed



theorem frame_always_rescheduled_witness:
  "\<exists>s' es t t'. output_frame sample_frame_env 1 (one_monitor, first_frame, no_xcursor) = Some (s', es)
     \<and> hd es = Call (Engine (OnVsync 55 t t')) \<and> last es = ScheduleFrame 9"
proof -
  from sample_frame obtain st' c' es where
    r: "output_frame sample_frame_env 1 (one_monitor, first_frame, no_xcursor) = Some ((st', first_frame\<lparr>scene_sync := 0\<rparr>, c'), es)" by blast
  from frame_always_rescheduled [OF r] r show ?thesis by (auto simp: one_monitor_parts one_monitor_parts(1) [unfolded One_nat_def])
qed

theorem frame_reaches_clients_witness:
  "\<exists>s' before after. output_frame sample_frame_env 1 (one_monitor, first_frame, no_xcursor) = Some (s', before @ Commit 9 # after)
     \<and> FrameDone 5 \<in> set after"
proof -
  from sample_frame obtain st' c' es where
    r: "output_frame sample_frame_env 1 (one_monitor, first_frame, no_xcursor) = Some ((st', first_frame\<lparr>scene_sync := 0\<rparr>, c'), es)" by blast
  have f: "fe_begin_pass sample_frame_env" "fe_submit sample_frame_env" by (simp_all add: sample_frame_env_def)
  have "7 \<in> set (views_list one_monitor)" using one_window_views(3) by (simp add: one_monitor_def)
  then obtain view where v: "view_store one_monitor 7 = Some view" using one_monitor_ok by (auto simp: surfaces_ok_def)
  have s: "e_surface (re_wlr (fe_render sample_frame_env)) (v_xdg_surface view) = Some 5"
    using one_monitor_view [OF v] by (simp add: sample_frame_env_def sample_render_env_def test_env_def)
  from frame_reaches_clients [OF one_monitor_ok r f] obtain out before after where
    o: "output_store one_monitor 1 = Some out" "es = before @ Commit (out_wlr out) # after"
    and d: "\<forall>q view s. view_store one_monitor q = Some view \<longrightarrow> e_surface (re_wlr (fe_render sample_frame_env)) (v_xdg_surface view) = Some s
        \<longrightarrow> FrameDone s \<in> set after" by blast
  have "out_wlr out = 9" using o(1) one_monitor_parts(1) by simp
  moreover have "FrameDone 5 \<in> set after" using d v s by blast
  ultimately show ?thesis using r unfolding o(2) by auto
qed

theorem cursor_texture_current_witness:
  "\<exists>s' es. output_frame sample_frame_env 1 (one_monitor, first_frame, no_xcursor) = Some (s', es)
     \<and> sum_list (map made es) = sum_list (map gone es) + (case xcursor_texture (snd (snd s')) of Some t \<Rightarrow> {#t#} | None \<Rightarrow> {#})"
proof -
  from sample_frame obtain st' c' es where
    r: "output_frame sample_frame_env 1 (one_monitor, first_frame, no_xcursor) = Some ((st', first_frame\<lparr>scene_sync := 0\<rparr>, c'), es)" by blast
  from cursor_texture_current [OF frame_run.start r] r show ?thesis by auto
qed

theorem stale_cursor_surface_witness:
  "output_frame sample_frame_env 1
     (fst (the (xdg_toplevel_destroy 7 (fst (the (on_seat_request_cursor True (Some 66) 0 0 one_monitor))))), first_frame, no_xcursor) = None"
proof -
  let ?s1 = "fst (the (on_seat_request_cursor True (Some 66) 0 0 one_monitor))"
  obtain es1 where 1: "on_seat_request_cursor True (Some 66) 0 0 one_monitor = Some (?s1, es1)"
    by (simp add: on_seat_request_cursor_def)
  have "7 \<in> set (views_list one_monitor)" using one_window_views(3) by (simp add: one_monitor_def)
  then have "view_store one_monitor 7 \<noteq> None" using one_monitor_ok by (auto simp: surfaces_ok_def)
  then have "view_store ?s1 7 \<noteq> None" by (simp add: on_seat_request_cursor_def)
  then obtain es2 where 2: "xdg_toplevel_destroy 7 ?s1 = Some (fst (the (xdg_toplevel_destroy 7 ?s1)), es2)"
    by (auto simp: xdg_toplevel_destroy_def Let_def split_beta)
  show ?thesis by (rule stale_cursor_surface [OF 1 2]) (simp_all add: sample_frame_env_def is_nested_backend_def)
qed

end
