(* ===== verification/Jsmn.thy ===== *)
theory Jsmn
  imports PlatformChannel Doubles
begin

text \<open>
  \<open>include/jsmn.h\<close>, the tokenizer in front of the JSON decoder, as it is compiled here: without parent links and
  not strict. A text is a list of bytes; the functions get what is left of it and its position. The
  token array is the list of the tokens taken from it so far, so \<open>toknext\<close> is its length, and
  \<open>toksuper\<close> is \<open>None\<close> for -1. The count that \<open>jsmn_parse\<close> returns is used by nobody.
\<close>

section \<open>Tokens\<close>

record raw_token =
  rt_type :: jsmn_type
  rt_start :: int
  rt_end :: int
  rt_size :: nat

record jsmn_parser =
  jp_toks :: "raw_token list"
  toksuper :: "nat option"

datatype jsmnerr = JSMN_ERROR_NOMEM | JSMN_ERROR_INVAL | JSMN_ERROR_PART

definition jsmn_init :: jsmn_parser where
  "jsmn_init = \<lparr>jp_toks = [], toksuper = None\<rparr>"

definition jsmn_alloc_token :: "nat \<Rightarrow> jsmn_parser \<Rightarrow> jsmnerr + jsmn_parser" where
  "jsmn_alloc_token num p =
     (if num \<le> length (jp_toks p) then Inl JSMN_ERROR_NOMEM
      else Inr (p\<lparr>jp_toks := jp_toks p @ [\<lparr>rt_type = JSMN_UNDEFINED, rt_start = -1, rt_end = -1, rt_size = 0\<rparr>]\<rparr>))"

text \<open>Filling in the token that was allocated last.\<close>

definition jsmn_fill_token :: "jsmn_type \<Rightarrow> int \<Rightarrow> int \<Rightarrow> jsmn_parser \<Rightarrow> jsmn_parser" where
  "jsmn_fill_token ty start stop p =
     p\<lparr>jp_toks := (jp_toks p)[length (jp_toks p) - 1 := \<lparr>rt_type = ty, rt_start = start, rt_end = stop, rt_size = 0\<rparr>]\<rparr>"

definition grow_super :: "jsmn_parser \<Rightarrow> jsmn_parser" where
  "grow_super p =
     (case toksuper p of
        None \<Rightarrow> p
      | Some i \<Rightarrow> p\<lparr>jp_toks := (jp_toks p)[i := (jp_toks p ! i)\<lparr>rt_size := Suc (rt_size (jp_toks p ! i))\<rparr>]\<rparr>)"

definition unclosed :: "raw_token \<Rightarrow> bool" where
  "unclosed t \<longleftrightarrow> rt_start t \<noteq> -1 \<and> rt_end t = -1"

text \<open>The loops that run backwards through the tokens.\<close>

definition latest :: "(raw_token \<Rightarrow> bool) \<Rightarrow> raw_token list \<Rightarrow> nat option" where
  "latest P ts = List.find (\<lambda>i. P (ts ! i)) (rev [0..<length ts])"

section \<open>Scanning\<close>

text \<open>How far a primitive reaches, and a string up to its closing quote.\<close>

fun primitive_length :: "byte list \<Rightarrow> nat option" where
  "primitive_length [] = Some 0"
| "primitive_length (c # cs) =
     (if c = 0 \<or> c \<in> {58, 9, 13, 10, 32, 44, 93, 125} then Some 0
      else if c < 32 \<or> 127 \<le> c then None
      else map_option Suc (primitive_length cs))"

definition is_hex :: "byte \<Rightarrow> bool" where
  "is_hex c \<longleftrightarrow> (48 \<le> c \<and> c \<le> 57) \<or> (65 \<le> c \<and> c \<le> 70) \<or> (97 \<le> c \<and> c \<le> 102)"

text \<open>The digits after \<open>\\u\<close>: at most four, fewer only at the end of the text.\<close>

fun hex_digits :: "nat \<Rightarrow> byte list \<Rightarrow> nat option" where
  "hex_digits 0 cs = Some 0"
| "hex_digits (Suc n) [] = Some 0"
| "hex_digits (Suc n) (c # cs) =
     (if c = 0 then Some 0 else if \<not> is_hex c then None else map_option Suc (hex_digits n cs))"

function string_length :: "byte list \<Rightarrow> jsmnerr + nat" where
  "string_length [] = Inl JSMN_ERROR_PART"
| "string_length (c # cs) =
     (if c = 0 then Inl JSMN_ERROR_PART
      else if c = 34 then Inr 0
      else if c = 92 \<and> cs \<noteq> [] then
        (if hd cs \<in> {34, 47, 92, 98, 102, 114, 110, 116} then
           bind_r (string_length (tl cs)) (\<lambda>n. Inr (n + 2))
         else if hd cs = 117 then
           (case hex_digits 4 (tl cs) of
              None \<Rightarrow> Inl JSMN_ERROR_INVAL
            | Some h \<Rightarrow> bind_r (string_length (drop h (tl cs))) (\<lambda>n. Inr (n + h + 2)))
         else Inl JSMN_ERROR_INVAL)
      else bind_r (string_length cs) (\<lambda>n. Inr (n + 1)))"
  by pat_completeness auto
termination
  by (relation "measure length") auto

declare string_length.simps(2) [simp del]

definition jsmn_parse_primitive :: "nat \<Rightarrow> byte list \<Rightarrow> nat \<Rightarrow> jsmn_parser \<Rightarrow> jsmnerr + (nat \<times> jsmn_parser)" where
  "jsmn_parse_primitive num cs pos p =
     (case primitive_length cs of
        None \<Rightarrow> Inl JSMN_ERROR_INVAL
      | Some n \<Rightarrow> bind_r (jsmn_alloc_token num p) (\<lambda>p1. Inr (n, jsmn_fill_token JSMN_PRIMITIVE (int pos) (int (pos + n)) p1)))"

text \<open>\<open>cs\<close> is what follows the opening quote at \<open>pos\<close>.\<close>

definition jsmn_parse_string :: "nat \<Rightarrow> byte list \<Rightarrow> nat \<Rightarrow> jsmn_parser \<Rightarrow> jsmnerr + (nat \<times> jsmn_parser)" where
  "jsmn_parse_string num cs pos p =
     bind_r (string_length cs) (\<lambda>n.
     bind_r (jsmn_alloc_token num p) (\<lambda>p1. Inr (n, jsmn_fill_token JSMN_STRING (int (pos + 1)) (int (pos + 1 + n)) p1)))"

section \<open>The parser\<close>

definition open_container :: "nat \<Rightarrow> jsmn_type \<Rightarrow> nat \<Rightarrow> jsmn_parser \<Rightarrow> jsmnerr + jsmn_parser" where
  "open_container num ty pos p =
     bind_r (jsmn_alloc_token num p) (\<lambda>p1.
       let p2 = grow_super p1; i = length (jp_toks p2) - 1
       in Inr (p2\<lparr>jp_toks := (jp_toks p2)[i := (jp_toks p2 ! i)\<lparr>rt_type := ty, rt_start := int pos\<rparr>], toksuper := Some i\<rparr>))"

definition close_container :: "jsmn_type \<Rightarrow> nat \<Rightarrow> jsmn_parser \<Rightarrow> jsmnerr + jsmn_parser" where
  "close_container ty pos p =
     (case latest unclosed (jp_toks p) of
        None \<Rightarrow> Inl JSMN_ERROR_INVAL
      | Some i \<Rightarrow>
          if rt_type (jp_toks p ! i) \<noteq> ty then Inl JSMN_ERROR_INVAL
          else let ts = (jp_toks p)[i := (jp_toks p ! i)\<lparr>rt_end := int (pos + 1)\<rparr>]
               in Inr (p\<lparr>jp_toks := ts, toksuper := latest unclosed (take (Suc i) ts)\<rparr>))"

definition after_colon :: "jsmn_parser \<Rightarrow> jsmn_parser" where
  "after_colon p = p\<lparr>toksuper := (if jp_toks p = [] then None else Some (length (jp_toks p) - 1))\<rparr>"

definition is_container :: "raw_token \<Rightarrow> bool" where
  "is_container t \<longleftrightarrow> rt_type t = JSMN_ARRAY \<or> rt_type t = JSMN_OBJECT"

definition after_comma :: "jsmn_parser \<Rightarrow> jsmn_parser" where
  "after_comma p =
     (case toksuper p of
        None \<Rightarrow> p
      | Some s \<Rightarrow>
          if is_container (jp_toks p ! s) then p
          else (case latest (\<lambda>t. is_container t \<and> unclosed t) (jp_toks p) of
                  None \<Rightarrow> p
                | Some i \<Rightarrow> p\<lparr>toksuper := Some i\<rparr>))"

function jsmn_loop :: "nat \<Rightarrow> byte list \<Rightarrow> nat \<Rightarrow> jsmn_parser \<Rightarrow> jsmnerr + jsmn_parser" where
  "jsmn_loop num [] pos p = Inr p"
| "jsmn_loop num (c # cs) pos p =
     (if c = 0 then Inr p
      else if c = 123 \<or> c = 91 then
        bind_r (open_container num (if c = 123 then JSMN_OBJECT else JSMN_ARRAY) pos p) (jsmn_loop num cs (pos + 1))
      else if c = 125 \<or> c = 93 then
        bind_r (close_container (if c = 125 then JSMN_OBJECT else JSMN_ARRAY) pos p) (jsmn_loop num cs (pos + 1))
      else if c = 34 then
        bind_r (jsmn_parse_string num cs pos p) (\<lambda>(n, p1). jsmn_loop num (drop (n + 1) cs) (pos + n + 2) (grow_super p1))
      else if c \<in> {9, 13, 10, 32} then jsmn_loop num cs (pos + 1) p
      else if c = 58 then jsmn_loop num cs (pos + 1) (after_colon p)
      else if c = 44 then jsmn_loop num cs (pos + 1) (after_comma p)
      else
        bind_r (jsmn_parse_primitive num (c # cs) pos p) (\<lambda>(n, p1). jsmn_loop num (drop (n - 1) cs) (pos + n) (grow_super p1)))"
  by pat_completeness auto
termination
  by (relation "measure (\<lambda>(num, cs, pos, p). length cs)") auto

declare jsmn_loop.simps(2) [simp del]

definition jsmn_parse :: "nat \<Rightarrow> byte list \<Rightarrow> jsmnerr + raw_token list" where
  "jsmn_parse num js =
     bind_r (jsmn_loop num js 0 jsmn_init) (\<lambda>p.
       if \<exists>t \<in> set (jp_toks p). unclosed t then Inl JSMN_ERROR_PART else Inr (jp_toks p))"

text \<open>What the decoder reads of the tokens.\<close>

definition as_token :: "raw_token \<Rightarrow> jsmntok" where
  "as_token t = \<lparr>tok_type = rt_type t, tok_start = nat (rt_start t), tok_end = nat (rt_end t), tok_size = rt_size t\<rparr>"

definition json_tokens :: "byte list \<Rightarrow> jsmntok list option" where
  "json_tokens js =
     (case jsmn_parse JSON_DECODE_TOKENLIST_SIZE js of Inl e \<Rightarrow> None | Inr ts \<Rightarrow> Some (map as_token ts))"

section \<open>Bounds\<close>

definition token_in :: "nat \<Rightarrow> raw_token \<Rightarrow> bool" where
  "token_in n t \<longleftrightarrow> 0 \<le> rt_start t \<and> rt_start t \<le> int n \<and> (rt_end t = -1 \<or> (rt_start t \<le> rt_end t \<and> rt_end t \<le> int n))
     \<and> (rt_type t = JSMN_PRIMITIVE \<longrightarrow> rt_start t < rt_end t) \<and> (rt_type t = JSMN_STRING \<longrightarrow> 0 \<le> rt_end t \<and> rt_end t < int n)
     \<and> rt_type t \<noteq> JSMN_UNDEFINED"

definition parser_ok :: "nat \<Rightarrow> nat \<Rightarrow> jsmn_parser \<Rightarrow> bool" where
  "parser_ok num n p \<longleftrightarrow> length (jp_toks p) \<le> num \<and> (\<forall>t \<in> set (jp_toks p). token_in n t)
     \<and> (\<forall>i. toksuper p = Some i \<longrightarrow> i < length (jp_toks p))"

lemma token_in_mono: "token_in n t \<Longrightarrow> n \<le> m \<Longrightarrow> token_in m t"
  by (auto simp: token_in_def)

lemma token_in_size [simp]: "token_in n (t\<lparr>rt_size := k\<rparr>) = token_in n t"
  by (simp add: token_in_def)

lemma find_Some_in: "List.find Q xs = Some x \<Longrightarrow> x \<in> set xs \<and> Q x"
  by (induction xs) (auto split: if_splits)

lemma latest_Some: "latest P ts = Some i \<Longrightarrow> i < length ts \<and> P (ts ! i)"
  unfolding latest_def by (drule find_Some_in) simp

lemma parser_ok_mono: "parser_ok num n p \<Longrightarrow> n \<le> m \<Longrightarrow> parser_ok num m p"
  by (auto simp: parser_ok_def intro: token_in_mono)

lemma grow_super_ok: "parser_ok num n p \<Longrightarrow> parser_ok num n (grow_super p)"
  by (auto simp: parser_ok_def grow_super_def split: option.splits dest!: subsetD [OF set_update_subset_insert])

lemma primitive_length_le: "primitive_length cs = Some n \<Longrightarrow> n \<le> length cs"
  by (induction cs arbitrary: n) (auto split: if_splits)

lemma hex_digits_le: "hex_digits k cs = Some n \<Longrightarrow> n \<le> length cs"
  by (induction k cs arbitrary: n rule: hex_digits.induct) (auto split: if_splits)

lemma string_length_lt: "string_length cs = Inr n \<Longrightarrow> n < length cs"
proof (induction cs arbitrary: n rule: string_length.induct)
  case (2 c cs)
  note prems = "2.prems" [unfolded string_length.simps(2)]
  consider (quote) "c = 34" "n = 0" | (esc) m where "cs \<noteq> []" "string_length (tl cs) = Inr m" "n = m + 2"
      "c \<noteq> 0" "c \<noteq> 34" "c = 92 \<and> cs \<noteq> []" "hd cs \<in> {34, 47, 92, 98, 102, 114, 110, 116}"
    | (uni) h m where "hex_digits 4 (tl cs) = Some h" "string_length (drop h (tl cs)) = Inr m" "n = m + h + 2"
      "c \<noteq> 0" "c \<noteq> 34" "c = 92 \<and> cs \<noteq> []" "hd cs \<notin> {34, 47, 92, 98, 102, 114, 110, 116}" "hd cs = 117"
    | (plain) m where "string_length cs = Inr m" "n = m + 1" "c \<noteq> 0" "c \<noteq> 34" "\<not> (c = 92 \<and> cs \<noteq> [])"
    using prems by (auto simp: bind_r_Inr_iff split: if_splits option.splits)
  then show ?case
  proof cases
    case esc
    with "2.IH"(1) [OF esc(4-7) esc(2)] show ?thesis by (cases cs) auto
  next
    case uni
    from "2.IH"(2) [OF uni(4-8) uni(1,2)] uni hex_digits_le [OF uni(1)] show ?thesis by (cases cs) auto
  next
    case plain
    from "2.IH"(3) [OF plain(3-5,1)] plain show ?thesis by simp
  qed simp
qed simp

text \<open>The steps on the list of tokens, when \<open>toksuper\<close> is one of them.\<close>

definition super_ok :: "jsmn_parser \<Rightarrow> bool" where
  "super_ok p \<longleftrightarrow> (\<forall>i. toksuper p = Some i \<longrightarrow> i < length (jp_toks p))"

lemma length_grow_super [simp]: "length (jp_toks (grow_super p)) = length (jp_toks p)" "toksuper (grow_super p) = toksuper p"
  by (simp_all add: grow_super_def split: option.split)

lemma grow_super_append:
  "super_ok p \<Longrightarrow> jp_toks (grow_super (p\<lparr>jp_toks := jp_toks p @ ts\<rparr>)) = jp_toks (grow_super p) @ ts"
  by (auto simp: grow_super_def super_ok_def list_update_append nth_append split: option.splits)

lemma parse_primitive_step:
  "jsmn_parse_primitive num cs pos p = (case primitive_length cs of None \<Rightarrow> Inl JSMN_ERROR_INVAL
     | Some n \<Rightarrow> if num \<le> length (jp_toks p) then Inl JSMN_ERROR_NOMEM
         else Inr (n, p\<lparr>jp_toks := jp_toks p @ [\<lparr>rt_type = JSMN_PRIMITIVE, rt_start = int pos, rt_end = int (pos + n), rt_size = 0\<rparr>]\<rparr>))"
  by (simp add: jsmn_parse_primitive_def jsmn_alloc_token_def jsmn_fill_token_def split: option.split)

lemma parse_string_step:
  "jsmn_parse_string num cs pos p = bind_r (string_length cs) (\<lambda>n.
     if num \<le> length (jp_toks p) then Inl JSMN_ERROR_NOMEM
     else Inr (n, p\<lparr>jp_toks := jp_toks p @ [\<lparr>rt_type = JSMN_STRING, rt_start = int (pos + 1), rt_end = int (pos + 1 + n), rt_size = 0\<rparr>]\<rparr>))"
  by (simp add: jsmn_parse_string_def jsmn_alloc_token_def jsmn_fill_token_def bind_r_def split: sum.split)

lemma open_container_step:
  "super_ok p \<Longrightarrow> open_container num ty pos p =
     (if num \<le> length (jp_toks p) then Inl JSMN_ERROR_NOMEM
      else Inr \<lparr>jp_toks = jp_toks (grow_super p) @ [\<lparr>rt_type = ty, rt_start = int pos, rt_end = -1, rt_size = 0\<rparr>],
        toksuper = Some (length (jp_toks p))\<rparr>)"
  by (auto simp: open_container_def jsmn_alloc_token_def Let_def grow_super_append nth_append list_update_append
      intro!: jsmn_parser.equality)

lemma parser_ok_super: "parser_ok num n p \<Longrightarrow> super_ok p"
  by (simp add: parser_ok_def super_ok_def)

lemma parser_ok_snoc:
  "parser_ok num n p \<Longrightarrow> length (jp_toks p) < num \<Longrightarrow> token_in n t \<Longrightarrow> parser_ok num n (p\<lparr>jp_toks := jp_toks p @ [t]\<rparr>)"
  by (auto simp: parser_ok_def)

lemma open_container_ok:
  assumes "parser_ok num pos p" "ty = JSMN_OBJECT \<or> ty = JSMN_ARRAY" "open_container num ty pos p = Inr q"
  shows "parser_ok num (pos + 1) q"
proof -
  let ?t = "\<lparr>rt_type = ty, rt_start = int pos, rt_end = -1, rt_size = 0\<rparr>"
  have g: "parser_ok num (pos + 1) (grow_super p)"
    by (rule grow_super_ok [OF parser_ok_mono [OF assms(1)]]) simp
  have t: "token_in (pos + 1) ?t" using assms(2) by (auto simp: token_in_def)
  from assms(3) have "length (jp_toks p) < num" and q: "q = \<lparr>jp_toks = jp_toks (grow_super p) @ [?t], toksuper = Some (length (jp_toks p))\<rparr>"
    unfolding open_container_step [OF parser_ok_super [OF assms(1)]] by (simp_all split: if_splits)
  then show ?thesis using g t by (simp add: parser_ok_def)
qed

lemma close_container_ok:
  assumes "parser_ok num pos p" "ty = JSMN_OBJECT \<or> ty = JSMN_ARRAY" "close_container ty pos p = Inr q"
  shows "parser_ok num (pos + 1) q"
proof -
  obtain i where i: "latest unclosed (jp_toks p) = Some i" "rt_type (jp_toks p ! i) = ty"
    and q: "q = p\<lparr>jp_toks := (jp_toks p)[i := (jp_toks p ! i)\<lparr>rt_end := int (pos + 1)\<rparr>],
      toksuper := latest unclosed (take (Suc i) ((jp_toks p)[i := (jp_toks p ! i)\<lparr>rt_end := int (pos + 1)\<rparr>]))\<rparr>"
    using assms(3) by (auto simp: close_container_def Let_def split: option.splits if_splits)
  have l: "i < length (jp_toks p)" using latest_Some [OF i(1)] by simp
  then have "token_in pos (jp_toks p ! i)" using assms(1) by (simp add: parser_ok_def)
  then have "token_in (pos + 1) ((jp_toks p ! i)\<lparr>rt_end := int (pos + 1)\<rparr>)" using i(2) assms(2) by (auto simp: token_in_def)
  moreover have "parser_ok num (pos + 1) p" using parser_ok_mono [OF assms(1)] by simp
  ultimately show ?thesis
    using l by (auto simp: q parser_ok_def dest!: latest_Some subsetD [OF set_update_subset_insert])
qed

lemma after_colon_ok: "parser_ok num n p \<Longrightarrow> parser_ok num n (after_colon p)"
  by (auto simp: after_colon_def parser_ok_def)

lemma after_comma_ok: "parser_ok num n p \<Longrightarrow> parser_ok num n (after_comma p)"
  by (auto simp: after_comma_def parser_ok_def split: option.splits dest: latest_Some)

lemma jsmn_loop_ok:
  "parser_ok num pos p \<Longrightarrow> jsmn_loop num cs pos p = Inr q \<Longrightarrow> parser_ok num (pos + length cs) q"
proof (induction num cs pos p rule: jsmn_loop.induct)
  case (2 num c cs pos p)
  note run = "2.prems"(2) [unfolded jsmn_loop.simps(2)]
  have p1: "parser_ok num (pos + 1) p" using parser_ok_mono [OF "2.prems"(1)] by simp
  consider (stop) "c = 0" | (opens) "c \<noteq> 0" "c = 123 \<or> c = 91" | (closes) "c \<noteq> 0" "\<not> (c = 123 \<or> c = 91)" "c = 125 \<or> c = 93"
    | (str) "c \<noteq> 0" "\<not> (c = 123 \<or> c = 91)" "\<not> (c = 125 \<or> c = 93)" "c = 34"
    | (white) "c \<noteq> 0" "\<not> (c = 123 \<or> c = 91)" "\<not> (c = 125 \<or> c = 93)" "c \<noteq> 34" "c \<in> {9, 13, 10, 32}"
    | (colon) "c \<noteq> 0" "\<not> (c = 123 \<or> c = 91)" "\<not> (c = 125 \<or> c = 93)" "c \<noteq> 34" "c \<notin> {9, 13, 10, 32}" "c = 58"
    | (comma) "c \<noteq> 0" "\<not> (c = 123 \<or> c = 91)" "\<not> (c = 125 \<or> c = 93)" "c \<noteq> 34" "c \<notin> {9, 13, 10, 32}" "c \<noteq> 58" "c = 44"
    | (prim) "c \<noteq> 0" "\<not> (c = 123 \<or> c = 91)" "\<not> (c = 125 \<or> c = 93)" "c \<noteq> 34" "c \<notin> {9, 13, 10, 32}" "c \<noteq> 58" "c \<noteq> 44"
    by blast
  then show ?case
  proof cases
    case stop
    with run parser_ok_mono [OF "2.prems"(1)] show ?thesis by simp
  next
    case opens
    with run obtain p2 where o: "open_container num (if c = 123 then JSMN_OBJECT else JSMN_ARRAY) pos p = Inr p2"
      and l: "jsmn_loop num cs (pos + 1) p2 = Inr q" by (auto simp: bind_r_Inr_iff)
    have "parser_ok num (pos + 1) p2" by (rule open_container_ok [OF "2.prems"(1) _ o]) simp
    from "2.IH"(1) [OF opens o this l] show ?thesis by simp
  next
    case closes
    with run obtain p2 where o: "close_container (if c = 125 then JSMN_OBJECT else JSMN_ARRAY) pos p = Inr p2"
      and l: "jsmn_loop num cs (pos + 1) p2 = Inr q" by (auto simp: bind_r_Inr_iff)
    have "parser_ok num (pos + 1) p2" by (rule close_container_ok [OF "2.prems"(1) _ o]) simp
    from "2.IH"(2) [OF closes o this l] show ?thesis by simp
  next
    case str
    with run obtain n p2 where o: "jsmn_parse_string num cs pos p = Inr (n, p2)"
      and l: "jsmn_loop num (drop (n + 1) cs) (pos + n + 2) (grow_super p2) = Inr q" by (auto simp: bind_r_Inr_iff)
    from o have n: "string_length cs = Inr n" and lt: "length (jp_toks p) < num"
      and p2: "p2 = p\<lparr>jp_toks := jp_toks p @ [\<lparr>rt_type = JSMN_STRING, rt_start = int (pos + 1), rt_end = int (pos + 1 + n), rt_size = 0\<rparr>]\<rparr>"
      by (auto simp: parse_string_step bind_r_Inr_iff split: if_splits)
    have "parser_ok num (pos + n + 2) p2" unfolding p2
      by (rule parser_ok_snoc [OF parser_ok_mono [OF "2.prems"(1)] lt]) (auto simp: token_in_def)
    from "2.IH"(3) [OF str o refl grow_super_ok [OF this] l] have "parser_ok num (pos + n + 2 + length (drop (n + 1) cs)) q" .
    moreover have "pos + n + 2 + length (drop (n + 1) cs) = pos + length (c # cs)" using string_length_lt [OF n] by simp
    ultimately show ?thesis by (simp only:)
  next
    case white
    with run have "jsmn_loop num cs (pos + 1) p = Inr q" by auto
    from "2.IH"(4) [OF white p1 this] show ?thesis by simp
  next
    case colon
    with run have "jsmn_loop num cs (pos + 1) (after_colon p) = Inr q" by auto
    from "2.IH"(5) [OF colon after_colon_ok [OF p1] this] show ?thesis by simp
  next
    case comma
    with run have "jsmn_loop num cs (pos + 1) (after_comma p) = Inr q" by auto
    from "2.IH"(6) [OF comma after_comma_ok [OF p1] this] show ?thesis by simp
  next
    case prim
    with run obtain n p2 where o: "jsmn_parse_primitive num (c # cs) pos p = Inr (n, p2)"
      and l: "jsmn_loop num (drop (n - 1) cs) (pos + n) (grow_super p2) = Inr q" by (auto simp: bind_r_Inr_iff)
    from o have n: "primitive_length (c # cs) = Some n" and lt: "length (jp_toks p) < num"
      and p2: "p2 = p\<lparr>jp_toks := jp_toks p @ [\<lparr>rt_type = JSMN_PRIMITIVE, rt_start = int pos, rt_end = int (pos + n), rt_size = 0\<rparr>]\<rparr>"
      by (auto simp: parse_primitive_step split: if_splits option.splits)
    have pos: "0 < n" using n prim by (auto split: if_splits)
    have "parser_ok num (pos + n) p2" unfolding p2
      by (rule parser_ok_snoc [OF parser_ok_mono [OF "2.prems"(1)] lt]) (use pos in \<open>auto simp: token_in_def\<close>)
    from "2.IH"(7) [OF prim o refl grow_super_ok [OF this] l] have "parser_ok num (pos + n + length (drop (n - 1) cs)) q" .
    moreover have "pos + n + length (drop (n - 1) cs) = pos + length (c # cs)" using primitive_length_le [OF n] pos by simp
    ultimately show ?thesis by (simp only:)
  qed
qed simp

section \<open>Reading what was written\<close>

text \<open>Keys are written as they are, so they must not need escapes.\<close>

fun plain_keys :: "json_value \<Rightarrow> bool" where
  "plain_keys (JsonArray vs) \<longleftrightarrow> (\<forall>v \<in> set vs. plain_keys v)"
| "plain_keys (JsonObject kvs) \<longleftrightarrow> (\<forall>kv \<in> set kvs. 34 \<notin> set (cstr (fst kv)) \<and> 92 \<notin> set (cstr (fst kv)) \<and> plain_keys (snd kv))"
| "plain_keys _ \<longleftrightarrow> True"

definition raw_of :: "jsmntok \<Rightarrow> raw_token" where
  "raw_of t = \<lparr>rt_type = tok_type t, rt_start = int (tok_start t), rt_end = int (tok_end t), rt_size = tok_size t\<rparr>"

lemma as_token_raw_of [simp]: "as_token (raw_of t) = t"
  by (simp add: as_token_def raw_of_def)

lemma raw_of_closed [simp]: "\<not> unclosed (raw_of t)"
  by (simp add: raw_of_def unclosed_def)

text \<open>What may follow a value.\<close>

definition separated :: "byte list \<Rightarrow> bool" where
  "separated r \<longleftrightarrow> r = [] \<or> hd r \<in> {44, 93, 125}"

lemma primitive_length_plain:
  "\<forall>b \<in> set xs. 32 < b \<and> b < 127 \<and> b \<notin> {34, 44, 58, 91, 93, 123, 125} \<Longrightarrow> separated r \<Longrightarrow>
    primitive_length (xs @ r) = Some (length xs)"
proof (induction xs)
  case Nil
  then show ?case by (cases r) (auto simp: separated_def)
next
  case (Cons b xs)
  then have "32 < b" by simp
  then have "b \<noteq> 0" "b \<noteq> 9" "b \<noteq> 13" "b \<noteq> 10" "b \<noteq> 32" "\<not> b < 32" by (auto simp: word_less_nat_alt)
  with Cons show ?case by (simp add: linorder_not_le)
qed

lemma string_length_plain:
  "0 \<notin> set k \<Longrightarrow> 34 \<notin> set k \<Longrightarrow> 92 \<notin> set k \<Longrightarrow> string_length (k @ 34 # r) = Inr (length k)"
  by (induction k) (auto simp: string_length.simps(2))

lemma string_length_escaped:
  "0 \<notin> set xs \<Longrightarrow> string_length (concat (map escape_char xs) @ 34 # r) = Inr (length (concat (map escape_char xs)))"
proof (induction xs)
  case (Cons b xs)
  then show ?case by (simp add: escape_char_def string_length.simps(2) calc_char_size_def)
qed (simp add: string_length.simps(2))

text \<open>The latest token with a property.\<close>

lemma latest_snoc: "latest P (ts @ [t]) = (if P t then Some (length ts) else latest P ts)"
proof -
  have "List.find (\<lambda>i. P ((ts @ [t]) ! i)) (rev [0..<length ts]) = List.find (\<lambda>i. P (ts ! i)) (rev [0..<length ts])"
    by (rule find_cong) (simp_all add: nth_append)
  then show ?thesis by (simp add: latest_def)
qed

lemma latest_Nil: "latest P [] = None"
  by (simp add: latest_def)

lemma latest_append: "latest P (ts @ us) = (case latest P us of Some i \<Rightarrow> Some (length ts + i) | None \<Rightarrow> latest P ts)"
  by (induction us rule: rev_induct) (simp_all add: latest_Nil latest_snoc flip: append_assoc)

lemma latest_None: "\<forall>t \<in> set ts. \<not> P t \<Longrightarrow> latest P ts = None"
  by (induction ts rule: rev_induct) (simp_all add: latest_Nil latest_snoc)

lemma latest_update: "P t = P (ts ! i) \<Longrightarrow> latest P (ts[i := t]) = latest P ts"
proof (cases "i < length ts")
  case True
  assume "P t = P (ts ! i)"
  then have "P (ts[i := t] ! j) = P (ts ! j)" for j using True by (cases "j = i") auto
  then have "List.find (\<lambda>j. P (ts[i := t] ! j)) (rev [0..<length ts]) = List.find (\<lambda>j. P (ts ! j)) (rev [0..<length ts])"
    by (intro find_cong) auto
  then show ?thesis by (simp add: latest_def)
qed (simp add: list_update_beyond)

lemma latest_both: "latest P ts = Some i \<Longrightarrow> Q (ts ! i) \<Longrightarrow> latest (\<lambda>t. Q t \<and> P t) ts = Some i"
proof (induction ts rule: rev_induct)
  case (snoc t ts)
  then show ?case
    by (cases "P t") (auto simp: latest_snoc nth_append dest: latest_Some)
qed (simp add: latest_Nil)

lemma latest_raw [simp]: "latest unclosed (ts @ map raw_of us) = latest unclosed ts"
  by (simp add: latest_append latest_None)

text \<open>The tokens with \<open>k\<close> more elements in the one that \<open>toksuper\<close> names.\<close>

definition grown :: "nat \<Rightarrow> nat option \<Rightarrow> raw_token list \<Rightarrow> raw_token list" where
  "grown k su ts = (case su of None \<Rightarrow> ts | Some i \<Rightarrow> ts[i := (ts ! i)\<lparr>rt_size := rt_size (ts ! i) + k\<rparr>])"

lemma grow_super_grown: "grow_super \<lparr>jp_toks = ts, toksuper = su\<rparr> = \<lparr>jp_toks = grown 1 su ts, toksuper = su\<rparr>"
  by (simp add: grow_super_def grown_def split: option.split)

lemma unclosed_size [simp]: "unclosed (t\<lparr>rt_size := k\<rparr>) = unclosed t" "is_container (t\<lparr>rt_size := k\<rparr>) = is_container t"
  by (simp_all add: unclosed_def is_container_def)

lemma length_grown [simp]: "length (grown k su ts) = length ts"
  by (simp add: grown_def split: option.split)

lemma latest_grown [simp]: "latest unclosed (grown k su ts) = latest unclosed ts"
  by (auto simp: grown_def latest_update split: option.split)

definition super_in :: "nat option \<Rightarrow> raw_token list \<Rightarrow> bool" where
  "super_in su ts \<longleftrightarrow> (\<forall>i. su = Some i \<longrightarrow> i < length ts)"

lemma grown_append: "super_in su ts \<Longrightarrow> grown k su (ts @ us) = grown k su ts @ us"
  by (auto simp: grown_def super_in_def list_update_append nth_append split: option.split)

lemma grown_grown: "super_in su ts \<Longrightarrow> grown k su (grown j su ts) = grown (j + k) su ts"
  by (auto simp: grown_def super_in_def add.assoc split: option.split)

lemma grown_0 [simp]: "super_in su ts \<Longrightarrow> grown 0 su ts = ts"
  by (auto simp: grown_def super_in_def split: option.split)

lemma grown_last: "grown k (Some (length ts)) (ts @ [t]) = ts @ [t\<lparr>rt_size := rt_size t + k\<rparr>]"
  by (simp add: grown_def)

lemma super_in_append [simp]: "super_in su ts \<Longrightarrow> super_in su (ts @ us)" "super_in su (grown k s ts) = super_in su ts"
  by (auto simp: super_in_def)

lemma nth_grown_container: "is_container (grown k su ts ! i) = is_container (ts ! i)" if "i < length ts"
  using that by (cases su; cases "su = Some i") (auto simp: grown_def)

section \<open>Steps of the parser\<close>

text \<open>The state is written out as the tokens \<open>ts\<close> and \<open>su\<close>.\<close>

abbreviation parser_at :: "raw_token list \<Rightarrow> nat option \<Rightarrow> jsmn_parser" where
  "parser_at ts su \<equiv> \<lparr>jp_toks = ts, toksuper = su\<rparr>"

lemma loop_primitive:
  assumes "\<forall>b \<in> set xs. 32 < b \<and> b < 127 \<and> b \<notin> {34, 44, 58, 91, 93, 123, 125}" "xs \<noteq> []" "separated r"
    and "length ts < num" "super_in su ts" "length xs = n"
  shows "jsmn_loop num (xs @ r) pos (parser_at ts su) = jsmn_loop num r (pos + n)
    (parser_at (grown 1 su ts @ [raw_of \<lparr>tok_type = JSMN_PRIMITIVE, tok_start = pos, tok_end = pos + n, tok_size = 0\<rparr>]) su)"
proof -
  obtain c cs where xs: "xs = c # cs" using assms(2) by (cases xs) auto
  have "32 < c" using assms(1) xs by simp
  then have c: "c \<noteq> 0" "c \<noteq> 9" "c \<noteq> 13" "c \<noteq> 10" "c \<noteq> 32" by (auto simp: word_less_nat_alt)
  have n: "primitive_length (c # cs @ r) = Some n"
    using primitive_length_plain [OF assms(1,3)] xs assms(6) by simp
  have d: "drop (n - Suc 0) cs @ drop (n - Suc (length cs)) r = r" using xs assms(6) by auto
  show ?thesis
    using assms(1-5) xs c
    by (simp add: jsmn_loop.simps(2) parse_primitive_step n d grow_super_grown grown_append raw_of_def del: primitive_length.simps)
qed

lemma loop_string:
  assumes "string_length (xs @ 34 # r) = Inr (length xs)" "length ts < num" "super_in su ts"
  shows "jsmn_loop num (34 # xs @ 34 # r) pos (parser_at ts su) = jsmn_loop num r (pos + length xs + 2)
    (parser_at (grown 1 su ts @ [raw_of \<lparr>tok_type = JSMN_STRING, tok_start = pos + 1, tok_end = pos + 1 + length xs, tok_size = 0\<rparr>]) su)"
  using assms by (simp add: jsmn_loop.simps(2) parse_string_step grow_super_grown grown_append raw_of_def)

lemma loop_open:
  assumes "length ts < num" "super_in su ts" "c = 123 \<and> ty = JSMN_OBJECT \<or> c = 91 \<and> ty = JSMN_ARRAY"
  shows "jsmn_loop num (c # r) pos (parser_at ts su) = jsmn_loop num r (pos + 1)
    (parser_at (grown 1 su ts @ [\<lparr>rt_type = ty, rt_start = int pos, rt_end = -1, rt_size = 0\<rparr>])
      (Some (length ts)))"
  using assms
  by (subst jsmn_loop.simps(2), subst open_container_step) (auto simp: super_ok_def super_in_def grow_super_grown)

lemma loop_close:
  assumes "c = 125 \<and> ty = JSMN_OBJECT \<or> c = 93 \<and> ty = JSMN_ARRAY"
  shows "jsmn_loop num (c # r) pos (parser_at (ts @ [\<lparr>rt_type = ty, rt_start = int p, rt_end = -1, rt_size = n\<rparr>] @ map raw_of us) su)
    = jsmn_loop num r (pos + 1)
       (parser_at (ts @ [raw_of \<lparr>tok_type = ty, tok_start = p, tok_end = pos + 1, tok_size = n\<rparr>] @ map raw_of us)
         (latest unclosed ts))"
proof -
  let ?t = "\<lparr>rt_type = ty, rt_start = int p, rt_end = -1, rt_size = n\<rparr>"
  have "unclosed ?t" by (simp add: unclosed_def)
  then have l: "latest unclosed (ts @ ?t # map raw_of us) = Some (length ts)"
    using latest_raw [of "ts @ [?t]" us] by (simp add: latest_snoc)
  have "latest unclosed (ts @ [raw_of \<lparr>tok_type = ty, tok_start = p, tok_end = pos + 1, tok_size = n\<rparr>]) = latest unclosed ts"
    by (simp add: latest_snoc)
  with assms l show ?thesis
    by (subst jsmn_loop.simps(2)) (auto simp: close_container_def Let_def raw_of_def list_update_append)
qed

lemma loop_colon:
  "ts \<noteq> [] \<Longrightarrow> jsmn_loop num (58 # r) pos (parser_at ts su) = jsmn_loop num r (pos + 1) (parser_at ts (Some (length ts - 1)))"
  by (simp add: jsmn_loop.simps(2) after_colon_def)

text \<open>After a comma the container that is open is the one to grow again.\<close>

lemma loop_comma:
  assumes "latest unclosed ts = Some a" "is_container (ts ! a)" "su = Some a \<or> (\<exists>i. su = Some i \<and> \<not> is_container (ts ! i))"
  shows "jsmn_loop num (44 # r) pos (parser_at ts su) = jsmn_loop num r (pos + 1) (parser_at ts (Some a))"
  using assms latest_both [where Q = is_container, OF assms(1,2)] by (auto simp: jsmn_loop.simps(2) after_comma_def)

text \<open>Where \<open>toksuper\<close> points after a value.\<close>

fun super_after :: "json_value \<Rightarrow> nat option \<Rightarrow> nat option \<Rightarrow> nat option" where
  "super_after (JsonArray vs) su op = op"
| "super_after (JsonObject kvs) su op = op"
| "super_after v su op = su"

lemma super_after_same [simp]: "super_after v su su = su"
  by (cases v) auto

lemma super_after_cases: "super_after v su op = su \<or> super_after v su op = op"
  by (cases v) auto

lemma plain_words:
  "\<forall>b \<in> set [110, 117, 108, 108 :: byte]. 32 < b \<and> b < 127 \<and> b \<notin> {34, 44, 58, 91, 93, 123, 125}"
  "\<forall>b \<in> set [116, 114, 117, 101 :: byte]. 32 < b \<and> b < 127 \<and> b \<notin> {34, 44, 58, 91, 93, 123, 125}"
  "\<forall>b \<in> set [102, 97, 108, 115, 101 :: byte]. 32 < b \<and> b < 127 \<and> b \<notin> {34, 44, 58, 91, 93, 123, 125}"
  by simp_all

lemma loop_value:
  "plain_numbers fmt \<Longrightarrow> plain_keys v \<Longrightarrow> separated r \<Longrightarrow> super_in su ts \<Longrightarrow> length ts + length (tokens fmt pos v) \<le> num \<Longrightarrow>
     jsmn_loop num (write_json fmt v @ r) pos (parser_at ts su)
       = jsmn_loop num r (pos + length (write_json fmt v))
           (parser_at (grown 1 su ts @ map raw_of (tokens fmt pos v)) (super_after v su (latest unclosed ts)))"
  and loop_elems:
  "plain_numbers fmt \<Longrightarrow> \<forall>v \<in> set vs. plain_keys v \<Longrightarrow> latest unclosed ts = Some a \<Longrightarrow> is_container (ts ! a) \<Longrightarrow>
     length ts + length (tokens_elems fmt pos vs) \<le> num \<Longrightarrow>
     jsmn_loop num (write_json_elems fmt vs @ 93 # r) pos (parser_at ts (Some a))
       = jsmn_loop num (93 # r) (pos + length (write_json_elems fmt vs))
           (parser_at (grown (length vs) (Some a) ts @ map raw_of (tokens_elems fmt pos vs)) (Some a))"
  and loop_fields:
  "plain_numbers fmt \<Longrightarrow> \<forall>kv \<in> set kvs. 34 \<notin> set (cstr (fst kv)) \<and> 92 \<notin> set (cstr (fst kv)) \<and> plain_keys (snd kv) \<Longrightarrow>
     latest unclosed ts = Some a \<Longrightarrow> is_container (ts ! a) \<Longrightarrow> length ts + length (tokens_fields fmt pos kvs) \<le> num \<Longrightarrow>
     \<exists>su. jsmn_loop num (write_json_fields fmt kvs @ 125 # r) pos (parser_at ts (Some a))
       = jsmn_loop num (125 # r) (pos + length (write_json_fields fmt kvs))
           (parser_at (grown (length kvs) (Some a) ts @ map raw_of (tokens_fields fmt pos kvs)) su)"
proof (induction fmt pos v and fmt pos vs and fmt pos kvs
    arbitrary: r su ts and r ts a and r ts a
    rule: tokens_tokens_elems_tokens_fields.induct)
  case (1 fmt pos)
  then show ?case using loop_primitive [OF plain_words(1), where n = 4 and r = r and ts = ts and num = num and su = su and pos = pos] by (simp add: numeral_eq_Suc)
next
  case (2 fmt pos)
  then show ?case using loop_primitive [OF plain_words(2), where n = 4 and r = r and ts = ts and num = num and su = su and pos = pos] by (simp add: numeral_eq_Suc)
next
  case (3 fmt pos)
  then show ?case using loop_primitive [OF plain_words(3), where n = 5 and r = r and ts = ts and num = num and su = su and pos = pos] by (simp add: numeral_eq_Suc)
next
  case (4 fmt pos x)
  then have "\<forall>b \<in> set (fmt x). 32 < b \<and> b < 127 \<and> b \<notin> {34, 44, 58, 91, 93, 123, 125}" "fmt x \<noteq> []"
    by (simp_all add: plain_numbers_def)
  with 4 loop_primitive [of "fmt x" r ts num su "length (fmt x)" pos] show ?case by simp
next
  case (5 fmt pos s)
  have "string_length (concat (map escape_char (cstr s)) @ 34 # r) = Inr (length (concat (map escape_char (cstr s))))"
    by (rule string_length_escaped [OF cstr_no_nul])
  from loop_string [OF this, of ts num su pos] 5 show ?case by (simp add: add.commute add.left_commute)
next
  case (6 fmt pos vs)
  let ?t = "\<lambda>n. \<lparr>rt_type = JSMN_ARRAY, rt_start = int pos, rt_end = -1, rt_size = n\<rparr>"
  have l: "latest unclosed (grown 1 su ts @ [?t 0]) = Some (length ts)" by (simp add: latest_snoc unclosed_def)
  have c: "is_container ((grown 1 su ts @ [?t 0]) ! length ts)" by (simp add: is_container_def nth_append)
  have g: "grown (length vs) (Some (length ts)) (grown 1 su ts @ [?t 0]) = grown 1 su ts @ [?t (length vs)]"
    using grown_last [of "length vs" "grown 1 su ts" "?t 0"] by simp
  have "jsmn_loop num (write_json_elems fmt vs @ 93 # r) (pos + 1) (parser_at (grown 1 su ts @ [?t 0]) (Some (length ts)))
      = jsmn_loop num (93 # r) (pos + 1 + length (write_json_elems fmt vs))
          (parser_at (grown 1 su ts @ [?t (length vs)] @ map raw_of (tokens_elems fmt (pos + 1) vs)) (Some (length ts)))"
    using "6.IH" [OF "6.prems"(1) _ l c, of r] "6.prems" g by simp
  with loop_open [of ts num su 91 JSMN_ARRAY "write_json_elems fmt vs @ 93 # r" pos] "6.prems"
    loop_close [of 93 JSMN_ARRAY num r "pos + 1 + length (write_json_elems fmt vs)" "grown 1 su ts" pos "length vs" "tokens_elems fmt (pos + 1) vs" "Some (length ts)"]
  show ?case by (simp add: add.commute add.left_commute)
next
  case (7 fmt pos kvs)
  let ?t = "\<lambda>n. \<lparr>rt_type = JSMN_OBJECT, rt_start = int pos, rt_end = -1, rt_size = n\<rparr>"
  have l: "latest unclosed (grown 1 su ts @ [?t 0]) = Some (length ts)" by (simp add: latest_snoc unclosed_def)
  have c: "is_container ((grown 1 su ts @ [?t 0]) ! length ts)" by (simp add: is_container_def nth_append)
  have g: "grown (length kvs) (Some (length ts)) (grown 1 su ts @ [?t 0]) = grown 1 su ts @ [?t (length kvs)]"
    using grown_last [of "length kvs" "grown 1 su ts" "?t 0"] by simp
  obtain su' where "jsmn_loop num (write_json_fields fmt kvs @ 125 # r) (pos + 1) (parser_at (grown 1 su ts @ [?t 0]) (Some (length ts)))
      = jsmn_loop num (125 # r) (pos + 1 + length (write_json_fields fmt kvs))
          (parser_at (grown 1 su ts @ [?t (length kvs)] @ map raw_of (tokens_fields fmt (pos + 1) kvs)) su')"
    using "7.IH" [OF "7.prems"(1) _ l c, of r] "7.prems" g by auto
  with loop_open [of ts num su 123 JSMN_OBJECT "write_json_fields fmt kvs @ 125 # r" pos] "7.prems"
    loop_close [of 125 JSMN_OBJECT num r "pos + 1 + length (write_json_fields fmt kvs)" "grown 1 su ts" pos "length kvs" "tokens_fields fmt (pos + 1) kvs" su']
  show ?case by (simp add: add.commute add.left_commute)
next
  case (8 fmt pos)
  then have "super_in (Some a) ts" by (auto simp: super_in_def dest: latest_Some)
  then show ?case by simp
next
  case (9 fmt pos v vs)
  let ?w = "write_json fmt v"
  have a: "super_in (Some a) ts" "a < length ts" using "9.prems"(3) by (auto simp: super_in_def dest: latest_Some)
  let ?ts = "grown 1 (Some a) ts @ map raw_of (tokens fmt pos v)"
  let ?q = "(if vs \<noteq> [] then 44 # write_json_elems fmt vs else []) @ 93 # r"
  have "separated ?q" by (simp add: separated_def)
  with "9.prems" a have 1: "jsmn_loop num (?w @ ?q) pos (parser_at ts (Some a)) = jsmn_loop num ?q (pos + length ?w) (parser_at ?ts (Some a))"
    using "9.IH"(1) [of ?q "Some a" ts] by simp
  have l: "latest unclosed ?ts = Some a" "is_container (?ts ! a)"
    using "9.prems"(3,4) a by (simp_all add: nth_append nth_grown_container)
  have g: "grown (length vs) (Some a) ?ts = grown (Suc (length vs)) (Some a) ts @ map raw_of (tokens fmt pos v)"
    using a by (simp add: grown_append grown_grown)
  show ?case
  proof (cases "vs = []")
    case True
    with 1 show ?thesis by simp
  next
    case False
    have "jsmn_loop num (write_json_elems fmt vs @ 93 # r) (pos + length ?w + 1) (parser_at ?ts (Some a))
      = jsmn_loop num (93 # r) (pos + length ?w + 1 + length (write_json_elems fmt vs))
          (parser_at (grown (length vs) (Some a) ?ts @ map raw_of (tokens_elems fmt (pos + length ?w + 1) vs)) (Some a))"
      using "9.IH"(2) [OF "9.prems"(1) _ l, of r] "9.prems" by simp
    with 1 loop_comma [OF l, of "Some a" num "write_json_elems fmt vs @ 93 # r" "pos + length ?w"] False g
    show ?thesis by (simp add: add.assoc)
  qed
next
  case (10 fmt pos)
  then have "super_in (Some a) ts" by (auto simp: super_in_def dest: latest_Some)
  then show ?case by auto
next
  case (11 fmt pos k v kvs)
  let ?k = "cstr k" and ?w = "write_json fmt v" and ?p = "pos + length (cstr k) + 3"
  let ?key = "\<lambda>n. raw_of \<lparr>tok_type = JSMN_STRING, tok_start = pos + 1, tok_end = pos + 1 + length (cstr k), tok_size = n\<rparr>"
  have a: "super_in (Some a) ts" "a < length ts" using "11.prems"(3) by (auto simp: super_in_def dest: latest_Some)
  let ?ts = "grown 1 (Some a) ts @ [?key 1] @ map raw_of (tokens fmt ?p v)"
  let ?q = "(if kvs \<noteq> [] then 44 # write_json_fields fmt kvs else []) @ 125 # r"
  have "string_length (?k @ 34 # 58 # ?w @ ?q) = Inr (length ?k)"
    using "11.prems"(2) by (intro string_length_plain) (simp_all add: cstr_no_nul)
  from loop_string [OF this, of ts num "Some a" pos] "11.prems"(5) a
  have k: "jsmn_loop num (34 # ?k @ 34 # 58 # ?w @ ?q) pos (parser_at ts (Some a))
      = jsmn_loop num (58 # ?w @ ?q) (pos + length ?k + 2) (parser_at (grown 1 (Some a) ts @ [?key 0]) (Some a))" by simp
  have c: "jsmn_loop num (58 # ?w @ ?q) (pos + length ?k + 2) (parser_at (grown 1 (Some a) ts @ [?key 0]) (Some a))
      = jsmn_loop num (?w @ ?q) ?p (parser_at (grown 1 (Some a) ts @ [?key 0]) (Some (length ts)))"
    using loop_colon [of "grown 1 (Some a) ts @ [?key 0]" num "?w @ ?q" "pos + length ?k + 2" "Some a"] by (simp add: numeral_3_eq_3)
  have g1: "grown 1 (Some (length ts)) (grown 1 (Some a) ts @ [?key 0]) = grown 1 (Some a) ts @ [?key 1]"
    using grown_last [of 1 "grown 1 (Some a) ts" "?key 0"] by (simp add: raw_of_def)
  have "latest unclosed (grown 1 (Some a) ts @ [?key 0]) = Some a" using "11.prems"(3) by (simp add: latest_snoc)
  moreover have "separated ?q" by (simp add: separated_def)
  moreover have "super_in (Some (length ts)) (grown 1 (Some a) ts @ [?key 0])" by (simp add: super_in_def)
  ultimately have v: "jsmn_loop num (?w @ ?q) ?p (parser_at (grown 1 (Some a) ts @ [?key 0]) (Some (length ts)))
      = jsmn_loop num ?q (?p + length ?w) (parser_at ?ts (super_after v (Some (length ts)) (Some a)))"
    using "11.IH"(1) [of ?q "Some (length ts)" "grown 1 (Some a) ts @ [?key 0]"] "11.prems" g1 by simp
  note 1 = trans [OF k trans [OF c v]]
  have l: "latest unclosed ?ts = Some a" "is_container (?ts ! a)"
    using "11.prems"(3,4) a latest_raw [of "grown 1 (Some a) ts @ [?key 1]" "tokens fmt ?p v"]
    by (simp_all add: nth_append nth_grown_container latest_snoc)
  have n: "\<not> is_container (?ts ! length ts)" by (simp add: nth_append is_container_def raw_of_def)
  have g: "grown (length kvs) (Some a) ?ts = grown (Suc (length kvs)) (Some a) ts @ [?key 1] @ map raw_of (tokens fmt ?p v)"
    using a by (simp add: grown_append grown_grown)
  show ?case
  proof (cases "kvs = []")
    case True
    with 1 show ?thesis by (auto simp: numeral_3_eq_3 add.assoc)
  next
    case False
    obtain su' where "jsmn_loop num (write_json_fields fmt kvs @ 125 # r) (?p + length ?w + 1) (parser_at ?ts (Some a))
      = jsmn_loop num (125 # r) (?p + length ?w + 1 + length (write_json_fields fmt kvs))
          (parser_at (grown (length kvs) (Some a) ?ts @ map raw_of (tokens_fields fmt (?p + length ?w + 1) kvs)) su')"
      using "11.IH"(2) [OF "11.prems"(1) _ l, of r] "11.prems" by auto
    moreover have "super_after v (Some (length ts)) (Some a) = Some a
        \<or> (\<exists>i. super_after v (Some (length ts)) (Some a) = Some i \<and> \<not> is_container (?ts ! i))"
      using super_after_cases [of v "Some (length ts)" "Some a"] n by auto
    ultimately show ?thesis
      using 1 loop_comma [OF l, of _ num "write_json_fields fmt kvs @ 125 # r" "?p + length ?w"] False g
      by (intro exI [of _ su']) (simp add: numeral_3_eq_3 add.assoc)
  qed
qed

lemma json_tokens_written:
  assumes "plain_numbers fmt" "plain_keys v" "length (tokens fmt 0 v) \<le> JSON_DECODE_TOKENLIST_SIZE"
  shows "json_tokens (write_json fmt v) = Some (tokens fmt 0 v)"
proof -
  have "jsmn_loop JSON_DECODE_TOKENLIST_SIZE (write_json fmt v @ []) 0 (parser_at [] None)
      = jsmn_loop JSON_DECODE_TOKENLIST_SIZE [] (0 + length (write_json fmt v))
          (parser_at (grown 1 None [] @ map raw_of (tokens fmt 0 v)) (super_after v None (latest unclosed [])))"
    by (rule loop_value [OF assms(1,2)]) (use assms(3) in \<open>simp_all add: separated_def super_in_def\<close>)
  then have "jsmn_loop JSON_DECODE_TOKENLIST_SIZE (write_json fmt v) 0 jsmn_init
      = Inr (parser_at (map raw_of (tokens fmt 0 v)) (super_after v None (latest unclosed [])))"
    by (simp add: jsmn_init_def grown_def)
  then show ?thesis
    by (simp add: json_tokens_def jsmn_parse_def comp_def)
qed

text \<open>A number at the very end of the buffer is read past it, so a value by itself needs a byte more.\<close>

definition compound :: "json_value \<Rightarrow> bool" where
  "compound v \<longleftrightarrow> (\<exists>vs. v = JsonArray vs) \<or> (\<exists>kvs. v = JsonObject kvs)"

lemma decode_json_written:
  assumes "plain_numbers fmt" "plain_keys v"
    and "length (tokens fmt 0 v) \<le> JSON_DECODE_TOKENLIST_SIZE" and "r \<noteq> [] \<or> compound v"
  shows "decode_value_json json_tokens (\<lambda>_. True) strtod (write_json fmt v @ r) (length (write_json fmt v)) = Inr (received strtod fmt v)"
proof -
  let ?ts = "tokens fmt 0 v" and ?m = "write_json fmt v @ r"
  let ?fill = "replicate (JSON_DECODE_TOKENLIST_SIZE - length ?ts) undefined_token"
  let ?toks = "?ts @ ?fill"
  have "\<exists>j. decode_json_fuel (\<lambda>_. True) strtod ?m ?toks (Suc (length ?toks)) 0 = Inr (received strtod fmt v, j)"
  proof (cases "r = []")
    case False
    then obtain c r' where "r = c # r'" by (cases r) auto
    then have "drop 0 ?m = write_json fmt v @ c # r'" by simp
    from decode_tokens [OF this _ _ assms(1), of 0 ?toks ?fill "Suc (length ?toks)"] show ?thesis by simp
  next
    case True
    with assms(4) consider (array) vs where "v = JsonArray vs" | (object) kvs where "v = JsonObject kvs"
      by (auto simp: compound_def)
    then show ?thesis
    proof cases
      case array
      have "drop 1 ?m = write_json_elems fmt vs @ 93 # r" "drop 1 ?toks = tokens_elems fmt 1 vs @ ?fill"
        using array by simp_all
      from decode_tokens_elems [OF this _ assms(1), of "length ?toks"] array show ?thesis
        by (simp add: decode_json_fuel.simps(2))
    next
      case object
      have "drop 1 ?m = write_json_fields fmt kvs @ 125 # r" "drop 1 ?toks = tokens_fields fmt 1 kvs @ ?fill"
        using object by simp_all
      from decode_tokens_fields [OF this _ assms(1), of "length ?toks"] object show ?thesis
        by (simp add: decode_json_fuel.simps(2))
    qed
  qed
  with json_tokens_written [OF assms(1,2,3)] show ?thesis by (auto simp: decode_value_json_def Let_def)
qed

text \<open>
  from the text the writer produced, with plain keys and at most 128 tokens, the tokenizer and the decoder
  together get back what \<open>received\<close> says: the nesting, the order, the counts and the extents that the
  tokenizer finds are the ones of the text, strings are in escaped form, and numbers as \<open>strtod\<close> reads them.
\<close>
theorem json_round_trip:
  assumes "plain_numbers fmt" "plain_keys v"
    and "length (tokens fmt 0 v) \<le> JSON_DECODE_TOKENLIST_SIZE" and "r \<noteq> [] \<or> compound v"
  shows "decode_value_json json_tokens (\<lambda>_. True) strtod (write_json fmt v @ r) (length (write_json fmt v)) = Inr (received strtod fmt v)"
  using assms by (rule decode_json_written)

text \<open>
  The text of \<open>%g\<close> for integers below a million and for what is not a number, and the reading of
  such an integer. (\<open>sample_fmt\<close> cuts other doubles to integers.)
\<close>

fun decimal_fuel :: "nat \<Rightarrow> nat \<Rightarrow> byte list" where
  "decimal_fuel 0 n = [48]"
| "decimal_fuel (Suc k) n = (if n < 10 then [] else decimal_fuel k (n div 10)) @ [48 + word_of_nat (n mod 10)]"

definition sample_fmt :: "u64 \<Rightarrow> byte list" where
  "sample_fmt x =
     (case f64_trunc x of
        None \<Rightarrow> if f64_isnan x then [110, 97, 110] else if f64_sign x then [45, 105, 110, 102] else [105, 110, 102]
      | Some i \<Rightarrow> (if f64_sign x then [45] else []) @ decimal_fuel 6 (nat \<bar>i\<bar>))"

definition sample_strtod :: "byte list \<Rightarrow> u64" where
  "sample_strtod bs = f64_of_int (foldl (\<lambda>n b. 10 * n + (uint b - 48)) 0 bs)"

lemma decimal_chars: "decimal_fuel k n \<noteq> [] \<and> (\<forall>b \<in> set (decimal_fuel k n). b \<in> set (map (\<lambda>i. 48 + word_of_nat i) [0..<10]))"
proof (induction k n rule: decimal_fuel.induct)
  case (1 n)
  show ?case by (simp add: image_iff) (rule bexI [of _ 0], simp_all)
next
  case (2 k n)
  have "n mod 10 \<in> {0..<10}" by simp
  with 2 show ?case by (auto simp: image_iff)
qed

lemma sample_plain: "plain_numbers sample_fmt"
proof -
  have d: "set (map (\<lambda>i. 48 + word_of_nat i) [0..<10]) = {48, 49, 50, 51, 52, 53, 54, 55, 56, 57 :: byte}"
    by (simp add: upt_rec)
  have "\<forall>b \<in> {48, 49, 50, 51, 52, 53, 54, 55, 56, 57 :: byte}. 32 < b \<and> b < 127 \<and> b \<notin> {34, 44, 58, 91, 93, 123, 125}"
    by simp
  then have "\<forall>b \<in> set (decimal_fuel k n). 32 < b \<and> b < 127 \<and> b \<notin> {34, 44, 58, 91, 93, 123, 125}" for k n
    using decimal_chars [of k n] unfolding d by blast
  then show ?thesis
    using decimal_chars unfolding plain_numbers_def sample_fmt_def by (auto split: option.split)
qed

text \<open>The number five, and a NaN, which comes back as null.\<close>

abbreviation five :: u64 where "five \<equiv> 0x4014000000000000"

lemma sample_numbers: "sample_fmt five = [53]" "sample_fmt quiet_nan = [110, 97, 110]" "sample_strtod [53] = five"
  by code_simp+

theorem json_round_trip_witness:
  "let v = JsonArray [JsonObject [([107], JsonString [97, 10]), ([108], JsonArray [])], JsonTrue, JsonNumber five, JsonNumber quiet_nan]
   in decode_value_json json_tokens (\<lambda>_. True) sample_strtod (write_json sample_fmt v @ []) (length (write_json sample_fmt v))
      = Inr (JsonArray [JsonObject [([107], JsonString [97, 92, 110]), ([108], JsonArray [])], JsonTrue, JsonNumber five, JsonNull])"
proof -
  let ?v = "JsonArray [JsonObject [([107], JsonString [97, 10]), ([108], JsonArray [])], JsonTrue, JsonNumber five, JsonNumber quiet_nan]"
  have k: "plain_keys ?v" by (simp add: cstr_def)
  have l: "length (tokens sample_fmt 0 ?v) \<le> JSON_DECODE_TOKENLIST_SIZE" by (simp add: JSON_DECODE_TOKENLIST_SIZE_def)
  have e: "received sample_strtod sample_fmt ?v
      = JsonArray [JsonObject [([107], JsonString [97, 92, 110]), ([108], JsonArray [])], JsonTrue, JsonNumber five, JsonNull]"
    by (simp add: cstr_def escape_char_def read_number_def sample_numbers)
  have c: "[] \<noteq> ([] :: byte list) \<or> compound ?v" by (simp add: compound_def)
  show ?thesis
    unfolding Let_def e [symmetric] by (rule json_round_trip [OF sample_plain k l c])
qed

section \<open>Messages of the JSON codecs\<close>

text \<open>The value an object of a JSON codec is written as, the codec, and what comes back.\<close>

fun json_body :: "platch_obj \<Rightarrow> json_value option" where
  "json_body (JsonMessage v) = Some v"
| "json_body (JsonMethodCall (Some m) (Some v)) = Some (JsonObject [(method_key, JsonString m), (args_key, v)])"
| "json_body (JsonSuccess v) = Some (JsonArray [v])"
| "json_body (JsonError code msg details) = Some (error_array code msg details)"
| "json_body _ = None"

fun json_codec :: "platch_obj \<Rightarrow> platch_codec" where
  "json_codec (JsonMessage v) = kJSONMessageCodec"
| "json_codec (JsonMethodCall m v) = kJSONMethodCall"
| "json_codec _ = kJSONMethodCallResponse"

definition escaped_text :: "byte list \<Rightarrow> byte list" where
  "escaped_text s = concat (map escape_char (cstr s))"

fun received_obj :: "(byte list \<Rightarrow> u64) \<Rightarrow> (u64 \<Rightarrow> byte list) \<Rightarrow> platch_obj \<Rightarrow> platch_obj" where
  "received_obj strtod fmt (JsonMessage v) = JsonMessage (received strtod fmt v)"
| "received_obj strtod fmt (JsonMethodCall m v) = JsonMethodCall (map_option escaped_text m) (map_option (received strtod fmt) v)"
| "received_obj strtod fmt (JsonSuccess v) = JsonSuccess (received strtod fmt v)"
| "received_obj strtod fmt (JsonError code msg details) =
     JsonError (escaped_text code) (map_option escaped_text msg) (received strtod fmt details)"
| "received_obj strtod fmt obj = obj"

lemma json_encoded:
  "json_body obj = Some v \<Longrightarrow> platch_encode env obj = Inr os \<Longrightarrow> os = map Some (write_json (env_fmt env) v)"
  by (cases obj rule: json_body.cases)
    (auto simp: platch_encode_def bind_r_Inr_iff Let_def json_size_exact error_array_def simp del: write_json.simps calc_value_size_json.simps split: if_splits)

text \<open>
  C28: a message of a JSON codec, that is a method call, a reply, an error or a value by itself, whose
  object keys need no escapes and whose text has at most 128 tokens, is encoded and then decoded,
  through the tokenizer itself, to the same one up to two things: every string is in its escaped form, and
  every number is what \<open>strtod\<close> reads in the text that \<open>sprintf\<close> gave it, so that of a double six digits
  arrive, and of a NaN null. Nothing is asked of \<open>sprintf\<close> but printable characters without structure, and
  nothing of \<open>strtod\<close>. Allocation succeeds, and a value that is sent by itself needs a byte behind
  the message.
\<close>
theorem json_messages_round_trip:
  assumes "json_body obj = Some v" "platch_encode env obj = Inr (map Some msg)"
    and "plain_keys v" "length (tokens (env_fmt env) 0 v) \<le> JSON_DECODE_TOKENLIST_SIZE"
    and "env_jsmn env = json_tokens" "env_heap env = (\<lambda>_. True)"
    and "plain_numbers (env_fmt env)"
    and "r \<noteq> [] \<or> json_codec obj \<noteq> kJSONMessageCodec"
  shows "platch_decode env (Some (msg @ r)) (length msg) (json_codec obj) = Inr (received_obj (env_strtod env) (env_fmt env) obj)"
proof -
  have m: "msg = write_json (env_fmt env) v"
    using json_encoded [OF assms(1,2)] by (simp add: inj_map_eq_map)
  have "r \<noteq> [] \<or> compound v"
    using assms(1,8) by (cases obj rule: json_body.cases) (auto simp: compound_def error_array_def)
  from decode_json_written [OF assms(7,3,4) this] assms(5,6)
  have d: "env_decode_json env (msg @ r) (length msg) = Inr (received (env_strtod env) (env_fmt env) v)"
    by (simp add: env_decode_json_def lift_json_def m)
  have k: "cstr method_key = method_key" "cstr args_key = args_key" "args_key \<noteq> method_key"
    by (simp_all add: method_key_def args_key_def cstr_def)
  show ?thesis
    using assms(1) d
    by (cases obj rule: json_body.cases)
      (auto simp: platch_decode_def error_array_def decode_json_response_def k escaped_text_def split: option.splits json_value.splits)
qed

theorem json_messages_round_trip_witness:
  "platch_decode (sample_env\<lparr>env_fmt := sample_fmt, env_strtod := sample_strtod, env_jsmn := json_tokens\<rparr>)
      (Some (write_json sample_fmt (error_array [97, 10] None (JsonNumber five)) @ []))
      (length (write_json sample_fmt (error_array [97, 10] None (JsonNumber five)))) kJSONMethodCallResponse
    = Inr (JsonError [97, 92, 110] None (JsonNumber five))"
proof -
  let ?env = "sample_env\<lparr>env_fmt := sample_fmt, env_strtod := sample_strtod, env_jsmn := json_tokens\<rparr>"
  let ?v = "error_array [97, 10] None (JsonNumber five)"
  let ?obj = "JsonError [97, 10] None (JsonNumber five)"
  have e: "platch_encode ?env ?obj = Inr (map Some (write_json sample_fmt ?v))"
    by (simp add: platch_encode_def sample_env_def Let_def json_size_exact del: write_json.simps calc_value_size_json.simps)
  have "platch_decode ?env (Some (write_json sample_fmt ?v @ [])) (length (write_json sample_fmt ?v)) (json_codec ?obj)
      = Inr (received_obj (env_strtod ?env) (env_fmt ?env) ?obj)"
    by (rule json_messages_round_trip [OF _ e, where v = ?v])
      (simp_all add: error_array_def sample_env_def sample_plain JSON_DECODE_TOKENLIST_SIZE_def)
  then show ?thesis by (simp add: escaped_text_def escape_char_def cstr_def read_number_def sample_numbers)
qed

section \<open>Any message\<close>

lemma jsmn_parse_ok:
  assumes "jsmn_parse num js = Inr ts"
  shows "length ts \<le> num \<and> (\<forall>t \<in> set ts. token_in (length js) t \<and> \<not> unclosed t)"
proof -
  obtain p where l: "jsmn_loop num js 0 jsmn_init = Inr p" and p: "ts = jp_toks p" "\<forall>t \<in> set ts. \<not> unclosed t"
    using assms by (auto simp: jsmn_parse_def bind_r_Inr_iff split: if_splits)
  have "parser_ok num 0 jsmn_init" by (simp add: parser_ok_def jsmn_init_def)
  from jsmn_loop_ok [OF this l] p show ?thesis by (simp add: parser_ok_def)
qed

lemma jsmn_token_bounds:
  assumes "json_tokens js = Some ts" "t \<in> set ts"
  shows "(tok_type t = JSMN_PRIMITIVE \<longrightarrow> tok_start t < tok_end t \<and> tok_end t \<le> length js) \<and> (tok_type t = JSMN_STRING \<longrightarrow> tok_end t < length js)"
proof -
  obtain us where us: "jsmn_parse JSON_DECODE_TOKENLIST_SIZE js = Inr us" and ts: "ts = map as_token us"
    using assms(1) by (auto simp: json_tokens_def split: sum.splits)
  from jsmn_parse_ok [OF us] ts assms(2) show ?thesis
    by (auto simp: token_in_def unclosed_def as_token_def)
qed

text \<open>
  C37: whatever the text, the tokens fit in the array, each is of a known type and closed, and its extent lies inside the text;
  a primitive is not empty, and a string ends before the text does.
\<close>
theorem jsmn_tokens_in_bounds:
  assumes "json_tokens js = Some ts"
  shows "length ts \<le> JSON_DECODE_TOKENLIST_SIZE \<and>
    (\<forall>t \<in> set ts. tok_type t \<noteq> JSMN_UNDEFINED \<and> tok_start t \<le> tok_end t \<and> tok_end t \<le> length js
      \<and> (tok_type t = JSMN_PRIMITIVE \<longrightarrow> tok_start t < tok_end t) \<and> (tok_type t = JSMN_STRING \<longrightarrow> tok_end t < length js))"
proof -
  obtain us where us: "jsmn_parse JSON_DECODE_TOKENLIST_SIZE js = Inr us" and ts: "ts = map as_token us"
    using assms by (auto simp: json_tokens_def split: sum.splits)
  from jsmn_parse_ok [OF us] ts show ?thesis
    by (auto simp: token_in_def unclosed_def as_token_def)
qed

theorem jsmn_tokens_in_bounds_witness:
  "json_tokens [91, 49, 44, 34, 97, 34, 93] =
     Some [\<lparr>tok_type = JSMN_ARRAY, tok_start = 0, tok_end = 7, tok_size = 2\<rparr>,
       \<lparr>tok_type = JSMN_PRIMITIVE, tok_start = 1, tok_end = 2, tok_size = 0\<rparr>,
       \<lparr>tok_type = JSMN_STRING, tok_start = 4, tok_end = 5, tok_size = 0\<rparr>]
   \<and> (3 :: nat) \<le> JSON_DECODE_TOKENLIST_SIZE"
proof -
  have t: "json_tokens [91, 49, 44, 34, 97, 34, 93] =
     Some [\<lparr>tok_type = JSMN_ARRAY, tok_start = 0, tok_end = 7, tok_size = 2\<rparr>,
       \<lparr>tok_type = JSMN_PRIMITIVE, tok_start = 1, tok_end = 2, tok_size = 0\<rparr>,
       \<lparr>tok_type = JSMN_STRING, tok_start = 4, tok_end = 5, tok_size = 0\<rparr>]"
    by code_simp
  with jsmn_tokens_in_bounds [OF t] show ?thesis by simp
qed

text \<open>The decoder touches the message only where the tokens point.\<close>

definition token_inside :: "byte list \<Rightarrow> jsmntok \<Rightarrow> bool" where
  "token_inside message t \<longleftrightarrow> (tok_type t = JSMN_PRIMITIVE \<longrightarrow> tok_start t < length message \<and> tok_end t < length message)
     \<and> (tok_type t = JSMN_STRING \<longrightarrow> tok_end t < length message)"

lemma decode_inside:
  "\<forall>t \<in> set toks. token_inside message t \<Longrightarrow> decode_json_fuel heap strtod message toks fuel i \<noteq> Inl CharPastMessage"
  and decode_elems_inside:
  "\<forall>t \<in> set toks. token_inside message t \<Longrightarrow> decode_json_elems heap strtod message toks fuel n i \<noteq> Inl CharPastMessage"
  and decode_fields_inside:
  "\<forall>t \<in> set toks. token_inside message t \<Longrightarrow> decode_json_fields heap strtod message toks fuel n i \<noteq> Inl CharPastMessage"
proof (induction heap strtod message toks fuel i and heap strtod message toks fuel n i and heap strtod message toks fuel n i
    rule: decode_json_fuel_decode_json_elems_decode_json_fields.induct)
  case (2 heap strtod message toks fuel i)
  show ?case
  proof (cases "i < length toks")
    case True
    then have "token_inside message (toks ! i)" using "2.prems" by simp
    with True "2.IH" "2.prems" show ?thesis
      by (cases "tok_type (toks ! i)")
        (auto simp: decode_json_fuel.simps(2) Let_def bind_r_Inl_iff token_inside_def decode_primitive_def decode_token_string_def)
  qed (simp add: decode_json_fuel.simps(2))
next
  case (4 heap strtod message toks fuel n i)
  then show ?case by (auto simp: bind_r_Inl_iff)
next
  case (6 heap strtod message toks fuel n i)
  then show ?case by (auto simp: bind_r_Inl_iff split: json_value.splits)
qed simp_all

text \<open>
  when the buffer is larger than the message it is told of, decoding touches no byte past the buffer, although it stores a NUL behind
  every string and number.
\<close>
theorem json_decode_inside_buffer:
  assumes "n < length message"
  shows "decode_value_json json_tokens heap strtod message n \<noteq> Inl CharPastMessage"
proof (cases "json_tokens (take n message)")
  case (Some ts)
  let ?toks = "ts @ replicate (JSON_DECODE_TOKENLIST_SIZE - length ts) undefined_token"
  have "\<forall>t \<in> set ?toks. token_inside message t"
    using assms by (auto simp: token_inside_def undefined_token_def dest!: jsmn_token_bounds [OF Some])
  then have "decode_json_fuel heap strtod message ?toks (Suc (length ?toks)) 0 \<noteq> Inl CharPastMessage"
    by (rule decode_inside)
  with Some show ?thesis
    by (simp add: decode_value_json_def Let_def) (auto simp: bind_r_Inl_iff)
qed (simp add: decode_value_json_def)

theorem json_decode_inside_buffer_witness:
  "decode_value_json json_tokens (\<lambda>_. True) (\<lambda>_. 0) [49, 0] 1 \<noteq> Inl CharPastMessage
   \<and> decode_value_json json_tokens (\<lambda>_. True) (\<lambda>_. 0) [49] 1 = Inl CharPastMessage"
proof -
  have "decode_value_json json_tokens (\<lambda>_. True) (\<lambda>_. 0) [49] 1 = Inl CharPastMessage" by code_simp
  with json_decode_inside_buffer [of 1 "[49, 0]" "\<lambda>_. True" "\<lambda>_. 0"] show ?thesis by simp
qed

section \<open>A message that is read with one token too many\<close>

text \<open>Arrays that are open, each with one element.\<close>

definition nest :: "nat \<Rightarrow> raw_token list" where
  "nest k = map (\<lambda>i. \<lparr>rt_type = JSMN_ARRAY, rt_start = int i, rt_end = -1, rt_size = 1\<rparr>) [0..<k]"

lemma length_nest [simp]: "length (nest k) = k"
  by (simp add: nest_def)

lemma nest_Suc: "nest (Suc k) = nest k @ [\<lparr>rt_type = JSMN_ARRAY, rt_start = int k, rt_end = -1, rt_size = 1\<rparr>]"
  by (simp add: nest_def)

lemma loop_nest:
  "k < num \<Longrightarrow> jsmn_loop num (replicate (Suc k) 91 @ r) 0 (parser_at [] None) = jsmn_loop num r (Suc k)
    (parser_at (nest k @ [\<lparr>rt_type = JSMN_ARRAY, rt_start = int k, rt_end = -1, rt_size = 0\<rparr>]) (Some k))"
proof (induction k arbitrary: r)
  case 0
  then show ?case
    using loop_open [of "[]" num None 91 JSMN_ARRAY r 0] by (simp add: nest_def grown_def super_in_def)
next
  case (Suc k)
  let ?t = "\<lparr>rt_type = JSMN_ARRAY, rt_start = int k, rt_end = -1, rt_size = 0\<rparr>"
  have e: "replicate (Suc (Suc k)) 91 @ r = replicate (Suc k) 91 @ 91 # r" by (simp add: replicate_app_Cons_same)
  have "grown 1 (Some k) (nest k @ [?t]) = nest (Suc k)"
    using grown_last [of 1 "nest k" ?t] by (simp add: nest_Suc)
  with Suc.prems loop_open [of "nest k @ [?t]" num "Some k" 91 JSMN_ARRAY r "Suc k"] show ?case
    unfolding e by (subst Suc.IH) (simp_all add: super_in_def)
qed

lemma loop_unnest:
  "\<exists>ts su'. length ts = k \<and> (\<forall>t \<in> set ts. tok_type t = JSMN_ARRAY \<and> tok_size t = 1) \<and>
     jsmn_loop num (replicate k 93 @ r) pos (parser_at (nest k @ map raw_of us) su) = jsmn_loop num r (pos + k) (parser_at (map raw_of (ts @ us)) su')"
proof (induction k arbitrary: pos us su)
  case (Suc k)
  let ?t = "\<lparr>tok_type = JSMN_ARRAY, tok_start = k, tok_end = pos + 1, tok_size = 1\<rparr>"
  obtain ts su' where "length ts = k" "\<forall>t \<in> set ts. tok_type t = JSMN_ARRAY \<and> tok_size t = 1"
    "jsmn_loop num (replicate k 93 @ r) (pos + 1) (parser_at (nest k @ map raw_of (?t # us)) (latest unclosed (nest k)))
      = jsmn_loop num r (pos + 1 + k) (parser_at (map raw_of (ts @ ?t # us)) su')"
    using Suc.IH by blast
  with loop_close [of 93 JSMN_ARRAY num "replicate k 93 @ r" pos "nest k" k 1 us su] show ?case
    by (intro exI [of _ "ts @ [?t]"] exI [of _ su']) (simp add: nest_Suc)
qed (auto simp: nest_def)

text \<open>\<open>n\<close> arrays around the object \<open>{"a"}\<close>, a text jsmn accepts.\<close>

definition deep_object :: "nat \<Rightarrow> byte list" where
  "deep_object n = replicate n 91 @ [123, 34, 97, 34, 125] @ replicate n 93"

lemma deep_object_tokens:
  assumes "k + 3 \<le> JSON_DECODE_TOKENLIST_SIZE"
  shows "\<exists>ts o1 s1. json_tokens (deep_object (Suc k)) = Some (ts @ [o1, s1]) \<and> length ts = Suc k
    \<and> (\<forall>t \<in> set ts. tok_type t = JSMN_ARRAY \<and> tok_size t = 1) \<and> tok_type o1 = JSMN_OBJECT \<and> tok_size o1 = 1
    \<and> tok_type s1 = JSMN_STRING \<and> tok_end s1 < length (deep_object (Suc k))"
proof -
  let ?num = JSON_DECODE_TOKENLIST_SIZE
  let ?a = "\<lparr>rt_type = JSMN_ARRAY, rt_start = int k, rt_end = -1, rt_size = 0\<rparr>"
  let ?o = "\<lambda>n. \<lparr>rt_type = JSMN_OBJECT, rt_start = int (Suc k), rt_end = -1, rt_size = n\<rparr>"
  let ?s1 = "\<lparr>tok_type = JSMN_STRING, tok_start = k + 3, tok_end = k + 4, tok_size = 0\<rparr>"
  let ?o1 = "\<lparr>tok_type = JSMN_OBJECT, tok_start = Suc k, tok_end = k + 6, tok_size = 1\<rparr>"
  let ?tail = "replicate (Suc k) 93"
  have g: "grown 1 (Some k) (nest k @ [?a]) = nest (Suc k)"
    using grown_last [of 1 "nest k" ?a] by (simp add: nest_Suc)
  have g2: "grown 1 (Some (Suc k)) (nest (Suc k) @ [?o 0]) = nest (Suc k) @ [?o 1]"
    using grown_last [of 1 "nest (Suc k)" "?o 0"] by simp
  have s: "string_length ([97] @ 34 # 125 # ?tail) = Inr (length [97 :: byte])" by (rule string_length_plain) simp_all
  have 1: "jsmn_loop ?num (replicate (Suc k) 91 @ 123 # 34 # 97 # 34 # 125 # ?tail) 0 (parser_at [] None)
      = jsmn_loop ?num (123 # 34 # 97 # 34 # 125 # ?tail) (Suc k) (parser_at (nest k @ [?a]) (Some k))"
    by (rule loop_nest) (use assms in simp)
  have 2: "\<dots> = jsmn_loop ?num (34 # 97 # 34 # 125 # ?tail) (Suc k + 1) (parser_at (nest (Suc k) @ [?o 0]) (Some (Suc k)))"
    using loop_open [of "nest k @ [?a]" ?num "Some k" 123 JSMN_OBJECT "34 # 97 # 34 # 125 # ?tail" "Suc k"] assms g
    by (simp add: super_in_def)
  have 3: "\<dots> = jsmn_loop ?num (125 # ?tail) (k + 5) (parser_at (nest (Suc k) @ [?o 1] @ map raw_of [?s1]) (Some (Suc k)))"
    using loop_string [OF s, of "nest (Suc k) @ [?o 0]" ?num "Some (Suc k)" "Suc k + 1"] assms g2
    by (simp add: super_in_def numeral_3_eq_3 eval_nat_numeral)
  have 4: "\<dots> = jsmn_loop ?num ?tail (k + 6) (parser_at (nest (Suc k) @ map raw_of [?o1, ?s1]) (latest unclosed (nest (Suc k))))"
    using loop_close [of 125 JSMN_OBJECT ?num ?tail "k + 5" "nest (Suc k)" "Suc k" 1 "[?s1]" "Some (Suc k)"]
    by (simp add: numeral_eq_Suc)
  obtain ts su where ts: "length ts = Suc k" "\<forall>t \<in> set ts. tok_type t = JSMN_ARRAY \<and> tok_size t = 1"
    and 5: "jsmn_loop ?num (?tail @ []) (k + 6) (parser_at (nest (Suc k) @ map raw_of [?o1, ?s1]) (latest unclosed (nest (Suc k))))
      = jsmn_loop ?num [] (k + 6 + Suc k) (parser_at (map raw_of (ts @ [?o1, ?s1])) su)"
    using loop_unnest by blast
  have "jsmn_loop ?num (deep_object (Suc k)) 0 jsmn_init = Inr (parser_at (map raw_of (ts @ [?o1, ?s1])) su)"
    using 1 2 3 4 5 by (simp add: deep_object_def jsmn_init_def)
  then have "json_tokens (deep_object (Suc k)) = Some (ts @ [?o1, ?s1])"
    by (simp add: json_tokens_def jsmn_parse_def comp_def)
  with ts show ?thesis by (intro exI [of _ ts] exI [of _ ?o1] exI [of _ ?s1]) (simp add: deep_object_def)
qed

lemma decode_arrays:
  "\<forall>t \<in> set ts. tok_type t = JSMN_ARRAY \<and> tok_size t = 1 \<Longrightarrow> drop i toks = ts @ us \<Longrightarrow>
     \<forall>f \<ge> n. decode_json_fuel (\<lambda>_. True) strtod message toks f (i + length ts) = Inl e \<Longrightarrow>
     length ts + n \<le> fuel \<Longrightarrow> decode_json_fuel (\<lambda>_. True) strtod message toks fuel i = Inl e"
proof (induction ts arbitrary: i fuel)
  case (Cons t ts)
  then obtain f where f: "fuel = Suc f" by (cases fuel) auto
  have i: "i < length toks" "toks ! i = t" "drop (i + 1) toks = ts @ us"
    using drop_ConsD [of i toks t "ts @ us"] Cons.prems(2) by simp_all
  have "decode_json_fuel (\<lambda>_. True) strtod message toks f (i + 1) = Inl e"
    by (rule Cons.IH) (use Cons.prems i f in simp_all)
  with i f Cons.prems(1) show ?case by (simp add: decode_json_fuel.simps(2))
qed simp

text \<open>
  C38: a text of 257 characters, an object with a key and no value inside 126 arrays, fills the token array, and the decoder then reads the element behind it: it
  looks for the value of the key without testing how many tokens are left.
\<close>
theorem key_without_value_reads_past_tokens:
  "decode_value_json json_tokens (\<lambda>_. True) strtod (deep_object 126) (length (deep_object 126)) = Inl TokenPastArray"
proof -
  let ?m = "deep_object 126"
  obtain ts o1 s1 where t: "json_tokens ?m = Some (ts @ [o1, s1])" "length ts = 126"
    "\<forall>t \<in> set ts. tok_type t = JSMN_ARRAY \<and> tok_size t = 1" "tok_type o1 = JSMN_OBJECT" "tok_size o1 = 1"
    "tok_type s1 = JSMN_STRING" "tok_end s1 < length ?m"
    using deep_object_tokens [of 125] by (auto simp: JSON_DECODE_TOKENLIST_SIZE_def)
  let ?toks = "ts @ [o1, s1]"
  have s: "decode_json_fuel (\<lambda>_. True) strtod ?m ?toks (Suc f) 127 = Inr (JsonString (token_text ?m s1), 128)" for f
    using t by (simp add: decode_json_fuel.simps(2) decode_token_string_def nth_append)
  have p: "decode_json_fuel (\<lambda>_. True) strtod ?m ?toks (Suc f) 128 = Inl TokenPastArray" for f
    using t by (simp add: decode_json_fuel.simps(2))
  have "decode_json_fuel (\<lambda>_. True) strtod ?m ?toks (Suc (Suc f)) 126 = Inl TokenPastArray" for f
    using t s [of f] p [of f] by (simp add: decode_json_fuel.simps(2) [of _ _ _ _ "Suc f"] nth_append)
  then have "\<forall>f \<ge> 2. decode_json_fuel (\<lambda>_. True) strtod ?m ?toks f (0 + length ts) = Inl TokenPastArray"
    using t(2) by (auto simp: le_iff_add numeral_2_eq_2)
  then have "decode_json_fuel (\<lambda>_. True) strtod ?m ?toks (Suc (length ?toks)) 0 = Inl TokenPastArray"
    by (intro decode_arrays [OF t(3), where n = 2 and us = "[o1, s1]"]) (use t(2) in simp_all)
  with t show ?thesis by (simp add: decode_value_json_def JSON_DECODE_TOKENLIST_SIZE_def)
qed

end
