(* ===== verification/Replies.thy ===== *)
theory Replies
  imports PlatformChannel Doubles Jsmn
begin

text \<open>
  \<open>src/platform_channel.c\<close>, what surrounds the codecs: the memory that decoding takes and freeing gives
  back, the callback for the reply to a request, and the remaining wrappers for replies and
  events. Memory is counted in blocks: each successful \<open>calloc\<close> is one, each \<open>free\<close> of one gives
  it back.
\<close>

section \<open>Blocks taken by the decoder\<close>

text \<open>
  The blocks that are allocated when \<open>platch_decode_value_std\<close> returns, whatever it returns. It takes
  one for a string or large integer (and gives it back itself when the bytes are missing), one for a
  list that has memory, and one for the keys and values of a map.
\<close>

definition string_blocks :: "(nat \<Rightarrow> bool) \<Rightarrow> byte list \<Rightarrow> nat \<Rightarrow> nat" where
  "string_blocks heap buf off = (case decode_string heap buf off of Inl _ \<Rightarrow> 0 | Inr _ \<Rightarrow> 1)"

function (sequential) blocks_std ::
    "(nat \<Rightarrow> bool) \<Rightarrow> nat \<Rightarrow> byte list \<Rightarrow> nat \<Rightarrow> slot \<Rightarrow> nat \<Rightarrow> nat"
  and blocks_elems :: "(nat \<Rightarrow> bool) \<Rightarrow> nat \<Rightarrow> byte list \<Rightarrow> nat \<Rightarrow> slot \<Rightarrow> nat \<Rightarrow> nat \<Rightarrow> nat"
  and blocks_pairs :: "(nat \<Rightarrow> bool) \<Rightarrow> nat \<Rightarrow> byte list \<Rightarrow> nat \<Rightarrow> nat \<Rightarrow> nat \<Rightarrow> nat \<Rightarrow> nat \<Rightarrow> nat" where
  "blocks_std heap base buf 0 slot off = 0"
| "blocks_std heap base buf (Suc fuel) slot off =
     (case read_n buf 1 off of
        Inl _ \<Rightarrow> 0
      | Inr (bs, off1) \<Rightarrow>
          if slot \<noteq> InBlock then 0
          else if hd bs = 12 then
            (case read_size buf off1 of
               Inl _ \<Rightarrow> 0
             | Inr (n, off2) \<Rightarrow>
                 if heap n then 1 + blocks_elems heap base buf fuel InBlock n off2
                 else blocks_elems heap base buf fuel AtNull n off2)
          else if hd bs = 13 then
            (case read_size buf off1 of
               Inl _ \<Rightarrow> 0
             | Inr (n, off2) \<Rightarrow>
                 let block = (n * 2) mod 2 ^ 32 in
                 if heap block then 1 + blocks_pairs heap base buf fuel block n n off2 else 0)
          else if hd bs = 5 \<or> hd bs = 7 then string_blocks heap buf off1
          else 0)"
| "blocks_elems heap base buf fuel slot 0 off = 0"
| "blocks_elems heap base buf fuel slot (Suc n) off =
     blocks_std heap base buf fuel slot off
     + (case decode_std_fuel heap base buf fuel slot off of
          Inl _ \<Rightarrow> 0 | Inr (_, off1) \<Rightarrow> blocks_elems heap base buf fuel slot n off1)"
| "blocks_pairs heap base buf fuel block sz 0 off = 0"
| "blocks_pairs heap base buf fuel block sz (Suc n) off =
     (let i = sz - Suc n; ks = (if i < block then InBlock else PastBlock); vs = (if sz + i < block then InBlock else PastBlock) in
      blocks_std heap base buf fuel ks off
      + (case decode_std_fuel heap base buf fuel ks off of
           Inl _ \<Rightarrow> 0
         | Inr (_, off1) \<Rightarrow>
             blocks_std heap base buf fuel vs off1
             + (case decode_std_fuel heap base buf fuel vs off1 of
                  Inl _ \<Rightarrow> 0 | Inr (_, off2) \<Rightarrow> blocks_pairs heap base buf fuel block sz n off2)))"
  by pat_completeness auto
termination
  by (relation "measures [
       \<lambda>x. case x of Inl (_, _, _, f, _) \<Rightarrow> f
             | Inr (Inl (_, _, _, f, _)) \<Rightarrow> f | Inr (Inr (_, _, _, f, _)) \<Rightarrow> f,
       \<lambda>x. case x of Inl _ \<Rightarrow> 0
             | Inr (Inl (_, _, _, _, _, n, _)) \<Rightarrow> Suc n | Inr (Inr (_, _, _, _, _, _, n, _)) \<Rightarrow> Suc n]")
    auto

declare blocks_std.simps(2) [simp del]

section \<open>Freeing\<close>

text \<open>The blocks that \<open>platch_free_value_std\<close> gives back; it never fails.\<close>

function (sequential) platch_free_value_std :: "std_value \<Rightarrow> nat"
  and free_std_list :: "std_value list \<Rightarrow> nat"
  and free_std_pairs :: "(std_value \<times> std_value) list \<Rightarrow> nat" where
  "platch_free_value_std (StdString s) = 1"
| "platch_free_value_std (StdList vs) = free_std_list vs + 1"
| "platch_free_value_std (StdMap kvs) = free_std_pairs kvs + 1"
| "platch_free_value_std _ = 0"
| "free_std_list [] = 0"
| "free_std_list (v # vs) = platch_free_value_std v + free_std_list vs"
| "free_std_pairs [] = 0"
| "free_std_pairs ((k, v) # kvs) = platch_free_value_std k + (platch_free_value_std v + free_std_pairs kvs)"
  by pat_completeness auto
termination
  by (relation "measure (\<lambda>x. case x of Inl v \<Rightarrow> size v
        | Inr (Inl vs) \<Rightarrow> size_list size vs | Inr (Inr kvs) \<Rightarrow> size_list (size_prod size size) kvs)")
    auto

text \<open>\<open>platch_free_json_value\<close>. The values of an object are a block of their own, which it does not free.\<close>

fun platch_free_json_value :: "json_value \<Rightarrow> bool \<Rightarrow> nat" where
  "platch_free_json_value (JsonArray vs) shallow =
     (if shallow then 0 else sum_list (map (\<lambda>v. platch_free_json_value v False) vs)) + 1"
| "platch_free_json_value (JsonObject kvs) shallow =
     (if shallow then 0 else sum_list (map (\<lambda>kv. platch_free_json_value (snd kv) False) kvs)) + 1"
| "platch_free_json_value _ shallow = 0"

text \<open>
  \<open>platch_free_obj\<close>, for an object that was decoded. A JSON method call whose argument was never
  assigned frees whatever its field holds, which is open.
\<close>

definition platch_free_obj :: "platch_obj \<Rightarrow> nat option" where
  "platch_free_obj obj =
     (case obj of
        StringObj _ \<Rightarrow> Some 1
      | JsonMessage v \<Rightarrow> Some (platch_free_json_value v False)
      | StdMessage v \<Rightarrow> Some (platch_free_value_std v)
      | StdMethodCall _ v \<Rightarrow> Some (1 + platch_free_value_std v)
      | JsonMethodCall _ (Some v) \<Rightarrow> Some (platch_free_json_value v False)
      | JsonMethodCall _ None \<Rightarrow> None
      | _ \<Rightarrow> Some 0)"

section \<open>What stays behind\<close>

text \<open>The blocks a decoded value holds, and the large integers among them.\<close>

fun owned_std :: "std_value \<Rightarrow> nat" where
  "owned_std (StdString s) = 1"
| "owned_std (StdLargeInt s) = 1"
| "owned_std (StdList vs) = 1 + sum_list (map owned_std vs)"
| "owned_std (StdMap kvs) = 1 + sum_list (map (\<lambda>kv. owned_std (fst kv) + owned_std (snd kv)) kvs)"
| "owned_std _ = 0"

fun large_ints :: "std_value \<Rightarrow> nat" where
  "large_ints (StdLargeInt s) = 1"
| "large_ints (StdList vs) = sum_list (map large_ints vs)"
| "large_ints (StdMap kvs) = sum_list (map (\<lambda>kv. large_ints (fst kv) + large_ints (snd kv)) kvs)"
| "large_ints _ = 0"

lemma decode_flat_owned:
  assumes "decode_flat heap base buf t off = Inr (v, off')"
  shows "owned_std v = (if t = 5 \<or> t = 7 then string_blocks heap buf off else 0)"
  using assms by (auto simp: decode_flat_def bind_r_Inr_iff string_blocks_def split: if_splits)

definition blocks_owned :: "(nat \<Rightarrow> bool) \<Rightarrow> nat \<Rightarrow> byte list \<Rightarrow> nat \<Rightarrow> bool" where
  "blocks_owned heap base buf fuel \<longleftrightarrow>
     (\<forall>slot off v off'. decode_std_fuel heap base buf fuel slot off = Inr (v, off') \<longrightarrow>
        blocks_std heap base buf fuel slot off = owned_std v)"

lemma elems_owned:
  "blocks_owned heap base buf fuel \<Longrightarrow> decode_elems heap base buf fuel slot n off = Inr (vs, off') \<Longrightarrow>
     blocks_elems heap base buf fuel slot n off = sum_list (map owned_std vs)"
proof (induction n arbitrary: off vs off')
  case (Suc n)
  from Suc.prems(2) obtain v off1 vs' where d: "decode_std_fuel heap base buf fuel slot off = Inr (v, off1)"
    "decode_elems heap base buf fuel slot n off1 = Inr (vs', off')" "vs = v # vs'"
    by (auto simp: bind_r_Inr_iff)
  from Suc.IH [OF Suc.prems(1) d(2)] Suc.prems(1) d(1,3) show ?case by (simp add: blocks_owned_def)
qed simp

lemma pairs_owned:
  "blocks_owned heap base buf fuel \<Longrightarrow> decode_pairs heap base buf fuel block sz n off = Inr (kvs, off') \<Longrightarrow>
     blocks_pairs heap base buf fuel block sz n off = sum_list (map (\<lambda>kv. owned_std (fst kv) + owned_std (snd kv)) kvs)"
proof (induction n arbitrary: off kvs off')
  case (Suc n)
  from Suc.prems(2) obtain k off1 v off2 kvs' where
    d: "decode_std_fuel heap base buf fuel (if sz - Suc n < block then InBlock else PastBlock) off = Inr (k, off1)"
      "decode_std_fuel heap base buf fuel (if sz + (sz - Suc n) < block then InBlock else PastBlock) off1 = Inr (v, off2)"
      "decode_pairs heap base buf fuel block sz n off2 = Inr (kvs', off')" "kvs = (k, v) # kvs'"
    by (auto simp: bind_r_Inr_iff Let_def)
  from Suc.IH [OF Suc.prems(1) d(3)] Suc.prems(1) d(1,2,4) show ?case by (simp add: blocks_owned_def Let_def)
qed simp

lemma null_list_empty: "decode_elems heap base buf fuel AtNull n off = Inr x \<Longrightarrow> n = 0"
proof (cases n; cases fuel)
qed (auto simp: bind_r_Inr_iff decode_std_fuel.simps(2))

lemma std_owned: "heap 0 \<Longrightarrow> blocks_owned heap base buf fuel"
proof (induction fuel)
  case 0
  then show ?case by (simp add: blocks_owned_def)
next
  case (Suc fuel)
  then have IH: "blocks_owned heap base buf fuel" by simp
  show ?case unfolding blocks_owned_def
  proof (intro allI impI)
    fix slot off v off'
    assume d: "decode_std_fuel heap base buf (Suc fuel) slot off = Inr (v, off')"
    from d obtain bs off1 where r: "read_n buf 1 off = Inr (bs, off1)" and s: "slot = InBlock"
      by (cases slot) (auto simp: decode_std_fuel.simps(2) bind_r_Inr_iff split: if_splits)
    consider (list) "hd bs = 12" | (pairs) "hd bs = 13" | (flat) "hd bs \<noteq> 12" "hd bs \<noteq> 13" by blast
    then show "blocks_std heap base buf (Suc fuel) slot off = owned_std v"
    proof cases
      case list
      then obtain n off2 vs where l: "read_size buf off1 = Inr (n, off2)"
        "decode_elems heap base buf fuel (if heap n then InBlock else AtNull) n off2 = Inr (vs, off')" "v = StdList vs"
        using d r s by (auto simp: decode_std_fuel.simps(2) bind_r_Inr_iff)
      then have "heap n" using null_list_empty [of heap base buf fuel n off2] Suc.prems by (cases "heap n") auto
      with elems_owned [OF IH l(2)] r s l list show ?thesis by (simp add: blocks_std.simps(2))
    next
      case pairs
      then obtain n off2 kvs where l: "read_size buf off1 = Inr (n, off2)" "heap ((n * 2) mod 2 ^ 32)"
        "decode_pairs heap base buf fuel ((n * 2) mod 2 ^ 32) n n off2 = Inr (kvs, off')" "v = StdMap kvs"
        using d r s by (auto simp: decode_std_fuel.simps(2) bind_r_Inr_iff Let_def split: if_splits)
      with pairs_owned [OF IH l(3)] r s pairs show ?thesis by (simp add: blocks_std.simps(2) Let_def)
    next
      case flat
      then have "decode_flat heap base buf (hd bs) off1 = Inr (v, off')"
        using d r s by (auto simp: decode_std_fuel.simps(2) bind_r_Inr_iff)
      from decode_flat_owned [OF this] flat r s show ?thesis by (simp add: blocks_std.simps(2))
    qed
  qed
qed

lemma free_std_owned:
  "platch_free_value_std v + large_ints v = owned_std v"
  "free_std_list vs + sum_list (map large_ints vs) = sum_list (map owned_std vs)"
  "free_std_pairs kvs + sum_list (map (\<lambda>kv. large_ints (fst kv) + large_ints (snd kv)) kvs)
     = sum_list (map (\<lambda>kv. owned_std (fst kv) + owned_std (snd kv)) kvs)"
  by (induction v and vs and kvs rule: platch_free_value_std_free_std_list_free_std_pairs.induct) auto

text \<open>
  A decoded value is given back but for its large integers. Whatever standard value a message
  holds, freeing it gives back every block that decoding took, except the one of each large
  integer in it, however deep: \<open>platch_free_value_std\<close> has no case for them.
\<close>
theorem large_ints_leak:
  assumes "heap 0" and "decode_value_std heap base buf off = Inr (v, off')"
  shows "blocks_std heap base buf (Suc (length buf - off)) InBlock off = platch_free_value_std v + large_ints v"
  using std_owned [of heap base buf "Suc (length buf - off)"] assms free_std_owned(1) [of v]
  by (simp add: blocks_owned_def decode_value_std_def)

text \<open>A list of a string and a large integer.\<close>

theorem large_ints_leak_witness:
  "blocks_std (\<lambda>_. True) 0 [12, 2, 7, 1, 97, 5, 1, 49] 9 InBlock 0 = platch_free_value_std (StdList [StdString [97], StdLargeInt [49]]) + 1"
proof -
  let ?buf = "[12, 2, 7, 1, 97, 5, 1, 49] :: byte list" and ?v = "StdList [StdString [97], StdLargeInt [49]]"
  have n: "Suc (length ?buf - 0) = 9" by simp
  have "decode_std_fuel (\<lambda>_. True) 0 ?buf 9 InBlock 0 = Inr (?v, 0 + length ?buf)"
    by (rule decode_written [where base = 0 and r = "[]"]) (simp_all add: fills_def write_size_def)
  then have "decode_value_std (\<lambda>_. True) 0 ?buf 0 = Inr (?v, 0 + length ?buf)" by (simp only: decode_value_std_def n)
  from large_ints_leak [OF _ this] have "blocks_std (\<lambda>_. True) 0 ?buf 9 InBlock 0 = platch_free_value_std ?v + large_ints ?v"
    by (simp only: n)
  then show ?thesis by simp
qed

lemma elems_failed:
  "blocks_owned heap base buf fuel \<Longrightarrow> decode_elems heap base buf fuel slot m off = Inr (vs, off') \<Longrightarrow>
     decode_std_fuel heap base buf fuel slot off' = Inl e \<Longrightarrow>
     decode_elems heap base buf fuel slot (m + Suc k) off = Inl e
     \<and> blocks_elems heap base buf fuel slot (m + Suc k) off = sum_list (map owned_std vs) + blocks_std heap base buf fuel slot off'"
proof (induction m arbitrary: off vs)
  case (Suc m)
  from Suc.prems(2) obtain v off1 vs' where d: "decode_std_fuel heap base buf fuel slot off = Inr (v, off1)"
    "decode_elems heap base buf fuel slot m off1 = Inr (vs', off')" "vs = v # vs'"
    by (auto simp: bind_r_Inr_iff)
  from Suc.IH [OF Suc.prems(1) d(2) Suc.prems(3)] Suc.prems(1) d(1,3) show ?case by (simp add: blocks_owned_def)
qed simp

text \<open>
  A list that cannot be decoded leaks what was decoded of it. When the element after the first \<open>m\<close> is
  malformed, decoding the list fails, and the list's own block, the blocks of the \<open>m\<close> elements and
  what the malformed one leaks itself stay allocated, with no pointer to them left.
\<close>
theorem failed_decode_leaks:
  assumes "heap 0" and "read_n buf 1 off = Inr ([12], off1)" and "read_size buf off1 = Inr (n, off2)" and "heap n" and "m < n"
    and "decode_elems heap base buf fuel InBlock m off2 = Inr (vs, off3)"
    and "decode_std_fuel heap base buf fuel InBlock off3 = Inl e"
  shows "decode_std_fuel heap base buf (Suc fuel) InBlock off = Inl e
    \<and> blocks_std heap base buf (Suc fuel) InBlock off
        = 1 + sum_list (map owned_std vs) + blocks_std heap base buf fuel InBlock off3"
proof -
  from assms(5) obtain k where n: "n = m + Suc k" by (metis less_imp_Suc_add add_Suc_right)
  from elems_failed [OF std_owned [of heap base buf fuel, OF assms(1)] assms(6,7), of k] assms(2-4) show ?thesis
    by (simp add: decode_std_fuel.simps(2) blocks_std.simps(2) n)
qed

text \<open>A list of a string and of a byte that is no type: two blocks are lost.\<close>

theorem failed_decode_leaks_witness:
  "decode_std_fuel (\<lambda>_. True) 0 [12, 2, 7, 1, 97, 99] (Suc (Suc 4)) InBlock 0 = Inl (Errno EBADMSG)
     \<and> 2 \<le> blocks_std (\<lambda>_. True) 0 [12, 2, 7, 1, 97, 99] (Suc (Suc 4)) InBlock 0"
proof -
  let ?buf = "[12, 2, 7, 1, 97, 99] :: byte list"
  have r: "read_n ?buf 1 0 = Inr ([12], 1)" "read_n ?buf 1 5 = Inr ([99], 6)" "read_size ?buf 1 = Inr (2, 2)"
    by (simp_all add: read_n_def read_size_def bytes_at_def)
  have "decode_elems (\<lambda>_. True) 0 ?buf (Suc 4) InBlock (length [StdString [97]]) 2 = Inr ([StdString [97]], 2 + length [7, 1, 97 :: byte])"
    by (rule decode_written_list [where base = 0 and r = "[99]"]) (simp_all add: fills_def write_size_def)
  then have e: "decode_elems (\<lambda>_. True) 0 ?buf (Suc 4) InBlock 1 2 = Inr ([StdString [97]], 5)" by simp
  have f: "decode_std_fuel (\<lambda>_. True) 0 ?buf (Suc 4) InBlock 5 = Inl (Errno EBADMSG)"
    unfolding decode_std_fuel.simps(2) r(2) bind_r_simps prod.case by (simp add: decode_flat_def)
  from failed_decode_leaks [OF _ r(1) r(3) _ _ e f] show ?thesis by simp
qed

section \<open>JSON\<close>

text \<open>The blocks of a decoded JSON value: one for an array, two, keys and values, for an object.\<close>

fun owned_json :: "json_value \<Rightarrow> nat" where
  "owned_json (JsonArray vs) = 1 + sum_list (map owned_json vs)"
| "owned_json (JsonObject kvs) = 2 + sum_list (map (\<lambda>kv. owned_json (snd kv)) kvs)"
| "owned_json _ = 0"

fun json_objects :: "json_value \<Rightarrow> nat" where
  "json_objects (JsonArray vs) = sum_list (map json_objects vs)"
| "json_objects (JsonObject kvs) = 1 + sum_list (map (\<lambda>kv. json_objects (snd kv)) kvs)"
| "json_objects _ = 0"

lemma free_json_owned: "platch_free_json_value v False + json_objects v = owned_json v"
proof (induction v)
  case (JsonArray vs)
  then have "sum_list (map (\<lambda>v. platch_free_json_value v False) vs) + sum_list (map json_objects vs) = sum_list (map owned_json vs)"
    by (simp add: sum_list_addf [symmetric] cong: map_cong)
  then show ?case by simp
next
  case (JsonObject kvs)
  then have "sum_list (map (\<lambda>kv. platch_free_json_value (snd kv) False) kvs) + sum_list (map (\<lambda>kv. json_objects (snd kv)) kvs)
      = sum_list (map (\<lambda>kv. owned_json (snd kv)) kvs)"
    by (auto simp: sum_list_addf [symmetric] intro!: arg_cong [where f = sum_list])
  then show ?case by simp
qed simp_all

lemma call_members_arg:
  "json_call_members kvs m0 a0 = Inr obj \<Longrightarrow> \<exists>m a. obj = JsonMethodCall m a \<and> (a = a0 \<or> (\<exists>kv \<in> set kvs. a = Some (snd kv)))"
proof (induction kvs m0 a0 rule: json_call_members.induct)
  case (2 k v kvs m a)
  then show ?case by (fastforce split: if_splits bool.splits json_value.splits)
qed auto

text \<open>
  C36: What a decoded JSON method call loses, to the block. Of the blocks that the decoder took for the
  message, dropping the outer object and freeing the call leave behind exactly the values of the outer
  object, the values of every object within the argument, and all of the members that are not the
  argument (an \<open>args\<close> that a later one replaced). So every such message leaks at least one block.
\<close>
theorem json_calls_leak:
  assumes "env_decode_json env message n = Inr top_value" and "platch_decode env (Some message) n kJSONMethodCall = Inr obj"
    and "platch_free_obj obj = Some k"
  shows "\<exists>kvs m v us ws. top_value = JsonObject kvs \<and> obj = JsonMethodCall m (Some v) \<and> map snd kvs = us @ v # ws
    \<and> owned_json top_value = platch_free_json_value top_value True + k
        + (1 + json_objects v + sum_list (map owned_json (us @ ws)))"
proof -
  from assms(1,2) obtain kvs where root: "top_value = JsonObject kvs" and m: "json_call_members kvs None None = Inr obj"
    by (auto simp: platch_decode_def split: json_value.splits)
  from call_members_arg [OF m] assms(3) obtain m v kv where v: "obj = JsonMethodCall m (Some v)" "kv \<in> set kvs \<and> v = snd kv"
      "k = platch_free_json_value v False"
    by (auto simp: platch_free_obj_def)
  then have "v \<in> set (map snd kvs)" by simp
  then obtain us ws where l: "map snd kvs = us @ v # ws" by (meson split_list)
  have "sum_list (map (\<lambda>kv. owned_json (snd kv)) kvs) = sum_list (map owned_json (map snd kvs))" by (simp add: comp_def)
  then have "owned_json top_value = 2 + (owned_json v + sum_list (map owned_json (us @ ws)))"
    unfolding root l by simp
  with free_json_owned [of v] v(1,3) l root show ?thesis
    by (intro exI [of _ kvs] exI [of _ m] exI [of _ v] exI [of _ us] exI [of _ ws]) simp
qed

text \<open>The message \<open>{"args":{"a":[]}}\<close>.\<close>

definition args_message :: "byte list" where
  "args_message = [123, 34, 97, 114, 103, 115, 34, 58, 123, 34, 97, 34, 58, 91, 93, 125, 125]"

definition args_env :: platch_env where
  "args_env = sample_env\<lparr>env_jsmn := json_tokens\<rparr>"

lemma args_decoded:
  "env_decode_json args_env args_message 17 = Inr (JsonObject [([97, 114, 103, 115], JsonObject [([97], JsonArray [])])])"
proof -
  have "decode_value_json json_tokens (\<lambda>_. True) (\<lambda>_. 0) args_message 17
      = Inr (JsonObject [([97, 114, 103, 115], JsonObject [([97], JsonArray [])])])"
    by code_simp
  then show ?thesis by (simp add: env_decode_json_def args_env_def sample_env_def lift_json_def)
qed

text \<open>Of the five blocks, two are left: the values of the two objects.\<close>

theorem json_calls_leak_witness:
  "platch_decode args_env (Some args_message) 17 kJSONMethodCall = Inr (JsonMethodCall None (Some (JsonObject [([97], JsonArray [])])))
     \<and> platch_free_obj (JsonMethodCall None (Some (JsonObject [([97], JsonArray [])]))) = Some 2
     \<and> owned_json (JsonObject [([97, 114, 103, 115], JsonObject [([97], JsonArray [])])])
       = platch_free_json_value (JsonObject [([97, 114, 103, 115], JsonObject [([97], JsonArray [])])]) True + 2 + 2"
proof -
  let ?v = "JsonObject [([97], JsonArray [])]"
  have d: "platch_decode args_env (Some args_message) 17 kJSONMethodCall = Inr (JsonMethodCall None (Some ?v))"
    by (simp add: platch_decode_def args_decoded cstr_def method_key_def args_key_def)
  have f: "platch_free_obj (JsonMethodCall None (Some ?v)) = Some 2" by (simp add: platch_free_obj_def)
  from json_calls_leak [OF args_decoded d f] obtain us ws where "map snd [([97, 114, 103, 115 :: byte], ?v)] = us @ ?v # ws"
    "owned_json (JsonObject [([97, 114, 103, 115], ?v)]) = platch_free_json_value (JsonObject [([97, 114, 103, 115], ?v)]) True + 2
        + (1 + json_objects ?v + sum_list (map owned_json (us @ ws)))"
    by auto
  moreover from this(1) have "us = []" "ws = []" by (auto simp: Cons_eq_append_conv)
  ultimately show ?thesis using d f by simp
qed

section \<open>The reply to a request\<close>

datatype response_call = OnResponse platch_obj | FreeHandler | FreeObject platch_obj

text \<open>\<open>on_response\<close> is the answer 0 of the callback; the reply is decoded with the codec of the request.\<close>

definition platch_on_response_internal ::
    "platch_env \<Rightarrow> byte list option \<Rightarrow> nat \<Rightarrow> platch_codec \<Rightarrow> (platch_obj \<Rightarrow> bool) \<Rightarrow> response_call list option" where
  "platch_on_response_internal env buf n codec on_response =
     (case platch_decode env buf n codec of
        Inl e \<Rightarrow> if error_returned e then Some [] else None
      | Inr obj \<Rightarrow> Some (if on_response obj then [OnResponse obj, FreeHandler, FreeObject obj] else [OnResponse obj]))"

text \<open>
  A reply is passed on once, but its memory is given back only when all is well. The callback sees
  every reply that can be decoded, once and first; the handler data, which \<open>platch_send\<close> left for
  this moment, and the decoded object are freed exactly when in addition the callback returns 0,
  and leak otherwise.
\<close>
theorem reply_frees_only_on_success:
  assumes "platch_on_response_internal env buf n codec on_response = Some calls"
  shows "(\<forall>obj. platch_decode env buf n codec = Inr obj \<longrightarrow> calls ! 0 = OnResponse obj \<and> OnResponse obj \<notin> set (tl calls))
    \<and> (FreeHandler \<in> set calls \<longleftrightarrow> (\<exists>obj. platch_decode env buf n codec = Inr obj \<and> on_response obj))
    \<and> (\<forall>obj. FreeObject obj \<in> set calls \<longleftrightarrow> platch_decode env buf n codec = Inr obj \<and> on_response obj)"
  using assms by (auto simp: platch_on_response_internal_def split: sum.splits if_splits)

theorem reply_frees_only_on_success_witness:
  "platch_on_response_internal sample_env (Some [9]) 1 kJSONMethodCallResponse (\<lambda>_. True) = Some [] \<and> FreeHandler \<notin> set []"
proof -
  have "platch_on_response_internal sample_env (Some [9]) 1 kJSONMethodCallResponse (\<lambda>_. True) = Some []"
    by (simp add: platch_on_response_internal_def platch_decode_def env_decode_json_def decode_value_json_def lift_json_def sample_env_def)
  with reply_frees_only_on_success [OF this] show ?thesis by simp
qed

section \<open>The other wrappers\<close>

text \<open>\<open>strerror\<close> is the text of an error number; \<open>details\<close> that are NULL are sent as null.\<close>

definition nativeerror :: "byte list" where "nativeerror = map (\<lambda>c. of_char c) ''nativeerror''"

definition std_or_null :: "std_value option \<Rightarrow> std_value" where
  "std_or_null v = (case v of Some x \<Rightarrow> x | None \<Rightarrow> StdNull)"

definition platch_respond_native_error_std :: "platch_env \<Rightarrow> (int \<Rightarrow> byte list) \<Rightarrow> int \<Rightarrow> send_ret \<times> send_call list" where
  "platch_respond_native_error_std env strerror errno =
     platch_respond_error_std env nativeerror (Some (strerror errno)) (Some (StdInt32 (word_of_int errno)))"

definition platch_respond_illegal_arg_json :: "platch_env \<Rightarrow> byte list option \<Rightarrow> send_ret \<times> send_call list" where
  "platch_respond_illegal_arg_json env msg = platch_respond_error_json env illegalargument msg None"

definition platch_respond_native_error_json :: "platch_env \<Rightarrow> (int \<Rightarrow> byte list) \<Rightarrow> int \<Rightarrow> send_ret \<times> send_call list" where
  "platch_respond_native_error_json env strerror errno =
     platch_respond_error_json env nativeerror (Some (strerror errno)) (Some (JsonNumber (f64_of_int errno)))"

definition pigeon_key :: "string \<Rightarrow> std_value" where "pigeon_key s = StdString (map (\<lambda>c. of_char c) s)"

definition platch_respond_success_pigeon :: "platch_env \<Rightarrow> std_value option \<Rightarrow> send_ret \<times> send_call list" where
  "platch_respond_success_pigeon env v = platch_respond env (StdMessage (StdMap [(pigeon_key ''result'', std_or_null v)]))"

definition pigeon_error :: "byte list \<Rightarrow> byte list \<Rightarrow> std_value option \<Rightarrow> std_value" where
  "pigeon_error code msg details =
     StdMap [(pigeon_key ''error'',
       StdMap [(pigeon_key ''code'', StdString code), (pigeon_key ''message'', StdString msg), (pigeon_key ''details'', std_or_null details)])]"

definition platch_respond_error_pigeon ::
    "platch_env \<Rightarrow> byte list \<Rightarrow> byte list \<Rightarrow> std_value option \<Rightarrow> send_ret \<times> send_call list" where
  "platch_respond_error_pigeon env code msg details = platch_respond env (StdMessage (pigeon_error code msg details))"

definition platch_respond_illegal_arg_pigeon :: "platch_env \<Rightarrow> byte list \<Rightarrow> send_ret \<times> send_call list" where
  "platch_respond_illegal_arg_pigeon env msg = platch_respond_error_pigeon env illegalargument msg None"

definition platch_respond_illegal_arg_ext_pigeon :: "platch_env \<Rightarrow> byte list \<Rightarrow> std_value option \<Rightarrow> send_ret \<times> send_call list" where
  "platch_respond_illegal_arg_ext_pigeon env msg details = platch_respond_error_pigeon env illegalargument msg details"

definition platch_respond_native_error_pigeon :: "platch_env \<Rightarrow> (int \<Rightarrow> byte list) \<Rightarrow> int \<Rightarrow> send_ret \<times> send_call list" where
  "platch_respond_native_error_pigeon env strerror errno =
     platch_respond_error_pigeon env nativeerror (strerror errno) (Some (StdInt32 (word_of_int errno)))"

definition platch_send_error_event_std ::
    "platch_env \<Rightarrow> send_outcome \<Rightarrow> byte list \<Rightarrow> byte list \<Rightarrow> byte list option \<Rightarrow> std_value option \<Rightarrow> send_ret \<times> send_call list" where
  "platch_send_error_event_std env out channel code msg details =
     platch_send env out channel (StdError code msg (std_or_null details)) False"

definition platch_send_error_event_json ::
    "platch_env \<Rightarrow> send_outcome \<Rightarrow> byte list \<Rightarrow> byte list \<Rightarrow> byte list option \<Rightarrow> json_value option \<Rightarrow> send_ret \<times> send_call list" where
  "platch_send_error_event_json env out channel code msg details =
     platch_send env out channel (JsonError code msg (case details of Some x \<Rightarrow> x | None \<Rightarrow> JsonNull)) False"

text \<open>A standard message as Dart, or the program itself, decodes it.\<close>

lemma std_message_decoded:
  assumes "wf_std v" and "platch_encode env (StdMessage v) = Inr os" and "fills os msg" and "env_heap env = (\<lambda>_. True)"
    and "env_enc_base env mod 8 = 0" and "env_dec_base env mod 8 = 0"
  shows "platch_decode env (Some msg) (length msg) kStandardMessageCodec = Inr (StdMessage v)"
proof -
  have "os = encode_bytes env (StdMessage v)"
    using assms(1,2) encode_fills_block [OF assms(5), of "StdMessage v"] assms(4) by simp
  then have "fills (write_values (env_enc_base env) [v] (length ([] :: byte list))) msg" using assms(3) by simp
  from decode_first [OF this assms(5,6,1)] obtain off where
    "decode_value_std (\<lambda>_. True) (env_dec_base env) ([] @ msg) (length ([] :: byte list)) = Inr (v, off)" by blast
  with assms(4) show ?thesis by (simp add: platch_decode_def env_decode_std_def lift_std_def)
qed

lemma pigeon_error_wf: "wf_std (StdString code) \<Longrightarrow> wf_std (StdString msg) \<Longrightarrow> wf_std (std_or_null d) \<Longrightarrow> wf_std (pigeon_error code msg d)"
  by (simp add: pigeon_error_def pigeon_key_def)

text \<open>
  A pigeon error arrives as it was reported. The reply to a pigeon call that fails is exactly one
  message, and its receiver decodes the code, the text and the details that were given, null for
  details that are NULL, whatever bytes are left in the gaps.
\<close>
theorem pigeon_error_arrives:
  assumes "platch_respond_error_pigeon env code msg details = (Ret0, calls)"
    and "wf_std (StdString code)" and "wf_std (StdString msg)" and "wf_std (std_or_null details)"
    and "env_heap env = (\<lambda>_. True)" and "env_enc_base env mod 8 = 0" and "env_dec_base env mod 8 = 0"
  shows "\<exists>os. calls = [AllocBuffer, SendPlatformMessageResponse os, FreeBuffer]
    \<and> (\<forall>bs. fills os bs \<longrightarrow> platch_decode env (Some bs) (length bs) kStandardMessageCodec
          = Inr (StdMessage (StdMap [(pigeon_key ''error'', StdMap [(pigeon_key ''code'', StdString code), (pigeon_key ''message'', StdString msg),
              (pigeon_key ''details'', std_or_null details)])])))"
proof -
  from assms(1) obtain os where os: "platch_encode env (StdMessage (pigeon_error code msg details)) = Inr os"
    "calls = [AllocBuffer, SendPlatformMessageResponse os, FreeBuffer]"
    by (auto simp: platch_respond_error_pigeon_def platch_respond_def split: sum.splits)
  from std_message_decoded [OF pigeon_error_wf [OF assms(2-4)] os(1) _ assms(5-7)] os(2) show ?thesis
    by (auto simp: pigeon_error_def)
qed

text \<open>A failed system call, answered with its number.\<close>

theorem pigeon_error_arrives_witness:
  "\<exists>os. snd (platch_respond_native_error_pigeon sample_env (\<lambda>_. [69]) 5) = [AllocBuffer, SendPlatformMessageResponse os, FreeBuffer]"
proof -
  let ?v = "pigeon_error nativeerror [69] (Some (StdInt32 5))"
  have w: "wf_std (StdString nativeerror)" "wf_std (StdString [69])" "wf_std (std_or_null (Some (StdInt32 5)))"
    by (simp_all add: nativeerror_def std_or_null_def)
  have "calc_value_size_std ?v 0 = length (write_std 16 ?v 0)" using calc_size_exact [OF _ pigeon_error_wf [OF w], of 16 0] by simp
  then have "platch_respond_error_pigeon sample_env nativeerror [69] (Some (StdInt32 5))
      = (Ret0, snd (platch_respond_error_pigeon sample_env nativeerror [69] (Some (StdInt32 5))))"
    by (simp add: platch_respond_error_pigeon_def platch_respond_def platch_encode_def sample_env_def Let_def)
  from pigeon_error_arrives [OF this w] show ?thesis
    by (auto simp: platch_respond_native_error_pigeon_def sample_env_def)
qed

end
