(* ===== verification/Decorations.thy ===== *)
theory Decorations
  imports Surfaces
begin

text \<open>
  \<open>src/flutter_wlroots.c\<close>, the listeners of the two decoration protocols, which make windows leave the
  title bar to the compositor. Beside the instance the state has the \<open>decoration\<close> of each view and
  the views whose listeners are linked into the signals of a decoration object.
\<close>

section \<open>State and calls\<close>

record decoration_state =
  decoration :: "ptr \<Rightarrow> wref option"
  linked :: "wref \<Rightarrow> ptr option"

datatype decoration_call =
    DecorationEffect effect
  | SetTiledTop wref
  | SetModeServerSide wref

type_synonym decorated = "fwr_instance \<times> decoration_state"

section \<open>Handlers\<close>

text \<open>The two searches: the view of a toplevel, and the view of a surface.\<close>

fun find_view_where ::
    "(fwr_view \<Rightarrow> bool) \<Rightarrow> (ptr \<Rightarrow> fwr_view option) \<Rightarrow> ptr list \<Rightarrow> (ptr \<times> fwr_view) option option" where
  "find_view_where P store [] = Some None"
| "find_view_where P store (p # ps) =
     (case store p of
        None \<Rightarrow> None
      | Some v \<Rightarrow> if P v then Some (Some (p, v)) else find_view_where P store ps)"

text \<open>\<open>None\<close> also where a listener would be linked into a second signal, which breaks both lists.\<close>

definition handle_new_toplevel_decoration ::
    "wref \<Rightarrow> wref \<Rightarrow> decorated \<Rightarrow> (decorated \<times> decoration_call list) option" where
  "handle_new_toplevel_decoration d toplevel s =
     (case s of (st, ds) \<Rightarrow>
        Option.bind (find_view_where (\<lambda>v. v_toplevel v = toplevel) (view_store st) (views_list st)) (\<lambda>found.
          case found of
            None \<Rightarrow> Some (s, [SetModeServerSide d])
          | Some (p, v) \<Rightarrow>
              if decoration ds p \<noteq> None then None
              else
                let v' = v\<lparr>uses_ssd := True\<rparr>
                in Some ((set_view p v' st, \<lparr>decoration = (decoration ds)(p \<mapsto> d), linked = (linked ds)(d \<mapsto> p)\<rparr>),
                     SetTiledTop (v_toplevel v') # map DecorationEffect (fwr_send_decoration_update v') @ [SetModeServerSide d])))"

text \<open>The view a listener of \<open>d\<close> belongs to, read from its freed memory or not.\<close>

definition listener_view :: "wref \<Rightarrow> decorated \<Rightarrow> (ptr \<times> fwr_view) option" where
  "listener_view d s =
     (case s of (st, ds) \<Rightarrow> Option.bind (linked ds d) (\<lambda>p. map_option (Pair p) (view_store st p)))"

definition handle_decoration_request_mode :: "wref \<Rightarrow> decorated \<Rightarrow> (decorated \<times> decoration_call list) option" where
  "handle_decoration_request_mode d s =
     Option.bind (listener_view d s) (\<lambda>(p, v).
     Option.bind (decoration (snd s) p) (\<lambda>d'. Some (s, [SetModeServerSide d'])))"

definition handle_decoration_destroy :: "wref \<Rightarrow> decorated \<Rightarrow> (decorated \<times> decoration_call list) option" where
  "handle_decoration_destroy d s =
     Option.bind (listener_view d s) (\<lambda>(p, v).
       Some ((fst s, \<lparr>decoration = (decoration (snd s))(p := None), linked = (linked (snd s))(d := None)\<rparr>), []))"

definition handle_new_server_decoration :: "wlr_env \<Rightarrow> wref \<Rightarrow> decorated \<Rightarrow> (decorated \<times> decoration_call list) option" where
  "handle_new_server_decoration env surface s =
     (case s of (st, ds) \<Rightarrow>
        Option.bind (find_view_where (\<lambda>v. e_surface env (v_xdg_surface v) = Some surface) (view_store st) (views_list st)) (\<lambda>found.
          case found of
            None \<Rightarrow> Some (s, [])
          | Some (p, v) \<Rightarrow>
              let v' = v\<lparr>uses_ssd := True\<rparr>
              in Some ((set_view p v' st, ds),
                   SetTiledTop (v_toplevel v') # map DecorationEffect (fwr_send_decoration_update v'))))"

section \<open>Runs\<close>

datatype decorated_event =
    NewDecoration wref wref
  | RequestMode wref
  | DestroyDecoration wref
  | ServerDecoration wref
  | OtherEvent event

fun decorated_step :: "wlr_env \<Rightarrow> decorated_event \<Rightarrow> decorated \<Rightarrow> (decorated \<times> decoration_call list) option" where
  "decorated_step env (NewDecoration d w) s = handle_new_toplevel_decoration d w s"
| "decorated_step env (RequestMode d) s = handle_decoration_request_mode d s"
| "decorated_step env (DestroyDecoration d) s = handle_decoration_destroy d s"
| "decorated_step env (ServerDecoration w) s = handle_new_server_decoration env w s"
| "decorated_step env (OtherEvent e) s =
     map_option (\<lambda>(st', es). ((st', snd s), map DecorationEffect es)) (event_step env e (fst s))"

text \<open>
  What wlroots guarantees of the decoration protocol: signals come from live decorations, a new one
  is for a window without one and has an address of its own. \<open>orderly\<close> adds what the protocol asks
  of clients: a window is destroyed after its decoration.
\<close>

fun decoration_enabled :: "decorated_event \<Rightarrow> decorated \<Rightarrow> bool" where
  "decoration_enabled (NewDecoration d w) s \<longleftrightarrow> linked (snd s) d = None
     \<and> (\<forall>p v. view_store (fst s) p = Some v \<longrightarrow> v_toplevel v = w \<longrightarrow> decoration (snd s) p = None)"
| "decoration_enabled (RequestMode d) s \<longleftrightarrow> linked (snd s) d \<noteq> None"
| "decoration_enabled (DestroyDecoration d) s \<longleftrightarrow> linked (snd s) d \<noteq> None"
| "decoration_enabled _ s \<longleftrightarrow> True"

fun orderly :: "decorated_event \<Rightarrow> decorated \<Rightarrow> bool" where
  "orderly (OtherEvent (SurfaceEvent (DestroyToplevel p))) s \<longleftrightarrow> decoration (snd s) p = None"
| "orderly _ s \<longleftrightarrow> True"

definition undecorated :: decoration_state where
  "undecorated = \<lparr>decoration = (\<lambda>_. None), linked = (\<lambda>_. None)\<rparr>"

inductive decorated_run :: "decorated \<Rightarrow> bool" where
  start: "surfaces_ok st \<Longrightarrow> decorated_run (st, undecorated)"
| step: "decorated_run s \<Longrightarrow> fresh env (fst s) \<Longrightarrow> rooms (fst s) \<Longrightarrow> decoration_enabled e s \<Longrightarrow> orderly e s \<Longrightarrow>
    decorated_step env e s = Some (s', calls) \<Longrightarrow> decorated_run s'"

definition decorations_ok :: "decorated \<Rightarrow> bool" where
  "decorations_ok s \<longleftrightarrow> surfaces_ok (fst s)
     \<and> (\<forall>d p. linked (snd s) d = Some p \<longrightarrow> decoration (snd s) p = Some d \<and> view_store (fst s) p \<noteq> None)
     \<and> (\<forall>d p. decoration (snd s) p = Some d \<longrightarrow> linked (snd s) d = Some p)"

section \<open>Live windows\<close>

definition live :: "ptr \<Rightarrow> fwr_instance \<Rightarrow> bool" where
  "live q st \<longleftrightarrow> view_store st q \<noteq> None"

lemma live_keeps: "live q st \<Longrightarrow> keeps st r \<Longrightarrow> r = Some (st', es) \<Longrightarrow> live q st'"
proof -
  assume a: "live q st" "keeps st r" "r = Some (st', es)"
  then have "ids v_handle (view_store st') q = ids v_handle (view_store st) q" using keepsD by (fastforce simp: shape_def)
  then show ?thesis using a(1) by (cases "view_store st' q") (auto simp: ids_def live_def)
qed

lemma live_new_toplevel: "live q st \<Longrightarrow> fwr_new_xdg_toplevel env w x st = Some (st', es) \<Longrightarrow> live q st'"
  by (auto simp: fwr_new_xdg_toplevel_def live_def Let_def split_beta)

lemma live_destroy_toplevel: "live q st \<Longrightarrow> xdg_toplevel_destroy p st = Some (st', es) \<Longrightarrow> p \<noteq> q \<Longrightarrow> live q st'"
  by (auto simp: xdg_toplevel_destroy_def live_def Let_def split_beta split: bind_splits)

lemma live_subsurface:
  "live q st \<Longrightarrow> handle_new_subsurface env ws w p st = Some (st', es) \<Longrightarrow> live q st'"
  "live q st \<Longrightarrow> subsurface_handle_destroy p st = Some (st', es) \<Longrightarrow> live q st'"
  by (auto simp: handle_new_subsurface_def subsurface_handle_destroy_def with_subsurface_def set_view_def set_subsurface_def
      live_def Let_def split_beta split: option.splits bind_splits if_splits)

lemma live_popup_destroy: "live q st \<Longrightarrow> popup_handle_destroy p st = Some (st', es) \<Longrightarrow> live q st'"
  by (auto simp: popup_handle_destroy_def live_def Let_def split_beta split: option.splits bind_splits if_splits)

lemma live_new_popup:
  assumes "live q st" and "fwr_new_xdg_popup env pv xp base ps st = Some (st', es)"
  shows "live q st'"
proof -
  have m: "live q st2" if "popup_handle_map env pv r st1 = Some (st2, es2)" "live q st1" for r st1 st2 es2
    by (rule live_keeps [OF that(2) keeps_popup_map that(1)])
  have u: "live q (set_popup r pp (st\<lparr>popups := ps\<rparr>))" "live q ((set_popup r pp (st\<lparr>popups := ps\<rparr>))\<lparr>xdg_data := d\<rparr>)"
    "live q (set_popup r pp (st\<lparr>popups := ps, xdg_data := d\<rparr>))" for r pp ps d
    using assms(1) by (simp_all add: live_def set_popup_def)
  show ?thesis using assms unfolding fwr_new_xdg_popup_def
    by (auto simp: Let_def split_beta u split: option.splits if_splits bind_splits intro: m)
qed

lemma event_keeps_windows:
  assumes "live q st" and "event_step env e st = Some (st', es)" and "e \<noteq> SurfaceEvent (DestroyToplevel q)"
  shows "live q st'"
proof -
  note K = live_keeps [OF assms(1)]
  have s: "live q st'" if "surface_step env x st = Some (st', es)" "x \<noteq> DestroyToplevel q" for x
    using that
    by (cases x) (auto intro: live_new_toplevel [OF assms(1)] live_destroy_toplevel [OF assms(1)]
      live_subsurface [OF assms(1)] K [OF keeps_toplevel_map] K [OF keeps_toplevel_unmap] K [OF keeps_toplevel_commit]
      K [OF keeps_request_grab(1)] K [OF keeps_request_grab(2)] K [OF keeps_subsurface_map] K [OF keeps_subsurface_unmap]
      K [OF keeps_subsurface_commit])
  have p: "live q st'" if "popup_step env x st = Some (st', es)" for x
    using that
    by (cases x) (auto intro: live_new_popup [OF assms(1)] live_popup_destroy [OF assms(1)] K [OF keeps_popup_map]
      K [OF keeps_popup_unmap] K [OF keeps_popup_commit] K [OF keeps_popup_reposition])
  show ?thesis using assms(2,3)
    by (cases e) (auto intro: s p K [OF keeps_input_step] K [OF keeps_wlroots_message])
qed

section \<open>Decorations and their windows\<close>

lemma find_view_where_Some:
  "find_view_where P store ps = Some (Some (p, v)) \<Longrightarrow> store p = Some v \<and> P v"
  by (induction ps) (auto split: option.splits if_splits)

lemma find_view_where_defined: "\<forall>p \<in> set ps. store p \<noteq> None \<Longrightarrow> find_view_where P store ps \<noteq> None"
  by (induction ps) (auto split: option.splits)

lemma run_undecorated: "surfaces_ok st \<Longrightarrow> decorations_ok (st, undecorated)"
  by (simp add: decorations_ok_def undecorated_def)

lemma step_decorations_ok:
  assumes ok: "decorations_ok s" and f: "fresh env (fst s)" "rooms (fst s)" and en: "decoration_enabled e s" "orderly e s"
    and st: "decorated_step env e s = Some (s', calls)"
  shows "decorations_ok s'"
proof -
  obtain i ds where s: "s = (i, ds)" by fastforce
  have S: "surfaces_ok i" and L: "\<And>d p. linked ds d = Some p \<Longrightarrow> decoration ds p = Some d \<and> live p i"
    and D: "\<And>d p. decoration ds p = Some d \<Longrightarrow> linked ds d = Some p"
    using ok unfolding decorations_ok_def s live_def fst_conv snd_conv by blast+
  have V: "surfaces_ok (set_view p (v\<lparr>uses_ssd := True\<rparr>) i)" "live q (set_view p (v\<lparr>uses_ssd := True\<rparr>) i) \<longleftrightarrow> live q i"
    if "view_store i p = Some v" for p v q
    using ok_set_view [OF S that, of "v\<lparr>uses_ssd := True\<rparr>"] that by (auto simp: live_def set_view_def)
  have goal: "decorations_ok (j, es)" if "surfaces_ok j" "\<And>d p. linked es d = Some p \<Longrightarrow> decoration es p = Some d \<and> live p j"
    "\<And>d p. decoration es p = Some d \<Longrightarrow> linked es d = Some p" for j es
    unfolding decorations_ok_def fst_conv snd_conv using that unfolding live_def by blast
  show ?thesis
  proof (cases e)
    case (NewDecoration d w)
    with st s consider (none) "s' = s" | (view) p v where "view_store i p = Some v" "v_toplevel v = w" "decoration ds p = None"
      "s' = (set_view p (v\<lparr>uses_ssd := True\<rparr>) i, \<lparr>decoration = (decoration ds)(p \<mapsto> d), linked = (linked ds)(d \<mapsto> p)\<rparr>)"
      by (auto simp: handle_new_toplevel_decoration_def Let_def split: bind_splits option.splits if_splits dest!: find_view_where_Some)
    then show ?thesis
    proof cases
      case none with ok show ?thesis by simp
    next
      case view
      have n: "linked ds d = None" using en(1) NewDecoration s by simp
      have p: "live p i" using view(1) by (simp add: live_def)
      show ?thesis unfolding view(4)
      proof (rule goal [OF V(1) [OF view(1)]])
        fix d' p'
        assume a: "linked \<lparr>decoration = (decoration ds)(p \<mapsto> d), linked = (linked ds)(d \<mapsto> p)\<rparr> d' = Some p'"
        show "decoration \<lparr>decoration = (decoration ds)(p \<mapsto> d), linked = (linked ds)(d \<mapsto> p)\<rparr> p' = Some d'
            \<and> live p' (set_view p (v\<lparr>uses_ssd := True\<rparr>) i)"
        proof (cases "d' = d")
          case True
          with a have "p' = p" by simp
          then show ?thesis using True p V(2) [OF view(1), of p] by simp
        next
          case False
          then have "linked ds d' = Some p'" using a by simp
          from L [OF this] view(3) have "decoration ds p' = Some d'" "live p' i" "p' \<noteq> p" by auto
          then show ?thesis by (simp add: V(2) [OF view(1)])
        qed
      next
        fix d' p'
        assume a: "decoration \<lparr>decoration = (decoration ds)(p \<mapsto> d), linked = (linked ds)(d \<mapsto> p)\<rparr> p' = Some d'"
        show "linked \<lparr>decoration = (decoration ds)(p \<mapsto> d), linked = (linked ds)(d \<mapsto> p)\<rparr> d' = Some p'"
        proof (cases "p' = p")
          case False
          then have "decoration ds p' = Some d'" using a by simp
          from D [OF this] n show ?thesis by auto
        qed (use a in simp)
      qed
    qed
  next
    case (RequestMode d)
    with st s ok show ?thesis by (auto simp: handle_decoration_request_mode_def split: bind_splits)
  next
    case (DestroyDecoration d)
    with st s obtain p where p: "linked ds d = Some p" "s' = (i, \<lparr>decoration = (decoration ds)(p := None), linked = (linked ds)(d := None)\<rparr>)"
      by (auto simp: handle_decoration_destroy_def listener_view_def split: bind_splits)
    have dp: "decoration ds p = Some d" using L [OF p(1)] by simp
    show ?thesis unfolding p(2)
    proof (rule goal [OF S])
      fix d' p'
      assume "linked \<lparr>decoration = (decoration ds)(p := None), linked = (linked ds)(d := None)\<rparr> d' = Some p'"
      then have "d' \<noteq> d" "linked ds d' = Some p'" by (auto split: if_splits)
      with L [OF this(2)] dp show "decoration \<lparr>decoration = (decoration ds)(p := None), linked = (linked ds)(d := None)\<rparr> p' = Some d' \<and> live p' i"
        by auto
    next
      fix d' p'
      assume "decoration \<lparr>decoration = (decoration ds)(p := None), linked = (linked ds)(d := None)\<rparr> p' = Some d'"
      then have "p' \<noteq> p" "decoration ds p' = Some d'" by (auto split: if_splits)
      with D [OF this(2)] p(1) show "linked \<lparr>decoration = (decoration ds)(p := None), linked = (linked ds)(d := None)\<rparr> d' = Some p'"
        by auto
    qed
  next
    case (ServerDecoration w)
    with st s consider (none) "s' = s" | (view) p v where "view_store i p = Some v" "s' = (set_view p (v\<lparr>uses_ssd := True\<rparr>) i, ds)"
      by (auto simp: handle_new_server_decoration_def Let_def split: bind_splits option.splits dest!: find_view_where_Some)
    then show ?thesis
    proof cases
      case none with ok show ?thesis by simp
    next
      case view
      show ?thesis unfolding view(2)
      proof (rule goal [OF V(1) [OF view(1)]])
        fix d p'
        assume "linked ds d = Some p'"
        from L [OF this] show "decoration ds p' = Some d \<and> live p' (set_view p (v\<lparr>uses_ssd := True\<rparr>) i)"
          by (simp add: V(2) [OF view(1)])
      qed (rule D)
    qed
  next
    case (OtherEvent x)
    with st s obtain i' es where o: "event_step env x i = Some (i', es)" "s' = (i', ds)" by auto
    have w: "live p i'" if "linked ds d = Some p" for d p
    proof (rule event_keeps_windows [OF _ o(1)])
      show "live p i" using L [OF that] by simp
      show "x \<noteq> SurfaceEvent (DestroyToplevel p)" using en(2) OtherEvent s L [OF that] by auto
    qed
    have "surfaces_ok i'" using ok_event_step [OF S _ _ o(1)] f s by simp
    then show ?thesis unfolding o(2)
    proof (rule goal)
      fix d p
      assume "linked ds d = Some p"
      then show "decoration ds p = Some d \<and> live p i'" using w [of d p] L [of d p] by simp
    qed (rule D)
  qed
qed

lemma decorated_run_ok: "decorated_run s \<Longrightarrow> decorations_ok s"
proof (induction rule: decorated_run.induct)
  case (start st)
  then show ?case by (rule run_undecorated)
next
  case (step s env e s' calls)
  from step_decorations_ok [OF step.IH step.hyps(2-6)] show ?case .
qed


lemma find_view_where_complete:
  "find_view_where P store ps = Some None \<Longrightarrow> p \<in> set ps \<Longrightarrow> store p = Some v \<Longrightarrow> \<not> P v"
  by (induction ps) (auto split: option.splits if_splits)

lemma decoration_searches:
  assumes "surfaces_ok i"
  shows "\<exists>r. find_view_where P (view_store i) (views_list i) = Some r"
    and "find_view_where P (view_store i) (views_list i) = Some None \<Longrightarrow> view_store i p = Some v \<Longrightarrow> \<not> P v"
proof -
  have d: "set (views_list i) = dom (view_store i)" using assms by (simp add: surfaces_ok_def)
  then show "\<exists>r. find_view_where P (view_store i) (views_list i) = Some r"
    using find_view_where_defined [of "views_list i" "view_store i" P] by auto
  show "find_view_where P (view_store i) (views_list i) = Some None \<Longrightarrow> view_store i p = Some v \<Longrightarrow> \<not> P v"
    using find_view_where_complete [of P "view_store i" "views_list i" p v] d by auto
qed

text \<open>
  What a window is told when it is decorated by the compositor: its state, and the calls. \<open>marks\<close> says
  that this happened to a window with a property, or that there is none.
\<close>

definition marks :: "(fwr_view \<Rightarrow> bool) \<Rightarrow> fwr_instance \<Rightarrow> fwr_instance \<Rightarrow> (ptr \<Rightarrow> bool) \<Rightarrow> decoration_call list \<Rightarrow> bool" where
  "marks P st st' linkage calls \<longleftrightarrow>
     (\<exists>p v. view_store st p = Some v \<and> P v \<and> st' = set_view p (v\<lparr>uses_ssd := True\<rparr>) st \<and> linkage p
        \<and> calls = SetTiledTop (v_toplevel v) # map DecorationEffect (fwr_send_decoration_update (v\<lparr>uses_ssd := True\<rparr>)))"

definition has_window :: "(fwr_view \<Rightarrow> bool) \<Rightarrow> fwr_instance \<Rightarrow> bool" where
  "has_window P st \<longleftrightarrow> (\<exists>p v. view_store st p = Some v \<and> P v)"

lemma search_result:
  assumes "surfaces_ok i"
  obtains (found) p v where "find_view_where P (view_store i) (views_list i) = Some (Some (p, v))" "view_store i p = Some v" "P v"
    "has_window P i"
  | (none) "find_view_where P (view_store i) (views_list i) = Some None" "\<not> has_window P i"
proof -
  obtain r where r: "find_view_where P (view_store i) (views_list i) = Some r" using decoration_searches(1) [OF assms] by blast
  show thesis
  proof (cases r)
    case None
    with r decoration_searches(2) [OF assms, of P] show thesis by (intro none) (auto simp: has_window_def)
  next
    case (Some pv)
    obtain p v where "pv = (p, v)" by fastforce
    with r Some find_view_where_Some [of P "view_store i" "views_list i" p v] show thesis
      by (intro found [of p v]) (auto simp: has_window_def)
  qed
qed

lemma new_decoration_result:
  assumes "decorations_ok s" and "decoration_enabled (NewDecoration d w) s"
  shows "\<exists>s' calls. handle_new_toplevel_decoration d w s = Some (s', calls @ [SetModeServerSide d])
    \<and> (if has_window (\<lambda>v. v_toplevel v = w) (fst s)
       then marks (\<lambda>v. v_toplevel v = w) (fst s) (fst s')
         (\<lambda>p. snd s' = \<lparr>decoration = (decoration (snd s))(p \<mapsto> d), linked = (linked (snd s))(d \<mapsto> p)\<rparr>) calls
       else s' = s \<and> calls = [])"
proof -
  obtain i ds where s: "s = (i, ds)" by fastforce
  have ok: "surfaces_ok i" using assms(1) s by (simp add: decorations_ok_def)
  show ?thesis
  proof (rule search_result [OF ok, of "\<lambda>v. v_toplevel v = w"])
    fix p v
    assume v: "find_view_where (\<lambda>v. v_toplevel v = w) (view_store i) (views_list i) = Some (Some (p, v))"
      "view_store i p = Some v" "v_toplevel v = w" "has_window (\<lambda>v. v_toplevel v = w) i"
    then have "decoration ds p = None" using assms(2) s by auto
    with v s show ?thesis by (auto simp: handle_new_toplevel_decoration_def Let_def marks_def)
  next
    assume "find_view_where (\<lambda>v. v_toplevel v = w) (view_store i) (views_list i) = Some None" "\<not> has_window (\<lambda>v. v_toplevel v = w) i"
    with s show ?thesis by (auto simp: handle_new_toplevel_decoration_def)
  qed
qed

lemma server_decoration_result:
  assumes "decorations_ok s"
  shows "\<exists>s' calls. handle_new_server_decoration env w s = Some (s', calls)
    \<and> (if has_window (\<lambda>v. e_surface env (v_xdg_surface v) = Some w) (fst s)
       then marks (\<lambda>v. e_surface env (v_xdg_surface v) = Some w) (fst s) (fst s') (\<lambda>p. snd s' = snd s) calls
       else s' = s \<and> calls = [])"
proof -
  let ?P = "\<lambda>v. e_surface env (v_xdg_surface v) = Some w"
  obtain i ds where s: "s = (i, ds)" by fastforce
  have ok: "surfaces_ok i" using assms(1) s by (simp add: decorations_ok_def)
  show ?thesis
    by (rule search_result [OF ok, of ?P]) (auto simp: s handle_new_server_decoration_def Let_def marks_def)
qed

text \<open>
  C17: However windows, decorations and all other events come, as long as no window goes before its
  decoration, no listener of a decoration finds its window freed, and each does what it should and
  nothing else. A new decoration is answered with the server-side mode; when its window is known, that is
  marked as decorated by the compositor, told that its top edge is tiled, reported to Dart, and linked with
  the decoration. Every request for another mode is answered with the server-side mode. A decoration of the
  legacy protocol marks, tells and reports its window in the same way and links nothing. A destroyed decoration
  is unlinked from its window; the mark of the window stays.
\<close>
theorem decorations_safe:
  assumes "decorated_run s" and "decoration_enabled e s"
  shows "case e of
      NewDecoration d w \<Rightarrow> \<exists>s' calls. decorated_step env e s = Some (s', calls @ [SetModeServerSide d])
        \<and> (if has_window (\<lambda>v. v_toplevel v = w) (fst s)
           then marks (\<lambda>v. v_toplevel v = w) (fst s) (fst s')
             (\<lambda>p. snd s' = \<lparr>decoration = (decoration (snd s))(p \<mapsto> d), linked = (linked (snd s))(d \<mapsto> p)\<rparr>) calls
           else s' = s \<and> calls = [])
    | RequestMode d \<Rightarrow> decorated_step env e s = Some (s, [SetModeServerSide d])
    | DestroyDecoration d \<Rightarrow> \<exists>p. decoration (snd s) p = Some d
        \<and> decorated_step env e s = Some ((fst s, \<lparr>decoration = (decoration (snd s))(p := None), linked = (linked (snd s))(d := None)\<rparr>), [])
        \<and> (\<forall>q. ((decoration (snd s))(p := None)) q \<noteq> Some d)
    | ServerDecoration w \<Rightarrow> \<exists>s' calls. decorated_step env e s = Some (s', calls)
        \<and> (if has_window (\<lambda>v. e_surface env (v_xdg_surface v) = Some w) (fst s)
           then marks (\<lambda>v. e_surface env (v_xdg_surface v) = Some w) (fst s) (fst s') (\<lambda>p. snd s' = snd s) calls
           else s' = s \<and> calls = [])
    | OtherEvent x \<Rightarrow> True"
proof -
  have ok: "decorations_ok s" by (rule decorated_run_ok [OF assms(1)])
  obtain i ds where s: "s = (i, ds)" by fastforce
  have L: "\<And>d p. linked ds d = Some p \<Longrightarrow> decoration ds p = Some d \<and> view_store i p \<noteq> None"
    and D: "\<And>d p. decoration ds p = Some d \<Longrightarrow> linked ds d = Some p"
    using ok unfolding decorations_ok_def s fst_conv snd_conv by blast+
  show ?thesis
  proof (cases e)
    case (NewDecoration d w)
    with new_decoration_result [OF ok, of d w] assms(2) show ?thesis by simp
  next
    case (RequestMode d)
    with assms(2) s obtain p where "linked ds d = Some p" by auto
    with L [OF this] RequestMode s show ?thesis by (auto simp: handle_decoration_request_mode_def listener_view_def)
  next
    case (DestroyDecoration d)
    with assms(2) s obtain p where p: "linked ds d = Some p" by auto
    from L [OF p] obtain v where v: "view_store i p = Some v" "decoration ds p = Some d" by auto
    have "\<forall>q. ((decoration ds)(p := None)) q \<noteq> Some d" using D [of _ d] p by (auto simp: fun_upd_def)
    moreover have "handle_decoration_destroy d s = Some ((i, \<lparr>decoration = (decoration ds)(p := None), linked = (linked ds)(d := None)\<rparr>), [])"
      by (simp add: handle_decoration_destroy_def listener_view_def s p v)
    ultimately show ?thesis
      unfolding DestroyDecoration s using v(2) by (simp only: decorated_event.case decorated_step.simps fst_conv snd_conv) blast
  next
    case (ServerDecoration w)
    with server_decoration_result [OF ok, of env w] show ?thesis by simp
  qed simp
qed

text \<open>
  A decoration outlives its window. When a client goes with a decorated window, the view is freed and
  its listeners stay linked into the decoration; destroying the decoration, which follows at once,
  or a request for a mode then uses the freed view.
\<close>
theorem decoration_outlives_window:
  assumes "linked (snd s) d = Some p" and "xdg_toplevel_destroy p (fst s) = Some (st', es)"
  shows "handle_decoration_destroy d (st', snd s) = None \<and> handle_decoration_request_mode d (st', snd s) = None"
  using assms
  by (auto simp: xdg_toplevel_destroy_def Let_def split_beta handle_decoration_destroy_def handle_decoration_request_mode_def
      listener_view_def split: bind_splits)

text \<open>The window of before, decorated.\<close>

definition decorated_window :: decorated where
  "decorated_window = fst (the (handle_new_toplevel_decoration 30 4 (one_window, undecorated)))"

lemma one_window_store: "\<exists>v. view_store one_window 7 = Some v \<and> v_toplevel v = 4" "views_list one_window = [7]"
  by (simp_all add: one_window_def fwr_new_xdg_toplevel_def Let_def split_beta initial_instance_def test_env_def)

lemma decorated_window_step:
  "\<exists>calls. handle_new_toplevel_decoration 30 4 (one_window, undecorated) = Some (decorated_window, calls)"
  "linked (snd decorated_window) 30 = Some 7" "view_store (fst decorated_window) 7 \<noteq> None"
  using one_window_store
  by (auto simp: decorated_window_def handle_new_toplevel_decoration_def undecorated_def Let_def set_view_def)

theorem decoration_outlives_window_witness:
  "handle_decoration_destroy 30 (fst (the (xdg_toplevel_destroy 7 (fst decorated_window))), snd decorated_window) = None"
proof -
  obtain es where "xdg_toplevel_destroy 7 (fst decorated_window) = Some (fst (the (xdg_toplevel_destroy 7 (fst decorated_window))), es)"
    using decorated_window_step(3) by (auto simp: xdg_toplevel_destroy_def Let_def split_beta)
  from decoration_outlives_window [OF decorated_window_step(2) this] show ?thesis by simp
qed

theorem decorations_safe_witness:
  "\<exists>s'. decorated_step test_env (RequestMode 30) decorated_window = Some (s', [SetModeServerSide 30])"
proof -
  have s: "decorated_run (one_window, undecorated)"
    by (rule decorated_run.start [OF reaches_ok [OF one_window_reached ok_initial]])
  have m: "views one_window = \<lparr>next_key = 2, entries = [(1, 7)]\<rparr>" by (simp add: one_window_def fwr_new_xdg_toplevel_def Let_def split_beta handle_map_add_def handle_map_new_def initial_instance_def test_env_def)
  have f: "fresh (test_env\<lparr>e_calloc := 8\<rparr>) (fst (one_window, undecorated))" "rooms (fst (one_window, undecorated))"
    using m by (simp_all add: fresh_def rooms_def one_window_def fwr_new_xdg_toplevel_def Let_def split_beta initial_instance_def test_env_def handle_map_new_def handle_map_add_def)
  have e: "decoration_enabled (NewDecoration 30 4) (one_window, undecorated)" by (simp add: undecorated_def)
  obtain calls where "decorated_step (test_env\<lparr>e_calloc := 8\<rparr>) (NewDecoration 30 4) (one_window, undecorated) = Some (decorated_window, calls)"
    using decorated_window_step(1) by auto
  from decorated_run.step [OF s f e _ this] have r: "decorated_run decorated_window" by simp
  have "decoration_enabled (RequestMode 30) decorated_window" using decorated_window_step(2) by simp
  from decorations_safe [OF r this, of test_env] show ?thesis by simp
qed

end
