(* ===== verification/Devices.thy ===== *)
theory Devices
  imports InputEvents "HOL-Library.Multiset"
begin

text \<open>
  \<open>src/input.c\<close>, the coming and going of input devices: what a keyboard takes from xkbcommon and gives
  back, the list of keyboards, the capabilities announced for the seat, and the listeners that only
  pass an event on. \<open>xkbcommon\<close>, the seat and the cursor are seen through their calls.
\<close>

section \<open>State and calls\<close>

record fwr_keyboard =
  kb_keyboard :: wref
  compose_state :: "wref option"

record devices =
  keyboard_store :: "ptr \<Rightarrow> fwr_keyboard option"
  keyboards :: "ptr list"
  seat_caps :: u32

datatype device_type = WLR_INPUT_DEVICE_KEYBOARD | WLR_INPUT_DEVICE_POINTER | WLR_INPUT_DEVICE_TOUCH | Other_device

text \<open>What is read when a device appears: addresses of new memory and the answers of \<open>xkbcommon\<close>.\<close>

record device_env =
  dev_state :: ptr
  dev_keyboard :: ptr
  xkb_context :: "wref option"
  xkb_keymap :: "wref option"
  xkb_compose_table :: "wref option"
  xkb_compose_state :: "wref option"

datatype device_call =
    AllocDeviceState ptr
  | ContextNew wref
  | ContextUnref wref
  | KeymapNew wref
  | KeymapUnref wref
  | ComposeTableNew wref
  | ComposeStateNew wref wref
  | ComposeStateUnref wref
  | SetKeymap wref wref
  | SetRepeatInfo wref int int
  | SeatSetKeyboard wref
  | AttachInputDevice wref
  | SetCapabilities u32
  | SetSelection wref u32
  | SetPrimarySelection wref u32
  | ComposeTableUnref wref
  | FreeDeviceState ptr

text \<open>
  Either the process exits, or there is a new state. \<open>Unknown\<close>: a keymap or a compose table that
  \<open>xkbcommon\<close> could not make is handed on without a check, and what follows is open.
\<close>

datatype 'a run_result = Exit | Unknown | Continue 'a

section \<open>Handlers\<close>

definition server_new_keyboard :: "device_env \<Rightarrow> wref \<Rightarrow> devices \<Rightarrow> (devices \<times> device_call list) run_result" where
  "server_new_keyboard env keyboard ds =
     (case xkb_context env of
        None \<Rightarrow> Exit
      | Some c \<Rightarrow>
       (case (xkb_keymap env, xkb_compose_table env) of
          (Some keymap, Some table) \<Rightarrow>
          let p = dev_keyboard env
          in Continue (ds\<lparr>keyboard_store := (keyboard_store ds)(p \<mapsto> \<lparr>kb_keyboard = keyboard, compose_state = xkb_compose_state env\<rparr>),
                          keyboards := p # keyboards ds\<rparr>,
               [ContextNew c, KeymapNew keymap, ComposeTableNew table]
               @ (case xkb_compose_state env of Some s \<Rightarrow> [ComposeStateNew table s] | None \<Rightarrow> [])
               @ [SetKeymap keyboard keymap, KeymapUnref keymap, ContextUnref c,
                  SetRepeatInfo keyboard 25 600, SeatSetKeyboard keyboard])
        | _ \<Rightarrow> Unknown))"

definition server_new_pointer :: "wref \<Rightarrow> device_call list" where
  "server_new_pointer device = [AttachInputDevice device]"

definition server_new_touch :: "wref \<Rightarrow> device_call list" where
  "server_new_touch device = [AttachInputDevice device]"

definition WL_SEAT_CAPABILITY_POINTER :: u32 where "WL_SEAT_CAPABILITY_POINTER = 1"
definition WL_SEAT_CAPABILITY_KEYBOARD :: u32 where "WL_SEAT_CAPABILITY_KEYBOARD = 2"
definition WL_SEAT_CAPABILITY_TOUCH :: u32 where "WL_SEAT_CAPABILITY_TOUCH = 4"

definition caps_of :: "devices \<Rightarrow> u32" where
  "caps_of ds =
     (if keyboards ds \<noteq> [] then or WL_SEAT_CAPABILITY_POINTER WL_SEAT_CAPABILITY_KEYBOARD else WL_SEAT_CAPABILITY_POINTER)"

definition on_server_new_input ::
    "device_env \<Rightarrow> device_type \<Rightarrow> wref \<Rightarrow> devices \<Rightarrow> (devices \<times> device_call list) run_result" where
  "on_server_new_input env type device ds =
     (let finish = (\<lambda>(ds1, es). Continue (ds1\<lparr>seat_caps := caps_of ds1\<rparr>,
            AllocDeviceState (dev_state env) # es @ [SetCapabilities (caps_of ds1)]))
      in case type of
           WLR_INPUT_DEVICE_KEYBOARD \<Rightarrow> (case server_new_keyboard env device ds of Exit \<Rightarrow> Exit | Unknown \<Rightarrow> Unknown | Continue r \<Rightarrow> finish r)
         | WLR_INPUT_DEVICE_POINTER \<Rightarrow> finish (ds, server_new_pointer device)
         | WLR_INPUT_DEVICE_TOUCH \<Rightarrow> finish (ds, server_new_touch device)
         | Other_device \<Rightarrow> finish (ds, []))"

text \<open>\<open>None\<close> when the keyboard was freed. \<open>xkb_compose_state_unref(NULL)\<close> does nothing.\<close>

definition keyboard_destroy :: "ptr \<Rightarrow> devices \<Rightarrow> (devices \<times> device_call list) option" where
  "keyboard_destroy p ds =
     Option.bind (keyboard_store ds p) (\<lambda>k.
       Some (ds\<lparr>keyboard_store := (keyboard_store ds)(p := None), keyboards := remove1 p (keyboards ds)\<rparr>,
             (case compose_state k of Some s \<Rightarrow> [ComposeStateUnref s] | None \<Rightarrow> [])))"

definition on_seat_request_set_selection :: "wref \<Rightarrow> u32 \<Rightarrow> device_call list" where
  "on_seat_request_set_selection source serial = [SetSelection source serial]"

definition on_seat_request_set_primary_selection :: "wref \<Rightarrow> u32 \<Rightarrow> device_call list" where
  "on_seat_request_set_primary_selection source serial = [SetPrimarySelection source serial]"

text \<open>\<open>moved\<close> is where \<open>wlr_cursor_move\<close> or \<open>wlr_cursor_warp_absolute\<close> puts the cursor.\<close>

definition on_server_cursor_motion :: "wlr_env \<Rightarrow> u64 \<times> u64 \<Rightarrow> u32 \<Rightarrow> fwr_instance \<Rightarrow> outcome" where
  "on_server_cursor_motion env moved time st = process_cursor_motion env time (st\<lparr>cursor_x := fst moved, cursor_y := snd moved\<rparr>)"

definition on_server_cursor_motion_absolute :: "wlr_env \<Rightarrow> u64 \<times> u64 \<Rightarrow> u32 \<Rightarrow> fwr_instance \<Rightarrow> outcome" where
  "on_server_cursor_motion_absolute env warped time st =
     process_cursor_motion env time (st\<lparr>cursor_x := fst warped, cursor_y := snd warped\<rparr>)"

section \<open>Runs of devices\<close>

datatype device_event = NewInput device_env device_type wref | KeyboardGone ptr

fun device_step :: "device_event \<Rightarrow> devices \<Rightarrow> (devices \<times> device_call list) option" where
  "device_step (NewInput env type device) ds =
     (case on_server_new_input env type device ds of Continue r \<Rightarrow> Some r | _ \<Rightarrow> None)"
| "device_step (KeyboardGone p) ds = keyboard_destroy p ds"

text \<open>\<open>None\<close>: the process has exited, or a handler has used a keyboard that was freed or a \<open>NULL\<close> of
  \<open>xkbcommon\<close>.\<close>

fun device_run :: "device_event list \<Rightarrow> devices \<Rightarrow> (devices \<times> device_call list) option" where
  "device_run [] ds = Some (ds, [])"
| "device_run (e # es) ds =
     Option.bind (device_step e ds) (\<lambda>(ds1, cs). Option.bind (device_run es ds1) (\<lambda>(ds2, cs'). Some (ds2, cs @ cs')))"

text \<open>
  What \<open>calloc\<close>, \<open>xkbcommon\<close> and wlroots promise of an event: new keyboards have new addresses,
  contexts, keymaps and compose tables can be made, and a keyboard is destroyed at most once.
\<close>

fun event_allowed :: "device_event \<Rightarrow> devices \<Rightarrow> bool" where
  "event_allowed (NewInput env type device) ds \<longleftrightarrow> keyboard_store ds (dev_keyboard env) = None
     \<and> xkb_context env \<noteq> None \<and> xkb_keymap env \<noteq> None \<and> xkb_compose_table env \<noteq> None"
| "event_allowed (KeyboardGone p) ds \<longleftrightarrow> p \<in> set (keyboards ds)"

fun events_allowed :: "device_event list \<Rightarrow> devices \<Rightarrow> bool" where
  "events_allowed [] ds = True"
| "events_allowed (e # es) ds \<longleftrightarrow>
     event_allowed e ds \<and> (case device_step e ds of None \<Rightarrow> True | Some (ds1, cs) \<Rightarrow> events_allowed es ds1)"

definition no_devices :: devices where
  "no_devices = \<lparr>keyboard_store = Map.empty, keyboards = [], seat_caps = 0\<rparr>"

definition devices_ok :: "devices \<Rightarrow> bool" where
  "devices_ok ds \<longleftrightarrow> distinct (keyboards ds) \<and> set (keyboards ds) = dom (keyboard_store ds)"

lemma devices_ok_none [simp]: "devices_ok no_devices"
  by (simp add: devices_ok_def no_devices_def)

text \<open>A keyboard that exists comes last into the list, or leaves it; the capabilities do not matter.\<close>

lemma devices_ok_caps [simp]: "devices_ok (ds\<lparr>seat_caps := c\<rparr>) = devices_ok ds"
  by (simp add: devices_ok_def)

lemma devices_ok_new_keyboard:
  assumes "devices_ok ds" "keyboard_store ds p = None"
  shows "devices_ok (ds\<lparr>keyboard_store := (keyboard_store ds)(p \<mapsto> k), keyboards := p # keyboards ds\<rparr>)"
  using assms by (auto simp: devices_ok_def)

lemma devices_ok_destroy:
  assumes "devices_ok ds"
  shows "devices_ok (ds\<lparr>keyboard_store := (keyboard_store ds)(p := None), keyboards := remove1 p (keyboards ds)\<rparr>)"
  using assms by (auto simp: devices_ok_def)

section \<open>What is taken and given back\<close>

datatype xkb_kind = Xkb_context | Xkb_keymap | Xkb_compose_table | Xkb_compose_state

fun xkb_acquired :: "device_call \<Rightarrow> (xkb_kind \<times> wref) list" where
  "xkb_acquired (ContextNew c) = [(Xkb_context, c)]"
| "xkb_acquired (KeymapNew k) = [(Xkb_keymap, k)]"
| "xkb_acquired (ComposeTableNew t) = [(Xkb_compose_table, t)]"
| "xkb_acquired (ComposeStateNew t s) = [(Xkb_compose_state, s)]"
| "xkb_acquired _ = []"

fun xkb_released :: "device_call \<Rightarrow> (xkb_kind \<times> wref) list" where
  "xkb_released (ContextUnref c) = [(Xkb_context, c)]"
| "xkb_released (KeymapUnref k) = [(Xkb_keymap, k)]"
| "xkb_released (ComposeTableUnref t) = [(Xkb_compose_table, t)]"
| "xkb_released (ComposeStateUnref s) = [(Xkb_compose_state, s)]"
| "xkb_released _ = []"

definition acquisitions :: "device_call list \<Rightarrow> (xkb_kind \<times> wref) multiset" where
  "acquisitions cs = mset (concat (map xkb_acquired cs))"

definition xkb_releases :: "device_call list \<Rightarrow> (xkb_kind \<times> wref) multiset" where
  "xkb_releases cs = mset (concat (map xkb_released cs))"

definition tables :: "device_call list \<Rightarrow> (xkb_kind \<times> wref) multiset" where
  "tables cs = filter_mset (\<lambda>r. fst r = Xkb_compose_table) (acquisitions cs)"

fun compose_of :: "fwr_keyboard option \<Rightarrow> (xkb_kind \<times> wref) list" where
  "compose_of None = []"
| "compose_of (Some k) = (case compose_state k of None \<Rightarrow> [] | Some s \<Rightarrow> [(Xkb_compose_state, s)])"

text \<open>What the keyboards that are there still hold.\<close>

definition held_compose :: "devices \<Rightarrow> (xkb_kind \<times> wref) multiset" where
  "held_compose ds = mset (concat (map (\<lambda>p. compose_of (keyboard_store ds p)) (keyboards ds)))"

lemma calls_append [simp]:
  "acquisitions (cs @ cs') = acquisitions cs + acquisitions cs'"
  "xkb_releases (cs @ cs') = xkb_releases cs + xkb_releases cs'"
  "tables (cs @ cs') = tables cs + tables cs'"
  by (simp_all add: acquisitions_def xkb_releases_def tables_def)

lemma held_compose_caps [simp]: "held_compose (ds\<lparr>seat_caps := c\<rparr>) = held_compose ds"
  by (simp add: held_compose_def)

lemma map_store_other:
  "p \<notin> set ps \<Longrightarrow> map (\<lambda>q. compose_of ((f(p := x)) q)) ps = map (\<lambda>q. compose_of (f q)) ps"
  by (induction ps) auto

lemma held_compose_new:
  assumes "p \<notin> set (keyboards ds)"
  shows "held_compose (ds\<lparr>keyboard_store := (keyboard_store ds)(p \<mapsto> k), keyboards := p # keyboards ds\<rparr>) =
    mset (compose_of (Some k)) + held_compose ds"
  using assms by (simp add: held_compose_def map_store_other del: fun_upd_apply) simp

lemma mset_concat_remove1:
  "p \<in> set ps \<Longrightarrow> mset (concat (map f ps)) = mset (f p) + mset (concat (map f (remove1 p ps)))"
  by (induction ps) auto

lemma held_compose_destroy:
  assumes "distinct (keyboards ds)" "p \<in> set (keyboards ds)"
  shows "held_compose ds = mset (compose_of (keyboard_store ds p)) +
    held_compose (ds\<lparr>keyboard_store := (keyboard_store ds)(p := None), keyboards := remove1 p (keyboards ds)\<rparr>)"
proof -
  have "p \<notin> set (remove1 p (keyboards ds))" using assms by simp
  then show ?thesis
    using mset_concat_remove1 [OF assms(2)] by (simp add: held_compose_def map_store_other del: fun_upd_apply)
qed

section \<open>Single events\<close>

text \<open>
  A step of the devices is good when it keeps the invariant and the books: what was held, and what was
  taken, is now held, was given back, or is a compose table.
\<close>

definition good_step :: "devices \<Rightarrow> devices \<times> device_call list \<Rightarrow> bool" where
  "good_step ds r \<longleftrightarrow> devices_ok (fst r)
     \<and> held_compose ds + acquisitions (snd r) = held_compose (fst r) + xkb_releases (snd r) + tables (snd r)"

lemmas call_defs = acquisitions_def xkb_releases_def tables_def

lemma good_new_keyboard:
  assumes "devices_ok ds" "keyboard_store ds (dev_keyboard env) = None" "server_new_keyboard env device ds = Continue r"
  shows "good_step ds r"
proof -
  have "dev_keyboard env \<notin> set (keyboards ds)" using assms by (auto simp: devices_ok_def)
  then show ?thesis
    using assms by (auto simp: server_new_keyboard_def Let_def good_step_def devices_ok_new_keyboard held_compose_new
        call_defs split: option.splits)
qed

lemma good_finish:
  assumes "good_step ds (ds1, es)"
  shows "good_step ds (ds1\<lparr>seat_caps := c\<rparr>, AllocDeviceState q # es @ [SetCapabilities c])"
  using assms by (simp add: good_step_def call_defs)

lemma good_attach: "devices_ok ds \<Longrightarrow> good_step ds (ds, [AttachInputDevice d])"
  by (simp add: good_step_def call_defs)

lemma good_nothing: "devices_ok ds \<Longrightarrow> good_step ds (ds, [])"
  by (simp add: good_step_def call_defs)

lemma good_destroy:
  assumes "devices_ok ds" "p \<in> set (keyboards ds)"
  shows "\<exists>r. keyboard_destroy p ds = Some r \<and> good_step ds r"
proof -
  obtain k where "keyboard_store ds p = Some k" using assms by (auto simp: devices_ok_def)
  moreover have "distinct (keyboards ds)" using assms(1) by (simp add: devices_ok_def)
  ultimately show ?thesis
    using held_compose_destroy [of ds p] assms
    by (auto simp: keyboard_destroy_def good_step_def devices_ok_destroy call_defs split: option.splits)
qed

lemma good_new_input:
  assumes "devices_ok ds" "event_allowed (NewInput env type device) ds"
  shows "\<exists>r. on_server_new_input env type device ds = Continue r \<and> good_step ds r"
proof (cases type)
  case WLR_INPUT_DEVICE_KEYBOARD
  moreover from assms obtain ds1 es where "server_new_keyboard env device ds = Continue (ds1, es)"
    by (auto simp: server_new_keyboard_def Let_def)
  ultimately show ?thesis
    using assms good_new_keyboard [of ds env device] by (auto simp: on_server_new_input_def good_finish)
next
  case WLR_INPUT_DEVICE_POINTER
  then show ?thesis
    using good_finish [OF good_attach [OF assms(1)]] by (simp add: on_server_new_input_def server_new_pointer_def)
next
  case WLR_INPUT_DEVICE_TOUCH
  then show ?thesis
    using good_finish [OF good_attach [OF assms(1)]] by (simp add: on_server_new_input_def server_new_touch_def)
next
  case Other_device
  then show ?thesis
    using good_finish [OF good_nothing [OF assms(1)]] by (simp add: on_server_new_input_def)
qed

lemma good_device_step:
  assumes "devices_ok ds" "event_allowed e ds"
  shows "\<exists>r. device_step e ds = Some r \<and> good_step ds r"
proof (cases e)
  case (NewInput env type device)
  with good_new_input [OF assms(1), of env type device] assms(2) show ?thesis by fastforce
next
  case (KeyboardGone p)
  with good_destroy [OF assms(1), of p] assms(2) show ?thesis by simp
qed

section \<open>Runs\<close>

lemma books_add:
  fixes h a r t :: "'a multiset"
  assumes "h + a = h1 + r + t" "h1 + a' = h2 + r' + t'"
  shows "h + (a + a') = h2 + (r + r') + (t + t')"
proof -
  have "h + (a + a') = (h1 + a') + (r + t)" by (simp only: add.assoc [symmetric] assms(1)) (simp add: ac_simps)
  also have "\<dots> = h2 + (r + r') + (t + t')" by (simp only: assms(2)) (simp add: ac_simps)
  finally show ?thesis .
qed

lemma good_step_trans: "good_step ds (ds1, cs) \<Longrightarrow> good_step ds1 (ds2, cs') \<Longrightarrow> good_step ds (ds2, cs @ cs')"
  by (simp add: good_step_def books_add)

lemma device_run_good:
  "devices_ok ds \<Longrightarrow> events_allowed es ds \<Longrightarrow> \<exists>r. device_run es ds = Some r \<and> good_step ds r"
proof (induction es arbitrary: ds)
  case Nil
  then show ?case by (simp add: good_nothing)
next
  case (Cons e es)
  then obtain ds1 cs where one: "device_step e ds = Some (ds1, cs)" "good_step ds (ds1, cs)"
    using good_device_step [of ds e] by auto
  moreover from this have "devices_ok ds1" "events_allowed es ds1"
    using Cons.prems by (simp_all add: good_step_def)
  then obtain ds2 cs' where two: "device_run es ds1 = Some (ds2, cs')" "good_step ds1 (ds2, cs')"
    using Cons.IH [of ds1] by auto
  ultimately show ?case using good_step_trans [OF one(2) two(2)] by simp
qed

lemma held_compose_none [simp]: "held_compose no_devices = {#}"
  by (simp add: held_compose_def no_devices_def)

text \<open>
  C21: input devices may come and go in any order: no handler uses a keyboard that was freed, the list of
  keyboards holds exactly those that are there, each once, and every context, keymap and compose state taken
  from xkbcommon was given back or belongs to a keyboard that is still there. Only compose tables stay behind.
  xkbcommon is required to make the context, the keymap and the compose table of each keyboard; the code
  exits without the first and does not check the others.
\<close>
theorem keyboard_resources:
  assumes "events_allowed es no_devices"
  shows "\<exists>ds cs. device_run es no_devices = Some (ds, cs) \<and> distinct (keyboards ds)
    \<and> set (keyboards ds) = dom (keyboard_store ds) \<and> acquisitions cs = held_compose ds + xkb_releases cs + tables cs"
  using device_run_good [OF devices_ok_none assms] by (auto simp: good_step_def devices_ok_def)

definition a_device_env :: "nat \<Rightarrow> device_env" where
  "a_device_env n = \<lparr>dev_state = n, dev_keyboard = n + 1, xkb_context = Some 7, xkb_keymap = Some 8,
     xkb_compose_table = Some 9, xkb_compose_state = Some 10\<rparr>"

theorem keyboard_resources_witness:
  "\<exists>ds cs. device_run [NewInput (a_device_env 20) WLR_INPUT_DEVICE_KEYBOARD 1,
      NewInput (a_device_env 30) WLR_INPUT_DEVICE_TOUCH 2, KeyboardGone 21] no_devices = Some (ds, cs)
    \<and> distinct (keyboards ds) \<and> set (keyboards ds) = dom (keyboard_store ds)
    \<and> acquisitions cs = held_compose ds + xkb_releases cs + tables cs"
  by (rule keyboard_resources)
    (simp add: no_devices_def a_device_env_def on_server_new_input_def server_new_keyboard_def server_new_touch_def
      keyboard_destroy_def)

text \<open>
  compose tables are never released: whatever devices come and go, xkbcommon is left with one reference
  for each keyboard that was ever plugged in, and no device state is ever freed.
\<close>
theorem device_leaks:
  assumes "device_run es ds = Some (ds', cs)"
  shows "size (tables cs) = length (filter (\<lambda>e. \<exists>env d. e = NewInput env WLR_INPUT_DEVICE_KEYBOARD d) es)
    \<and> (\<forall>t. (Xkb_compose_table, t) \<notin># xkb_releases cs) \<and> (\<forall>q. FreeDeviceState q \<notin> set cs)"
  using assms
proof (induction es arbitrary: ds cs)
  case Nil
  then show ?case by (simp add: call_defs)
next
  case (Cons e es)
  then obtain ds1 cs1 cs2 where "device_step e ds = Some (ds1, cs1)" "device_run es ds1 = Some (ds', cs2)" "cs = cs1 @ cs2"
    by (auto split: bind_splits)
  moreover from this(1) have "size (tables cs1) = (if \<exists>env d. e = NewInput env WLR_INPUT_DEVICE_KEYBOARD d then 1 else 0)
      \<and> (\<forall>t. (Xkb_compose_table, t) \<notin># xkb_releases cs1) \<and> (\<forall>q. FreeDeviceState q \<notin> set cs1)"
    by (cases e) (auto simp: on_server_new_input_def server_new_keyboard_def server_new_pointer_def server_new_touch_def
        keyboard_destroy_def call_defs Let_def split: device_type.splits option.splits run_result.splits bind_splits)
  ultimately show ?case using Cons.IH [of ds1 cs2] by auto
qed

theorem device_leaks_witness:
  "\<exists>ds cs. device_run [NewInput (a_device_env 20) WLR_INPUT_DEVICE_KEYBOARD 1, KeyboardGone 21] no_devices = Some (ds, cs)
    \<and> size (tables cs) = 1"
proof -
  obtain ds cs where r: "device_run [NewInput (a_device_env 20) WLR_INPUT_DEVICE_KEYBOARD 1, KeyboardGone 21] no_devices = Some (ds, cs)"
    by (simp add: no_devices_def a_device_env_def on_server_new_input_def server_new_keyboard_def keyboard_destroy_def)
  from device_leaks [OF this] show ?thesis using r by simp
qed

text \<open>
  when a device is announced the seat is told of a pointer, and of a keyboard when there is one, never of
  touch; when a keyboard goes, nobody is told.
\<close>
theorem seat_capabilities:
  "(on_server_new_input env type device ds = Continue (ds', cs) \<longrightarrow>
      seat_caps ds' = (if keyboards ds' = [] then 1 else 3) \<and> last cs = SetCapabilities (seat_caps ds')
      \<and> and (seat_caps ds') WL_SEAT_CAPABILITY_TOUCH = 0)
   \<and> (keyboard_destroy p ds = Some (ds'', cs') \<longrightarrow> seat_caps ds'' = seat_caps ds \<and> (\<forall>c. SetCapabilities c \<notin> set cs'))"
  by (auto simp: on_server_new_input_def caps_of_def WL_SEAT_CAPABILITY_POINTER_def WL_SEAT_CAPABILITY_KEYBOARD_def
      WL_SEAT_CAPABILITY_TOUCH_def keyboard_destroy_def Let_def
      split: device_type.splits run_result.splits option.splits if_splits bind_splits prod.splits)

theorem seat_capabilities_witness:
  "\<exists>ds cs. on_server_new_input (a_device_env 30) WLR_INPUT_DEVICE_TOUCH 2 no_devices = Continue (ds, cs) \<and> seat_caps ds = 1"
proof -
  obtain ds cs where r: "on_server_new_input (a_device_env 30) WLR_INPUT_DEVICE_TOUCH 2 no_devices = Continue (ds, cs)" "keyboards ds = []"
    by (simp add: no_devices_def a_device_env_def on_server_new_input_def server_new_touch_def)
  with seat_capabilities [of "a_device_env 30" WLR_INPUT_DEVICE_TOUCH 2 no_devices ds cs] show ?thesis by auto
qed

end
