(* ===== verification/RendererInit.thy ===== *)
theory RendererInit
  imports Pages "HOL-Library.Sublist" "HOL-Library.Multiset"
begin

text \<open>
  \<open>src/renderer.c\<close>, \<open>fwr_renderer_init\<close>, and \<open>src/shaders.c\<close>: the OpenGL functions, what EGL supports,
  the two contexts of Flutter with their fallbacks, the shader programs and the vertex buffers. EGL and
  OpenGL are seen through the calls and what they return; 0 stands for NULL, \<open>EGL_NO_CONTEXT\<close> and
  \<open>EGL_NO_CONFIG_KHR\<close>, and for no object.
\<close>

section \<open>Shader programs\<close>

datatype shader_source =
  quad_vertex_src | tex_fragment_src_rgbx | tex_fragment_src_external | rounded_vertex_src | rounded_fragment_src

datatype shader_call =
    CreateShader shader_source u32
  | DeleteShader u32
  | CreateProgram u32
  | AttachShader u32 u32
  | LinkProgram u32
  | DetachShader u32 u32
  | DeleteProgram u32

text \<open>
  What the driver answers while one program is made: the names, and what the two status queries leave
  in \<open>ok\<close>, which has no value of its own when the name is 0.
\<close>

record link_env =
  new_vert :: u32
  vert_ok :: bool
  new_frag :: u32
  frag_ok :: bool
  new_prog :: u32
  link_ok :: bool

definition compile_shader :: "u32 \<Rightarrow> bool \<Rightarrow> shader_source \<Rightarrow> u32 \<times> shader_call list" where
  "compile_shader shader ok src =
     (if \<not> ok then (0, [CreateShader src shader, DeleteShader shader]) else (shader, [CreateShader src shader]))"

definition link_program :: "link_env \<Rightarrow> shader_source \<Rightarrow> shader_source \<Rightarrow> u32 \<times> shader_call list" where
  "link_program env vert_src frag_src =
     (case compile_shader (new_vert env) (vert_ok env) vert_src of
        (vert, cs1) \<Rightarrow>
          if vert = 0 then (0, cs1)
          else
            (case compile_shader (new_frag env) (frag_ok env) frag_src of
               (frag, cs2) \<Rightarrow>
                 if frag = 0 then (0, cs1 @ cs2 @ [DeleteShader vert])
                 else
                   let prog = new_prog env;
                       cs = cs1 @ cs2 @ [CreateProgram prog, AttachShader prog vert, AttachShader prog frag, LinkProgram prog,
                              DetachShader prog vert, DetachShader prog frag, DeleteShader vert, DeleteShader frag]
                   in if \<not> link_ok env then (0, cs @ [DeleteProgram prog]) else (prog, cs)))"

text \<open>The locations are what the driver says of a program and a name, -1 when there is none.\<close>

record locations =
  uniform :: "u32 \<Rightarrow> string \<Rightarrow> int"
  attrib :: "u32 \<Rightarrow> string \<Rightarrow> int"

record quad_rgbx_shader =
  rgbx_prog :: u32
  rgbx_proj :: int
  rgbx_tex :: int
  rgbx_alpha :: int
  rgbx_pos_attrib :: int
  rgbx_tex_attrib :: int

record quad_rounded_shader =
  rounded_prog :: u32
  rounded_tex :: int
  rounded_alpha :: int
  rounded_pos_attrib :: int
  rounded_tex_attrib :: int
  clip_rect :: int
  corner_radii_at :: int
  output_height :: int

record quad_external_shader =
  external_prog :: u32
  external_tex :: int
  external_pos_attrib :: int
  external_tex_attrib :: int

definition make_quad_rgbx_shader :: "link_env \<Rightarrow> locations \<Rightarrow> quad_rgbx_shader \<times> shader_call list" where
  "make_quad_rgbx_shader env loc =
     (case link_program env quad_vertex_src tex_fragment_src_rgbx of
        (prog, cs) \<Rightarrow> (\<lparr>rgbx_prog = prog, rgbx_proj = uniform loc prog ''proj'', rgbx_tex = uniform loc prog ''tex'',
           rgbx_alpha = uniform loc prog ''alpha'', rgbx_pos_attrib = attrib loc prog ''pos'',
           rgbx_tex_attrib = attrib loc prog ''texcoord''\<rparr>, cs))"

definition make_quad_rounded_shader :: "link_env \<Rightarrow> locations \<Rightarrow> quad_rounded_shader \<times> shader_call list" where
  "make_quad_rounded_shader env loc =
     (case link_program env rounded_vertex_src rounded_fragment_src of
        (prog, cs) \<Rightarrow> (\<lparr>rounded_prog = prog, rounded_tex = uniform loc prog ''tex'', rounded_alpha = uniform loc prog ''alpha'',
           rounded_pos_attrib = attrib loc prog ''pos'', rounded_tex_attrib = attrib loc prog ''texcoord'',
           clip_rect = uniform loc prog ''clip_rect'', corner_radii_at = uniform loc prog ''corner_radii'',
           output_height = uniform loc prog ''output_height''\<rparr>, cs))"

definition make_quad_external_shader :: "link_env \<Rightarrow> locations \<Rightarrow> quad_external_shader \<times> shader_call list" where
  "make_quad_external_shader env loc =
     (case link_program env quad_vertex_src tex_fragment_src_external of
        (prog, cs) \<Rightarrow> (\<lparr>external_prog = prog, external_tex = uniform loc prog ''tex'',
           external_pos_attrib = attrib loc prog ''pos'', external_tex_attrib = attrib loc prog ''texcoord''\<rparr>, cs))"

section \<open>OpenGL functions\<close>

text \<open>The functions that are looked up, in the order of the code, each into the field of its name.\<close>

definition gl_names :: "string list" where
  "gl_names =
     [''glGenFramebuffers'', ''glBindFramebuffer'', ''glGenTextures'', ''glBindTexture'', ''glTexImage2D'', ''glTexParameteri'',
      ''glFramebufferTexture'', ''glDrawBuffers'', ''glCreateShader'', ''glShaderSource'', ''glCompileShader'', ''glGetShaderiv'',
      ''glDeleteShader'', ''glCreateProgram'', ''glAttachShader'', ''glLinkProgram'', ''glDetachShader'', ''glGetProgramiv'',
      ''glDeleteProgram'', ''glGetUniformLocation'', ''glGetAttribLocation'', ''glActiveTexture'', ''glUseProgram'',
      ''glUniformMatrix3fv'', ''glUniform1i'', ''glUniform1f'', ''glUniform2f'', ''glUniform4f'', ''glVertexAttribPointer'',
      ''glEnableVertexAttribArray'', ''glDrawArrays'', ''glDisableVertexAttribArray'', ''glEnable'', ''glDisable'',
      ''glGetTextureImage'', ''glCheckFramebufferStatus'', ''glGetError'', ''glFramebufferTexture2D'', ''glGenBuffers'',
      ''glBindBuffer'', ''glBufferData'', ''glClearColor'', ''glClear'', ''glDeleteFramebuffers'', ''glDeleteTextures'',
      ''glBindSampler'', ''glBlendFuncSeparate'', ''glGetIntegerv'', ''glGetBooleanv'', ''glReadPixels'', ''glViewport'',
      ''glIsEnabled'']"

definition resolve_gl_fns :: "(string \<Rightarrow> nat) \<Rightarrow> string \<Rightarrow> nat" where
  "resolve_gl_fns resolver name = (if name \<in> set gl_names then resolver name else 0)"

section \<open>EGL\<close>

datatype context_token = CONTEXT_CLIENT_VERSION | CONTEXT_PRIORITY_LEVEL | CONTEXT_RESET_STRATEGY | CONTEXT_END | TokenValue int

datatype config_query = ConfigById int | ConfigByColours bool

text \<open>
  What EGL says: its extensions, functions, what \<open>eglQueryContext\<close> tells of the context of wlroots
  (\<open>None\<close> when the query fails), the config that matches a query, and what the \<open>n\<close>-th of the
  four places that create a context gets.
\<close>

record egl_env =
  egl_exts :: "string option"
  get_proc :: "string \<Rightarrow> nat"
  client_version :: "int option"
  context_priority :: "int option"
  reset_strategy :: "int option"
  config_id :: "int option"
  choose_config :: "config_query \<Rightarrow> nat option"
  create_context :: "nat \<Rightarrow> nat"
  main_context :: nat

datatype renderer_call =
    CreateContext nat nat "context_token list" nat
  | MakeContextCurrent nat
  | ShaderCall shader_call
  | GenBuffer u32
  | BindBuffer u32
  | BufferData

text \<open>\<open>strstr(exts, name) != NULL\<close>: the name appears anywhere in the string.\<close>

definition has_extension :: "string \<Rightarrow> string \<Rightarrow> bool" where
  "has_extension exts name = sublist name exts"

text \<open>Writing to \<open>flutter_context_attribs\<close>, which has room for 9.\<close>

definition put_tokens :: "context_token list \<Rightarrow> context_token list \<Rightarrow> context_token list option" where
  "put_tokens ts a = (if length a + length ts \<le> 9 then Some (a @ ts) else None)"

definition version_of :: "egl_env \<Rightarrow> int" where
  "version_of env = (case client_version env of Some v \<Rightarrow> v | None \<Rightarrow> 2)"

definition flutter_context_attribs :: "egl_env \<Rightarrow> string \<Rightarrow> context_token list option" where
  "flutter_context_attribs env exts =
     Option.bind (put_tokens [CONTEXT_CLIENT_VERSION, TokenValue (version_of env)] []) (\<lambda>a1.
     Option.bind (case context_priority env of
         Some p \<Rightarrow> if has_extension exts ''EGL_IMG_context_priority'' then put_tokens [CONTEXT_PRIORITY_LEVEL, TokenValue p] a1 else Some a1
       | None \<Rightarrow> Some a1) (\<lambda>a2.
     Option.bind (case reset_strategy env of
         Some r \<Rightarrow> if has_extension exts ''EGL_EXT_create_context_robustness''
                   then put_tokens [CONTEXT_RESET_STRATEGY, TokenValue r] a2 else Some a2
       | None \<Rightarrow> Some a2) (\<lambda>a3.
     put_tokens [CONTEXT_END] a3)))"

text \<open>One place that creates the context of Flutter: the context, its config and the call.\<close>

definition try_context :: "egl_env \<Rightarrow> context_token list \<Rightarrow> nat \<Rightarrow> nat option \<Rightarrow> nat \<times> nat \<times> renderer_call list" where
  "try_context env attribs n config =
     (case config of
        None \<Rightarrow> (0, 0, [])
      | Some cfg \<Rightarrow>
          let c = create_context env n
          in (c, if c \<noteq> 0 then cfg else 0, [CreateContext cfg (main_context env) attribs c]))"

definition create_flutter_context :: "egl_env \<Rightarrow> context_token list \<Rightarrow> nat \<times> nat \<times> renderer_call list" where
  "create_flutter_context env attribs =
     (case try_context env attribs 0 (Some 0) of
        (c0, cfg0, cs0) \<Rightarrow>
          if c0 \<noteq> 0 then (c0, cfg0, cs0)
          else
            (case try_context env attribs 1 (Option.bind (config_id env) (\<lambda>i. choose_config env (ConfigById i))) of
               (c1, cfg1, cs1) \<Rightarrow>
                 if c1 \<noteq> 0 then (c1, cfg1, cs0 @ cs1)
                 else
                   (case try_context env attribs 2 (choose_config env (ConfigByColours (version_of env \<ge> 3))) of
                      (c2, cfg2, cs2) \<Rightarrow> (c2, cfg2, cs0 @ cs1 @ cs2))))"

definition create_resource_context :: "egl_env \<Rightarrow> context_token list \<Rightarrow> nat \<Rightarrow> nat \<Rightarrow> nat \<times> renderer_call list" where
  "create_resource_context env attribs c cfg =
     (if c \<noteq> 0 then (create_context env 3, [CreateContext cfg c attribs (create_context env 3)]) else (0, []))"

text \<open>The functions for importing client buffers, and whether it is possible.\<close>

definition image_procs :: "egl_env \<Rightarrow> string \<Rightarrow> bool \<times> (nat \<times> nat \<times> nat)" where
  "image_procs env exts =
     (if has_extension exts ''EGL_KHR_image_base'' \<and> has_extension exts ''EGL_EXT_image_dma_buf_import''
      then let create = get_proc env ''eglCreateImageKHR''; destroy = get_proc env ''eglDestroyImageKHR'';
               target = get_proc env ''glEGLImageTargetTexture2DOES''
           in (\<not> (create = 0 \<or> destroy = 0 \<or> target = 0), (create, destroy, target))
      else (False, (0, 0, 0)))"

section \<open>The renderer\<close>

record renderer_setup =
  gl_fns :: "string \<Rightarrow> nat"
  dmabuf_import :: bool
  image_fns :: "nat \<times> nat \<times> nat"
  flutter_egl_context :: nat
  flutter_resource_egl_context :: nat
  rgbx_shader :: quad_rgbx_shader
  rounded_shader :: quad_rounded_shader
  external_shader :: quad_external_shader
  tex_coord_buffer :: u32
  quad_vert_buffer :: u32
  page_state :: fwr_renderer

text \<open>What OpenGL answers for the three programs and the two buffers.\<close>

record gl_env =
  rgbx_link :: link_env
  rounded_link :: link_env
  external_link :: link_env
  gl_locations :: locations
  new_buffers :: "u32 \<times> u32"

text \<open>\<open>None\<close>: the extension string was NULL, or a NULL function was called.\<close>

definition fwr_renderer_init ::
    "(string \<Rightarrow> nat) \<Rightarrow> egl_env \<Rightarrow> gl_env \<Rightarrow> (renderer_setup \<times> renderer_call list) option" where
  "fwr_renderer_init resolver env gl =
     Option.bind (egl_exts env) (\<lambda>exts.
     Option.bind (flutter_context_attribs env exts) (\<lambda>attribs.
       let fns = resolve_gl_fns resolver;
           (import, procs) = image_procs env exts;
           (c, cfg, cs1) = create_flutter_context env attribs;
           (rc, cs2) = create_resource_context env attribs c cfg;
           (rgbx, s1) = make_quad_rgbx_shader (rgbx_link gl) (gl_locations gl);
           (rounded, s2) = make_quad_rounded_shader (rounded_link gl) (gl_locations gl);
           (external, s3) = make_quad_external_shader (external_link gl) (gl_locations gl);
           (b1, b2) = new_buffers gl
       in if fns ''glGenBuffers'' = 0 \<or> fns ''glBindBuffer'' = 0 \<or> fns ''glBufferData'' = 0 then None
          else Some
            (\<lparr>gl_fns = fns, dmabuf_import = import, image_fns = procs, flutter_egl_context = c, flutter_resource_egl_context = rc,
              rgbx_shader = rgbx, rounded_shader = rounded, external_shader = external,
              tex_coord_buffer = b1, quad_vert_buffer = b2, page_state = fresh_renderer\<rparr>,
             cs1 @ cs2 @ [MakeContextCurrent c] @ map ShaderCall (s1 @ s2 @ s3)
             @ [GenBuffer b1, BindBuffer b1, BufferData, GenBuffer b2, BindBuffer b2, BufferData] @ [MakeContextCurrent 0])))"

text \<open>The callbacks with which the engine switches contexts; \<open>eglMakeCurrent\<close> may fail unseen.\<close>

definition engine_cb_renderer_make_current :: "renderer_setup \<Rightarrow> bool \<times> renderer_call list" where
  "engine_cb_renderer_make_current s = (True, [MakeContextCurrent (flutter_egl_context s)])"

definition engine_cb_renderer_clear_current :: "renderer_setup \<Rightarrow> bool \<times> renderer_call list" where
  "engine_cb_renderer_clear_current s = (True, [MakeContextCurrent 0])"

definition engine_cb_renderer_make_resource_current :: "renderer_setup \<Rightarrow> bool \<times> renderer_call list" where
  "engine_cb_renderer_make_resource_current s = (True, [MakeContextCurrent (flutter_resource_egl_context s)])"

definition engine_cb_renderer_gl_proc_resolve :: "egl_env \<Rightarrow> string \<Rightarrow> nat" where
  "engine_cb_renderer_gl_proc_resolve env name = get_proc env name"

section \<open>Programs\<close>

fun shaders_made :: "shader_call \<Rightarrow> u32 list" where
  "shaders_made (CreateShader src n) = (if n = 0 then [] else [n])"
| "shaders_made _ = []"

fun shaders_deleted :: "shader_call \<Rightarrow> u32 list" where
  "shaders_deleted (DeleteShader n) = (if n = 0 then [] else [n])"
| "shaders_deleted _ = []"

fun programs_made :: "shader_call \<Rightarrow> u32 list" where
  "programs_made (CreateProgram n) = (if n = 0 then [] else [n])"
| "programs_made _ = []"

fun programs_deleted :: "shader_call \<Rightarrow> u32 list" where
  "programs_deleted (DeleteProgram n) = (if n = 0 then [] else [n])"
| "programs_deleted _ = []"

definition over :: "('c \<Rightarrow> 'a list) \<Rightarrow> 'c list \<Rightarrow> 'a multiset" where
  "over f cs = mset (concat (map f cs))"

lemma over_append [simp]: "over f (cs @ cs') = over f cs + over f cs'"
  by (simp add: over_def)

text \<open>
  Making a program leaves no shader behind, whatever fails, and exactly the program it returns;
  it returns one exactly when both shaders and the program could be created, compiled and linked.
\<close>
theorem link_program_clean:
  "case link_program env vert_src frag_src of (prog, cs) \<Rightarrow>
     over shaders_made cs = over shaders_deleted cs
     \<and> over programs_made cs = over programs_deleted cs + (if prog = 0 then {#} else {#prog#})
     \<and> (prog \<noteq> 0 \<longleftrightarrow> vert_ok env \<and> new_vert env \<noteq> 0 \<and> frag_ok env \<and> new_frag env \<noteq> 0 \<and> link_ok env \<and> new_prog env \<noteq> 0)"
  by (auto simp: link_program_def compile_shader_def over_def Let_def)

section \<open>Contexts\<close>

lemma context_attribs_written:
  "\<exists>a. flutter_context_attribs env exts = Some a \<and> length a \<le> 7 \<and> last a = CONTEXT_END \<and> CONTEXT_END \<notin> set (butlast a)"
  by (auto simp: flutter_context_attribs_def put_tokens_def butlast_append split: option.splits)

text \<open>
  The attributes of the contexts never leave their array of 9: at most 7 entries are written, the
  last of them the terminator, whatever extensions there are and whatever EGL answers.
\<close>
theorem context_attribs_bounded:
  "\<exists>a. flutter_context_attribs env exts = Some a \<and> length a \<le> 7 \<and> last a = CONTEXT_END \<and> CONTEXT_END \<notin> set (butlast a)"
  by (rule context_attribs_written)

text \<open>The places that create the context of Flutter, in their order, with the config each would use.\<close>

definition context_places :: "egl_env \<Rightarrow> (nat \<times> nat) list" where
  "context_places env =
     (0, 0) # (case Option.bind (config_id env) (\<lambda>i. choose_config env (ConfigById i)) of None \<Rightarrow> [] | Some cfg \<Rightarrow> [(1, cfg)])
     @ (case choose_config env (ConfigByColours (version_of env \<ge> 3)) of None \<Rightarrow> [] | Some cfg \<Rightarrow> [(2, cfg)])"

definition working_place :: "egl_env \<Rightarrow> (nat \<times> nat) option" where
  "working_place env = List.find (\<lambda>(n, cfg). create_context env n \<noteq> 0) (context_places env)"

fun contexts_made :: "renderer_call \<Rightarrow> nat list" where
  "contexts_made (CreateContext cfg share a c) = (if c = 0 then [] else [c])"
| "contexts_made _ = []"

text \<open>The places that are tried: those that fail and then the first that works.\<close>

fun tried_places :: "egl_env \<Rightarrow> (nat \<times> nat) list \<Rightarrow> (nat \<times> nat) list" where
  "tried_places env [] = []"
| "tried_places env ((n, cfg) # ps) = (n, cfg) # (if create_context env n \<noteq> 0 then [] else tried_places env ps)"

fun creates_context :: "renderer_call \<Rightarrow> bool" where
  "creates_context (CreateContext cfg share a c) = True"
| "creates_context _ = False"

text \<open>
  The calls of \<open>eglCreateContext\<close> as they should be: for every place that is tried one that shares
  with wlroots, and when a place worked one for the resource context, with the config of that place and
  sharing with its context.
\<close>

definition context_calls :: "egl_env \<Rightarrow> context_token list \<Rightarrow> renderer_call list" where
  "context_calls env attribs =
     map (\<lambda>(n, cfg). CreateContext cfg (main_context env) attribs (create_context env n)) (tried_places env (context_places env))
     @ (case working_place env of
          None \<Rightarrow> []
        | Some (n, cfg) \<Rightarrow> [CreateContext cfg (create_context env n) attribs (create_context env 3)])"

lemmas context_defs = try_context_def create_flutter_context_def create_resource_context_def
  context_places_def working_place_def

lemma create_flutter_context_first:
  "create_flutter_context env attribs = (c, cfg, cs) \<Longrightarrow>
    (c, cfg) = (case working_place env of None \<Rightarrow> (0, 0) | Some (n, cf) \<Rightarrow> (create_context env n, cf))
    \<and> over contexts_made cs = (if c = 0 then {#} else {#c#})
    \<and> cs = map (\<lambda>(n, cfg). CreateContext cfg (main_context env) attribs (create_context env n)) (tried_places env (context_places env))"
  by (auto simp: context_defs over_def Let_def split: option.splits if_splits bind_splits)

lemma working_place_works: "working_place env = Some (n, cfg) \<Longrightarrow> create_context env n \<noteq> 0"
  by (auto simp: working_place_def find_Some_iff)

lemma create_resource_context_share:
  "create_resource_context env attribs c cfg = (rc, cs) \<Longrightarrow>
    over contexts_made cs = (if rc = 0 then {#} else {#rc#}) \<and> (c = 0 \<longrightarrow> rc = 0 \<and> cs = [])
    \<and> (c \<noteq> 0 \<longrightarrow> rc = create_context env 3 \<and> cs = [CreateContext cfg c attribs rc])"
  by (auto simp: context_defs over_def split: if_splits)

lemma over_none: "\<forall>x \<in> set cs. f x = [] \<Longrightarrow> over f cs = {#}"
  by (induction cs) (auto simp: over_def)

lemma renderer_init_parts:
  assumes "fwr_renderer_init resolver env gl = Some (s, calls)"
  obtains exts attribs cfg cs1 cs2 gls where
    "egl_exts env = Some exts" "flutter_context_attribs env exts = Some attribs"
    "create_flutter_context env attribs = (flutter_egl_context s, cfg, cs1)"
    "create_resource_context env attribs (flutter_egl_context s) cfg = (flutter_resource_egl_context s, cs2)"
    "(dmabuf_import s, image_fns s) = image_procs env exts" "page_state s = fresh_renderer"
    "calls = cs1 @ cs2 @ [MakeContextCurrent (flutter_egl_context s)] @ gls @ [MakeContextCurrent 0]"
    "\<forall>x \<in> set gls. (\<exists>sc. x = ShaderCall sc) \<or> (\<exists>b. x = GenBuffer b \<or> x = BindBuffer b) \<or> x = BufferData"
proof -
  from assms obtain exts attribs where e: "egl_exts env = Some exts" "flutter_context_attribs env exts = Some attribs"
    by (auto simp: fwr_renderer_init_def split: bind_splits)
  obtain imp procs where i: "image_procs env exts = (imp, procs)" by (cases "image_procs env exts")
  obtain c cfg cs1 where c: "create_flutter_context env attribs = (c, cfg, cs1)" by (metis prod_cases3)
  obtain rc cs2 where r: "create_resource_context env attribs c cfg = (rc, cs2)"
    by (cases "create_resource_context env attribs c cfg")
  obtain a s1 where a: "make_quad_rgbx_shader (rgbx_link gl) (gl_locations gl) = (a, s1)"
    by (cases "make_quad_rgbx_shader (rgbx_link gl) (gl_locations gl)")
  obtain b s2 where b: "make_quad_rounded_shader (rounded_link gl) (gl_locations gl) = (b, s2)"
    by (cases "make_quad_rounded_shader (rounded_link gl) (gl_locations gl)")
  obtain d s3 where d: "make_quad_external_shader (external_link gl) (gl_locations gl) = (d, s3)"
    by (cases "make_quad_external_shader (external_link gl) (gl_locations gl)")
  obtain b1 b2 where n: "new_buffers gl = (b1, b2)" by (cases "new_buffers gl")
  have s: "flutter_egl_context s = c" "flutter_resource_egl_context s = rc" "dmabuf_import s = imp" "image_fns s = procs"
      "page_state s = fresh_renderer"
      "calls = cs1 @ cs2 @ [MakeContextCurrent c] @ (map ShaderCall (s1 @ s2 @ s3)
         @ [GenBuffer b1, BindBuffer b1, BufferData, GenBuffer b2, BindBuffer b2, BufferData]) @ [MakeContextCurrent 0]"
    using assms by (auto simp: fwr_renderer_init_def Let_def e i c r a b d n split: if_splits)
  show ?thesis
    by (rule that [OF e, where cfg = cfg and ?cs1.0 = cs1 and ?cs2.0 = cs2]) (use c r i s in auto)
qed

text \<open>
  C40: the contexts that initialisation creates, call for call: it tries the places without a config,
  with the config of wlroots and with a config of 8-bit colours in this order and stops at the first
  that gives a context, which is the one Flutter draws with; then it makes the resource context with
  the config of that place, sharing with that context, and with the same attributes. No other context is
  made, so none leaks, and without the first there is no second.
\<close>
theorem flutter_contexts:
  assumes "fwr_renderer_init resolver env gl = Some (s, calls)"
  shows "\<exists>exts attribs. egl_exts env = Some exts \<and> flutter_context_attribs env exts = Some attribs
    \<and> filter creates_context calls = context_calls env attribs
    \<and> (flutter_egl_context s, flutter_resource_egl_context s) =
        (case working_place env of None \<Rightarrow> (0, 0) | Some (n, cfg) \<Rightarrow> (create_context env n, create_context env 3))
    \<and> over contexts_made calls = mset (filter (\<lambda>c. c \<noteq> 0) [flutter_egl_context s, flutter_resource_egl_context s])"
  using assms
proof (rule renderer_init_parts)
  fix exts attribs cfg cs1 cs2 gls
  assume e: "egl_exts env = Some exts" and at: "flutter_context_attribs env exts = Some attribs"
    and c: "create_flutter_context env attribs = (flutter_egl_context s, cfg, cs1)"
    and r: "create_resource_context env attribs (flutter_egl_context s) cfg = (flutter_resource_egl_context s, cs2)"
    and calls: "calls = cs1 @ cs2 @ [MakeContextCurrent (flutter_egl_context s)] @ gls @ [MakeContextCurrent 0]"
    and gls: "\<forall>x \<in> set gls. (\<exists>sc. x = ShaderCall sc) \<or> (\<exists>b. x = GenBuffer b \<or> x = BindBuffer b) \<or> x = BufferData"
  have "over contexts_made gls = {#}" using gls by (intro over_none) auto
  moreover have "filter creates_context gls = []" using gls unfolding filter_empty_conv by fastforce
  ultimately have none: "over contexts_made gls = {#}" "filter creates_context gls = []" by simp_all
  have current: "over contexts_made (MakeContextCurrent x # cs) = over contexts_made cs" "over contexts_made [] = {#}" for x cs
    by (simp_all add: over_def)
  note first = create_flutter_context_first [OF c] and share = create_resource_context_share [OF r]
  have all: "filter creates_context cs1 = cs1"
    using first by (auto simp: filter_id_conv)
  have all2: "filter creates_context cs2 = cs2"
    using share by (cases "flutter_egl_context s = 0") auto
  have f: "filter creates_context calls = cs1 @ cs2" by (simp add: calls all all2 none)
  have "over contexts_made calls = mset (filter (\<lambda>c. c \<noteq> 0) [flutter_egl_context s, flutter_resource_egl_context s])"
    using conjunct1 [OF conjunct2 [OF first]] conjunct1 [OF share] by (simp add: calls none current)
  moreover have "filter creates_context calls = context_calls env attribs
      \<and> (flutter_egl_context s, flutter_resource_egl_context s) =
        (case working_place env of None \<Rightarrow> (0, 0) | Some (n, cfg) \<Rightarrow> (create_context env n, create_context env 3))"
  proof (cases "working_place env")
    case None
    with first share show ?thesis unfolding f by (simp add: context_calls_def)
  next
    case (Some p)
    obtain n cf where p: "p = (n, cf)" by (cases p)
    with Some first have "flutter_egl_context s = create_context env n" "cfg = cf" by auto
    with working_place_works Some p first share show ?thesis unfolding f by (simp add: context_calls_def)
  qed
  ultimately show ?thesis using e at by blast
qed

text \<open>
  After initialisation the pages are in their invariant with nothing handed out, client buffers are
  imported only with all three functions present, everything OpenGL is called between making the
  context of Flutter current and letting it go, and no context stays current.
\<close>
theorem renderer_ready:
  assumes "fwr_renderer_init resolver env gl = Some (s, calls)"
  shows "pages_ok (page_state s) {}
    \<and> (dmabuf_import s \<longrightarrow> (case image_fns s of (create, destroy, target) \<Rightarrow> create \<noteq> 0 \<and> destroy \<noteq> 0 \<and> target \<noteq> 0))
    \<and> (\<exists>cs gls. calls = cs @ [MakeContextCurrent (flutter_egl_context s)] @ gls @ [MakeContextCurrent 0]
        \<and> (\<forall>x \<in> set cs. \<exists>cfg share a c. x = CreateContext cfg share a c)
        \<and> (\<forall>x \<in> set gls. \<forall>c. x \<noteq> MakeContextCurrent c \<and> (\<forall>cfg share a. x \<noteq> CreateContext cfg share a c)))"
  using assms
proof (rule renderer_init_parts)
  fix exts attribs cfg cs1 cs2 gls
  assume c: "create_flutter_context env attribs = (flutter_egl_context s, cfg, cs1)"
    and r: "create_resource_context env attribs (flutter_egl_context s) cfg = (flutter_resource_egl_context s, cs2)"
    and i: "(dmabuf_import s, image_fns s) = image_procs env exts" and p: "page_state s = fresh_renderer"
    and calls: "calls = cs1 @ cs2 @ [MakeContextCurrent (flutter_egl_context s)] @ gls @ [MakeContextCurrent 0]"
    and gls: "\<forall>x \<in> set gls. (\<exists>sc. x = ShaderCall sc) \<or> (\<exists>b. x = GenBuffer b \<or> x = BindBuffer b) \<or> x = BufferData"
  have "\<forall>x \<in> set (cs1 @ cs2). \<exists>cfg share a c. x = CreateContext cfg share a c"
    using create_flutter_context_first [OF c] create_resource_context_share [OF r]
    by (cases "flutter_egl_context s = 0") auto
  moreover have "\<forall>x \<in> set gls. \<forall>c. x \<noteq> MakeContextCurrent c \<and> (\<forall>cfg share a. x \<noteq> CreateContext cfg share a c)"
    using gls by auto
  moreover have "dmabuf_import s \<longrightarrow> (case image_fns s of (create, destroy, target) \<Rightarrow> create \<noteq> 0 \<and> destroy \<noteq> 0 \<and> target \<noteq> 0)"
    using i by (auto simp: image_procs_def Let_def split: if_splits)
  ultimately show ?thesis
    unfolding calls p by (intro conjI exI [of _ "cs1 @ cs2"] exI [of _ gls]) (simp_all add: fresh_renderer_ok)
qed

text \<open>
  Without a context the program goes on: when EGL creates none, initialisation still succeeds with no
  context, and the callbacks tell the engine of success while making no context current.
\<close>
theorem context_failure_ignored:
  assumes "\<forall>n. create_context env n = 0" and "egl_exts env \<noteq> None"
    and "resolver ''glGenBuffers'' \<noteq> 0" "resolver ''glBindBuffer'' \<noteq> 0" "resolver ''glBufferData'' \<noteq> 0"
  shows "\<exists>s calls. fwr_renderer_init resolver env gl = Some (s, calls) \<and> flutter_egl_context s = 0 \<and> flutter_resource_egl_context s = 0
    \<and> engine_cb_renderer_make_current s = (True, [MakeContextCurrent 0])
    \<and> engine_cb_renderer_make_resource_current s = (True, [MakeContextCurrent 0])"
proof -
  obtain exts where e: "egl_exts env = Some exts" using assms(2) by auto
  obtain attribs where t: "flutter_context_attribs env exts = Some attribs"
    using context_attribs_written [of env exts] by blast
  have c: "fst (create_flutter_context env attribs) = 0"
    using assms(1) by (auto simp: context_defs Let_def split: option.splits)
  have f: "resolve_gl_fns resolver ''glGenBuffers'' \<noteq> 0" "resolve_gl_fns resolver ''glBindBuffer'' \<noteq> 0"
      "resolve_gl_fns resolver ''glBufferData'' \<noteq> 0"
    using assms(3-5) by (simp_all add: resolve_gl_fns_def gl_names_def)
  show ?thesis
    using c f by (auto simp: fwr_renderer_init_def e t Let_def split_beta create_resource_context_def
        engine_cb_renderer_make_current_def engine_cb_renderer_make_resource_current_def)
qed

section \<open>Examples\<close>

definition a_link :: "u32 \<Rightarrow> link_env" where
  "a_link n = \<lparr>new_vert = n, vert_ok = True, new_frag = n + 1, frag_ok = True, new_prog = n + 2, link_ok = True\<rparr>"

definition a_gl :: gl_env where
  "a_gl = \<lparr>rgbx_link = a_link 1, rounded_link = a_link 4, external_link = a_link 7,
     gl_locations = \<lparr>uniform = (\<lambda>_ _. 0), attrib = (\<lambda>_ _. 0)\<rparr>, new_buffers = (1, 2)\<rparr>"

text \<open>A driver that needs the config of wlroots, and one that has no context to give.\<close>

definition an_egl :: egl_env where
  "an_egl = \<lparr>egl_exts = Some ''EGL_KHR_image_base EGL_EXT_image_dma_buf_import'', get_proc = (\<lambda>_. 5), client_version = Some 3,
     context_priority = None, reset_strategy = None, config_id = Some 4, choose_config = (\<lambda>_. Some 6),
     create_context = (\<lambda>n. if n = 0 then 0 else n + 10), main_context = 9\<rparr>"

definition poor_egl :: egl_env where
  "poor_egl = an_egl\<lparr>create_context := (\<lambda>_. 0)\<rparr>"

lemma an_egl_init: "\<exists>s calls. fwr_renderer_init (\<lambda>_. 1) an_egl a_gl = Some (s, calls)"
  by (simp add: fwr_renderer_init_def an_egl_def a_gl_def Let_def split_beta resolve_gl_fns_def gl_names_def
      flutter_context_attribs_def put_tokens_def)

theorem flutter_contexts_witness:
  "\<exists>s calls. fwr_renderer_init (\<lambda>_. 1) an_egl a_gl = Some (s, calls) \<and> flutter_egl_context s = 11"
proof -
  obtain s calls where i: "fwr_renderer_init (\<lambda>_. 1) an_egl a_gl = Some (s, calls)" using an_egl_init by blast
  have "working_place an_egl = Some (1, 6)" by (simp add: context_defs an_egl_def)
  with flutter_contexts [OF i] i show ?thesis by (auto simp: an_egl_def)
qed

theorem renderer_ready_witness:
  "\<exists>s calls. fwr_renderer_init (\<lambda>_. 1) an_egl a_gl = Some (s, calls) \<and> pages_ok (page_state s) {}"
proof -
  obtain s calls where i: "fwr_renderer_init (\<lambda>_. 1) an_egl a_gl = Some (s, calls)" using an_egl_init by blast
  with renderer_ready [OF i] show ?thesis by blast
qed

theorem context_failure_ignored_witness:
  "\<exists>s calls. fwr_renderer_init (\<lambda>_. 1) poor_egl a_gl = Some (s, calls) \<and> flutter_egl_context s = 0"
proof -
  have "\<forall>n. create_context poor_egl n = 0" "egl_exts poor_egl \<noteq> None" by (simp_all add: poor_egl_def an_egl_def)
  from context_failure_ignored [OF this, of "\<lambda>_. 1" a_gl] show ?thesis by auto
qed

end
