(* ===== verification/Startup.thy ===== *)
theory Startup
  imports RendererInit Devices Cursor Surfaces TaskQueue
begin

text \<open>
  \<open>src/flutter_wlroots.c\<close>, \<open>fwr_instance_create\<close>: from the empty instance to the main loop, with what the
  components set up on the way (\<open>fwr_input_init\<close>, \<open>fwr_renderer_init\<close>, \<open>fwr_tasks_init\<close>, the plugins), the monitors and
  input devices that appear while the backend starts, and every early return. A step that the code does
  not check is taken to succeed, except where its failure is followed here.
\<close>

section \<open>Calls and results\<close>

datatype start_resource = Instance_memory | Wl_display | Wlr_backend | Egl_display | Gles2_renderer | Client_socket | Engine_handle

datatype listener =
    New_output | New_xdg_toplevel | New_xdg_popup | New_toplevel_decoration | New_server_decoration
  | Request_cursor | Request_set_selection | Request_set_primary_selection
  | Cursor_motion | Cursor_motion_absolute | Cursor_button | Cursor_axis | Cursor_frame
  | Cursor_touch_down | Cursor_touch_up | Cursor_touch_motion | Cursor_touch_frame | New_input

datatype start_call =
    Take start_resource
  | Drop start_resource
  | Listen listener
  | SetDefaultCursor "byte list"
  | StartBackend
  | OutputCall effect
  | DeviceCall device_call
  | RendererCall renderer_call
  | WatchTasks
  | RunEngine
  | EngineCall engine_call
  | RunLoop

datatype 'a start_result = Refused | Exited | Undefined | Ran 'a

text \<open>A part of the start gives its result and the calls it made.\<close>

type_synonym 'a start = "'a start_result \<times> start_call list"

fun and_then :: "'a start \<Rightarrow> ('a \<Rightarrow> 'b start) \<Rightarrow> 'b start" where
  "and_then (Ran a, cs) f = (fst (f a), cs @ snd (f a))"
| "and_then (Refused, cs) f = (Refused, cs)"
| "and_then (Exited, cs) f = (Exited, cs)"
| "and_then (Undefined, cs) f = (Undefined, cs)"

definition require :: "bool \<Rightarrow> start_call list \<Rightarrow> start_call list \<Rightarrow> unit start" where
  "require ok made cleanup = (if ok then (Ran (), made) else (Refused, cleanup))"

section \<open>Parts\<close>

text \<open>The instance as \<open>calloc\<close> leaves it; the maps and arrays are NULL.\<close>

definition calloc_instance :: fwr_instance where
  "calloc_instance = (initial_instance False)
     \<lparr>views := \<lparr>next_key = 0, entries = []\<rparr>, subsurfaces := \<lparr>next_key = 0, entries = []\<rparr>, popups := \<lparr>next_key = 0, entries = []\<rparr>,
      current_xcursor_name := None,
      plugin_registry := \<lparr>next_id = 0, plugins = \<lparr>slots = [], arr_len = 0, arr_cap = 0\<rparr>,
        plugin_channel_handlers = \<lparr>slots = [], arr_len = 0, arr_cap = 0\<rparr>\<rparr>\<rparr>"

text \<open>The touch fields it sets are used nowhere else.\<close>

definition fwr_input_init :: "fwr_instance \<times> devices \<Rightarrow> (fwr_instance \<times> devices) start" where
  "fwr_input_init s =
     (Ran ((fst s)\<lparr>input := (input (fst s))\<lparr>fl_mouse_button_mask := 0\<rparr>, current_xcursor_name := Some (ascii ''left_ptr''),
             client_cursor_surface := None, client_cursor_hotspot_x := 0, client_cursor_hotspot_y := 0\<rparr>,
           (snd s)\<lparr>keyboards := []\<rparr>),
      SetDefaultCursor (ascii ''left_ptr'') #
      map Listen [Request_cursor, Request_set_selection, Request_set_primary_selection, Cursor_motion, Cursor_motion_absolute,
        Cursor_button, Cursor_axis, Cursor_frame, Cursor_touch_down, Cursor_touch_up, Cursor_touch_motion, Cursor_touch_frame,
        New_input])"

text \<open>What the backend reports while it starts, each with what wlroots answers then.\<close>

datatype backend_event = OutputFound wlr_env wref | InputFound device_env device_type wref

fun backend_step :: "backend_event \<Rightarrow> fwr_instance \<times> devices \<Rightarrow> (fwr_instance \<times> devices) start" where
  "backend_step (OutputFound env w) s =
     (case fwr_server_new_output env w (fst s) of
        None \<Rightarrow> (Undefined, [])
      | Some (st, es) \<Rightarrow> (Ran (st, snd s), map OutputCall es))"
| "backend_step (InputFound env type device) s =
     (case on_server_new_input env type device (snd s) of
        Exit \<Rightarrow> (Exited, [])
      | Unknown \<Rightarrow> (Undefined, [])
      | Continue (ds, cs) \<Rightarrow> (Ran (fst s, ds), map DeviceCall cs))"

fun backend_run :: "backend_event list \<Rightarrow> fwr_instance \<times> devices \<Rightarrow> (fwr_instance \<times> devices) start" where
  "backend_run [] s = (Ran s, [])"
| "backend_run (e # es) s = and_then (backend_step e s) (backend_run es)"

definition fwr_tasks_init :: "int \<Rightarrow> int start" where
  "fwr_tasks_init tid = (Ran tid, [WatchTasks])"

text \<open>The registry and the two plugins.\<close>

definition register_plugins :: "fwr_instance \<Rightarrow> fwr_instance option" where
  "register_plugins st = Option.bind (text_input_register (st\<lparr>plugin_registry := fwr_plugin_registry_init\<rparr>)) fwr_cursor_init"

text \<open>The pointer that the engine is told of.\<close>

definition first_pointer :: pointer_event where
  "first_pointer = \<lparr>pv_phase = kAdd, pv_x = 0, pv_y = 0, pv_device = 0, pv_signal_kind = kSignalNone,
     pv_scroll_delta_x = 0, pv_scroll_delta_y = 0, pv_device_kind = kDeviceMouse, pv_buttons = 0\<rparr>"

section \<open>The whole start\<close>

text \<open>What the libraries answer; \<open>drm_fd\<close> is negative without a render node.\<close>

record start_env =
  proc_table_ok :: bool
  backend_made :: bool
  drm_fd :: int
  egl_made :: bool
  gles2_made :: bool
  socket_name :: "byte list option"
  backend_events :: "backend_event list"
  backend_starts :: bool
  gl_resolver :: "string \<Rightarrow> nat"
  start_egl :: egl_env
  start_gl :: gl_env
  start_tid :: int
  runs_aot :: bool
  aot_loads :: bool
  engine_runs :: bool
  layout_box :: wlr_box

record server =
  sv_instance :: fwr_instance
  sv_devices :: devices
  sv_renderer :: renderer_setup
  sv_text :: text_input_state
  platform_tid :: int

definition wlroots_start :: "start_env \<Rightarrow> (fwr_instance \<times> devices) start" where
  "wlroots_start env =
     and_then (require True [Take Instance_memory] []) (\<lambda>_.
     and_then (require (proc_table_ok env) [Take Wl_display] []) (\<lambda>_.
     and_then (if backend_made env then (Ran (), [Take Wlr_backend]) else (Undefined, [])) (\<lambda>_.
     and_then (require (drm_fd env \<ge> 0) [] []) (\<lambda>_.
     and_then (require (egl_made env) [Take Egl_display] []) (\<lambda>_.
     and_then (require (gles2_made env) [Take Gles2_renderer] [Drop Egl_display]) (\<lambda>_.
     and_then (Ran (), map Listen [New_output, New_xdg_toplevel, New_xdg_popup, New_toplevel_decoration, New_server_decoration]) (\<lambda>_.
     and_then (fwr_input_init (calloc_instance\<lparr>outputs := [], vsync_output := None, next_output_id := 0, vsync_rate_limit := 0\<rparr>, no_devices)) (\<lambda>s.
     and_then (case socket_name env of
         None \<Rightarrow> (Refused, [Drop Wlr_backend])
       | Some name \<Rightarrow> (Ran ((fst s)\<lparr>wl_socket := name\<rparr>, snd s), [Take Client_socket])) (\<lambda>s.
     and_then (and_then (Ran s, [StartBackend]) (backend_run (backend_events env))) (\<lambda>s.
     and_then (require (backend_starts env) [] [Drop Wlr_backend, Drop Wl_display]) (\<lambda>_.
     (Ran ((fst s)\<lparr>views := handle_map_new, subsurfaces := handle_map_new, popups := handle_map_new, views_list := []\<rparr>, snd s), []))))))))))))"

definition flutter_start :: "start_env \<Rightarrow> fwr_instance \<times> devices \<Rightarrow> server start" where
  "flutter_start env s =
     and_then (case fwr_renderer_init (gl_resolver env) (start_egl env) (start_gl env) of
         None \<Rightarrow> (Undefined, [])
       | Some (r, cs) \<Rightarrow> (Ran r, map RendererCall cs)) (\<lambda>r.
     and_then (fwr_tasks_init (start_tid env)) (\<lambda>tid.
     and_then (require (runs_aot env \<longrightarrow> aot_loads env) [] []) (\<lambda>_.
     and_then (case register_plugins (fst s) of
         None \<Rightarrow> (Undefined, [])
       | Some st \<Rightarrow> (Ran st, [])) (\<lambda>st.
     and_then (Ran (st\<lparr>engine := engine_runs env\<rparr>), RunEngine # (if engine_runs env then [Take Engine_handle] else [])) (\<lambda>st.
     (Ran \<lparr>sv_instance = st, sv_devices = snd s, sv_renderer = r, sv_text = fwr_text_input_init, platform_tid = tid\<rparr>,
      (if outputs st \<noteq> [] then [EngineCall (WindowMetrics (box_width (layout_box env)) (box_height (layout_box env)))] else [])
      @ [EngineCall (Pointer first_pointer), RunLoop, Drop Wl_display]))))))"

text \<open>\<open>Ran\<close> holds the state with which the main loop starts; the call returns true when the loop ends.\<close>

definition fwr_instance_create :: "start_env \<Rightarrow> server start" where
  "fwr_instance_create env = and_then (wlroots_start env) (flutter_start env)"

section \<open>While the backend starts\<close>

text \<open>
  What \<open>calloc\<close> and \<open>xkbcommon\<close> promise while devices are found: memory that is not in use, and contexts.
\<close>

fun found_allowed :: "backend_event \<Rightarrow> fwr_instance \<times> devices \<Rightarrow> bool" where
  "found_allowed (OutputFound env w) s \<longleftrightarrow> e_calloc env \<notin> set (outputs (fst s))"
| "found_allowed (InputFound env type device) s \<longleftrightarrow> event_allowed (NewInput env type device) (snd s)"

fun all_allowed :: "backend_event list \<Rightarrow> fwr_instance \<times> devices \<Rightarrow> bool" where
  "all_allowed [] s \<longleftrightarrow> True"
| "all_allowed (e # es) s \<longleftrightarrow> found_allowed e s \<and> (\<forall>s'. fst (backend_step e s) = Ran s' \<longrightarrow> all_allowed es s')"

text \<open>What holds between any two of these events.\<close>

definition starting :: "fwr_instance \<times> devices \<Rightarrow> bool" where
  "starting s \<longleftrightarrow> outputs_ok (fst s) \<and> devices_ok (snd s) \<and> view_store (fst s) = Map.empty
     \<and> subsurface_store (fst s) = Map.empty \<and> popup_store (fst s) = Map.empty"

fun found_call :: "start_call \<Rightarrow> bool" where
  "found_call (OutputCall e) = True"
| "found_call (DeviceCall c) = True"
| "found_call _ = False"

lemma new_output_stores:
  "fwr_server_new_output env w st = Some (st', es) \<Longrightarrow>
    view_store st' = view_store st \<and> subsurface_store st' = subsurface_store st \<and> popup_store st' = popup_store st"
  by (auto simp: fwr_server_new_output_def fwr_select_highest_refresh_output_def Let_def split: if_splits)

lemma backend_step_ok:
  assumes "starting s" "found_allowed e s"
  shows "\<exists>s'. fst (backend_step e s) = Ran s' \<and> starting s'"
proof (cases e)
  case (OutputFound env w)
  with assms obtain st' es where n: "fwr_server_new_output env w (fst s) = Some (st', es)" "outputs_ok st'"
    using new_output_ok [of "fst s" env w] by (auto simp: starting_def)
  with new_output_stores [OF n(1)] OutputFound assms(1) show ?thesis by (simp add: starting_def)
next
  case (InputFound env type device)
  with assms have "devices_ok (snd s)" "event_allowed (NewInput env type device) (snd s)" by (simp_all add: starting_def)
  from good_new_input [OF this] InputFound assms(1) show ?thesis by (auto simp: starting_def good_step_def)
qed

lemma backend_step_calls: "backend_step e s = (r, cs) \<Longrightarrow> x \<in> set cs \<Longrightarrow> found_call x"
  by (cases e) (auto split: option.splits run_result.splits)

lemma and_then_cases:
  "and_then m f = (case m of (Ran a, cs) \<Rightarrow> (fst (f a), cs @ snd (f a)) | (Refused, cs) \<Rightarrow> (Refused, cs)
     | (Exited, cs) \<Rightarrow> (Exited, cs) | (Undefined, cs) \<Rightarrow> (Undefined, cs))"
  by (cases m; cases "fst m") auto

lemma backend_run_calls: "x \<in> set (snd (backend_run es s)) \<Longrightarrow> found_call x"
  by (induction es arbitrary: s) (auto simp: and_then_cases split: prod.splits start_result.splits dest: backend_step_calls)

lemma backend_run_found: "backend_run es s = (r, cs) \<Longrightarrow> x \<in> set cs \<Longrightarrow> found_call x"
  using backend_run_calls [of x es s] by simp

lemma backend_step_not_refused: "fst (backend_step e s) \<noteq> Refused"
  by (cases e) (auto split: option.splits run_result.splits)

lemma backend_run_not_refused: "fst (backend_run es s) \<noteq> Refused"
proof (induction es arbitrary: s)
  case (Cons e es)
  then show ?case using backend_step_not_refused [of e s]
    by (auto simp: and_then_cases split: prod.splits start_result.splits)
qed simp

lemma backend_run_ok:
  "starting s \<Longrightarrow> all_allowed es s \<Longrightarrow> \<exists>s'. fst (backend_run es s) = Ran s' \<and> starting s'"
proof (induction es arbitrary: s)
  case (Cons e es)
  then obtain s1 where 1: "fst (backend_step e s) = Ran s1" "starting s1"
    using backend_step_ok [of s e] by auto
  with Cons.prems have "all_allowed es s1" by simp
  from Cons.IH [OF 1(2) this] 1(1) show ?case by (cases "backend_step e s") simp
qed simp

section \<open>What a start leaves\<close>

text \<open>The state in which the backend starts.\<close>

definition before_backend :: "byte list \<Rightarrow> fwr_instance \<times> devices" where
  "before_backend name =
     (calloc_instance\<lparr>outputs := [], vsync_output := None, next_output_id := 0, vsync_rate_limit := 0,
        input := (input calloc_instance)\<lparr>fl_mouse_button_mask := 0\<rparr>, current_xcursor_name := Some (ascii ''left_ptr''),
        client_cursor_surface := None, client_cursor_hotspot_x := 0, client_cursor_hotspot_y := 0, wl_socket := name\<rparr>,
      no_devices)"

lemma before_backend_starting: "starting (before_backend name)"
  by (simp add: starting_def before_backend_def outputs_ok_def calloc_instance_def initial_instance_def)

definition listeners :: "listener list" where
  "listeners = [New_output, New_xdg_toplevel, New_xdg_popup, New_toplevel_decoration, New_server_decoration,
     Request_cursor, Request_set_selection, Request_set_primary_selection, Cursor_motion, Cursor_motion_absolute,
     Cursor_button, Cursor_axis, Cursor_frame, Cursor_touch_down, Cursor_touch_up, Cursor_touch_motion, Cursor_touch_frame,
     New_input]"

text \<open>The first part, which can be refused at five places.\<close>

lemma wlroots_start_cases:
  "wlroots_start env =
     (if \<not> proc_table_ok env then (Refused, [Take Instance_memory])
      else if \<not> backend_made env then (Undefined, [Take Instance_memory, Take Wl_display])
      else if drm_fd env < 0 then (Refused, [Take Instance_memory, Take Wl_display, Take Wlr_backend])
      else if \<not> egl_made env then (Refused, [Take Instance_memory, Take Wl_display, Take Wlr_backend])
      else if \<not> gles2_made env then
        (Refused, [Take Instance_memory, Take Wl_display, Take Wlr_backend, Take Egl_display, Drop Egl_display])
      else
        let pre = [Take Instance_memory, Take Wl_display, Take Wlr_backend, Take Egl_display, Take Gles2_renderer]
                  @ map Listen (take 5 listeners) @ [SetDefaultCursor (ascii ''left_ptr'')] @ map Listen (drop 5 listeners)
        in (case socket_name env of
              None \<Rightarrow> (Refused, pre @ [Drop Wlr_backend])
            | Some name \<Rightarrow>
                (case backend_run (backend_events env) (before_backend name) of
                   (Ran s, cs) \<Rightarrow>
                     if backend_starts env
                     then (Ran ((fst s)\<lparr>views := handle_map_new, subsurfaces := handle_map_new, popups := handle_map_new, views_list := []\<rparr>, snd s),
                           pre @ [Take Client_socket, StartBackend] @ cs)
                     else (Refused, pre @ [Take Client_socket, StartBackend] @ cs @ [Drop Wlr_backend, Drop Wl_display])
                 | (Refused, cs) \<Rightarrow> (Refused, pre @ [Take Client_socket, StartBackend] @ cs)
                 | (Exited, cs) \<Rightarrow> (Exited, pre @ [Take Client_socket, StartBackend] @ cs)
                 | (Undefined, cs) \<Rightarrow> (Undefined, pre @ [Take Client_socket, StartBackend] @ cs))))"
  by (simp add: wlroots_start_def require_def fwr_input_init_def before_backend_def no_devices_def listeners_def
      and_then_cases Let_def split: option.split prod.split start_result.split)

lemma starting_surfaces:
  assumes "starting s"
  shows "surfaces_ok ((fst s)\<lparr>views := handle_map_new, subsurfaces := handle_map_new, popups := handle_map_new, views_list := []\<rparr>)"
  using assms by (simp add: starting_def surfaces_ok_def tracks_new)

text \<open>The handlers of the two plugins, in the order of their registration.\<close>

definition start_handlers :: "(byte list \<times> handler_fn) list" where
  "start_handlers = [(ascii ''flutter/textinput'', text_input_handler), (ascii ''flutter/mousecursor'', cursor_handler)]"

lemma register_plugins_ok:
  "\<exists>r. register_plugins st = Some (st\<lparr>plugin_registry := r\<rparr>) \<and> registry_ok r
    \<and> map (\<lambda>h. (handler_name h, handle_message h)) (registry_handlers r) = start_handlers"
proof -
  let ?cs = "[HandlerRegister (ascii ''flutter/textinput'') () text_input_handler,
      HandlerRegister (ascii ''flutter/mousecursor'') () cursor_handler] :: (unit, unit, handler_fn) registry_call list"
  have "next_id (fwr_plugin_registry_init :: (unit, unit, handler_fn) fwr_plugin_registry) + int (length ?cs) < 2 ^ 31"
    by (simp add: fwr_plugin_registry_init_def)
  from registry_run_ok [OF registry_init_ok(1) this] obtain r where
    r: "registry_run ?cs fwr_plugin_registry_init = Some r" "registry_ok r"
    "map (\<lambda>h. (handler_name h, handler_data h, handle_message h)) (registry_handlers r) = registered ?cs"
    by auto
  have "map (\<lambda>h. (handler_name h, handle_message h)) (registry_handlers r)
      = map (\<lambda>(n, d, h). (n, h)) (map (\<lambda>h. (handler_name h, handler_data h, handle_message h)) (registry_handlers r))"
    by simp
  also have "\<dots> = start_handlers" unfolding r(3) by (simp add: start_handlers_def ascii_def)
  finally have "map (\<lambda>h. (handler_name h, handle_message h)) (registry_handlers r) = start_handlers" .
  moreover have "register_plugins st = Some (st\<lparr>plugin_registry := r\<rparr>)"
    using r(1) by (auto simp: register_plugins_def text_input_register_def fwr_cursor_init_def split: bind_splits)
  ultimately show ?thesis using r(2) by blast
qed

text \<open>The second part, which can be refused at one place.\<close>

lemma flutter_start_cases:
  obtains (undefined) "fwr_renderer_init (gl_resolver env) (start_egl env) (start_gl env) = None"
      "flutter_start env s = (Undefined, [])"
    | (refused) r cs where "fwr_renderer_init (gl_resolver env) (start_egl env) (start_gl env) = Some (r, cs)"
      "runs_aot env" "\<not> aot_loads env" "flutter_start env s = (Refused, map RendererCall cs @ [WatchTasks])"
    | (ran) r cs reg where "fwr_renderer_init (gl_resolver env) (start_egl env) (start_gl env) = Some (r, cs)"
      "runs_aot env \<longrightarrow> aot_loads env" "registry_ok reg"
      "map (\<lambda>h. (handler_name h, handle_message h)) (registry_handlers reg) = start_handlers"
      "flutter_start env s =
         (Ran \<lparr>sv_instance = (fst s)\<lparr>plugin_registry := reg, engine := engine_runs env\<rparr>, sv_devices = snd s, sv_renderer = r,
            sv_text = fwr_text_input_init, platform_tid = start_tid env\<rparr>,
          map RendererCall cs @ WatchTasks # RunEngine # (if engine_runs env then [Take Engine_handle] else [])
          @ (if outputs (fst s) \<noteq> [] then [EngineCall (WindowMetrics (box_width (layout_box env)) (box_height (layout_box env)))] else [])
          @ [EngineCall (Pointer first_pointer), RunLoop, Drop Wl_display])"
proof (cases "fwr_renderer_init (gl_resolver env) (start_egl env) (start_gl env)")
  case None
  then show ?thesis by (intro undefined) (simp_all add: flutter_start_def)
next
  case (Some rc)
  obtain r cs where rc: "rc = (r, cs)" by fastforce
  from register_plugins_ok [of "fst s"] obtain reg where reg: "registry_ok reg"
    "map (\<lambda>h. (handler_name h, handle_message h)) (registry_handlers reg) = start_handlers"
    "register_plugins (fst s) = Some ((fst s)\<lparr>plugin_registry := reg\<rparr>)"
    by blast
  show ?thesis
  proof (cases "runs_aot env \<longrightarrow> aot_loads env")
    case True
    then show ?thesis
      by (intro ran [OF Some [unfolded rc] _ reg(1,2)]) (simp_all add: flutter_start_def Some rc fwr_tasks_init_def require_def reg(3))
  next
    case False
    then show ?thesis
      by (intro refused [OF Some [unfolded rc]]) (simp_all add: flutter_start_def Some rc fwr_tasks_init_def require_def)
  qed
qed

lemma create_cases:
  "fwr_instance_create env =
     (case wlroots_start env of (Ran s, cs) \<Rightarrow> (fst (flutter_start env s), cs @ snd (flutter_start env s))
      | (Refused, cs) \<Rightarrow> (Refused, cs) | (Exited, cs) \<Rightarrow> (Exited, cs) | (Undefined, cs) \<Rightarrow> (Undefined, cs))"
  by (simp add: fwr_instance_create_def and_then_cases)

lemma wlroots_start_ran:
  assumes "wlroots_start env = (Ran s, cs)" and "all_allowed (backend_events env) (before_backend (the (socket_name env)))"
  shows "surfaces_ok (fst s) \<and> outputs_ok (fst s) \<and> devices_ok (snd s)"
proof -
  from assms(1) obtain name s1 cs1 where n: "socket_name env = Some name"
    and r: "backend_run (backend_events env) (before_backend name) = (Ran s1, cs1)"
    and s: "s = ((fst s1)\<lparr>views := handle_map_new, subsurfaces := handle_map_new, popups := handle_map_new, views_list := []\<rparr>, snd s1)"
    by (auto simp: wlroots_start_cases Let_def split: if_splits option.splits prod.splits start_result.splits)
  from backend_run_ok [OF before_backend_starting] assms(2) n r have "starting s1" by fastforce
  with starting_surfaces [OF this] s show ?thesis by (simp add: starting_def outputs_ok_def)
qed

text \<open>
  C12: When the main loop starts, whatever monitors and devices appeared on the way, every component is in
  its invariant: the maps of windows, subsurfaces and popups agree with the objects there are, the vsync
  output is a monitor that is there, the keyboards are listed once, the pages are empty and consistent,
  and exactly the text input and cursor plugins listen, in this order.
\<close>
theorem start_establishes_invariants:
  assumes "all_allowed (backend_events env) (before_backend (the (socket_name env)))"
    and "fst (fwr_instance_create env) = Ran sv"
  shows "surfaces_ok (sv_instance sv) \<and> outputs_ok (sv_instance sv) \<and> devices_ok (sv_devices sv)
    \<and> pages_ok (page_state (sv_renderer sv)) {}
    \<and> registry_ok (plugin_registry (sv_instance sv))
    \<and> map (\<lambda>h. (handler_name h, handle_message h)) (registry_handlers (plugin_registry (sv_instance sv))) = start_handlers
    \<and> sv_text sv = fwr_text_input_init"
proof -
  from assms(2) obtain s cs where w: "wlroots_start env = (Ran s, cs)" and f: "fst (flutter_start env s) = Ran sv"
    by (auto simp: create_cases split: prod.splits start_result.splits)
  from wlroots_start_ran [OF w assms(1)] have ok: "surfaces_ok (fst s)" "outputs_ok (fst s)" "devices_ok (snd s)" by auto
  show ?thesis
  proof (cases rule: flutter_start_cases [of env s])
    case (ran r cs reg)
    from renderer_init_parts [OF ran(1)] have "page_state r = fresh_renderer" by metis
    with ok f ran(3-5) show ?thesis by (auto simp: surfaces_ok_def outputs_ok_def fresh_renderer_ok)
  qed (use f in auto)
qed

section \<open>Order and failure\<close>

fun late_call :: "start_call \<Rightarrow> bool" where
  "late_call (RendererCall c) = True"
| "late_call WatchTasks = True"
| "late_call RunEngine = True"
| "late_call (Take r) \<longleftrightarrow> r = Engine_handle"
| "late_call (EngineCall c) = True"
| "late_call RunLoop = True"
| "late_call (Drop r) \<longleftrightarrow> r = Wl_display"
| "late_call _ = False"

lemma flutter_start_calls: "x \<in> set (snd (flutter_start env s)) \<Longrightarrow> late_call x"
  by (cases rule: flutter_start_cases [of env s]) (auto split: if_splits)

lemma flutter_start_refused:
  "fst (flutter_start env s) = Refused \<Longrightarrow> x \<in> set (snd (flutter_start env s)) \<Longrightarrow> late_call x \<and> (\<forall>r. x \<noteq> Drop r)"
  by (cases rule: flutter_start_cases [of env s]) (auto split: if_splits)

definition start_prefix :: "start_call list" where
  "start_prefix = [Take Instance_memory, Take Wl_display, Take Wlr_backend, Take Egl_display, Take Gles2_renderer]
     @ map Listen (take 5 listeners) @ [SetDefaultCursor (ascii ''left_ptr'')] @ map Listen (drop 5 listeners)"

text \<open>The calls of a start that came as far as the backend.\<close>

lemma create_calls:
  "StartBackend \<notin> set (snd (fwr_instance_create env))
   \<or> (\<exists>found later. snd (fwr_instance_create env) = start_prefix @ [Take Client_socket, StartBackend] @ found @ later
      \<and> (\<forall>x \<in> set found. found_call x)
      \<and> (later = [] \<or> later = [Drop Wlr_backend, Drop Wl_display] \<or> (\<forall>x \<in> set later. late_call x)))"
proof (cases "\<exists>name. socket_name env = Some name \<and> StartBackend \<in> set (snd (wlroots_start env))")
  case False
  have "StartBackend \<notin> set (snd (flutter_start env s))" for s using flutter_start_calls [of StartBackend env s] by auto
  moreover have "StartBackend \<notin> set (snd (wlroots_start env))"
    using False by (cases "socket_name env") (auto simp: wlroots_start_cases Let_def)
  ultimately show ?thesis by (auto simp: create_cases split: prod.splits start_result.splits)
next
  case True
  then obtain name where n: "socket_name env = Some name" by blast
  obtain r found where b: "backend_run (backend_events env) (before_backend name) = (r, found)" by fastforce
  have f: "\<forall>x \<in> set found. found_call x" using backend_run_calls [of _ "backend_events env" "before_backend name"] b by auto
  have w: "snd (wlroots_start env) = start_prefix @ [Take Client_socket, StartBackend] @ found
        \<or> fst (wlroots_start env) = Refused
          \<and> snd (wlroots_start env) = start_prefix @ [Take Client_socket, StartBackend] @ found @ [Drop Wlr_backend, Drop Wl_display]"
    using True n b by (auto simp: wlroots_start_cases Let_def start_prefix_def split: if_splits start_result.splits)
  show ?thesis
  proof (cases "fst (wlroots_start env)")
    case (Ran s)
    with w have c: "snd (fwr_instance_create env) = start_prefix @ [Take Client_socket, StartBackend] @ found @ snd (flutter_start env s)"
      by (cases "wlroots_start env") (auto simp: create_cases)
    show ?thesis using f flutter_start_calls [of _ env s] by (intro disjI2 exI [of _ found] exI [of _ "snd (flutter_start env s)"]) (auto simp: c)
  next
    case Refused
    then have c: "snd (fwr_instance_create env) = snd (wlroots_start env)" by (cases "wlroots_start env") (auto simp: create_cases)
    from w show ?thesis
    proof
      assume "snd (wlroots_start env) = start_prefix @ [Take Client_socket, StartBackend] @ found"
      then show ?thesis using f by (intro disjI2 exI [of _ found] exI [of _ "[]"]) (auto simp: c)
    next
      assume "fst (wlroots_start env) = Refused
          \<and> snd (wlroots_start env) = start_prefix @ [Take Client_socket, StartBackend] @ found @ [Drop Wlr_backend, Drop Wl_display]"
      then show ?thesis using f by (intro disjI2 exI [of _ found] exI [of _ "[Drop Wlr_backend, Drop Wl_display]"]) (auto simp: c)
    qed
  next
    case Exited
    then have c: "snd (fwr_instance_create env) = snd (wlroots_start env)" by (cases "wlroots_start env") (auto simp: create_cases)
    with w Exited show ?thesis using f by (intro disjI2 exI [of _ found] exI [of _ "[]"]) auto
  next
    case Undefined
    then have c: "snd (fwr_instance_create env) = snd (wlroots_start env)" by (cases "wlroots_start env") (auto simp: create_cases)
    with w Undefined show ?thesis using f by (intro disjI2 exI [of _ found] exI [of _ "[]"]) auto
  qed
qed

text \<open>
  C27: No event can come before its listener: in every start that gets as far as starting the backend,
  all 18 listeners have been registered by then, each once, nothing has been reported before, and none
  is registered later, whatever the backend reports and however the start ends.
\<close>
theorem listeners_before_events:
  assumes "StartBackend \<in> set (snd (fwr_instance_create env))"
  shows "\<exists>pre post. snd (fwr_instance_create env) = pre @ StartBackend # post \<and> StartBackend \<notin> set pre
    \<and> List.map_filter (\<lambda>c. case c of Listen l \<Rightarrow> Some l | _ \<Rightarrow> None) pre = listeners \<and> distinct listeners
    \<and> (\<forall>x \<in> set pre. \<not> found_call x) \<and> (\<forall>l. Listen l \<notin> set post)"
proof -
  from assms create_calls [of env] obtain found later where
    c: "snd (fwr_instance_create env) = start_prefix @ [Take Client_socket, StartBackend] @ found @ later"
    and f: "\<forall>x \<in> set found. found_call x"
    and l: "later = [] \<or> later = [Drop Wlr_backend, Drop Wl_display] \<or> (\<forall>x \<in> set later. late_call x)" by blast
  have "Listen x \<notin> set (found @ later)" for x using f l by fastforce
  then show ?thesis
    by (intro exI [of _ "start_prefix @ [Take Client_socket]"] exI [of _ "found @ later"])
      (simp add: c, auto simp: start_prefix_def listeners_def List.map_filter_def)
qed

text \<open>
  A refused start leaves almost everything behind. The memory of the instance is never freed and the
  renderer never destroyed; the display is destroyed only when the backend does not start, and the backend
  only then or when there is no socket. A missing AOT library leaves a running backend.
\<close>
theorem refused_start_leaks:
  assumes "fst (fwr_instance_create env) = Refused"
  shows "let cs = set (snd (fwr_instance_create env)) in
    Take Instance_memory \<in> cs \<and> Drop Instance_memory \<notin> cs \<and> Drop Gles2_renderer \<notin> cs
    \<and> (Drop Wl_display \<in> cs \<longleftrightarrow> StartBackend \<in> cs \<and> \<not> backend_starts env)
    \<and> (Drop Wlr_backend \<in> cs \<longleftrightarrow> Listen New_input \<in> cs \<and> \<not> (StartBackend \<in> cs \<and> backend_starts env))"
proof -
  have l: "Listen New_input \<in> Listen ` set (take 5 listeners) \<union> Listen ` set (drop 5 listeners)"
    "StartBackend \<notin> Listen ` A" "Drop r \<notin> Listen ` A" "Listen New_input \<in> set start_prefix" "Take Instance_memory \<in> set start_prefix"
    "Drop Wl_display \<notin> set start_prefix" "Drop Wlr_backend \<notin> set start_prefix" "Drop Instance_memory \<notin> set start_prefix"
    "Drop Gles2_renderer \<notin> set start_prefix" "StartBackend \<notin> set start_prefix" for A r
    by (auto simp: listeners_def start_prefix_def)
  have pre: "[Take Instance_memory, Take Wl_display, Take Wlr_backend, Take Egl_display, Take Gles2_renderer]
     @ map Listen (take 5 listeners) @ [SetDefaultCursor (ascii ''left_ptr'')] @ map Listen (drop 5 listeners) = start_prefix"
    by (simp add: start_prefix_def)
  have b: "\<exists>r found. backend_run (backend_events env) (before_backend name) = (r, found) \<and> r \<noteq> Refused
      \<and> (\<forall>x. \<not> found_call x \<longrightarrow> x \<notin> set found)" for name
    using backend_run_not_refused [of "backend_events env" "before_backend name"]
      backend_run_calls [of _ "backend_events env" "before_backend name"]
    by (cases "backend_run (backend_events env) (before_backend name)") auto
  show ?thesis
  proof (cases "fst (wlroots_start env)")
    case Refused
    then have c: "snd (fwr_instance_create env) = snd (wlroots_start env)" by (cases "wlroots_start env") (auto simp: create_cases)
    show ?thesis
    proof (cases "socket_name env")
      case None
      with Refused l show ?thesis unfolding c Let_def wlroots_start_cases pre by (simp split: if_splits)
    next
      case (Some name)
      obtain r found where r: "backend_run (backend_events env) (before_backend name) = (r, found)" "r \<noteq> Refused"
        "\<And>x. \<not> found_call x \<Longrightarrow> x \<notin> set found"
        using b [of name] by blast
      with Refused Some l show ?thesis unfolding c Let_def wlroots_start_cases pre by (cases r) (simp_all split: if_splits)
    qed
  next
    case (Ran s)
    then obtain name s1 found where n: "socket_name env = Some name" "backend_starts env"
      "backend_run (backend_events env) (before_backend name) = (Ran s1, found)"
      "snd (wlroots_start env) = start_prefix @ [Take Client_socket, StartBackend] @ found"
      unfolding wlroots_start_cases Let_def pre by (auto split: if_splits option.splits prod.splits start_result.splits)
    have r: "fst (flutter_start env s) = Refused" and c: "snd (fwr_instance_create env) = snd (wlroots_start env) @ snd (flutter_start env s)"
      using Ran assms by (cases "wlroots_start env"; auto simp: create_cases)+
    have f: "x \<notin> set found" if "\<not> found_call x" for x
      using backend_run_calls [of x "backend_events env" "before_backend name"] n(3) that by auto
    have d: "Drop x \<notin> set (snd (flutter_start env s))" for x using flutter_start_refused [OF r] by blast
    show ?thesis unfolding c n(4) Let_def using l n(2) d f by simp
  qed (use assms in \<open>cases "wlroots_start env"; auto simp: create_cases\<close>)+
qed

text \<open>
  An engine that does not run goes unnoticed: the start goes on with no engine, reports a pointer to it
  and enters the main loop as if all were well.
\<close>
theorem engine_failure_ignored:
  assumes "\<not> engine_runs env" and "fst (fwr_instance_create env) = Ran sv"
  shows "\<not> engine (sv_instance sv) \<and> Take Engine_handle \<notin> set (snd (fwr_instance_create env))
    \<and> EngineCall (Pointer first_pointer) \<in> set (snd (fwr_instance_create env)) \<and> RunLoop \<in> set (snd (fwr_instance_create env))"
proof -
  from assms(2) obtain s cs where w: "wlroots_start env = (Ran s, cs)" and f: "fst (flutter_start env s) = Ran sv"
    by (auto simp: create_cases split: prod.splits start_result.splits)
  have "Take Engine_handle \<notin> set cs"
    using w by (auto simp: wlroots_start_cases Let_def split: if_splits option.splits prod.splits start_result.splits
        dest: backend_run_found)
  with assms(1) f w show ?thesis
    by (cases rule: flutter_start_cases [of env s]) (auto simp: create_cases split: if_splits)
qed

section \<open>Examples\<close>

text \<open>A machine with one monitor and one keyboard.\<close>

definition a_machine :: start_env where
  "a_machine = \<lparr>proc_table_ok = True, backend_made = True, drm_fd = 3, egl_made = True, gles2_made = True,
     socket_name = Some (ascii ''wayland-0''), backend_events = [OutputFound test_env 3, InputFound (a_device_env 20) WLR_INPUT_DEVICE_KEYBOARD 1],
     backend_starts = True, gl_resolver = (\<lambda>_. 1), start_egl = an_egl, start_gl = a_gl, start_tid = 1,
     runs_aot = False, aot_loads = False, engine_runs = False, layout_box = \<lparr>box_x = 0, box_y = 0, box_width = 800, box_height = 600\<rparr>\<rparr>"

lemma a_machine_allowed: "all_allowed (backend_events a_machine) (before_backend (ascii ''wayland-0''))"
  by (auto simp: a_machine_def before_backend_def no_devices_def a_device_env_def split: option.splits)

lemma a_machine_runs: "\<exists>sv. fst (fwr_instance_create a_machine) = Ran sv" "StartBackend \<in> set (snd (fwr_instance_create a_machine))"
proof -
  obtain s cs where b: "backend_run (backend_events a_machine) (before_backend (ascii ''wayland-0'')) = (Ran s, cs)"
    using backend_run_ok [OF before_backend_starting a_machine_allowed] by (metis prod.collapse)
  have "socket_name a_machine = Some (ascii ''wayland-0'')" "proc_table_ok a_machine" "backend_made a_machine" "\<not> drm_fd a_machine < 0"
    "egl_made a_machine" "gles2_made a_machine" "backend_starts a_machine" by (simp_all add: a_machine_def)
  with b obtain s1 where w: "fst (wlroots_start a_machine) = Ran s1" "StartBackend \<in> set (snd (wlroots_start a_machine))"
    by (simp add: wlroots_start_cases Let_def)
  obtain r rs where i: "fwr_renderer_init (\<lambda>_. 1) an_egl a_gl = Some (r, rs)" using an_egl_init by blast
  have "\<exists>sv. fst (flutter_start a_machine s1) = Ran sv"
    by (cases rule: flutter_start_cases [of a_machine s1]) (use i in \<open>auto simp: a_machine_def\<close>)
  with w show "\<exists>sv. fst (fwr_instance_create a_machine) = Ran sv" "StartBackend \<in> set (snd (fwr_instance_create a_machine))"
    by (cases "wlroots_start a_machine"; auto simp: create_cases)+
qed

theorem start_establishes_invariants_witness:
  "\<exists>sv. fst (fwr_instance_create a_machine) = Ran sv \<and> surfaces_ok (sv_instance sv) \<and> devices_ok (sv_devices sv)"
proof -
  obtain sv where "fst (fwr_instance_create a_machine) = Ran sv" using a_machine_runs(1) by blast
  moreover have "all_allowed (backend_events a_machine) (before_backend (the (socket_name a_machine)))"
    using a_machine_allowed by (simp add: a_machine_def)
  ultimately show ?thesis using start_establishes_invariants [of a_machine sv] by blast
qed

theorem listeners_before_events_witness:
  "\<exists>pre post. snd (fwr_instance_create a_machine) = pre @ StartBackend # post
    \<and> List.map_filter (\<lambda>c. case c of Listen l \<Rightarrow> Some l | _ \<Rightarrow> None) pre = listeners"
  using listeners_before_events [OF a_machine_runs(2)] by blast

theorem refused_start_leaks_witness:
  "Drop Instance_memory \<notin> set (snd (fwr_instance_create (a_machine\<lparr>drm_fd := -1\<rparr>)))
    \<and> Drop Wl_display \<notin> set (snd (fwr_instance_create (a_machine\<lparr>drm_fd := -1\<rparr>)))"
proof -
  have w: "wlroots_start (a_machine\<lparr>drm_fd := -1\<rparr>) = (Refused, [Take Instance_memory, Take Wl_display, Take Wlr_backend])"
    by (simp add: wlroots_start_cases a_machine_def)
  then have "fst (fwr_instance_create (a_machine\<lparr>drm_fd := -1\<rparr>)) = Refused" by (simp add: create_cases)
  from refused_start_leaks [OF this] show ?thesis by (simp add: Let_def create_cases w)
qed

theorem engine_failure_ignored_witness:
  "\<exists>sv. fst (fwr_instance_create a_machine) = Ran sv \<and> \<not> engine (sv_instance sv) \<and> RunLoop \<in> set (snd (fwr_instance_create a_machine))"
proof -
  obtain sv where r: "fst (fwr_instance_create a_machine) = Ran sv" using a_machine_runs(1) by blast
  have "\<not> engine_runs a_machine" by (simp add: a_machine_def)
  from engine_failure_ignored [OF this r] r show ?thesis by blast
qed

end
