(* ===== verification/Spec2Isabelle.thy ===== *)
theory Spec2Isabelle
  imports HandleMap Messages TaskQueue TextInput Outputs Buttons Views Popups InputEvents DartInput Cursor Dispatch Surfaces Answers Pages TextureCache Compositing Frames Replies Jsmn Decorations Devices RendererInit Startup
begin

text \<open>
  \<^bold>\<open>flutter_wlroots: a Wayland compositor whose shell is a Flutter application\<close>

  wlroots tells the program about monitors, input devices and the surfaces of clients; the program
  keeps a record of each, reports them to Dart as method calls on the channel \<open>wlroots\<close>, gives
  their pictures to Flutter as external textures, and carries out what Dart asks for in platform
  messages. Everything hangs on one \<open>struct fwr_instance\<close>.

  \<^bold>\<open>Theories and sources\<close>

  \<^item> \<open>Prelude\<close>: machine integers, scalars in memory, generic lemmas. \<open>Doubles\<close>: IEEE 754 double
    arithmetic on the bit patterns, and the conversions the program uses.
  \<^item> \<open>HandleMap\<close> (\<open>handle_map.cc\<close>): the 32-bit handles that Dart uses for objects.
  \<^item> \<open>MessageBuilder\<close>, \<open>MessageReader\<close> (\<open>standard_message_codec.c\<close>): writer and reader of the
    standard codec for the channel \<open>wlroots\<close>. \<open>Messages\<close> (\<open>messages.c\<close>): the decoders of its
    arguments.
  \<^item> \<open>StdCodec\<close>, \<open>StdValues\<close>, \<open>JsonCodec\<close>, \<open>PlatformChannel\<close> (\<open>platform_channel.c\<close>): the codecs of
    the other channels, their values, and sending and answering. \<open>Jsmn\<close> (\<open>include/jsmn.h\<close>): the
    tokenizer in front of the JSON decoder. \<open>Replies\<close>: replies to requests, the
    remaining wrappers, and the memory of decoded values. \<open>PluginRegistry\<close> (\<open>plugin_registry.c\<close>): who
    handles which channel.
  \<^item> \<open>TaskQueue\<close> (\<open>task.c\<close>): tasks of the engine for the main thread.
  \<^item> \<open>Instance\<close> (\<open>instance.h\<close>, \<open>input.h\<close>): the state, what handlers read of wlroots (\<open>wlr_env\<close>) and
    the calls they make (\<open>effect\<close>).
  \<^item> \<open>Outputs\<close> (\<open>output.c\<close>): monitors and the vsync of the engine.
  \<^item> \<open>Views\<close>, \<open>Popups\<close> (\<open>surface.c\<close>): windows, subsurfaces, popups. \<open>Surfaces\<close>: all of their events
    together, with the invariant that handles lead to live objects. \<open>Answers\<close>: every message of Dart is answered.
  \<^item> \<open>Buttons\<close>, \<open>InputEvents\<close>, \<open>DartInput\<close> (\<open>input.c\<close>): pointers, keyboards, grabs, and input that
    Dart passes to a surface. \<open>Devices\<close> (\<open>input.c\<close>): keyboards, pointers and touch screens that come and
    go. \<open>Decorations\<close> (\<open>flutter_wlroots.c\<close>): who draws title bars. \<open>Cursor\<close> (\<open>cursor.c\<close>), \<open>TextInput\<close> (\<open>text_input.c\<close>): two channels.
  \<^item> \<open>Dispatch\<close> (\<open>flutter_wlroots.c\<close>): the callback for platform messages.
  \<^item> \<open>Pages\<close> (\<open>renderer.c\<close>): the textures Flutter draws into. \<open>TextureCache\<close> (\<open>renderer.c\<close>,
    \<open>flutter_wlroots.c\<close>): the textures in which Flutter sees surfaces.
  \<^item> \<open>Rounding\<close>: when the doubles of \<open>Doubles\<close> are exact, and how far off they are otherwise.
    \<open>Geometry\<close> (\<open>renderer.c\<close>): transformations, boxes and rounded regions. \<open>Compositing\<close> (\<open>renderer.c\<close>):
    the drawing of one scene on one monitor. \<open>Frames\<close> (\<open>output.c\<close>): a whole frame, with the cursor.
  \<^item> \<open>RendererInit\<close> (\<open>renderer.c\<close>, \<open>shaders.c\<close>): contexts, extensions and programs. \<open>Startup\<close>
    (\<open>flutter_wlroots.c\<close>, \<open>fwr_instance_create\<close>): from the empty instance to the main loop, which
    composes the initial states of the components.

  \<^bold>\<open>State and operations\<close>

  A struct is a record with the names of its fields (with a short prefix where they would clash), an
  enum a datatype. Objects of the program live in stores from addresses to records; freeing removes
  the address, and an operation that uses a freed object, reads outside an array or overflows a
  signed integer is \<open>None\<close>. A handler maps the state and what it reads to the new state and the list
  of its calls, in order. A message is its bytes, a byte nobody wrote being \<open>None\<close>. Doubles and
  64-bit sizes are words; an \<open>int\<close> is an \<open>int\<close> whose range is checked where the code computes.

  \<^bold>\<open>What is shown\<close>

  The codecs round-trip, announce the sizes they write, stay in their buffers and end on every
  input, within the sizes that the theorems name; a JSON message arrives through the tokenizer, whose
  tokens fit the array and the text, with its strings in escaped form and its numbers as they were
  printed. Handles are never given twice and never lead to freed objects, whatever clients, devices and
  Dart do and in whatever order. A platform message is answered once, and its handler returns but for the
  cases that \<open>answerable\<close> names. Tasks run once, in time order,
  and the timer wakes for the first. The vsync baton goes back at most once, from the fastest live
  monitor. Seat buttons follow the masks of Flutter; moving and resizing depend on the last pointer
  position only. Typing refines an abstract editor. Flutter never draws into a texture on the
  screen, and the caches of surface textures release exactly what they made. A monitor of
  the scale 1 shows every texture and every unscaled window of the scene once and in order, a window at
  the sum of its moves, and a monitor always asks for the
  next frame. Keyboards give back what they take except their compose tables; decorations find their
  windows as long as clients keep to the protocol. A start puts every component in its invariant
  with all listeners in place before the first event, and Flutter gets the first context that works.
  The remaining properties state where the code does something else than it means to: what leaks when
  values are freed or a start is refused, and which messages are mangled.

  \<^bold>\<open>Interfaces\<close>

  \<open>handle_store\<close> is the contract of the handle map that its clients rely on, interpreted as \<open>hs\<close>;
  \<open>button_store\<close> that of the table of button masks, interpreted as \<open>bs\<close>.

  \<^bold>\<open>Fuel and bounds\<close>

  \<open>message_read\<close> starts with one more than the bytes left, because every nested value takes a byte;
  the decoders of the other codecs are bounded the same way and proved to end. The search for the
  next window visits at most two rounds of the list of windows. Handles do not wrap before \<open>2 ^ 32\<close>
  objects of a kind (\<open>rooms\<close>).

  \<^bold>\<open>What is assumed\<close>

  Allocation succeeds unless a model has a field for it; the loop counters of \<open>message_read\<close>, which are
  \<open>int\<close>, do not overflow (messages are smaller than 2 GiB); calls to wlroots return, so no size is negative
  that Dart asks for; \<open>xkbcommon\<close> finds a keymap and a compose table (\<open>events_allowed\<close>); locks make each locked section one step;
  \<open>scene_output_layout\<close> is there; logging and the saving of OpenGL state are not followed, and
  listeners only where they are registered at start-up or can outlive their object.

  \<^bold>\<open>Not modelled\<close>

  The text of the shaders, the protocols that wlroots offers by itself, the file with the name of
  the socket, and the threads of the engine. \<open>gl_intercept_*.h\<close> and \<open>xdg-shell-protocol.h\<close> are
  generated; \<open>subprojects/\<close> is a copy of a library that the program never calls.
\<close>

end
